(* ===== verification/Prelude.thy ===== *)
theory Prelude
  imports Main "HOL-Library.Word"
begin

text \<open>
  What every component of the development shares: the outcomes of a C function that can
  fail, the machine types of the code under their C names, and the generic lemmas about
  lists and circular buffers the component proofs rest on.
\<close>

section \<open>Outcomes\<close>

text \<open>
  A function of the engine ends in one of four ways. It returns a value (\<open>Inr\<close>); it
  raises through \<open>ereport(ERROR, errmsg(...))\<close> or \<open>ereport(FATAL, ...)\<close>, which unwinds
  to the nearest \<open>PG_TRY\<close> (\<open>PgError\<close> with the message's fixed text); an \<open>Assert\<close> of
  the source fails (\<open>Trap\<close>: a build with assertions aborts there); or it does what C
  leaves undefined, such as an access outside an array (\<open>Undefined\<close>).
\<close>

datatype failure = PgError string | Trap string | Undefined string

type_synonym 'a res = "failure + 'a"

definition res_bind :: "'a res \<Rightarrow> ('a \<Rightarrow> 'b res) \<Rightarrow> 'b res" where
  "res_bind r f = (case r of Inl e \<Rightarrow> Inl e | Inr x \<Rightarrow> f x)"

lemma res_bind_simps [simp]:
  "res_bind (Inl e) f = Inl e"
  "res_bind (Inr x) f = f x"
  by (simp_all add: res_bind_def)

lemma res_bind_eq_Inr:
  "res_bind r f = Inr y \<longleftrightarrow> (\<exists>x. r = Inr x \<and> f x = Inr y)"
  by (cases r) auto

lemma res_bind_eq_Inl:
  "res_bind r f = Inl e \<longleftrightarrow> r = Inl e \<or> (\<exists>x. r = Inr x \<and> f x = Inl e)"
  by (cases r) auto

lemma res_bind_cong [fundef_cong]:
  "r = r' \<Longrightarrow> (\<And>x. r' = Inr x \<Longrightarrow> f x = g x) \<Longrightarrow> res_bind r f = res_bind r' g"
  by (cases r') auto

text \<open>
  What a function outside the sources answers: a value, or the message of the error it raised. It
  neither fails an assertion of the sources nor does anything undefined.
\<close>

type_synonym 'a answer = "string + 'a"

definition raised :: "'a answer \<Rightarrow> 'a res" where
  "raised a = (case a of Inl msg \<Rightarrow> Inl (PgError msg) | Inr x \<Rightarrow> Inr x)"

lemma raised_simps [simp]:
  "raised (Inl msg) = Inl (PgError msg)" "raised (Inr x) = Inr x"
  by (simp_all add: raised_def)

lemma raised_eq [simp]:
  "raised a = Inr x \<longleftrightarrow> a = Inr x" "raised a = Inl e \<longleftrightarrow> (\<exists>msg. a = Inl msg \<and> e = PgError msg)"
  by (auto simp: raised_def split: sum.splits)

text \<open>
  \<open>res_sat F P r\<close>: the computation ends in a value that satisfies \<open>P\<close>, or in one of the
  failures \<open>F\<close>. It composes along \<open>res_bind\<close>.
\<close>

definition res_sat :: "failure set \<Rightarrow> ('a \<Rightarrow> bool) \<Rightarrow> 'a res \<Rightarrow> bool" where
  "res_sat F P r = (case r of Inl e \<Rightarrow> e \<in> F | Inr x \<Rightarrow> P x)"

lemma res_sat_simps [simp]:
  "res_sat F P (Inl e) \<longleftrightarrow> e \<in> F"
  "res_sat F P (Inr x) \<longleftrightarrow> P x"
  by (simp_all add: res_sat_def)

lemma res_sat_bind:
  "res_sat F P r \<Longrightarrow> (\<And>x. r = Inr x \<Longrightarrow> P x \<Longrightarrow> res_sat F Q (f x)) \<Longrightarrow> res_sat F Q (res_bind r f)"
  by (cases r) auto

lemma res_sat_mono:
  "res_sat F P r \<Longrightarrow> (\<And>x. r = Inr x \<Longrightarrow> P x \<Longrightarrow> Q x) \<Longrightarrow> F \<subseteq> G \<Longrightarrow> res_sat G Q r"
  by (cases r) auto

lemma res_satD: "res_sat F P r \<Longrightarrow> r = Inr x \<Longrightarrow> P x"
  by simp

text \<open>The failures a handler of Postgres catches.\<close>

definition pg_errors :: "failure set" where "pg_errors = range PgError"

lemma in_pg_errors [simp]: "PgError m \<in> pg_errors" by (simp add: pg_errors_def)

lemma pg_errorsE: "e \<in> pg_errors \<Longrightarrow> (\<And>m. e = PgError m \<Longrightarrow> P) \<Longrightarrow> P" by (auto simp: pg_errors_def)

section \<open>Machine types\<close>

type_synonym byte = "8 word"
type_synonym u16 = "16 word"
type_synonym u32 = "32 word"
type_synonym i32 = "32 word" \<comment> \<open>read with \<open>sint\<close>\<close>
type_synonym i64 = "64 word" \<comment> \<open>read with \<open>sint\<close>\<close>

text \<open>
  Postgres' \<open>Min\<close> and \<open>Max\<close> are HOL's \<open>min\<close> and \<open>max\<close> on \<open>int\<close>. The memory image
  of a 32-bit integer on the targets of the engine (x86-64) is little endian.
\<close>

definition le_bytes32 :: "u32 \<Rightarrow> byte list" where
  "le_bytes32 w = map (\<lambda>k. ucast (drop_bit (8 * k) w)) [0..<4]"

lemma length_le_bytes32 [simp]: "length (le_bytes32 w) = 4"
  by (simp add: le_bytes32_def)

lemma sint_of_nat32: "n < 2 ^ 31 \<Longrightarrow> sint (word_of_nat n :: i32) = int n"
  by (simp add: signed_of_nat signed_take_bit_int_eq_self)

lemma unat_word_of_nat32: "n < 2 ^ 32 \<Longrightarrow> unat (word_of_nat n :: u32) = n"
  by (rule of_nat_inverse[OF refl]) simp

lemma sint_of_int32: "- (2 ^ 31) \<le> k \<Longrightarrow> k < 2 ^ 31 \<Longrightarrow> sint (word_of_int k :: i32) = k"
  by (simp add: signed_of_int signed_take_bit_int_eq_self)

text \<open>A number that is not negative reads the same with and without a sign.\<close>

lemma sint_nonneg32:
  fixes w :: i32
  assumes "0 \<le> sint w"
  shows "sint w = int (unat w)" "unat w < 2 ^ 31"
proof -
  obtain n where n: "sint w = int n" using assms nonneg_int_cases by blast
  then have small: "n < 2 ^ 31" using sint_lt[of w] by simp
  have "w = word_of_int (sint w)" by simp
  moreover have "unat (word_of_nat n :: i32) = n" by (rule unat_word_of_nat32) (use small in simp)
  ultimately have "unat w = n" unfolding n by (simp only: of_int_of_nat_eq)
  then show "sint w = int (unat w)" "unat w < 2 ^ 31" using n small by (simp_all only:)
qed

section \<open>Named collections\<close>

named_theorems frame_simps \<open>what an operation leaves unchanged\<close>
named_theorems inv_intros \<open>an operation keeps an invariant\<close>

section \<open>Lists\<close>

lemma list_eq_splitI:
  "length xs = length ys \<Longrightarrow> (\<And>k. k < length xs \<Longrightarrow> xs ! k = ys ! k) \<Longrightarrow> xs = ys"
  by (rule nth_equalityI) auto

lemma filter_update_count:
  assumes "i < length xs"
  shows "length (filter P (xs[i := y])) + (if P (xs ! i) then 1 else 0)
    = length (filter P xs) + (if P y then 1 else 0)"
  using assms
proof (induction xs arbitrary: i)
  case Nil
  then show ?case by simp
next
  case (Cons x xs)
  then show ?case by (cases i) auto
qed

lemma filter_length_lt_ex:
  "length (filter P xs) < length xs \<Longrightarrow> \<exists>x \<in> set xs. \<not> P x"
  using filter_id_conv by fastforce

end
