(* ===== verification/Ring.thy ===== *)
theory Ring
  imports Prelude "HOL-Library.Multiset"
begin

text \<open>
  The circular array of \<open>master.c\<close> and \<open>event_set.c\<close>: a buffer of fixed length with the
  index of its first element, the index after its last one and a count, all advanced
  modulo the length. \<open>job_queue\<close>, \<open>idle_workers\<close> and the slots of a \<open>WaitEventSetEx\<close>
  are such arrays. The interface a user relies on is the locale \<open>fifo\<close>.
\<close>

record 'a ring =
  rq_buf :: "'a list"
  rq_head :: nat
  rq_tail :: nat
  rq_size :: nat

abbreviation rq_cap :: "'a ring \<Rightarrow> nat" where
  "rq_cap r \<equiv> length (rq_buf r)"

definition ring_new :: "'a list \<Rightarrow> 'a ring" where
  "ring_new buf = \<lparr>rq_buf = buf, rq_head = 0, rq_tail = 0, rq_size = 0\<rparr>"

definition ring_push :: "'a \<Rightarrow> 'a ring \<Rightarrow> 'a ring" where
  "ring_push x r = r\<lparr>rq_size := rq_size r + 1,
     rq_buf := (rq_buf r)[rq_tail r := x],
     rq_tail := (rq_tail r + 1) mod rq_cap r\<rparr>"

definition ring_first :: "'a ring \<Rightarrow> 'a" where
  "ring_first r = rq_buf r ! rq_head r"

definition ring_pop :: "'a ring \<Rightarrow> 'a ring" where
  "ring_pop r = r\<lparr>rq_head := (rq_head r + 1) mod rq_cap r, rq_size := rq_size r - 1\<rparr>"

definition ring_list :: "'a ring \<Rightarrow> 'a list" where
  "ring_list r = map (\<lambda>k. rq_buf r ! ((rq_head r + k) mod rq_cap r)) [0..<rq_size r]"

definition ring_ok :: "'a ring \<Rightarrow> bool" where
  "ring_ok r \<longleftrightarrow> 0 < rq_cap r \<and> rq_head r < rq_cap r \<and> rq_size r \<le> rq_cap r \<and>
     rq_tail r = (rq_head r + rq_size r) mod rq_cap r"

lemma length_ring_list [simp]: "length (ring_list r) = rq_size r"
  by (simp add: ring_list_def)

lemma ring_list_Nil_iff [simp]:
  "ring_list r = [] \<longleftrightarrow> rq_size r = 0" "[] = ring_list r \<longleftrightarrow> rq_size r = 0"
  by (auto simp: ring_list_def)

lemma ring_push_sel [simp]:
  "rq_size (ring_push x r) = Suc (rq_size r)"
  "rq_cap (ring_push x r) = rq_cap r"
  by (simp_all add: ring_push_def)

lemma ring_pop_sel [simp]:
  "rq_size (ring_pop r) = rq_size r - 1"
  "rq_buf (ring_pop r) = rq_buf r"
  by (simp_all add: ring_pop_def)

lemma ring_new_sel [simp]:
  "rq_size (ring_new buf) = 0" "rq_buf (ring_new buf) = buf"
  by (simp_all add: ring_new_def)

lemma ring_new_ok: "buf \<noteq> [] \<Longrightarrow> ring_ok (ring_new buf)"
  by (simp add: ring_ok_def ring_new_def)

lemma ring_new_list [simp]: "ring_list (ring_new buf) = []"
  by (simp add: ring_new_def)

lemma ring_push_ok [intro]: "ring_ok r \<Longrightarrow> rq_size r < rq_cap r \<Longrightarrow> ring_ok (ring_push x r)"
  by (auto simp: ring_ok_def ring_push_def mod_simps)

lemma ring_pop_ok [intro]: "ring_ok r \<Longrightarrow> 0 < rq_size r \<Longrightarrow> ring_ok (ring_pop r)"
  by (cases "rq_size r") (auto simp: ring_ok_def ring_pop_def mod_simps)

lemma ring_index_inj:
  fixes n :: nat
  assumes "j < n" "k < n" "(h + j) mod n = (h + k) mod n"
  shows "j = k"
proof -
  have le: "j = k" if "j \<le> k" "k < n" "(h + j) mod n = (h + k) mod n" for j k
  proof -
    have "n dvd (h + k) - (h + j)"
      using that by (metis mod_eq_dvd_iff_nat add_le_mono order_refl)
    then have "n dvd k - j" by simp
    with that(1,2) show ?thesis by (auto dest: dvd_imp_le)
  qed
  show ?thesis
    using le [of j k] le [of k j] assms by (cases "j \<le> k") auto
qed

lemma ring_list_push:
  assumes "ring_ok r" "rq_size r < rq_cap r"
  shows "ring_list (ring_push x r) = ring_list r @ [x]"
proof (rule list_eq_splitI)
  fix k assume "k < length (ring_list (ring_push x r))"
  then have k: "k \<le> rq_size r" by simp
  let ?n = "rq_cap r" and ?h = "rq_head r"
  have n: "0 < ?n" and t: "rq_tail r = (?h + rq_size r) mod ?n"
    using assms(1) by (simp_all add: ring_ok_def)
  show "ring_list (ring_push x r) ! k = (ring_list r @ [x]) ! k"
  proof (cases "k = rq_size r")
    case True
    with n t show ?thesis
      by (simp add: ring_list_def ring_push_def nth_append del: upt_Suc)
  next
    case False
    with k have "k < rq_size r" by simp
    moreover from this assms(2) have "(?h + k) mod ?n \<noteq> rq_tail r"
      using ring_index_inj [of k ?n "rq_size r" ?h] t by auto
    ultimately show ?thesis
      by (simp add: ring_list_def ring_push_def nth_append del: upt_Suc)
  qed
qed simp

lemma ring_list_pop:
  assumes "ring_ok r" "0 < rq_size r"
  shows "ring_list r = ring_first r # ring_list (ring_pop r)"
proof -
  obtain n where n: "rq_size r = Suc n" using assms(2) by (cases "rq_size r") auto
  have "rq_head r < rq_cap r" using assms(1) by (simp add: ring_ok_def)
  then show ?thesis
    by (simp add: ring_list_def ring_pop_def ring_first_def n map_upt_Suc mod_simps
        del: upt_Suc)
qed

section \<open>The interface of a queue\<close>

text \<open>
  What the users of a queue rely on: contents as a list, insertion at the end, removal
  at the front, and a well-formedness predicate both keep while the queue has room or is
  not empty.
\<close>

locale fifo =
  fixes enq :: "'a \<Rightarrow> 'q \<Rightarrow> 'q"
    and deq :: "'q \<Rightarrow> 'q"
    and front :: "'q \<Rightarrow> 'a"
    and contents :: "'q \<Rightarrow> 'a list"
    and room :: "'q \<Rightarrow> bool"
    and ok :: "'q \<Rightarrow> bool"
  assumes enq_ok: "ok q \<Longrightarrow> room q \<Longrightarrow> ok (enq x q)"
    and deq_ok: "ok q \<Longrightarrow> contents q \<noteq> [] \<Longrightarrow> ok (deq q)"
    and contents_enq: "ok q \<Longrightarrow> room q \<Longrightarrow> contents (enq x q) = contents q @ [x]"
    and contents_deq: "ok q \<Longrightarrow> contents q \<noteq> [] \<Longrightarrow> contents q = front q # contents (deq q)"
begin

lemma mset_enq: "ok q \<Longrightarrow> room q \<Longrightarrow> mset (contents (enq x q)) = add_mset x (mset (contents q))"
  by (simp add: contents_enq)

lemma mset_deq:
  "ok q \<Longrightarrow> contents q \<noteq> [] \<Longrightarrow> mset (contents q) = add_mset (front q) (mset (contents (deq q)))"
  using contents_deq by fastforce

lemma front_in: "ok q \<Longrightarrow> contents q \<noteq> [] \<Longrightarrow> front q \<in> set (contents q)"
  using contents_deq by fastforce

lemma set_deq: "ok q \<Longrightarrow> contents q \<noteq> [] \<Longrightarrow> set (contents (deq q)) \<subseteq> set (contents q)"
  using contents_deq by fastforce

lemma set_enq: "ok q \<Longrightarrow> room q \<Longrightarrow> set (contents (enq x q)) = insert x (set (contents q))"
  by (simp add: contents_enq)

text \<open>First in, first out: draining a queue gives its contents in order.\<close>

lemma enq_then_front:
  "ok q \<Longrightarrow> room q \<Longrightarrow> contents q = [] \<Longrightarrow> front (enq x q) = x"
  using contents_deq [of "enq x q"] by (simp add: contents_enq enq_ok)

end

interpretation rq: fifo ring_push ring_pop ring_first ring_list
  "\<lambda>r. rq_size r < rq_cap r" ring_ok
  by unfold_locales (auto simp: ring_list_push ring_list_pop)

end
