(* ===== verification/EventSet.thy ===== *)
theory EventSet
  imports Ring "HOL-Library.Sublist"
begin

text \<open>
  The reusable wait-event set of \<open>event_set.c\<close>. Postgres' own \<open>WaitEventSet\<close> hands out
  positions 0, 1, 2, ... and cannot give one back; \<open>WaitEventSetEx\<close> wraps it with a
  circular array of free positions, and sets \<open>nevents\<close> by hand so that the next
  \<open>AddWaitEventToSet\<close> stores its event at a position it chose.

  \<open>AddWaitEventToSet\<close>, \<open>ModifyWaitEvent\<close> and \<open>epoll_ctl\<close> are Postgres and kernel code:
  they are arguments of the definitions, and \<open>add_event_law\<close> and \<open>modify_event_law\<close>
  state what their documentation promises.
\<close>

section \<open>Data\<close>

text \<open>
  The event bits of \<open>storage/latch.h\<close>. A mask is the set of its bits. (On Unix
  \<open>WL_SOCKET_ACCEPT\<close> is the bit of \<open>WL_SOCKET_READABLE\<close>; the master asks for the first on
  listening sockets and for the second on connections, never for both on one socket.)
\<close>

datatype wl = WL_LATCH_SET | WL_SOCKET_READABLE | WL_SOCKET_WRITEABLE
  | WL_SOCKET_ACCEPT | WL_SOCKET_CLOSED

record wait_event =
  we_events :: "wl set"
  we_fd :: int
  we_user_data :: nat \<comment> \<open>the socket the \<open>user_data\<close> pointer points to, as its index\<close>

record wait_event_set =
  ws_nevents :: nat
  ws_nevents_space :: nat
  ws_events :: "nat \<Rightarrow> wait_event option" \<comment> \<open>\<open>None\<close>: never written\<close>

record wait_event_set_ex =
  es_wait_set :: wait_event_set
  es_slots :: "nat list"
  es_head :: nat
  es_tail :: nat
  es_used :: nat

type_synonym add_event = "wait_event_set \<Rightarrow> wait_event \<Rightarrow> wait_event_set \<times> int"
type_synonym modify_event = "wait_event_set \<Rightarrow> int \<Rightarrow> wl set \<Rightarrow> wait_event_set"

definition add_event_law :: "add_event \<Rightarrow> bool" where
  "add_event_law add \<longleftrightarrow> (\<forall>ws ev. ws_nevents ws < ws_nevents_space ws \<longrightarrow>
     snd (add ws ev) = int (ws_nevents ws) \<and>
     ws_nevents_space (fst (add ws ev)) = ws_nevents_space ws \<and>
     ws_events (fst (add ws ev)) = (ws_events ws)(ws_nevents ws \<mapsto> ev))"

definition modify_event_law :: "modify_event \<Rightarrow> bool" where
  "modify_event_law md \<longleftrightarrow> (\<forall>ws pos m ev. 0 \<le> pos \<longrightarrow> ws_events ws (nat pos) = Some ev \<longrightarrow>
     ws_nevents_space (md ws pos m) = ws_nevents_space ws \<and>
     ws_nevents (md ws pos m) = ws_nevents ws \<and>
     ws_events (md ws pos m) = (ws_events ws)(nat pos \<mapsto> ev\<lparr>we_events := m\<rparr>))"

section \<open>Operations\<close>

definition CreateWaitEventSetEx :: "nat \<Rightarrow> wait_event_set_ex" where
  "CreateWaitEventSetEx nevents =
     \<lparr>es_wait_set = \<lparr>ws_nevents = 0, ws_nevents_space = nevents, ws_events = (\<lambda>_. None)\<rparr>,
      es_slots = [0..<nevents], es_head = 0, es_tail = 0, es_used = 0\<rparr>"

definition AddWaitEventToSetEx ::
  "add_event \<Rightarrow> wait_event_set_ex \<Rightarrow> wait_event \<Rightarrow> wait_event_set_ex \<times> int" where
  "AddWaitEventToSetEx add s ev =
     (if es_used s = ws_nevents_space (es_wait_set s) then (s, -1)
      else
        let ws = (es_wait_set s)\<lparr>ws_nevents := es_slots s ! es_head s\<rparr>;
            (ws, rv) = add ws ev;
            s = s\<lparr>es_head := (es_head s + 1) mod ws_nevents_space ws,
                  es_used := es_used s + 1,
                  es_wait_set := ws\<lparr>ws_nevents := es_used s + 1\<rparr>\<rparr>
        in (s, rv))"

definition NextWaitEventPos :: "wait_event_set_ex \<Rightarrow> int" where
  "NextWaitEventPos s =
     (if es_used s = ws_nevents_space (es_wait_set s) then -1
      else int (es_slots s ! es_head s))"

definition ModifyWaitEventEx ::
  "modify_event \<Rightarrow> wait_event_set_ex \<Rightarrow> int \<Rightarrow> wl set \<Rightarrow> wait_event_set_ex" where
  "ModifyWaitEventEx md s pos m = s\<lparr>es_wait_set := md (es_wait_set s) pos m\<rparr>"

text \<open>\<open>epoll_del fd\<close> says whether \<open>epoll_ctl(EPOLL_CTL_DEL)\<close> succeeds on \<open>fd\<close>.\<close>

definition DeleteWaitEventEx ::
  "(int \<Rightarrow> bool) \<Rightarrow> wait_event_set_ex \<Rightarrow> int \<Rightarrow> wait_event_set_ex res" where
  "DeleteWaitEventEx epoll_del s pos =
     (if \<not> 0 < es_used s then Inl (Trap ''set->used > 0'')
      else case (if 0 \<le> pos then ws_events (es_wait_set s) (nat pos) else None) of
        None \<Rightarrow> Inl (Undefined ''events[pos]'')
      | Some ev \<Rightarrow>
          if \<not> epoll_del (we_fd ev) then Inl (PgError ''epoll_ctl() failed'')
          else Inr (s\<lparr>es_slots := (es_slots s)[es_tail s := nat pos],
                      es_tail := (es_tail s + 1) mod ws_nevents_space (es_wait_set s),
                      es_used := es_used s - 1,
                      es_wait_set := (es_wait_set s)\<lparr>ws_nevents := es_used s - 1\<rparr>\<rparr>))"

section \<open>The free positions as a ring\<close>

abbreviation es_space :: "wait_event_set_ex \<Rightarrow> nat" where
  "es_space s \<equiv> ws_nevents_space (es_wait_set s)"

definition free_ring :: "wait_event_set_ex \<Rightarrow> nat ring" where
  "free_ring s = \<lparr>rq_buf = es_slots s, rq_head = es_head s, rq_tail = es_tail s,
     rq_size = es_space s - es_used s\<rparr>"

definition es_free :: "wait_event_set_ex \<Rightarrow> nat list" where
  "es_free s = ring_list (free_ring s)"

definition es_live :: "wait_event_set_ex \<Rightarrow> nat set" where
  "es_live s = {..<es_space s} - set (es_free s)"

definition es_inv :: "wait_event_set_ex \<Rightarrow> bool" where
  "es_inv s \<longleftrightarrow> ring_ok (free_ring s) \<and> length (es_slots s) = es_space s \<and>
     es_used s \<le> es_space s \<and> distinct (es_free s) \<and> set (es_free s) \<subseteq> {..<es_space s} \<and>
     (\<forall>p \<in> es_live s. ws_events (es_wait_set s) p \<noteq> None)"

lemma length_es_free: "length (es_free s) = es_space s - es_used s"
  by (simp add: es_free_def free_ring_def)

lemma es_invD:
  assumes "es_inv s"
  shows "ring_ok (free_ring s)" "length (es_slots s) = es_space s" "es_used s \<le> es_space s"
    "distinct (es_free s)" "set (es_free s) \<subseteq> {..<es_space s}"
  using assms by (simp_all add: es_inv_def)

lemma es_live_event: "es_inv s \<Longrightarrow> p \<in> es_live s \<Longrightarrow> \<exists>ev. ws_events (es_wait_set s) p = Some ev"
  by (auto simp: es_inv_def)

lemma es_live_lt: "p \<in> es_live s \<Longrightarrow> p < es_space s"
  by (simp add: es_live_def)

lemma card_es_live:
  assumes "es_inv s" shows "card (es_live s) = es_used s"
proof -
  have "card (es_live s) = es_space s - length (es_free s)"
    using assms es_invD[OF assms]
    by (simp add: es_live_def card_Diff_subset distinct_card)
  with es_invD(3)[OF assms] show ?thesis by (simp add: length_es_free)
qed

lemma es_used_pos: "es_inv s \<Longrightarrow> p \<in> es_live s \<Longrightarrow> 0 < es_used s"
  using card_es_live [of s] card_gt_0_iff [of "es_live s"] by (auto simp: es_live_def)

lemma CreateWaitEventSetEx_sel [simp]:
  "es_space (CreateWaitEventSetEx n) = n" "es_used (CreateWaitEventSetEx n) = 0"
  by (simp_all add: CreateWaitEventSetEx_def)

lemma CreateWaitEventSetEx_free: "es_free (CreateWaitEventSetEx n) = [0..<n]"
  by (rule list_eq_splitI)
     (simp_all add: CreateWaitEventSetEx_def es_free_def free_ring_def ring_list_def)

lemma CreateWaitEventSetEx_inv: "0 < n \<Longrightarrow> es_inv (CreateWaitEventSetEx n)"
  using CreateWaitEventSetEx_free [of n]
  by (auto simp: es_inv_def es_live_def ring_ok_def)
     (auto simp: CreateWaitEventSetEx_def free_ring_def)

lemma NextWaitEventPos_free:
  assumes "es_inv s" "es_used s < es_space s"
  shows "NextWaitEventPos s = int (hd (es_free s))" "es_free s \<noteq> []"
  using assms ring_list_pop [of "free_ring s"]
  by (auto simp: es_inv_def es_free_def NextWaitEventPos_def ring_first_def free_ring_def)

lemma AddWaitEventToSetEx_full [simp]:
  "es_used s = es_space s \<Longrightarrow> AddWaitEventToSetEx add s ev = (s, -1)"
  by (simp add: AddWaitEventToSetEx_def)

lemma AddWaitEventToSetEx_free:
  assumes "add_event_law add" "es_inv s" "es_used s < es_space s"
    and "AddWaitEventToSetEx add s ev = (t, rv)"
  shows "rv = int (hd (es_free s))" "es_free t = tl (es_free s)" "es_space t = es_space s"
    "es_used t = Suc (es_used s)"
    "ws_events (es_wait_set t) = (ws_events (es_wait_set s))(hd (es_free s) \<mapsto> ev)"
    "free_ring t = ring_pop (free_ring s)"
proof -
  let ?p = "es_slots s ! es_head s"
  let ?ws = "(es_wait_set s)\<lparr>ws_nevents := ?p\<rparr>"
  have ring: "ring_ok (free_ring s)" "0 < rq_size (free_ring s)"
    using assms(2,3) by (simp_all add: es_inv_def free_ring_def)
  then have free: "es_free s = ?p # ring_list (ring_pop (free_ring s))"
    using ring_list_pop [of "free_ring s"]
    by (simp add: es_free_def ring_first_def free_ring_def)
  then have "?p < es_space s"
    using es_invD(5)[OF assms(2)] by auto
  then have law: "snd (add ?ws ev) = int ?p" "ws_nevents_space (fst (add ?ws ev)) = es_space s"
      "ws_events (fst (add ?ws ev)) = (ws_events (es_wait_set s))(?p \<mapsto> ev)"
    using assms(1) by (simp_all add: add_event_law_def)
  have t: "t = s\<lparr>es_head := (es_head s + 1) mod es_space s, es_used := es_used s + 1,
      es_wait_set := (fst (add ?ws ev))\<lparr>ws_nevents := es_used s + 1\<rparr>\<rparr>" "rv = int ?p"
    using assms(3,4) law
    by (auto simp: AddWaitEventToSetEx_def Let_def split: prod.splits)
  show fr: "free_ring t = ring_pop (free_ring s)"
    using t law es_invD(2)[OF assms(2)] by (simp add: free_ring_def ring_pop_def)
  show "rv = int (hd (es_free s))" using t free by simp
  show "es_free t = tl (es_free s)" using fr free by (simp add: es_free_def)
  show "es_space t = es_space s" "es_used t = Suc (es_used s)" using t law by simp_all
  show "ws_events (es_wait_set t) = (ws_events (es_wait_set s))(hd (es_free s) \<mapsto> ev)"
    using t law free by simp
qed

lemma AddWaitEventToSetEx_slots:
  "length (es_slots (fst (AddWaitEventToSetEx add s ev))) = length (es_slots s)"
  by (simp add: AddWaitEventToSetEx_def Let_def split: prod.splits)

lemma es_live_insert:
  assumes "es_inv s" "es_free s = p # ps" "es_free t = ps" "es_space t = es_space s"
  shows "es_live t = insert p (es_live s)" "p \<notin> es_live s"
  using es_invD(4,5)[OF assms(1)] assms(2-) by (auto simp: es_live_def)

lemma AddWaitEventToSetEx_live:
  assumes "add_event_law add" "es_inv s" "es_used s < es_space s"
    and "AddWaitEventToSetEx add s ev = (t, rv)"
  shows "es_live t = insert (nat rv) (es_live s)" "nat rv \<notin> es_live s" "0 \<le> rv"
    "rv = NextWaitEventPos s"
proof -
  note free = AddWaitEventToSetEx_free[OF assms]
  obtain p ps where p: "es_free s = p # ps"
    using NextWaitEventPos_free[OF assms(2,3)] by (cases "es_free s") auto
  show "es_live t = insert (nat rv) (es_live s)" "nat rv \<notin> es_live s"
    using es_live_insert[OF assms(2) p, of t] free p by simp_all
  show "0 \<le> rv" "rv = NextWaitEventPos s"
    using free NextWaitEventPos_free[OF assms(2,3)] by simp_all
qed

lemma AddWaitEventToSetEx_inv [inv_intros]:
  assumes "add_event_law add" "es_inv s"
  shows "es_inv (fst (AddWaitEventToSetEx add s ev))"
proof (cases "es_used s = es_space s")
  case True
  then show ?thesis using assms by simp
next
  case False
  with es_invD(3)[OF assms(2)] have room: "es_used s < es_space s" by simp
  obtain t rv where t: "AddWaitEventToSetEx add s ev = (t, rv)" by fastforce
  note free = AddWaitEventToSetEx_free[OF assms room t]
    and live = AddWaitEventToSetEx_live[OF assms room t]
  have ring: "ring_ok (free_ring t)"
    unfolding free(6) using es_invD(1)[OF assms(2)] room
    by (intro ring_pop_ok) (simp_all add: free_ring_def)
  have len: "length (es_slots t) = es_space t"
    using AddWaitEventToSetEx_slots[of add s ev] t free(3) es_invD(2)[OF assms(2)] by simp
  have ev: "\<forall>p \<in> es_live t. ws_events (es_wait_set t) p \<noteq> None"
    unfolding live(1) free(5) using assms(2) free(1) by (auto simp: es_inv_def)
  have "distinct (es_free t)" "set (es_free t) \<subseteq> {..<es_space t}" "es_used t \<le> es_space t"
    using es_invD(4,5)[OF assms(2)] set_mono_suffix[OF suffix_tl, of "es_free s"] room
    by (auto simp: free distinct_tl)
  with ring len ev show ?thesis by (simp add: t es_inv_def)
qed

lemma DeleteWaitEventEx_cases:
  assumes "es_inv s" "p \<in> es_live s"
  obtains ev where "ws_events (es_wait_set s) p = Some ev"
    "DeleteWaitEventEx del s (int p) =
      (if \<not> del (we_fd ev) then Inl (PgError ''epoll_ctl() failed'')
       else Inr (s\<lparr>es_slots := (es_slots s)[es_tail s := p],
                   es_tail := (es_tail s + 1) mod es_space s,
                   es_used := es_used s - 1,
                   es_wait_set := (es_wait_set s)\<lparr>ws_nevents := es_used s - 1\<rparr>\<rparr>))"
  using es_live_event[OF assms] es_used_pos[OF assms] that
  by (auto simp: DeleteWaitEventEx_def)

lemma DeleteWaitEventEx_Inl:
  assumes "es_inv s" "p \<in> es_live s" "DeleteWaitEventEx del s (int p) = Inl e"
  shows "e = PgError ''epoll_ctl() failed''"
  using es_live_event[OF assms(1,2)] es_used_pos[OF assms(1,2)] assms(3)
  by (auto simp: DeleteWaitEventEx_def split: if_splits)

lemma DeleteWaitEventEx_free:
  assumes "es_inv s" "p \<in> es_live s" "DeleteWaitEventEx del s (int p) = Inr t"
  shows "es_free t = es_free s @ [p]" "es_space t = es_space s"
    "Suc (es_used t) = es_used s" "ws_events (es_wait_set t) = ws_events (es_wait_set s)"
    "free_ring t = ring_push p (free_ring s)" "length (es_slots t) = length (es_slots s)"
proof -
  have used: "0 < es_used s" by (rule es_used_pos[OF assms(1,2)])
  have t: "t = s\<lparr>es_slots := (es_slots s)[es_tail s := p], es_tail := (es_tail s + 1) mod es_space s,
      es_used := es_used s - 1, es_wait_set := (es_wait_set s)\<lparr>ws_nevents := es_used s - 1\<rparr>\<rparr>"
    using DeleteWaitEventEx_cases[OF assms(1,2), of del] assms(3)
    by (metis sum.inject(2) sum.simps(4))
  then show "es_space t = es_space s" "Suc (es_used t) = es_used s"
    "ws_events (es_wait_set t) = ws_events (es_wait_set s)"
    "length (es_slots t) = length (es_slots s)"
    using used by simp_all
  show fr: "free_ring t = ring_push p (free_ring s)"
    using t used es_invD(2,3)[OF assms(1)] by (simp add: free_ring_def ring_push_def)
  show "es_free t = es_free s @ [p]"
    unfolding es_free_def fr using es_invD(1,2,3)[OF assms(1)] used
    by (intro ring_list_push) (simp_all add: free_ring_def)
qed

lemma DeleteWaitEventEx_live:
  assumes "es_inv s" "p \<in> es_live s" "DeleteWaitEventEx del s (int p) = Inr t"
  shows "es_live t = es_live s - {p}"
  using DeleteWaitEventEx_free[OF assms] by (auto simp: es_live_def)

lemma DeleteWaitEventEx_inv [inv_intros]:
  assumes "es_inv s" "p \<in> es_live s" "DeleteWaitEventEx del s (int p) = Inr t"
  shows "es_inv t"
proof -
  note free = DeleteWaitEventEx_free[OF assms] and live = DeleteWaitEventEx_live[OF assms]
  note inv = es_invD[OF assms(1)]
  have "ring_ok (free_ring t)"
    unfolding free(5) using inv es_used_pos[OF assms(1,2)]
    by (intro ring_push_ok) (simp_all add: free_ring_def)
  moreover have "p < es_space s" "p \<notin> set (es_free s)"
    using assms(2) by (simp_all add: es_live_def)
  ultimately show ?thesis
    using inv free assms(1) by (auto simp: es_inv_def live)
qed

lemma ModifyWaitEventEx_sel:
  assumes "modify_event_law md" "es_inv s" "p \<in> es_live s"
    and "ws_events (es_wait_set s) p = Some ev"
  shows "es_space (ModifyWaitEventEx md s (int p) m) = es_space s"
    "es_used (ModifyWaitEventEx md s (int p) m) = es_used s"
    "free_ring (ModifyWaitEventEx md s (int p) m) = free_ring s"
    "ws_events (es_wait_set (ModifyWaitEventEx md s (int p) m)) =
      (ws_events (es_wait_set s))(p \<mapsto> ev\<lparr>we_events := m\<rparr>)"
    "es_slots (ModifyWaitEventEx md s (int p) m) = es_slots s"
  using assms by (simp_all add: ModifyWaitEventEx_def modify_event_law_def free_ring_def)

lemma ModifyWaitEventEx_free [simp]:
  assumes "modify_event_law md" "es_inv s" "p \<in> es_live s"
  shows "es_free (ModifyWaitEventEx md s (int p) m) = es_free s"
    "es_live (ModifyWaitEventEx md s (int p) m) = es_live s"
    "es_space (ModifyWaitEventEx md s (int p) m) = es_space s"
    "es_used (ModifyWaitEventEx md s (int p) m) = es_used s"
  using es_live_event[OF assms(2,3)] ModifyWaitEventEx_sel[OF assms]
  by (auto simp: es_free_def es_live_def)

lemma ModifyWaitEventEx_inv [inv_intros]:
  assumes "modify_event_law md" "es_inv s" "p \<in> es_live s"
  shows "es_inv (ModifyWaitEventEx md s (int p) m)"
proof -
  obtain ev where ev: "ws_events (es_wait_set s) p = Some ev"
    using es_live_event[OF assms(2,3)] by blast
  show ?thesis
    using assms(2) ModifyWaitEventEx_free[OF assms] ModifyWaitEventEx_sel[OF assms ev]
    by (auto simp: es_inv_def)
qed

section \<open>The interface of a position pool\<close>

text \<open>
  What the master relies on: a position it is given is not in use, one it gives back can be
  handed out again, and only after every position that was free before it.
\<close>

locale slot_pool =
  fixes live :: "'s \<Rightarrow> nat set"
    and free :: "'s \<Rightarrow> nat list"
    and peek :: "'s \<Rightarrow> int"
    and alloc :: "'s \<Rightarrow> 's \<times> int"
    and release :: "nat \<Rightarrow> 's \<Rightarrow> 's res"
    and ok :: "'s \<Rightarrow> bool"
  assumes disjoint: "ok s \<Longrightarrow> live s \<inter> set (free s) = {}"
    and alloc_ok: "ok s \<Longrightarrow> ok (fst (alloc s))"
    and alloc_full: "ok s \<Longrightarrow> free s = [] \<Longrightarrow> alloc s = (s, -1)"
    and alloc_pos: "ok s \<Longrightarrow> free s \<noteq> [] \<Longrightarrow> snd (alloc s) = int (hd (free s))"
    and alloc_free: "ok s \<Longrightarrow> free (fst (alloc s)) = tl (free s)"
    and alloc_live: "ok s \<Longrightarrow> free s \<noteq> [] \<Longrightarrow>
      live (fst (alloc s)) = insert (hd (free s)) (live s)"
    and peek_alloc: "ok s \<Longrightarrow> peek s = snd (alloc s)"
    and release_ok: "ok s \<Longrightarrow> p \<in> live s \<Longrightarrow> release p s = Inr t \<Longrightarrow> ok t"
    and release_free: "ok s \<Longrightarrow> p \<in> live s \<Longrightarrow> release p s = Inr t \<Longrightarrow> free t = free s @ [p]"
    and release_live: "ok s \<Longrightarrow> p \<in> live s \<Longrightarrow> release p s = Inr t \<Longrightarrow> live t = live s - {p}"
begin

lemma alloc_fresh: "ok s \<Longrightarrow> free s \<noteq> [] \<Longrightarrow> nat (snd (alloc s)) \<notin> live s"
  using disjoint [of s] alloc_pos [of s] by (cases "free s") auto

lemma allocs:
  "ok s \<Longrightarrow> ok (((fst \<circ> alloc) ^^ k) s) \<and> free (((fst \<circ> alloc) ^^ k) s) = drop k (free s)"
  by (induction k) (auto simp: alloc_ok alloc_free tl_drop drop_Suc)

lemma reuse_is_last:
  assumes "ok s" "p \<in> live s" "release p s = Inr t"
  shows "peek (((fst \<circ> alloc) ^^ length (free s)) t) = int p"
    and "k < length (free s) \<Longrightarrow> peek (((fst \<circ> alloc) ^^ k) t) = int (free s ! k)"
    and "k < length (free s) \<Longrightarrow> free s ! k \<noteq> p"
proof -
  have t: "ok t" "free t = free s @ [p]"
    using assms by (auto intro: release_ok release_free)
  have pk: "peek (((fst \<circ> alloc) ^^ k) t) = int (free t ! k)" if "k < length (free t)" for k
    using allocs [OF t(1), of k] that
    by (simp add: peek_alloc alloc_pos hd_drop_conv_nth)
  show "peek (((fst \<circ> alloc) ^^ length (free s)) t) = int p"
    using pk [of "length (free s)"] t(2) by simp
  show "peek (((fst \<circ> alloc) ^^ k) t) = int (free s ! k)" if "k < length (free s)"
    using pk [of k] t(2) that by (simp add: nth_append)
  show "free s ! k \<noteq> p" if "k < length (free s)"
    using disjoint [OF assms(1)] assms(2) that nth_mem by fastforce
qed

end

lemma AddWaitEventToSetEx_pool:
  assumes "add_event_law add" "es_inv s"
  shows "es_free s = [] \<Longrightarrow> AddWaitEventToSetEx add s ev = (s, -1)"
    and "es_free s \<noteq> [] \<Longrightarrow> snd (AddWaitEventToSetEx add s ev) = int (hd (es_free s))"
    and "es_free (fst (AddWaitEventToSetEx add s ev)) = tl (es_free s)"
    and "es_free s \<noteq> [] \<Longrightarrow>
      es_live (fst (AddWaitEventToSetEx add s ev)) = insert (hd (es_free s)) (es_live s)"
    and "NextWaitEventPos s = snd (AddWaitEventToSetEx add s ev)"
proof -
  obtain t rv where t: "AddWaitEventToSetEx add s ev = (t, rv)" by fastforce
  have full: "es_free s = [] \<longleftrightarrow> es_used s = es_space s"
    using length_es_free [of s] es_invD(3)[OF assms(2)] by auto
  have room: "es_used s < es_space s" if "es_free s \<noteq> []"
    using that full es_invD(3)[OF assms(2)] by simp
  show "es_free s = [] \<Longrightarrow> AddWaitEventToSetEx add s ev = (s, -1)"
    using full by simp
  show "es_free s \<noteq> [] \<Longrightarrow> snd (AddWaitEventToSetEx add s ev) = int (hd (es_free s))"
    using AddWaitEventToSetEx_free(1)[OF assms room t] t by simp
  show "es_free (fst (AddWaitEventToSetEx add s ev)) = tl (es_free s)"
    using AddWaitEventToSetEx_free(2)[OF assms room t] t full
    by (cases "es_free s = []") simp_all
  show "es_free s \<noteq> [] \<Longrightarrow>
      es_live (fst (AddWaitEventToSetEx add s ev)) = insert (hd (es_free s)) (es_live s)"
    using AddWaitEventToSetEx_live(1)[OF assms room t] AddWaitEventToSetEx_free(1)[OF assms room t] t
    by simp
  show "NextWaitEventPos s = snd (AddWaitEventToSetEx add s ev)"
    using AddWaitEventToSetEx_live(4)[OF assms room t] t full
    by (cases "es_free s = []") (simp_all add: NextWaitEventPos_def)
qed

interpretation pool: slot_pool es_live es_free NextWaitEventPos
  "\<lambda>s. AddWaitEventToSetEx add s ev" "\<lambda>p s. DeleteWaitEventEx del s (int p)"
  "\<lambda>s. add_event_law add \<and> es_inv s"
  for add :: add_event and ev :: wait_event and del :: "int \<Rightarrow> bool"
proof (unfold_locales, goal_cases)
  case (1 s)
  show ?case by (auto simp: es_live_def)
next
  case (2 s)
  then show ?case by (simp add: AddWaitEventToSetEx_inv)
next
  case (3 s)
  then show ?case by (simp add: AddWaitEventToSetEx_pool(1))
next
  case (4 s)
  then show ?case by (simp add: AddWaitEventToSetEx_pool(2))
next
  case (5 s)
  then show ?case by (simp add: AddWaitEventToSetEx_pool(3))
next
  case (6 s)
  then show ?case by (simp add: AddWaitEventToSetEx_pool(4))
next
  case (7 s)
  then show ?case by (simp only: AddWaitEventToSetEx_pool(5))
next
  case (8 s p t)
  then show ?case using DeleteWaitEventEx_inv by blast
next
  case (9 s p t)
  then show ?case using DeleteWaitEventEx_free(1) by blast
next
  case (10 s p t)
  then show ?case using DeleteWaitEventEx_live by blast
qed

end
