(* ===== verification/Master.thy ===== *)
theory Master
  imports EventSet
begin

text \<open>
  The dispatcher process of \<open>master.c\<close>: it accepts HTTP connections on its frontend sockets
  and connections of worker processes on a Unix socket, reads the 12-byte greeting by which
  a worker says it is idle, and hands each accepted connection to an idle worker by
  \<open>sendmsg(SCM_RIGHTS)\<close>. Connections wait in \<open>job_queue\<close> while no worker is idle; idle
  workers wait in \<open>idle_workers\<close>.

  The file statics are the fields of \<open>master\<close>. Postgres and the kernel are the fields of
  \<open>os\<close>: what each call answers may depend on everything that happened before, so the
  answers are functions of the log of calls made so far.
\<close>

section \<open>Data\<close>

definition JOB_QLEN :: nat where "JOB_QLEN = 1024"
definition MAXLISTEN :: nat where "MAXLISTEN = 64"

definition BACKEND_HELLO :: "byte list" where
  "BACKEND_HELLO = [0x52, 0x55, 0x53, 0x54, 0x49, 0x43, 0x41, 0x21]" \<comment> \<open>"RUSTICA!"\<close>

datatype sock_type = TYPE_UNSET | TYPE_IPC | TYPE_FRONTEND | TYPE_BACKEND

record socket =
  sk_type :: sock_type
  sk_fd :: int
  sk_pos :: int
  sk_read_offset :: byte \<comment> \<open>\<open>uint8_t\<close>\<close>
  sk_worker_id :: "byte list" \<comment> \<open>the four bytes of the \<open>uint32_t\<close>, in memory order\<close>

definition zero_socket :: socket where
  "zero_socket = \<lparr>sk_type = TYPE_UNSET, sk_fd = 0, sk_pos = 0, sk_read_offset = 0,
     sk_worker_id = replicate 4 0\<rparr>"

text \<open>The calls with an effect outside the process, and the log lines that name a job.\<close>

datatype call =
    AcceptFrontend int \<comment> \<open>\<open>accept\<close> on a frontend socket gave this connection\<close>
  | AcceptBackend int
  | SendFd int int \<comment> \<open>\<open>sendmsg\<close> of a job over a worker's socket: worker, job\<close>
  | SendFailed int int
  | Recv int "byte list"
  | RecvFailed int
  | StreamClose int
  | RegisterWorker int \<comment> \<open>the \<open>worker_id_seq\<close> a background worker was asked for with\<close>
  | LogQueueFull int \<comment> \<open>\<open>ereport(DEBUG1, "job queue is full, closing fd=%d")\<close>\<close>
  | Usleep

type_synonym log = "call list" \<comment> \<open>latest first\<close>

record os =
  os_add :: add_event
  os_modify :: modify_event
  os_epoll_del :: "log \<Rightarrow> int \<Rightarrow> bool"
  os_accept :: "log \<Rightarrow> int \<Rightarrow> int option" \<comment> \<open>\<open>None\<close>: \<open>PGINVALID_SOCKET\<close>\<close>
  os_sendmsg :: "log \<Rightarrow> int \<Rightarrow> int \<Rightarrow> bool"
  os_recv :: "log \<Rightarrow> int \<Rightarrow> nat \<Rightarrow> byte list option" \<comment> \<open>\<open>None\<close>: negative result\<close>
  os_register :: "log \<Rightarrow> int \<Rightarrow> nat option" \<comment> \<open>\<open>RegisterDynamicBackgroundWorker\<close>\<close>
  os_stopped :: "log \<Rightarrow> nat \<Rightarrow> bool" \<comment> \<open>\<open>GetBackgroundWorkerPid\<close> says \<open>BGWH_STOPPED\<close>\<close>

text \<open>What the code relies on: \<open>recv\<close> returns at most what it was asked for.\<close>

definition os_law :: "os \<Rightarrow> bool" where
  "os_law os \<longleftrightarrow> add_event_law (os_add os) \<and> modify_event_law (os_modify os) \<and>
     (\<forall>l fd n bs. os_recv os l fd n = Some bs \<longrightarrow> length bs \<le> n)"

record master =
  ms_wait_set :: wait_event_set_ex \<comment> \<open>\<open>rm_wait_set\<close>\<close>
  ms_sockets :: "socket list"
  ms_total_sockets :: nat
  ms_shutdown_requested :: bool
  ms_worker_died :: bool
  ms_idle :: "int ring" \<comment> \<open>\<open>idle_workers\<close>, \<open>idle_qhead\<close>, \<open>idle_qtail\<close>, \<open>idle_qsize\<close>\<close>
  ms_num_workers :: int
  ms_worker_handles :: "nat option list"
  ms_jobs :: "int ring" \<comment> \<open>\<open>job_queue\<close>, \<open>job_qhead\<close>, \<open>job_qtail\<close>, \<open>job_qsize\<close>\<close>
  ms_frontend_paused :: bool
  ms_worker_id_seq :: int
  ms_max_worker_processes :: nat
  ms_log :: log

definition add_log :: "call list \<Rightarrow> master \<Rightarrow> master" where
  "add_log cs m = m\<lparr>ms_log := rev cs @ ms_log m\<rparr>"

definition set_socket :: "nat \<Rightarrow> socket \<Rightarrow> master \<Rightarrow> master" where
  "set_socket i s m = m\<lparr>ms_sockets := (ms_sockets m)[i := s]\<rparr>"

definition modify_wait :: "os \<Rightarrow> int \<Rightarrow> wl set \<Rightarrow> master \<Rightarrow> master" where
  "modify_wait os pos evs m =
     m\<lparr>ms_wait_set := ModifyWaitEventEx (os_modify os) (ms_wait_set m) pos evs\<rparr>"

section \<open>Connections of workers\<close>

text \<open>
  \<open>&sockets[NextWaitEventPos(...)]\<close> is outside the array when the wait set is full: the
  position is then -1.
\<close>

definition on_backend_connect :: "os \<Rightarrow> nat \<Rightarrow> wl set \<Rightarrow> master \<Rightarrow> master res" where
  "on_backend_connect os i events m =
     (if WL_SOCKET_ACCEPT \<notin> events then Inr m
      else case os_accept os (ms_log m) (sk_fd (ms_sockets m ! i)) of
        None \<Rightarrow> Inr (add_log [Usleep] m)
      | Some sock \<Rightarrow>
          let m = add_log [AcceptBackend sock] m;
              k = NextWaitEventPos (ms_wait_set m)
          in if k < 0 \<or> int (length (ms_sockets m)) \<le> k then Inl (Undefined ''sockets[pos]'')
             else
               let s = (ms_sockets m ! nat k)\<lparr>sk_type := TYPE_BACKEND, sk_fd := sock\<rparr>;
                   (es, pos) = AddWaitEventToSetEx (os_add os) (ms_wait_set m)
                     \<lparr>we_events = {WL_SOCKET_READABLE, WL_SOCKET_CLOSED}, we_fd = sock,
                      we_user_data = nat k\<rparr>;
                   m = set_socket (nat k) (s\<lparr>sk_pos := pos\<rparr>) (m\<lparr>ms_wait_set := es\<rparr>)
               in if pos \<noteq> -1 then Inr m
                  else Inr (add_log [StreamClose sock] m))"

definition close_socket :: "os \<Rightarrow> nat \<Rightarrow> master \<Rightarrow> master res" where
  "close_socket os i m =
     (let s = ms_sockets m ! i in
      res_bind (DeleteWaitEventEx (os_epoll_del os (ms_log m)) (ms_wait_set m) (sk_pos s)) (\<lambda>es.
        Inr (set_socket i zero_socket
          (add_log [StreamClose (sk_fd s)] (m\<lparr>ms_wait_set := es\<rparr>)))))"

section \<open>A frontend connection\<close>

text \<open>
  The \<open>while (idle_qsize > 0)\<close> loop: take idle workers until one accepts the job. Entries
  whose socket is gone are skipped. \<open>True\<close>: the loop returned from \<open>on_frontend\<close>.
\<close>

lemma close_socket_idle:
  "close_socket os i m = Inr m' \<Longrightarrow> ms_idle m' = ms_idle m"
  by (auto simp: close_socket_def set_socket_def add_log_def Let_def res_bind_eq_Inr)

function dispatch_to_idle :: "os \<Rightarrow> int \<Rightarrow> master \<Rightarrow> (bool \<times> master) res" where
  "dispatch_to_idle os sock m =
     (if rq_size (ms_idle m) = 0 then Inr (False, m)
      else
        let b = ring_first (ms_idle m);
            m = m\<lparr>ms_idle := ring_pop (ms_idle m)\<rparr>
        in if b < 0 \<or> int (length (ms_sockets m)) \<le> b then Inl (Undefined ''sockets[idle_workers[idle_qhead]]'')
           else
             let backend = ms_sockets m ! nat b in
             if sk_type backend \<noteq> TYPE_BACKEND then dispatch_to_idle os sock m
             else if \<not> os_sendmsg os (ms_log m) (sk_fd backend) sock then
               (case close_socket os (nat b) (add_log [SendFailed (sk_fd backend) sock] m) of
                  Inl e \<Rightarrow> Inl e
                | Inr m' \<Rightarrow> dispatch_to_idle os sock m')
             else
               Inr (True, modify_wait os (sk_pos backend) {WL_SOCKET_READABLE, WL_SOCKET_CLOSED}
                 (add_log [SendFd (sk_fd backend) sock, StreamClose sock] m)))"
  by pat_completeness auto
termination
  by (relation "measure (\<lambda>(os, sock, m). rq_size (ms_idle m))")
     (auto dest!: close_socket_idle simp: add_log_def)

declare dispatch_to_idle.simps [simp del]

text \<open>Asking Postgres for one more worker: the first free handle takes it.\<close>

fun first_null :: "nat \<Rightarrow> 'a option list \<Rightarrow> nat option" where
  "first_null i [] = None"
| "first_null i (None # hs) = Some i"
| "first_null i (Some h # hs) = first_null (Suc i) hs"

definition spawn_worker :: "os \<Rightarrow> master \<Rightarrow> master res" where
  "spawn_worker os m =
     (if rq_size (ms_idle m) = 0 \<and> ms_num_workers m < int (ms_max_worker_processes m) - 2 then
        let seq = ms_worker_id_seq m;
            m = add_log [RegisterWorker seq] (m\<lparr>ms_worker_id_seq := seq + 1\<rparr>)
        in case first_null 0 (ms_worker_handles m) of
             None \<Rightarrow> Inl (Trap ''handle != NULL'')
           | Some h \<Rightarrow>
               (case os_register os (ms_log m) seq of
                  None \<Rightarrow> Inr m
                | Some bgw \<Rightarrow> Inr (m\<lparr>ms_worker_handles := (ms_worker_handles m)[h := Some bgw],
                                   ms_num_workers := ms_num_workers m + 1\<rparr>))
      else Inr m)"

text \<open>\<open>for (i = 0; i < total_sockets; i++)\<close> with \<open>ModifyWaitEventEx\<close> on every frontend.\<close>

definition set_frontend_masks :: "os \<Rightarrow> wl set \<Rightarrow> master \<Rightarrow> master" where
  "set_frontend_masks os evs m =
     fold (\<lambda>i m. if sk_type (ms_sockets m ! i) = TYPE_FRONTEND
                 then modify_wait os (sk_pos (ms_sockets m ! i)) evs m else m)
       [0..<ms_total_sockets m] m"

definition enqueue_job :: "os \<Rightarrow> int \<Rightarrow> master \<Rightarrow> master" where
  "enqueue_job os sock m =
     (if rq_size (ms_jobs m) < JOB_QLEN then
        let m = m\<lparr>ms_jobs := ring_push sock (ms_jobs m)\<rparr> in
        if rq_size (ms_jobs m) = JOB_QLEN then
          set_frontend_masks os {WL_SOCKET_CLOSED} (m\<lparr>ms_frontend_paused := True\<rparr>)
        else m
      else add_log [LogQueueFull sock, StreamClose sock] m)"

definition on_frontend :: "os \<Rightarrow> nat \<Rightarrow> wl set \<Rightarrow> master \<Rightarrow> master res" where
  "on_frontend os i events m =
     (if WL_SOCKET_ACCEPT \<notin> events then Inr m
      else case os_accept os (ms_log m) (sk_fd (ms_sockets m ! i)) of
        None \<Rightarrow> Inr (add_log [Usleep] m)
      | Some sock \<Rightarrow>
          res_bind (dispatch_to_idle os sock (add_log [AcceptFrontend sock] m)) (\<lambda>(done, m).
            if done then Inr m
            else res_bind (spawn_worker os m) (\<lambda>m. Inr (enqueue_job os sock m))))"

section \<open>A message from a worker\<close>

text \<open>
  The loop that compares the received bytes with the greeting. \<open>None\<close>: a byte differs;
  \<open>Some i\<close>: the value of \<open>i\<close> when the loop ends. \<open>limit\<close> is
  \<open>Min(8 - socket->read_offset, received)\<close>, which can be negative.
\<close>

function hello_loop :: "nat \<Rightarrow> byte list \<Rightarrow> int \<Rightarrow> nat \<Rightarrow> nat option" where
  "hello_loop off buf limit i =
     (if int i < limit then
        if BACKEND_HELLO ! (off + i) \<noteq> buf ! i then None
        else hello_loop off buf limit (i + 1)
      else Some i)"
  by pat_completeness auto
termination by (relation "measure (\<lambda>(off, buf, limit, i). nat limit - i)") auto

declare hello_loop.simps [simp del]

text \<open>\<open>memcpy(dst + off, src, n)\<close> into the four bytes of \<open>worker_id\<close>.\<close>

definition copy_worker_id :: "nat \<Rightarrow> byte list \<Rightarrow> byte list \<Rightarrow> byte list res" where
  "copy_worker_id off src dst =
     (if length dst < off + length src then Inl (Undefined ''memcpy past worker_id'')
      else Inr (take off dst @ src @ drop (off + length src) dst))"

definition resume_frontend :: "os \<Rightarrow> master \<Rightarrow> master" where
  "resume_frontend os m =
     (if ms_frontend_paused m then
        set_frontend_masks os {WL_SOCKET_ACCEPT} (m\<lparr>ms_frontend_paused := False\<rparr>)
      else m)"

text \<open>A worker said it is idle: it gets the oldest waiting job, or joins the idle workers.\<close>

definition on_worker_idle :: "os \<Rightarrow> nat \<Rightarrow> master \<Rightarrow> master res" where
  "on_worker_idle os i m =
     (let s = ms_sockets m ! i in
      if 0 < rq_size (ms_jobs m) then
        let job = ring_first (ms_jobs m) in
        if \<not> os_sendmsg os (ms_log m) (sk_fd s) job then
          close_socket os i (add_log [SendFailed (sk_fd s) job] m)
        else
          Inr (resume_frontend os
            ((add_log [SendFd (sk_fd s) job] m)\<lparr>ms_jobs := ring_pop (ms_jobs m)\<rparr>))
      else
        let m = modify_wait os (sk_pos s) {WL_SOCKET_CLOSED} m in
        if \<not> rq_size (ms_idle m) < ms_total_sockets m then
          Inl (Trap ''idle_qsize < total_sockets'')
        else Inr (m\<lparr>ms_idle := ring_push (sk_pos s) (ms_idle m)\<rparr>))"

definition on_backend_bytes :: "os \<Rightarrow> nat \<Rightarrow> int \<Rightarrow> byte list \<Rightarrow> master \<Rightarrow> master res" where
  "on_backend_bytes os i received buf m =
     (let s = ms_sockets m ! i; off = uint (sk_read_offset s) in
      case hello_loop (nat off) buf (min (8 - off) received) 0 of
        None \<Rightarrow> close_socket os i m
      | Some k \<Rightarrow>
          if received - int k > 0 then
            res_bind (copy_worker_id (nat (max 0 (off - 8))) (drop k buf) (sk_worker_id s)) (\<lambda>wid.
              let s = s\<lparr>sk_worker_id := wid\<rparr> in
              if off + received = 12 then
                on_worker_idle os i (set_socket i (s\<lparr>sk_read_offset := 0\<rparr>) m)
              else Inr (set_socket i (s\<lparr>sk_read_offset := word_of_int (off + received)\<rparr>) m))
          else Inr (set_socket i (s\<lparr>sk_read_offset := word_of_int (off + received)\<rparr>) m))"

definition on_backend :: "os \<Rightarrow> nat \<Rightarrow> wl set \<Rightarrow> master \<Rightarrow> master res" where
  "on_backend os i events m =
     (let s = ms_sockets m ! i in
      if WL_SOCKET_CLOSED \<in> events then close_socket os i m
      else if WL_SOCKET_READABLE \<in> events then
        if 12 \<le> unat (sk_read_offset s) then Inr (modify_wait os (sk_pos s) {WL_SOCKET_CLOSED} m)
        else
          (case os_recv os (ms_log m) (sk_fd s) (12 - unat (sk_read_offset s)) of
             None \<Rightarrow>
               res_bind (close_socket os i (add_log [RecvFailed (sk_fd s)] m)) (\<lambda>m.
                 on_backend_bytes os i (-1) [] m)
           | Some buf \<Rightarrow>
               on_backend_bytes os i (int (length buf)) buf (add_log [Recv (sk_fd s) buf] m))
      else Inr m)"

section \<open>Workers that exit\<close>

fun reap_handles :: "(nat \<Rightarrow> bool) \<Rightarrow> nat option list \<Rightarrow> nat option list \<times> int" where
  "reap_handles stopped [] = ([], 0)"
| "reap_handles stopped (h # hs) =
     (let (hs', workers) = reap_handles stopped hs in
      case h of
        None \<Rightarrow> (None # hs', workers)
      | Some w \<Rightarrow> if stopped w then (None # hs', workers) else (Some w # hs', workers + 1))"

definition on_worker_died :: "os \<Rightarrow> master \<Rightarrow> master res" where
  "on_worker_died os m =
     (let (hs, workers) = reap_handles (os_stopped os (ms_log m)) (ms_worker_handles m);
          m = m\<lparr>ms_worker_handles := hs\<rparr>
      in if workers < ms_num_workers m then Inr (m\<lparr>ms_num_workers := workers\<rparr>)
         else if workers \<noteq> ms_num_workers m then Inl (Trap ''workers == num_workers'')
         else Inr m)"

section \<open>The event loop\<close>

definition on_latch :: "os \<Rightarrow> master \<Rightarrow> master res" where
  "on_latch os m =
     (if ms_worker_died m then on_worker_died os (m\<lparr>ms_worker_died := False\<rparr>) else Inr m)"

definition on_socket_event :: "os \<Rightarrow> nat \<Rightarrow> wl set \<Rightarrow> master \<Rightarrow> master res" where
  "on_socket_event os i events m =
     res_bind (if sk_type (ms_sockets m ! i) = TYPE_IPC then on_backend_connect os i events m
               else Inr m) (\<lambda>m.
     res_bind (if sk_type (ms_sockets m ! i) = TYPE_FRONTEND then on_frontend os i events m
               else Inr m) (\<lambda>m.
       if sk_type (ms_sockets m ! i) = TYPE_BACKEND then on_backend os i events m else Inr m))"

text \<open>
  One batch of events. \<open>True\<close>: the loop returned because a shutdown was requested.
\<close>

fun process_events :: "os \<Rightarrow> (nat \<times> wl set) list \<Rightarrow> master \<Rightarrow> (bool \<times> master) res" where
  "process_events os [] m = Inr (False, m)"
| "process_events os ((i, events) # evs) m =
     (if WL_LATCH_SET \<in> events \<and> ms_shutdown_requested m then Inr (True, m)
      else res_bind (if WL_LATCH_SET \<in> events then on_latch os m else Inr m) (\<lambda>m.
        res_bind (on_socket_event os i events m) (\<lambda>m. process_events os evs m)))"

text \<open>
  The loop over a sequence of batches, as \<open>WaitEventSetWaitEx\<close> gives them: it ends with the
  first shutdown (\<open>True\<close>) or is still waiting when the batches are used up.
\<close>

fun master_main_loop :: "os \<Rightarrow> (nat \<times> wl set) list list \<Rightarrow> master \<Rightarrow> (bool \<times> master) res" where
  "master_main_loop os [] m = Inr (False, m)"
| "master_main_loop os (evs # batches) m =
     res_bind (process_events os evs m) (\<lambda>(stop, m).
       if stop then Inr (True, m) else master_main_loop os batches m)"

definition master_on_sigterm :: "master \<Rightarrow> master" where
  "master_on_sigterm m = m\<lparr>ms_shutdown_requested := True\<rparr>"

definition master_on_sigusr1 :: "master \<Rightarrow> master" where
  "master_on_sigusr1 m = m\<lparr>ms_worker_died := True\<rparr>"

section \<open>Start and end of the process\<close>

text \<open>
  \<open>listen_frontend\<close>: \<open>SplitGUCList\<close> and \<open>StreamServerPort\<close> are Postgres code; the second
  fills the first free entries of the array and says whether it succeeded. \<open>None\<close> is the
  address \<open>NULL\<close> that stands for all interfaces.
\<close>

definition PGINVALID_SOCKET :: int where "PGINVALID_SOCKET = -1"

fun listen_addresses ::
  "(string option \<Rightarrow> int list \<Rightarrow> bool \<times> int list) \<Rightarrow> string list \<Rightarrow> nat \<Rightarrow> int list \<Rightarrow> nat \<times> int list"
where
  "listen_addresses serve [] success socks = (success, socks)"
| "listen_addresses serve (addr # addrs) success socks =
     (let (ok, socks) = serve (if addr = ''*'' then None else Some addr) socks
      in listen_addresses serve addrs (if ok then success + 1 else success) socks)"

definition listen_frontend ::
  "(string \<Rightarrow> string list option) \<Rightarrow> (string option \<Rightarrow> int list \<Rightarrow> bool \<times> int list) \<Rightarrow> string
   \<Rightarrow> (nat \<times> int list) res" where
  "listen_frontend split serve rst_listen_addresses =
     (let socks = replicate MAXLISTEN PGINVALID_SOCKET in
      case split rst_listen_addresses of
        None \<Rightarrow> Inl (PgError ''invalid list syntax in parameter listen_addresses'')
      | Some addrs \<Rightarrow>
          let (success, socks) = listen_addresses serve addrs 0 socks in
          if success = 0 \<and> addrs \<noteq> [] then
            Inl (PgError ''could not create any TCP/IP sockets'')
          else
            let nsockets = length (takeWhile (\<lambda>s. s \<noteq> PGINVALID_SOCKET) (take MAXLISTEN socks)) in
            if nsockets = 0 then Inl (PgError ''no socket created for listening'')
            else Inr (nsockets, socks))"

text \<open>One socket of \<open>startup\<close>: the next position, its fields, its registration.\<close>

definition add_socket :: "os \<Rightarrow> sock_type \<Rightarrow> int \<Rightarrow> wl set \<Rightarrow> master \<Rightarrow> master res" where
  "add_socket os ty fd evs m =
     (let k = NextWaitEventPos (ms_wait_set m) in
      if k < 0 \<or> int (length (ms_sockets m)) \<le> k then Inl (Undefined ''sockets[pos]'')
      else
        let s = (ms_sockets m ! nat k)\<lparr>sk_type := ty, sk_fd := fd\<rparr>;
            (es, pos) = AddWaitEventToSetEx (os_add os) (ms_wait_set m)
              \<lparr>we_events = evs, we_fd = fd, we_user_data = nat k\<rparr>;
            m = set_socket (nat k) (s\<lparr>sk_pos := pos\<rparr>) (m\<lparr>ms_wait_set := es\<rparr>)
        in if pos = -1 then Inl (Trap ''socket->pos != -1'') else Inr m)"

fun add_frontends :: "os \<Rightarrow> int list \<Rightarrow> master \<Rightarrow> master res" where
  "add_frontends os [] m = Inr m"
| "add_frontends os (fd # fds) m =
     (if fd = PGINVALID_SOCKET then Inl (PgError ''no socket created for listening'')
      else res_bind (add_socket os TYPE_FRONTEND fd {WL_SOCKET_ACCEPT} m) (add_frontends os fds))"

text \<open>
  \<open>startup\<close> after \<open>listen_frontend\<close> and \<open>listen_backend\<close> have given their sockets. The
  latch occupies the first position with a socket entry of type \<open>TYPE_UNSET\<close>.
\<close>

definition master_init :: "nat \<Rightarrow> nat \<Rightarrow> master" where
  "master_init num_listen_sockets max_worker_processes =
     (let total = 1 + num_listen_sockets + max_worker_processes in
      \<lparr>ms_wait_set = CreateWaitEventSetEx total,
       ms_sockets = replicate total zero_socket,
       ms_total_sockets = total,
       ms_shutdown_requested = False,
       ms_worker_died = False,
       ms_idle = ring_new (replicate total 0),
       ms_num_workers = 0,
       ms_worker_handles = replicate max_worker_processes None,
       ms_jobs = ring_new (replicate JOB_QLEN 0),
       ms_frontend_paused = False,
       ms_worker_id_seq = 0,
       ms_max_worker_processes = max_worker_processes,
       ms_log = []\<rparr>)"

definition master_startup :: "os \<Rightarrow> int list \<Rightarrow> int \<Rightarrow> nat \<Rightarrow> master res" where
  "master_startup os listen_sockets ipc_sock max_worker_processes =
     res_bind (add_socket os TYPE_UNSET (-1) {WL_LATCH_SET}
         (master_init (length listen_sockets) max_worker_processes))
       (\<lambda>m. res_bind (add_socket os TYPE_IPC ipc_sock {WL_SOCKET_ACCEPT} m)
         (add_frontends os listen_sockets))"

fun close_all :: "socket list \<Rightarrow> socket list \<times> int list" where
  "close_all [] = ([], [])"
| "close_all (s # ss) =
     (let (ss', fds) = close_all ss in
      if sk_type s \<noteq> TYPE_UNSET then (s\<lparr>sk_type := TYPE_UNSET\<rparr> # ss', sk_fd s # fds)
      else (s # ss', fds))"

definition master_teardown :: "master \<Rightarrow> master" where
  "master_teardown m =
     (let (socks, fds) = close_all (take (ms_total_sockets m) (ms_sockets m)) in
      add_log (map StreamClose fds) (m\<lparr>ms_sockets := socks\<rparr>))"

definition rustica_master ::
  "os \<Rightarrow> int list \<Rightarrow> int \<Rightarrow> nat \<Rightarrow> (nat \<times> wl set) list list \<Rightarrow> (bool \<times> master) res" where
  "rustica_master os listen_sockets ipc_sock max_worker_processes batches =
     res_bind (master_startup os listen_sockets ipc_sock max_worker_processes) (\<lambda>m.
     res_bind (master_main_loop os batches m) (\<lambda>(stop, m).
       Inr (stop, if stop then master_teardown m else m)))"

end
