(* ===== verification/MasterInv.thy ===== *)
theory MasterInv
  imports Master
begin

text \<open>
  The invariants of the dispatcher and their preservation by every handler: the wait set
  and the socket table agree, the two queues are well formed, the worker handles agree with
  their count, the frontends' masks agree with the paused flag, and jobs leave in the order
  in which they came.
\<close>

section \<open>Invariants\<close>

abbreviation event_at :: "master \<Rightarrow> nat \<Rightarrow> wait_event option" where
  "event_at m i \<equiv> ws_events (es_wait_set (ms_wait_set m)) i"

abbreviation type_at :: "master \<Rightarrow> nat \<Rightarrow> sock_type" where
  "type_at m i \<equiv> sk_type (ms_sockets m ! i)"

definition mask_of :: "master \<Rightarrow> nat \<Rightarrow> wl set option" where
  "mask_of m i = map_option we_events (event_at m i)"

definition table_inv :: "master \<Rightarrow> bool" where
  "table_inv m \<longleftrightarrow> es_inv (ms_wait_set m) \<and> es_space (ms_wait_set m) = ms_total_sockets m \<and>
     length (ms_sockets m) = ms_total_sockets m \<and> 0 < ms_total_sockets m \<and>
     type_at m 0 = TYPE_UNSET \<and>
     es_live (ms_wait_set m) = insert 0 {i. i < ms_total_sockets m \<and> type_at m i \<noteq> TYPE_UNSET}"

text \<open>An open socket knows its position, and its event names its descriptor and the socket.\<close>

definition registered :: "master \<Rightarrow> nat \<Rightarrow> bool" where
  "registered m i \<longleftrightarrow> sk_pos (ms_sockets m ! i) = int i \<and>
     (\<exists>ev. event_at m i = Some ev \<and> we_fd ev = sk_fd (ms_sockets m ! i) \<and> we_user_data ev = i)"

definition link_inv :: "master \<Rightarrow> bool" where
  "link_inv m \<longleftrightarrow> (\<forall>i < ms_total_sockets m. type_at m i \<noteq> TYPE_UNSET \<longrightarrow> registered m i)"

definition sock_ok :: "socket \<Rightarrow> bool" where
  "sock_ok s \<longleftrightarrow> length (sk_worker_id s) = 4 \<and>
     (unat (sk_read_offset s) < 12 \<or> sk_read_offset s = 255)"

definition sock_inv :: "master \<Rightarrow> bool" where
  "sock_inv m \<longleftrightarrow> (\<forall>s \<in> set (ms_sockets m). sock_ok s)"

definition queue_inv :: "master \<Rightarrow> bool" where
  "queue_inv m \<longleftrightarrow> ring_ok (ms_idle m) \<and> rq_cap (ms_idle m) = ms_total_sockets m \<and>
     (\<forall>x \<in> set (ring_list (ms_idle m)). 0 \<le> x \<and> x < int (ms_total_sockets m)) \<and>
     ring_ok (ms_jobs m) \<and> rq_cap (ms_jobs m) = JOB_QLEN \<and>
     (ms_frontend_paused m \<longleftrightarrow> rq_size (ms_jobs m) = JOB_QLEN) \<and>
     (0 < rq_size (ms_jobs m) \<longrightarrow> rq_size (ms_idle m) = 0)"

definition handle_inv :: "master \<Rightarrow> bool" where
  "handle_inv m \<longleftrightarrow> length (ms_worker_handles m) = ms_max_worker_processes m \<and>
     ms_num_workers m = int (length (filter (\<lambda>h. h \<noteq> None) (ms_worker_handles m))) \<and>
     ms_num_workers m \<le> max 0 (int (ms_max_worker_processes m) - 2)"

definition frontend_mask :: "master \<Rightarrow> wl set" where
  "frontend_mask m = (if ms_frontend_paused m then {WL_SOCKET_CLOSED} else {WL_SOCKET_ACCEPT})"

definition mask_inv :: "master \<Rightarrow> bool" where
  "mask_inv m \<longleftrightarrow> (\<forall>i < ms_total_sockets m. type_at m i = TYPE_FRONTEND \<longrightarrow>
     mask_of m i = Some (frontend_mask m))"

text \<open>
  The connections accepted and not refused, and the connections handed to workers, both in
  the order of the log.
\<close>

fun kept_jobs :: "log \<Rightarrow> int list" where
  "kept_jobs [] = []"
| "kept_jobs (AcceptFrontend fd # l) = kept_jobs l @ [fd]"
| "kept_jobs (LogQueueFull fd # l) = butlast (kept_jobs l)"
| "kept_jobs (_ # l) = kept_jobs l"

fun sent_jobs :: "log \<Rightarrow> int list" where
  "sent_jobs [] = []"
| "sent_jobs (SendFd w job # l) = sent_jobs l @ [job]"
| "sent_jobs (_ # l) = sent_jobs l"

definition fifo_inv :: "master \<Rightarrow> bool" where
  "fifo_inv m \<longleftrightarrow> kept_jobs (ms_log m) = sent_jobs (ms_log m) @ ring_list (ms_jobs m)"

definition base_inv :: "master \<Rightarrow> bool" where
  "base_inv m \<longleftrightarrow> table_inv m \<and> link_inv m \<and> sock_inv m \<and> queue_inv m \<and> handle_inv m \<and> mask_inv m"

definition master_inv :: "master \<Rightarrow> bool" where
  "master_inv m \<longleftrightarrow> base_inv m \<and> fifo_inv m"

lemmas part_invs = table_inv_def link_inv_def sock_inv_def queue_inv_def handle_inv_def mask_inv_def

lemma base_invD:
  assumes "base_inv m"
  shows "table_inv m" "link_inv m" "sock_inv m" "queue_inv m" "handle_inv m" "mask_inv m"
  using assms by (simp_all add: base_inv_def)

lemma table_invD:
  assumes "table_inv m"
  shows "es_inv (ms_wait_set m)" "es_space (ms_wait_set m) = ms_total_sockets m"
    "length (ms_sockets m) = ms_total_sockets m" "0 < ms_total_sockets m"
    "type_at m 0 = TYPE_UNSET"
    "es_live (ms_wait_set m) = insert 0 {i. i < ms_total_sockets m \<and> type_at m i \<noteq> TYPE_UNSET}"
  using assms by (simp_all add: table_inv_def)

lemma open_live:
  "table_inv m \<Longrightarrow> i < ms_total_sockets m \<Longrightarrow> type_at m i \<noteq> TYPE_UNSET \<Longrightarrow>
    i \<in> es_live (ms_wait_set m)"
  by (simp add: table_inv_def)

lemma link_pos:
  "link_inv m \<Longrightarrow> i < ms_total_sockets m \<Longrightarrow> type_at m i \<noteq> TYPE_UNSET \<Longrightarrow>
    sk_pos (ms_sockets m ! i) = int i"
  by (simp add: link_inv_def registered_def)

lemma zero_socket_ok [simp]: "sock_ok zero_socket"
  by (simp add: sock_ok_def zero_socket_def)

section \<open>Frames\<close>

lemma add_log_sel [frame_simps, simp]:
  "ms_wait_set (add_log cs m) = ms_wait_set m" "ms_sockets (add_log cs m) = ms_sockets m"
  "ms_total_sockets (add_log cs m) = ms_total_sockets m"
  "ms_shutdown_requested (add_log cs m) = ms_shutdown_requested m"
  "ms_worker_died (add_log cs m) = ms_worker_died m"
  "ms_idle (add_log cs m) = ms_idle m" "ms_num_workers (add_log cs m) = ms_num_workers m"
  "ms_worker_handles (add_log cs m) = ms_worker_handles m" "ms_jobs (add_log cs m) = ms_jobs m"
  "ms_frontend_paused (add_log cs m) = ms_frontend_paused m"
  "ms_worker_id_seq (add_log cs m) = ms_worker_id_seq m"
  "ms_max_worker_processes (add_log cs m) = ms_max_worker_processes m"
  "ms_log (add_log cs m) = rev cs @ ms_log m"
  by (simp_all add: add_log_def)

lemma base_inv_add_log [simp]: "base_inv (add_log cs m) = base_inv m"
  by (simp add: base_inv_def part_invs registered_def mask_of_def frontend_mask_def)

lemma set_socket_sel [frame_simps, simp]:
  "ms_wait_set (set_socket i s m) = ms_wait_set m"
  "ms_sockets (set_socket i s m) = (ms_sockets m)[i := s]"
  "ms_total_sockets (set_socket i s m) = ms_total_sockets m"
  "ms_idle (set_socket i s m) = ms_idle m" "ms_num_workers (set_socket i s m) = ms_num_workers m"
  "ms_worker_handles (set_socket i s m) = ms_worker_handles m"
  "ms_jobs (set_socket i s m) = ms_jobs m"
  "ms_frontend_paused (set_socket i s m) = ms_frontend_paused m"
  "ms_max_worker_processes (set_socket i s m) = ms_max_worker_processes m"
  "ms_log (set_socket i s m) = ms_log m"
  by (simp_all add: set_socket_def)

lemma modify_wait_sel [frame_simps, simp]:
  "ms_sockets (modify_wait os pos evs m) = ms_sockets m"
  "ms_total_sockets (modify_wait os pos evs m) = ms_total_sockets m"
  "ms_shutdown_requested (modify_wait os pos evs m) = ms_shutdown_requested m"
  "ms_worker_died (modify_wait os pos evs m) = ms_worker_died m"
  "ms_idle (modify_wait os pos evs m) = ms_idle m"
  "ms_num_workers (modify_wait os pos evs m) = ms_num_workers m"
  "ms_worker_handles (modify_wait os pos evs m) = ms_worker_handles m"
  "ms_jobs (modify_wait os pos evs m) = ms_jobs m"
  "ms_frontend_paused (modify_wait os pos evs m) = ms_frontend_paused m"
  "ms_worker_id_seq (modify_wait os pos evs m) = ms_worker_id_seq m"
  "ms_max_worker_processes (modify_wait os pos evs m) = ms_max_worker_processes m"
  "ms_log (modify_wait os pos evs m) = ms_log m"
  by (simp_all add: modify_wait_def)

section \<open>Changing a mask\<close>

lemma os_lawD:
  assumes "os_law os"
  shows "add_event_law (os_add os)" "modify_event_law (os_modify os)"
    "os_recv os l fd n = Some bs \<Longrightarrow> length bs \<le> n"
  using assms by (auto simp: os_law_def)

lemma modify_wait_at:
  assumes "os_law os" "table_inv m" "i < ms_total_sockets m" "type_at m i \<noteq> TYPE_UNSET"
  shows "table_inv (modify_wait os (int i) evs m)"
    "event_at (modify_wait os (int i) evs m) =
      (\<lambda>j. if j = i then map_option (we_events_update (\<lambda>_. evs)) (event_at m i) else event_at m j)"
proof -
  note live = open_live[OF assms(2-4)] and md = os_lawD(2)[OF assms(1)]
  note es = table_invD(1)[OF assms(2)]
  show "table_inv (modify_wait os (int i) evs m)"
    using assms(2) ModifyWaitEventEx_free[OF md es live] ModifyWaitEventEx_inv[OF md es live]
    by (simp add: table_inv_def modify_wait_def)
  obtain ev where ev: "event_at m i = Some ev" using es_live_event[OF es live] by blast
  show "event_at (modify_wait os (int i) evs m) =
      (\<lambda>j. if j = i then map_option (we_events_update (\<lambda>_. evs)) (event_at m i) else event_at m j)"
    using ModifyWaitEventEx_sel(4)[OF md es live ev] ev
    by (auto simp: modify_wait_def)
qed

lemma modify_wait_link:
  assumes "os_law os" "table_inv m" "link_inv m" "i < ms_total_sockets m"
    "type_at m i \<noteq> TYPE_UNSET"
  shows "link_inv (modify_wait os (int i) evs m)"
  using assms(3) modify_wait_at(2)[OF assms(1,2,4,5)]
  by (auto simp: link_inv_def registered_def)

lemma modify_wait_mask_of:
  assumes "os_law os" "table_inv m" "i < ms_total_sockets m" "type_at m i \<noteq> TYPE_UNSET"
  shows "mask_of (modify_wait os (int i) evs m) j = (if j = i then Some evs else mask_of m j)"
proof -
  obtain ev where "event_at m i = Some ev"
    using es_live_event[OF table_invD(1)[OF assms(2)] open_live[OF assms(2-4)]] by blast
  with modify_wait_at(2)[OF assms] show ?thesis by (simp add: mask_of_def)
qed

lemma modify_wait_base_inv [inv_intros]:
  assumes "os_law os" "base_inv m" "i < ms_total_sockets m" "type_at m i = TYPE_BACKEND"
  shows "base_inv (modify_wait os (int i) evs m)"
proof -
  note parts = base_invD[OF assms(2)]
  have "type_at m i \<noteq> TYPE_UNSET" using assms(4) by simp
  note args = assms(1) parts(1) assms(3) this
  have "mask_inv (modify_wait os (int i) evs m)"
    using parts(6) assms(4)
    by (simp add: mask_inv_def modify_wait_mask_of[OF args] frontend_mask_def)
  with parts modify_wait_at(1)[OF args] modify_wait_link[OF args(1,2) parts(2) args(3,4)]
  show ?thesis by (simp add: base_inv_def part_invs)
qed

text \<open>The loop over all frontends changes the wait set alone, and there the frontends' masks.\<close>

lemma set_frontend_masks_fold:
  assumes "os_law os" "table_inv m" "link_inv m" "\<forall>i \<in> set is. i < ms_total_sockets m"
  shows "\<exists>es. fold (\<lambda>i m. if type_at m i = TYPE_FRONTEND
                then modify_wait os (sk_pos (ms_sockets m ! i)) evs m else m) is m
              = m\<lparr>ms_wait_set := es\<rparr> \<and> table_inv (m\<lparr>ms_wait_set := es\<rparr>) \<and>
            link_inv (m\<lparr>ms_wait_set := es\<rparr>) \<and>
            (\<forall>j. mask_of (m\<lparr>ms_wait_set := es\<rparr>) j =
              (if j \<in> set is \<and> type_at m j = TYPE_FRONTEND then Some evs else mask_of m j))"
  using assms
proof (induction "is" arbitrary: m)
  case Nil
  then show ?case by (intro exI [of _ "ms_wait_set m"]) simp
next
  case (Cons i "is")
  show ?case
  proof (cases "type_at m i = TYPE_FRONTEND")
    case False
    with Cons.IH[OF Cons.prems(1-3)] Cons.prems(4) show ?thesis by auto
  next
    case True
    let ?m = "modify_wait os (int i) evs m"
    have i: "i < ms_total_sockets m" "type_at m i \<noteq> TYPE_UNSET"
      using Cons.prems(4) True by simp_all
    have pos: "sk_pos (ms_sockets m ! i) = int i" by (rule link_pos[OF Cons.prems(3) i])
    have IH: "\<exists>es. fold (\<lambda>i m. if type_at m i = TYPE_FRONTEND
                then modify_wait os (sk_pos (ms_sockets m ! i)) evs m else m) is ?m
              = ?m\<lparr>ms_wait_set := es\<rparr> \<and> table_inv (?m\<lparr>ms_wait_set := es\<rparr>) \<and>
            link_inv (?m\<lparr>ms_wait_set := es\<rparr>) \<and>
            (\<forall>j. mask_of (?m\<lparr>ms_wait_set := es\<rparr>) j =
              (if j \<in> set is \<and> type_at ?m j = TYPE_FRONTEND then Some evs else mask_of ?m j))"
      using Cons.prems(4)
      by (intro Cons.IH modify_wait_at(1) modify_wait_link Cons.prems(1-3) i) auto
    then obtain es where es: "fold (\<lambda>i m. if type_at m i = TYPE_FRONTEND
                then modify_wait os (sk_pos (ms_sockets m ! i)) evs m else m) is ?m
              = m\<lparr>ms_wait_set := es\<rparr>" "table_inv (m\<lparr>ms_wait_set := es\<rparr>)"
            "link_inv (m\<lparr>ms_wait_set := es\<rparr>)"
            "\<forall>j. mask_of (m\<lparr>ms_wait_set := es\<rparr>) j =
              (if j \<in> set is \<and> type_at m j = TYPE_FRONTEND then Some evs else mask_of ?m j)"
      by (auto simp: modify_wait_def)
    show ?thesis
      using es True pos modify_wait_mask_of[OF Cons.prems(1,2) i]
      by (intro exI [of _ es]) auto
  qed
qed

lemma set_frontend_masks_obtain:
  assumes "os_law os" "table_inv m" "link_inv m"
  obtains es where "set_frontend_masks os evs m = m\<lparr>ms_wait_set := es\<rparr>"
    "table_inv (m\<lparr>ms_wait_set := es\<rparr>)" "link_inv (m\<lparr>ms_wait_set := es\<rparr>)"
    "\<And>i. i < ms_total_sockets m \<Longrightarrow> type_at m i = TYPE_FRONTEND \<Longrightarrow>
       mask_of (m\<lparr>ms_wait_set := es\<rparr>) i = Some evs"
proof -
  have "\<forall>i \<in> set [0..<ms_total_sockets m]. i < ms_total_sockets m" by simp
  from set_frontend_masks_fold[OF assms this, of evs] that show thesis
    unfolding set_frontend_masks_def by auto
qed

lemma set_frontend_masks_sel [frame_simps, simp]:
  "ms_sockets (set_frontend_masks os evs m) = ms_sockets m"
  "ms_total_sockets (set_frontend_masks os evs m) = ms_total_sockets m"
  "ms_idle (set_frontend_masks os evs m) = ms_idle m"
  "ms_num_workers (set_frontend_masks os evs m) = ms_num_workers m"
  "ms_worker_handles (set_frontend_masks os evs m) = ms_worker_handles m"
  "ms_jobs (set_frontend_masks os evs m) = ms_jobs m"
  "ms_frontend_paused (set_frontend_masks os evs m) = ms_frontend_paused m"
  "ms_max_worker_processes (set_frontend_masks os evs m) = ms_max_worker_processes m"
  "ms_log (set_frontend_masks os evs m) = ms_log m"
proof -
  have "\<exists>es. fold (\<lambda>i m. if type_at m i = TYPE_FRONTEND
          then modify_wait os (sk_pos (ms_sockets m ! i)) evs m else m) xs m = m\<lparr>ms_wait_set := es\<rparr>"
    for xs
  proof (induction xs arbitrary: m)
    case Nil
    then show ?case by (intro exI [of _ "ms_wait_set m"]) simp
  next
    case (Cons x xs)
    show ?case
    proof (cases "type_at m x = TYPE_FRONTEND")
      case True
      from Cons.IH[of "modify_wait os (sk_pos (ms_sockets m ! x)) evs m"] True show ?thesis
        by (auto simp: modify_wait_def)
    qed (use Cons.IH[of m] in auto)
  qed
  then obtain es where "set_frontend_masks os evs m = m\<lparr>ms_wait_set := es\<rparr>"
    unfolding set_frontend_masks_def by blast
  then show
    "ms_sockets (set_frontend_masks os evs m) = ms_sockets m"
    "ms_total_sockets (set_frontend_masks os evs m) = ms_total_sockets m"
    "ms_idle (set_frontend_masks os evs m) = ms_idle m"
    "ms_num_workers (set_frontend_masks os evs m) = ms_num_workers m"
    "ms_worker_handles (set_frontend_masks os evs m) = ms_worker_handles m"
    "ms_jobs (set_frontend_masks os evs m) = ms_jobs m"
    "ms_frontend_paused (set_frontend_masks os evs m) = ms_frontend_paused m"
    "ms_max_worker_processes (set_frontend_masks os evs m) = ms_max_worker_processes m"
    "ms_log (set_frontend_masks os evs m) = ms_log m"
    by simp_all
qed

end
