(* ===== verification/MasterStep.thy ===== *)
theory MasterStep
  imports MasterInv
begin

text \<open>
  Every handler of the dispatcher keeps the invariants of MasterInv, and the only ways it can
  fail are the three of \<open>master_failures\<close>: \<open>epoll_ctl\<close> refuses to remove a descriptor, a
  worker connects while the wait set is full (the code then writes \<open>sockets[-1]\<close>), and the
  idle queue overflows with entries of workers that have gone.
\<close>

definition master_failures :: "failure set" where
  "master_failures = {PgError ''epoll_ctl() failed'', Undefined ''sockets[pos]'',
     Trap ''idle_qsize < total_sockets''}"

section \<open>Attaching and closing a socket\<close>

lemma next_pos:
  assumes "base_inv m" "es_used (ms_wait_set m) < es_space (ms_wait_set m)"
  obtains k where "NextWaitEventPos (ms_wait_set m) = int k" "k < ms_total_sockets m"
    "k \<notin> es_live (ms_wait_set m)" "k \<noteq> 0" "type_at m k = TYPE_UNSET"
proof -
  note t = table_invD[OF base_invD(1)[OF assms(1)]]
  have "NextWaitEventPos (ms_wait_set m) = int (hd (es_free (ms_wait_set m)))"
    and "es_free (ms_wait_set m) \<noteq> []"
    using NextWaitEventPos_free[OF t(1) assms(2)] by blast+
  moreover from this(2) have free: "hd (es_free (ms_wait_set m)) \<in> set (es_free (ms_wait_set m))"
    by simp
  moreover have "hd (es_free (ms_wait_set m)) < ms_total_sockets m"
    using free es_invD(5)[OF t(1)] t(2) by auto
  moreover have "hd (es_free (ms_wait_set m)) \<notin> es_live (ms_wait_set m)"
    using free by (simp add: es_live_def)
  ultimately show thesis using that t(6) by auto
qed

lemma next_pos_full:
  "base_inv m \<Longrightarrow> \<not> es_used (ms_wait_set m) < es_space (ms_wait_set m) \<Longrightarrow>
    NextWaitEventPos (ms_wait_set m) = -1"
  using es_invD(3)[OF table_invD(1)[OF base_invD(1), of m]] by (simp add: NextWaitEventPos_def)

text \<open>
  The common part of \<open>startup\<close> and \<open>on_backend_connect\<close>: a fresh entry of the table takes a
  descriptor and is registered.
\<close>

lemma attach_base_inv:
  assumes "os_law os" "base_inv m" "NextWaitEventPos (ms_wait_set m) = int k"
    and "es_used (ms_wait_set m) < es_space (ms_wait_set m)"
    and "AddWaitEventToSetEx (os_add os) (ms_wait_set m)
          \<lparr>we_events = evs, we_fd = fd, we_user_data = k\<rparr> = (es, pos)"
    and "ty \<noteq> TYPE_UNSET" "ty = TYPE_FRONTEND \<longrightarrow> evs = frontend_mask m"
  shows "base_inv (set_socket k ((ms_sockets m ! k)\<lparr>sk_type := ty, sk_fd := fd, sk_pos := pos\<rparr>)
          (m\<lparr>ms_wait_set := es\<rparr>))" "pos = int k"
proof -
  note parts = base_invD[OF assms(2)] and t = table_invD[OF base_invD(1)[OF assms(2)]]
  note add = os_lawD(1)[OF assms(1)]
  note live = AddWaitEventToSetEx_live[OF add t(1) assms(4,5)]
    and free = AddWaitEventToSetEx_free[OF add t(1) assms(4,5)]
  show pos: "pos = int k" using live(4) assms(3) by simp
  have k: "k < ms_total_sockets m" "k \<notin> es_live (ms_wait_set m)" "k \<noteq> 0"
    using next_pos[OF assms(2,4)] assms(3) by (metis of_nat_eq_iff)+
  have hd: "hd (es_free (ms_wait_set m)) = k" using free(1) pos by simp
  have es: "es_inv es" using AddWaitEventToSetEx_inv[OF add t(1)] assms(5) by (metis fst_conv)
  let ?m = "set_socket k ((ms_sockets m ! k)\<lparr>sk_type := ty, sk_fd := fd, sk_pos := pos\<rparr>)
          (m\<lparr>ms_wait_set := es\<rparr>)"
  have "table_inv ?m"
    using t es k live(1) free(3) pos assms(6)
    by (auto simp: table_inv_def nth_list_update)
  moreover have "link_inv ?m"
    using parts(2) t k free(5) hd pos by (auto simp: link_inv_def registered_def nth_list_update)
  moreover have "sock_inv ?m"
  proof -
    have "sock_ok (ms_sockets m ! k)" using parts(3) t k by (simp add: sock_inv_def)
    then have "sock_ok ((ms_sockets m ! k)\<lparr>sk_type := ty, sk_fd := fd, sk_pos := pos\<rparr>)"
      by (simp add: sock_ok_def)
    then show ?thesis
      using parts(3) by (auto simp: sock_inv_def dest!: set_update_subset_insert [THEN subsetD])
  qed
  moreover have "mask_inv ?m"
    using parts(6) t k free(5) hd assms(7)
    by (auto simp: mask_inv_def mask_of_def nth_list_update frontend_mask_def)
  ultimately show "base_inv ?m"
    using parts by (simp add: base_inv_def queue_inv_def handle_inv_def)
qed

lemma close_socket_sat:
  assumes "os_law os" "base_inv m" "i < ms_total_sockets m" "type_at m i \<noteq> TYPE_UNSET"
  shows "res_sat {PgError ''epoll_ctl() failed''} (\<lambda>m'. base_inv m' \<and>
     ms_sockets m' = (ms_sockets m)[i := zero_socket] \<and> ms_total_sockets m' = ms_total_sockets m \<and>
     ms_idle m' = ms_idle m \<and> ms_jobs m' = ms_jobs m \<and> ms_frontend_paused m' = ms_frontend_paused m \<and>
     ms_log m' = StreamClose (sk_fd (ms_sockets m ! i)) # ms_log m) (close_socket os i m)"
proof -
  note parts = base_invD[OF assms(2)] and t = table_invD[OF base_invD(1)[OF assms(2)]]
  have live: "i \<in> es_live (ms_wait_set m)" by (rule open_live[OF parts(1) assms(3,4)])
  have pos: "sk_pos (ms_sockets m ! i) = int i" by (rule link_pos[OF parts(2) assms(3,4)])
  have i0: "i \<noteq> 0" using t(5) assms(4) by metis
  show ?thesis
  proof (cases "DeleteWaitEventEx (os_epoll_del os (ms_log m)) (ms_wait_set m) (int i)")
    case (Inl e)
    then have "e = PgError ''epoll_ctl() failed''"
      by (rule DeleteWaitEventEx_Inl[OF t(1) live])
    with Inl show ?thesis by (simp add: close_socket_def pos Let_def)
  next
    case (Inr es)
    note del = DeleteWaitEventEx_free[OF t(1) live Inr] DeleteWaitEventEx_live[OF t(1) live Inr]
      DeleteWaitEventEx_inv[OF t(1) live Inr]
    let ?m = "set_socket i zero_socket
      (add_log [StreamClose (sk_fd (ms_sockets m ! i))] (m\<lparr>ms_wait_set := es\<rparr>))"
    have "table_inv ?m"
      using t del i0 assms(3) by (auto simp: table_inv_def nth_list_update zero_socket_def)
    moreover have "link_inv ?m"
      using parts(2) t del assms(3) by (auto simp: link_inv_def registered_def nth_list_update zero_socket_def)
    moreover have "sock_inv ?m"
      using parts(3) by (auto simp: sock_inv_def dest!: set_update_subset_insert [THEN subsetD])
    moreover have "mask_inv ?m"
      using parts(6) t del assms(3)
      by (auto simp: mask_inv_def mask_of_def nth_list_update frontend_mask_def zero_socket_def)
    ultimately have "base_inv ?m"
      using parts by (simp add: base_inv_def queue_inv_def handle_inv_def)
    with Inr show ?thesis by (simp add: close_socket_def pos Let_def)
  qed
qed

lemma on_backend_connect_sat:
  assumes "os_law os" "master_inv m"
  shows "res_sat master_failures (\<lambda>m'. master_inv m' \<and> ms_total_sockets m' = ms_total_sockets m)
    (on_backend_connect os i evs m)"
proof (cases "os_accept os (ms_log m) (sk_fd (ms_sockets m ! i))")
  case None
  with assms(2) show ?thesis
    by (simp add: on_backend_connect_def master_inv_def fifo_inv_def)
next
  case (Some sock)
  have inv: "base_inv m" using assms(2) by (simp add: master_inv_def)
  have len: "length (ms_sockets m) = ms_total_sockets m"
    by (rule table_invD(3)[OF base_invD(1)[OF inv]])
  show ?thesis
  proof (cases "es_used (ms_wait_set m) < es_space (ms_wait_set m)")
    case False
    with next_pos_full[OF inv False] Some assms(2) show ?thesis
      by (simp add: on_backend_connect_def master_failures_def)
  next
    case True
    obtain k where k: "NextWaitEventPos (ms_wait_set m) = int k" "k < ms_total_sockets m"
      by (rule next_pos[OF inv True])
    obtain es pos where add: "AddWaitEventToSetEx (os_add os) (ms_wait_set m)
        \<lparr>we_events = {WL_SOCKET_READABLE, WL_SOCKET_CLOSED}, we_fd = sock, we_user_data = k\<rparr> = (es, pos)"
      by (cases "AddWaitEventToSetEx (os_add os) (ms_wait_set m)
        \<lparr>we_events = {WL_SOCKET_READABLE, WL_SOCKET_CLOSED}, we_fd = sock, we_user_data = k\<rparr>") auto
    note att = attach_base_inv[OF assms(1) inv k(1) True add, of TYPE_BACKEND]
    let ?m = "set_socket k ((ms_sockets m ! k)\<lparr>sk_type := TYPE_BACKEND, sk_fd := sock, sk_pos := pos\<rparr>)
          (m\<lparr>ms_wait_set := es\<rparr>)"
    have "on_backend_connect os i evs m = (if WL_SOCKET_ACCEPT \<notin> evs then Inr m
        else Inr (add_log [AcceptBackend sock] ?m))"
      using Some k add att(2) len
      by (simp add: on_backend_connect_def Let_def add_log_def set_socket_def)
    moreover have "base_inv (add_log [AcceptBackend sock] ?m)"
      using att(1) by simp
    ultimately show ?thesis
      using assms(2) by (simp add: master_inv_def fifo_inv_def)
  qed
qed

section \<open>A frontend connection\<close>

lemma table_type_lt:
  "base_inv m \<Longrightarrow> length (ms_sockets m) = ms_total_sockets m"
  by (rule table_invD(3)[OF base_invD(1)])

lemma part_frames [frame_simps, simp]:
  "table_inv (m\<lparr>ms_idle := q\<rparr>) = table_inv m" "link_inv (m\<lparr>ms_idle := q\<rparr>) = link_inv m"
  "sock_inv (m\<lparr>ms_idle := q\<rparr>) = sock_inv m" "handle_inv (m\<lparr>ms_idle := q\<rparr>) = handle_inv m"
  "mask_inv (m\<lparr>ms_idle := q\<rparr>) = mask_inv m"
  "table_inv (m\<lparr>ms_jobs := q\<rparr>) = table_inv m" "link_inv (m\<lparr>ms_jobs := q\<rparr>) = link_inv m"
  "sock_inv (m\<lparr>ms_jobs := q\<rparr>) = sock_inv m" "handle_inv (m\<lparr>ms_jobs := q\<rparr>) = handle_inv m"
  "mask_inv (m\<lparr>ms_jobs := q\<rparr>) = mask_inv m"
  by (simp_all add: part_invs registered_def mask_of_def frontend_mask_def)

lemma worker_frames [frame_simps, simp]:
  "table_inv (m\<lparr>ms_worker_handles := h, ms_num_workers := n\<rparr>) = table_inv m"
  "link_inv (m\<lparr>ms_worker_handles := h, ms_num_workers := n\<rparr>) = link_inv m"
  "sock_inv (m\<lparr>ms_worker_handles := h, ms_num_workers := n\<rparr>) = sock_inv m"
  "queue_inv (m\<lparr>ms_worker_handles := h, ms_num_workers := n\<rparr>) = queue_inv m"
  "mask_inv (m\<lparr>ms_worker_handles := h, ms_num_workers := n\<rparr>) = mask_inv m"
  "base_inv (m\<lparr>ms_worker_id_seq := k\<rparr>) = base_inv m"
  "base_inv (m\<lparr>ms_worker_died := d\<rparr>) = base_inv m"
  by (simp_all add: base_inv_def part_invs registered_def mask_of_def frontend_mask_def)

lemma idle_pop_base_inv:
  assumes "base_inv m" "0 < rq_size (ms_idle m)"
  shows "base_inv (m\<lparr>ms_idle := ring_pop (ms_idle m)\<rparr>)"
    "0 \<le> ring_first (ms_idle m)" "ring_first (ms_idle m) < int (ms_total_sockets m)"
proof -
  have q: "ring_ok (ms_idle m)" "ring_list (ms_idle m) \<noteq> []"
    "\<forall>x \<in> set (ring_list (ms_idle m)). 0 \<le> x \<and> x < int (ms_total_sockets m)"
    using assms by (simp_all add: base_inv_def queue_inv_def)
  then show "0 \<le> ring_first (ms_idle m)" "ring_first (ms_idle m) < int (ms_total_sockets m)"
    using rq.front_in by blast+
  have "\<forall>x \<in> set (ring_list (ring_pop (ms_idle m))). 0 \<le> x \<and> x < int (ms_total_sockets m)"
    using q rq.set_deq by blast
  moreover have "ring_ok (ring_pop (ms_idle m))" using q(1) assms(2) by blast
  ultimately show "base_inv (m\<lparr>ms_idle := ring_pop (ms_idle m)\<rparr>)"
    using assms by (simp add: base_inv_def queue_inv_def)
qed

text \<open>What the dispatch loop does to the state, whether it found a worker or not.\<close>

definition dispatch_post :: "int \<Rightarrow> master \<Rightarrow> bool \<times> master \<Rightarrow> bool" where
  "dispatch_post sock m r = (case r of (done, m') \<Rightarrow>
     base_inv m' \<and> ms_total_sockets m' = ms_total_sockets m \<and> ms_jobs m' = ms_jobs m \<and>
     kept_jobs (ms_log m') = kept_jobs (ms_log m) \<and>
     (if done then 0 < rq_size (ms_idle m) \<and> sent_jobs (ms_log m') = sent_jobs (ms_log m) @ [sock] \<and>
        StreamClose sock \<in> set (ms_log m')
      else rq_size (ms_idle m') = 0 \<and> sent_jobs (ms_log m') = sent_jobs (ms_log m)))"

lemma dispatch_to_idle_sat:
  assumes "os_law os" "base_inv m"
  shows "res_sat master_failures (dispatch_post sock m) (dispatch_to_idle os sock m)"
  using assms
proof (induction os sock m rule: dispatch_to_idle.induct)
  case (1 os sock m)
  show ?case
  proof (cases "rq_size (ms_idle m) = 0")
    case True
    with "1.prems"(2) show ?thesis
      by (simp add: dispatch_to_idle.simps [of os sock m] dispatch_post_def)
  next
    case False
    define b where "b = ring_first (ms_idle m)"
    define m1 where "m1 = m\<lparr>ms_idle := ring_pop (ms_idle m)\<rparr>"
    have pos: "0 < rq_size (ms_idle m)" using False by simp
    note pop = idle_pop_base_inv[OF "1.prems"(2) pos, folded b_def m1_def]
    note len = table_type_lt[OF pop(1)]
    have tot [simp]: "ms_total_sockets m1 = ms_total_sockets m" "ms_jobs m1 = ms_jobs m"
      "ms_log m1 = ms_log m"
      by (simp_all add: m1_def)
    have b: "\<not> (b < 0 \<or> int (length (ms_sockets m1)) \<le> b)" "nat b < ms_total_sockets m1"
      using pop(2,3) len by auto
    have weaken: "res_sat master_failures (dispatch_post sock m) r"
      if "res_sat master_failures (dispatch_post sock m2) r"
        "ms_total_sockets m2 = ms_total_sockets m" "ms_jobs m2 = ms_jobs m"
        "kept_jobs (ms_log m2) = kept_jobs (ms_log m)" "sent_jobs (ms_log m2) = sent_jobs (ms_log m)"
      for r m2
      using that pos by (elim res_sat_mono) (auto simp: dispatch_post_def split: if_splits)
    define s where "s = ms_sockets m1 ! nat b"
    show ?thesis
    proof (cases "sk_type s = TYPE_BACKEND")
      case skip: False
      then have "dispatch_to_idle os sock m = dispatch_to_idle os sock m1"
        using False b by (subst dispatch_to_idle.simps) (simp add: Let_def b_def m1_def s_def)
      moreover have "res_sat master_failures (dispatch_post sock m1) (dispatch_to_idle os sock m1)"
        using "1.IH"(1)[OF False b_def m1_def _ s_def] b(1) skip "1.prems"(1) pop(1) by blast
      ultimately show ?thesis using weaken [of m1] by simp
    next
      case open_: True
      have ty: "type_at m1 (nat b) = TYPE_BACKEND" using open_ by (simp add: s_def)
      show ?thesis
      proof (cases "os_sendmsg os (ms_log m1) (sk_fd s) sock")
        case True
        have "sk_pos s = int (nat b)"
          using link_pos[OF base_invD(2)[OF pop(1)] b(2)] ty by (simp add: s_def)
        moreover have "base_inv (modify_wait os (int (nat b))
            {WL_SOCKET_READABLE, WL_SOCKET_CLOSED}
            (add_log [SendFd (sk_fd s) sock, StreamClose sock] m1))"
          using "1.prems"(1) pop(1) b(2) ty by (intro modify_wait_base_inv) simp_all
        moreover have "dispatch_to_idle os sock m = Inr (True, modify_wait os (sk_pos s)
            {WL_SOCKET_READABLE, WL_SOCKET_CLOSED}
            (add_log [SendFd (sk_fd s) sock, StreamClose sock] m1))"
          using False b(1) open_ True
          by (subst dispatch_to_idle.simps) (simp add: Let_def b_def m1_def s_def)
        ultimately show ?thesis using pos by (simp add: dispatch_post_def)
      next
        case unsent: False
        let ?m2 = "add_log [SendFailed (sk_fd s) sock] m1"
        have eq: "dispatch_to_idle os sock m = (case close_socket os (nat b) ?m2 of
            Inl e \<Rightarrow> Inl e | Inr m' \<Rightarrow> dispatch_to_idle os sock m')"
          using False b(1) open_ unsent
          by (subst dispatch_to_idle.simps) (simp add: Let_def b_def m1_def s_def)
        have "base_inv ?m2" "nat b < ms_total_sockets ?m2" "type_at ?m2 (nat b) \<noteq> TYPE_UNSET"
          using pop(1) b(2) ty by simp_all
        note close = close_socket_sat[OF "1.prems"(1) this]
        show ?thesis
        proof (cases "close_socket os (nat b) ?m2")
          case (Inl e)
          with close eq show ?thesis by (simp add: master_failures_def)
        next
          case (Inr m')
          have IH: "res_sat master_failures (dispatch_post sock m') (dispatch_to_idle os sock m')"
            using "1.IH"(2)[OF False b_def m1_def b(1) s_def _ _ Inr] open_ unsent "1.prems"(1)
              close Inr by simp
          show ?thesis
            using IH eq Inr close by (intro weaken [of m']) simp_all
        qed
      qed
    qed
  qed
qed

lemma first_null_None: "first_null i hs = None \<longleftrightarrow> None \<notin> set hs"
  by (induction i hs rule: first_null.induct) auto

lemma first_null_Some:
  "first_null i hs = Some k \<Longrightarrow> i \<le> k \<and> k < i + length hs \<and> hs ! (k - i) = None"
proof (induction i hs rule: first_null.induct)
  case (3 i h hs)
  then have "Suc i \<le> k \<and> k < Suc i + length hs \<and> hs ! (k - Suc i) = None" by simp
  then show ?case by (auto simp: nth_Cons' Suc_diff_le)
qed auto

lemma spawn_worker_sat:
  assumes "base_inv m"
  shows "res_sat {} (\<lambda>m'. base_inv m' \<and> ms_total_sockets m' = ms_total_sockets m \<and>
     ms_idle m' = ms_idle m \<and> ms_jobs m' = ms_jobs m \<and>
     kept_jobs (ms_log m') = kept_jobs (ms_log m) \<and> sent_jobs (ms_log m') = sent_jobs (ms_log m))
     (spawn_worker os m)"
proof (cases "rq_size (ms_idle m) = 0 \<and> ms_num_workers m < int (ms_max_worker_processes m) - 2")
  case False
  show ?thesis unfolding spawn_worker_def if_not_P[OF False] using assms by simp
next
  case True
  let ?hs = "ms_worker_handles m"
  let ?m = "add_log [RegisterWorker (ms_worker_id_seq m)]
    (m\<lparr>ms_worker_id_seq := ms_worker_id_seq m + 1\<rparr>)"
  have h: "length ?hs = ms_max_worker_processes m"
    "ms_num_workers m = int (length (filter (\<lambda>h. h \<noteq> None) ?hs))"
    using assms by (simp_all add: base_inv_def handle_inv_def)
  have "length (filter (\<lambda>h. h \<noteq> None) ?hs) < length ?hs" using True h by linarith
  then have "None \<in> set ?hs" using filter_length_lt_ex [of "\<lambda>h. h \<noteq> None" ?hs] by auto
  then obtain k where k: "first_null 0 ?hs = Some k"
    using first_null_None [of 0 ?hs] by fastforce
  then have nth: "k < length ?hs" "?hs ! k = None" using first_null_Some [OF k] by auto
  have m: "base_inv ?m" using assms by simp
  show ?thesis
  proof (cases "os_register os (ms_log ?m) (ms_worker_id_seq m)")
    case None
    then have "spawn_worker os m = Inr ?m"
      using True k by (simp add: spawn_worker_def Let_def)
    with m show ?thesis by simp
  next
    case (Some w)
    have "length (filter (\<lambda>h. h \<noteq> None) (?hs[k := Some w]))
        = length (filter (\<lambda>h. h \<noteq> None) ?hs) + 1"
      using filter_update_count [OF nth(1), of "\<lambda>h. h \<noteq> None" "Some w"] nth(2) by simp
    then have "handle_inv (?m\<lparr>ms_worker_handles := ?hs[k := Some w],
        ms_num_workers := ms_num_workers m + 1\<rparr>)"
      using h True by (simp add: handle_inv_def)
    moreover have "spawn_worker os m = Inr (?m\<lparr>ms_worker_handles := ?hs[k := Some w],
        ms_num_workers := ms_num_workers m + 1\<rparr>)"
      using True k Some by (simp add: spawn_worker_def Let_def)
    ultimately show ?thesis using m by (simp add: base_inv_def)
  qed
qed

lemma JOB_QLEN_pos [simp]: "0 < JOB_QLEN"
  by (simp add: JOB_QLEN_def)

text \<open>Pausing and resuming: the flag and the masks change together.\<close>

lemma set_masks_base_inv:
  assumes "os_law os" "table_inv m" "link_inv m" "sock_inv m" "handle_inv m"
    and "queue_inv (m\<lparr>ms_frontend_paused := p\<rparr>)"
    and "evs = (if p then {WL_SOCKET_CLOSED} else {WL_SOCKET_ACCEPT})"
  shows "base_inv (set_frontend_masks os evs (m\<lparr>ms_frontend_paused := p\<rparr>))"
proof -
  let ?m = "m\<lparr>ms_frontend_paused := p\<rparr>"
  have parts: "table_inv ?m" "link_inv ?m" "sock_inv ?m" "handle_inv ?m"
    using assms(2-5) by (simp_all add: part_invs registered_def)
  obtain es where es: "set_frontend_masks os evs ?m = ?m\<lparr>ms_wait_set := es\<rparr>"
    "table_inv (?m\<lparr>ms_wait_set := es\<rparr>)" "link_inv (?m\<lparr>ms_wait_set := es\<rparr>)"
    "\<And>i. i < ms_total_sockets ?m \<Longrightarrow> type_at ?m i = TYPE_FRONTEND \<Longrightarrow>
       mask_of (?m\<lparr>ms_wait_set := es\<rparr>) i = Some evs"
    using set_frontend_masks_obtain[OF assms(1) parts(1,2), of evs] by blast
  have "mask_inv (?m\<lparr>ms_wait_set := es\<rparr>)"
    using es(4) assms(7) by (simp add: mask_inv_def frontend_mask_def)
  with es parts assms(6) show ?thesis
    by (simp add: base_inv_def sock_inv_def handle_inv_def queue_inv_def)
qed

lemma enqueue_job_sat:
  assumes "os_law os" "base_inv m" "rq_size (ms_idle m) = 0"
    and "kept_jobs (ms_log m) = sent_jobs (ms_log m) @ ring_list (ms_jobs m) @ [sock]"
  shows "master_inv (enqueue_job os sock m)"
    "ms_total_sockets (enqueue_job os sock m) = ms_total_sockets m"
proof -
  note parts = base_invD[OF assms(2)]
  have q: "ring_ok (ms_jobs m)" "rq_cap (ms_jobs m) = JOB_QLEN"
    using parts(4) by (simp_all add: queue_inv_def)
  have "master_inv (enqueue_job os sock m) \<and>
    ms_total_sockets (enqueue_job os sock m) = ms_total_sockets m"
  proof (cases "rq_size (ms_jobs m) < JOB_QLEN")
    case False
    with assms show ?thesis
      by (simp add: enqueue_job_def master_inv_def fifo_inv_def butlast_append)
  next
    case True
    let ?m = "m\<lparr>ms_jobs := ring_push sock (ms_jobs m)\<rparr>"
    have push: "ring_ok (ring_push sock (ms_jobs m))"
      "ring_list (ring_push sock (ms_jobs m)) = ring_list (ms_jobs m) @ [sock]"
      using q True by (auto simp: ring_list_push)
    have fifo: "fifo_inv ?m" using assms(4) push by (simp add: fifo_inv_def)
    show ?thesis
    proof (cases "rq_size (ms_jobs ?m) = JOB_QLEN")
      case full: True
      have "queue_inv (?m\<lparr>ms_frontend_paused := True\<rparr>)"
        using parts(4) push q assms(3) full by (simp add: queue_inv_def)
      then have "base_inv (set_frontend_masks os {WL_SOCKET_CLOSED} (?m\<lparr>ms_frontend_paused := True\<rparr>))"
        using parts assms(1) by (intro set_masks_base_inv) simp_all
      with full True fifo show ?thesis
        by (simp add: enqueue_job_def Let_def master_inv_def fifo_inv_def)
    next
      case more: False
      have "queue_inv ?m"
        using parts(4) push q assms(3) more True by (simp add: queue_inv_def)
      with parts more True fifo show ?thesis
        by (simp add: enqueue_job_def Let_def master_inv_def base_inv_def)
    qed
  qed
  then show "master_inv (enqueue_job os sock m)"
    "ms_total_sockets (enqueue_job os sock m) = ms_total_sockets m" by simp_all
qed

lemma on_frontend_sat:
  assumes "os_law os" "master_inv m"
  shows "res_sat master_failures (\<lambda>m'. master_inv m' \<and> ms_total_sockets m' = ms_total_sockets m)
    (on_frontend os i evs m)"
proof (cases "os_accept os (ms_log m) (sk_fd (ms_sockets m ! i))")
  case None
  with assms(2) show ?thesis by (simp add: on_frontend_def master_inv_def fifo_inv_def)
next
  case (Some sock)
  let ?m = "add_log [AcceptFrontend sock] m"
  have inv: "base_inv ?m" and fifo: "fifo_inv m" using assms(2) by (simp_all add: master_inv_def)
  have q: "0 < rq_size (ms_jobs m) \<longrightarrow> rq_size (ms_idle m) = 0"
    using base_invD(4)[OF inv] by (simp add: queue_inv_def)
  have rest: "res_sat master_failures (\<lambda>m'. master_inv m' \<and> ms_total_sockets m' = ms_total_sockets m)
      (if done then Inr m1 else res_bind (spawn_worker os m1) (\<lambda>m. Inr (enqueue_job os sock m)))"
    if "dispatch_post sock ?m (done, m1)" for "done" m1
  proof (cases "done")
    case True
    with that q have "ring_list (ms_jobs m) = []" by (auto simp: dispatch_post_def)
    with True that fifo show ?thesis by (simp add: dispatch_post_def master_inv_def fifo_inv_def)
  next
    case False
    with that have m1: "base_inv m1" "rq_size (ms_idle m1) = 0" "ms_jobs m1 = ms_jobs m"
      "ms_total_sockets m1 = ms_total_sockets m" "kept_jobs (ms_log m1) = kept_jobs (ms_log m) @ [sock]"
      "sent_jobs (ms_log m1) = sent_jobs (ms_log m)"
      by (auto simp: dispatch_post_def)
    have "(if done then Inr m1 else res_bind (spawn_worker os m1) (\<lambda>m. Inr (enqueue_job os sock m)))
        = res_bind (spawn_worker os m1) (\<lambda>m. Inr (enqueue_job os sock m))"
      using False by simp
    moreover have "res_sat master_failures
        (\<lambda>m'. master_inv m' \<and> ms_total_sockets m' = ms_total_sockets m) \<dots>"
      using fifo m1
      by (intro res_sat_bind[OF res_sat_mono[OF spawn_worker_sat[OF m1(1)]]])
         (auto simp: fifo_inv_def enqueue_job_sat[OF assms(1)])
    ultimately show ?thesis by simp
  qed
  show ?thesis
    using Some rest assms(2)
    by (auto simp: on_frontend_def intro!: res_sat_bind[OF dispatch_to_idle_sat[OF assms(1) inv]])
qed

end
