(* ===== verification/MasterLoop.thy ===== *)
theory MasterLoop
  imports MasterStep
begin

text \<open>
  The greeting of a worker, workers that exit, and the event loop: each handler keeps the
  dispatcher's invariant, so every state the loop reaches has it, and the properties of the
  dispatcher follow from it.
\<close>

section \<open>A message from a worker\<close>

lemma hello_loop_Some:
  "hello_loop off buf limit i = Some k \<Longrightarrow> int k = max (int i) limit"
proof (induction off buf limit i rule: hello_loop.induct)
  case (1 off buf limit i)
  then show ?case
    by (subst (asm) hello_loop.simps) (auto split: if_splits)
qed

lemma set_socket_base_inv:
  assumes "base_inv m" "sock_ok s" "sk_type s = type_at m i" "sk_fd s = sk_fd (ms_sockets m ! i)"
    "sk_pos s = sk_pos (ms_sockets m ! i)"
  shows "base_inv (set_socket i s m)"
proof -
  note parts = base_invD[OF assms(1)]
  have nth: "P ((ms_sockets m)[i := s] ! j) = P (ms_sockets m ! j)"
    if "P s = P (ms_sockets m ! i)" for j and P :: "socket \<Rightarrow> 'b"
    using that by (cases "i < length (ms_sockets m)") (auto simp: nth_list_update list_update_beyond not_less)
  have "sock_inv (set_socket i s m)"
    using parts(3) assms(2)
    by (auto simp: sock_inv_def dest!: set_update_subset_insert [THEN subsetD])
  moreover have "table_inv (set_socket i s m)" "link_inv (set_socket i s m)"
    "mask_inv (set_socket i s m)"
    using parts nth[of sk_type, OF assms(3)] nth[of sk_fd, OF assms(4)] nth[of sk_pos, OF assms(5)]
    by (simp_all add: table_inv_def link_inv_def registered_def mask_inv_def mask_of_def
        frontend_mask_def)
  moreover have "queue_inv (set_socket i s m)" "handle_inv (set_socket i s m)"
    using parts by (simp_all add: queue_inv_def handle_inv_def)
  ultimately show ?thesis by (simp add: base_inv_def)
qed

lemma fifo_inv_set_socket [simp]: "fifo_inv (set_socket i s m) = fifo_inv m"
  by (simp add: fifo_inv_def)

abbreviation step_post :: "master \<Rightarrow> master \<Rightarrow> bool" where
  "step_post m m' \<equiv> master_inv m' \<and> ms_total_sockets m' = ms_total_sockets m"

lemma close_socket_step:
  assumes "os_law os" "master_inv m" "i < ms_total_sockets m" "type_at m i \<noteq> TYPE_UNSET"
  shows "res_sat master_failures (step_post m) (close_socket os i m)"
  by (rule res_sat_mono[OF close_socket_sat[OF assms(1)]])
     (use assms in \<open>auto simp: master_inv_def fifo_inv_def master_failures_def\<close>)

lemma add_log_inv:
  "master_inv m \<Longrightarrow> (\<And>l. kept_jobs (rev cs @ l) = kept_jobs l \<and> sent_jobs (rev cs @ l) = sent_jobs l)
    \<Longrightarrow> master_inv (add_log cs m)"
  by (simp add: master_inv_def fifo_inv_def)

text \<open>The oldest job leaves the queue.\<close>

lemma resume_frontend_sat:
  assumes "os_law os" "master_inv m" "0 < rq_size (ms_jobs m)"
  shows "step_post m (resume_frontend os
    ((add_log [SendFd fd (ring_first (ms_jobs m))] m)\<lparr>ms_jobs := ring_pop (ms_jobs m)\<rparr>))"
proof -
  let ?m = "(add_log [SendFd fd (ring_first (ms_jobs m))] m)\<lparr>ms_jobs := ring_pop (ms_jobs m)\<rparr>"
  have base: "base_inv (add_log [SendFd fd (ring_first (ms_jobs m))] m)"
    using assms(2) by (simp add: master_inv_def)
  note parts = base_invD[OF base]
  have q: "ring_ok (ms_jobs m)" "rq_cap (ms_jobs m) = JOB_QLEN"
    using parts(4) by (simp_all add: queue_inv_def)
  then have pop: "ring_ok (ring_pop (ms_jobs m))" "rq_size (ring_pop (ms_jobs m)) < JOB_QLEN"
    "ring_list (ms_jobs m) = ring_first (ms_jobs m) # ring_list (ring_pop (ms_jobs m))"
    using assms(3) by (auto simp: ring_list_pop ring_ok_def[of "ms_jobs m"])
  have fifo: "fifo_inv ?m" using assms(2) pop(3) by (simp add: master_inv_def fifo_inv_def)
  have queue: "queue_inv (?m\<lparr>ms_frontend_paused := False\<rparr>)"
    using parts(4) pop assms(3) q by (auto simp: queue_inv_def)
  show ?thesis
  proof (cases "ms_frontend_paused m")
    case True
    have "base_inv (set_frontend_masks os {WL_SOCKET_ACCEPT} (?m\<lparr>ms_frontend_paused := False\<rparr>))"
      using parts assms(1) queue by (intro set_masks_base_inv) simp_all
    with True fifo show ?thesis
      by (simp add: resume_frontend_def master_inv_def fifo_inv_def)
  next
    case False
    then have "?m\<lparr>ms_frontend_paused := False\<rparr> = ?m" by (simp add: add_log_def)
    with queue have "queue_inv ?m" by simp
    with parts False fifo show ?thesis
      by (simp add: resume_frontend_def master_inv_def base_inv_def)
  qed
qed

lemma idle_push_base_inv:
  assumes "base_inv m" "rq_size (ms_jobs m) = 0" "rq_size (ms_idle m) < ms_total_sockets m"
    "i < ms_total_sockets m"
  shows "base_inv (m\<lparr>ms_idle := ring_push (int i) (ms_idle m)\<rparr>)"
proof -
  note parts = base_invD[OF assms(1)]
  have q: "ring_ok (ms_idle m)" "rq_cap (ms_idle m) = ms_total_sockets m"
    "\<forall>x \<in> set (ring_list (ms_idle m)). 0 \<le> x \<and> x < int (ms_total_sockets m)"
    using parts(4) by (simp_all add: queue_inv_def)
  then have "ring_ok (ring_push (int i) (ms_idle m))"
    "ring_list (ring_push (int i) (ms_idle m)) = ring_list (ms_idle m) @ [int i]"
    using assms(3) by (auto simp: ring_list_push)
  with q parts assms show ?thesis by (simp add: base_inv_def queue_inv_def)
qed

lemma on_worker_idle_sat:
  assumes "os_law os" "master_inv m" "i < ms_total_sockets m" "type_at m i = TYPE_BACKEND"
  shows "res_sat master_failures (step_post m) (on_worker_idle os i m)"
proof (cases "0 < rq_size (ms_jobs m)")
  case True
  let ?fd = "sk_fd (ms_sockets m ! i)"
  let ?job = "ring_first (ms_jobs m)"
  show ?thesis
  proof (cases "os_sendmsg os (ms_log m) ?fd ?job")
    case sent: True
    show ?thesis
      using True sent resume_frontend_sat[OF assms(1,2) True, of ?fd]
      by (simp add: on_worker_idle_def Let_def)
  next
    case unsent: False
    have "master_inv (add_log [SendFailed ?fd ?job] m)" using assms(2) by (rule add_log_inv) simp
    then have "res_sat master_failures (step_post m)
        (close_socket os i (add_log [SendFailed ?fd ?job] m))"
      using close_socket_step[OF assms(1), of "add_log [SendFailed ?fd ?job] m" i] assms by simp
    with True unsent show ?thesis by (simp add: on_worker_idle_def Let_def)
  qed
next
  case False
  have base: "base_inv m" using assms(2) by (simp add: master_inv_def)
  have pos: "sk_pos (ms_sockets m ! i) = int i"
    using link_pos[OF base_invD(2)[OF base] assms(3)] assms(4) by simp
  let ?m = "modify_wait os (int i) {WL_SOCKET_CLOSED} m"
  have "base_inv ?m" by (rule modify_wait_base_inv[OF assms(1) base assms(3,4)])
  with False assms(2,3) idle_push_base_inv[of ?m i] show ?thesis
    by (auto simp: on_worker_idle_def Let_def pos master_failures_def master_inv_def fifo_inv_def)
qed

lemma hello_loop_bounds:
  assumes "hello_loop off buf (min (8 - int off) received) 0 = Some k" "off < 12"
    "0 \<le> received" "off + nat received \<le> 12"
  shows "int k \<le> received" "off + k \<le> 8 \<or> 8 < off \<and> k = 0"
    "0 < received - int k \<Longrightarrow> (off \<le> 8 \<and> k = 8 - off) \<or> (8 < off \<and> k = 0)"
  using hello_loop_Some[OF assms(1)] assms(2-4) by auto

lemma copy_worker_id_ok:
  "off + length src \<le> length dst \<Longrightarrow>
    \<exists>wid. copy_worker_id off src dst = Inr wid \<and> length wid = length dst"
  by (auto simp: copy_worker_id_def)

lemma on_backend_bytes_eq:
  assumes "s = ms_sockets m ! i" "off = unat (sk_read_offset s)"
  shows "on_backend_bytes os i r buf m =
    (case hello_loop off buf (min (8 - int off) r) 0 of
       None \<Rightarrow> close_socket os i m
     | Some k \<Rightarrow>
         if r - int k > 0 then
           res_bind (copy_worker_id (nat (max 0 (int off - 8))) (drop k buf) (sk_worker_id s)) (\<lambda>w.
             if int off + r = 12 then
               on_worker_idle os i (set_socket i (s\<lparr>sk_worker_id := w, sk_read_offset := 0\<rparr>) m)
             else Inr (set_socket i
               (s\<lparr>sk_worker_id := w, sk_read_offset := word_of_int (int off + r)\<rparr>) m))
         else Inr (set_socket i (s\<lparr>sk_worker_id := sk_worker_id s,
           sk_read_offset := word_of_int (int off + r)\<rparr>) m))"
proof -
  have "uint (sk_read_offset s) = int off" "nat (uint (sk_read_offset s)) = off"
    using assms(2) by simp_all
  moreover have "t\<lparr>sk_worker_id := sk_worker_id t, sk_read_offset := x\<rparr> = t\<lparr>sk_read_offset := x\<rparr>"
    for t x by simp
  ultimately show ?thesis
    unfolding on_backend_bytes_def Let_def assms(1) by (simp cong: option.case_cong if_cong)
qed

text \<open>Fewer than twelve bytes of the greeting are there, or all twelve.\<close>

lemma on_backend_bytes_sat:
  assumes "os_law os" "master_inv m" "i < ms_total_sockets m" "type_at m i = TYPE_BACKEND"
    and "unat (sk_read_offset (ms_sockets m ! i)) < 12"
    and "unat (sk_read_offset (ms_sockets m ! i)) + length buf \<le> 12"
  shows "res_sat master_failures (step_post m) (on_backend_bytes os i (int (length buf)) buf m)"
proof -
  define s where "s = ms_sockets m ! i"
  define off where "off = unat (sk_read_offset s)"
  note off = assms(5,6)[folded s_def, folded off_def]
  have base: "base_inv m" using assms(2) by (simp add: master_inv_def)
  note t = table_invD[OF base_invD(1)[OF base]]
  have "s \<in> set (ms_sockets m)" using t(3) assms(3) by (simp add: s_def)
  then have wid: "length (sk_worker_id s) = 4"
    using base_invD(3)[OF base] by (simp add: sock_inv_def sock_ok_def)
  note eq = on_backend_bytes_eq[OF s_def off_def]
  have set_ok: "step_post m (set_socket i (s\<lparr>sk_worker_id := w, sk_read_offset := o'\<rparr>) m)"
    if "length w = 4" "unat o' < 12" for w o'
    using set_socket_base_inv[OF base, of "s\<lparr>sk_worker_id := w, sk_read_offset := o'\<rparr>" i] that assms(2)
    by (simp add: sock_ok_def s_def master_inv_def)
  have new: "unat (word_of_int (int off + int (length buf)) :: byte) = off + length buf"
    using off by (simp add: unat_of_nat flip: of_nat_add)
  show ?thesis
  proof (cases "hello_loop off buf (min (8 - int off) (int (length buf))) 0")
    case None
    then show ?thesis unfolding eq using close_socket_step[OF assms(1-3)] assms(4) by simp
  next
    case (Some k)
    note k = hello_loop_bounds[OF Some off(1)]
    show ?thesis
    proof (cases "0 < int (length buf) - int k")
      case False
      then have "unat (word_of_int (int off + int (length buf)) :: byte) < 12"
        using k(1,2) off new by auto
      with Some False set_ok[OF wid] show ?thesis unfolding eq by simp
    next
      case True
      have "nat (max 0 (int off - 8)) + length (drop k buf) \<le> length (sk_worker_id s)"
        using True k off wid by auto
      then obtain w where w: "copy_worker_id (nat (max 0 (int off - 8))) (drop k buf) (sk_worker_id s) = Inr w"
          "length w = 4"
        using copy_worker_id_ok wid by metis
      let ?m = "set_socket i (s\<lparr>sk_worker_id := w, sk_read_offset := 0\<rparr>) m"
      have "res_sat master_failures (step_post ?m) (on_worker_idle os i ?m)"
        using assms t(3) set_ok[OF w(2), of 0]
        by (intro on_worker_idle_sat) (simp_all add: s_def)
      moreover have "unat (word_of_int (int off + int (length buf)) :: byte) < 12"
        if "int off + int (length buf) \<noteq> 12" using that off new by auto
      ultimately show ?thesis unfolding eq using Some True w set_ok[OF w(2)] by simp
    qed
  qed
qed

text \<open>
  After a failed \<open>recv\<close> the code goes on with the cleared entry: no byte is compared or
  copied, and the entry's offset becomes 255.
\<close>

lemma on_backend_bytes_after_close:
  "ms_sockets m ! i = zero_socket \<Longrightarrow>
    on_backend_bytes os i (-1) [] m = Inr (set_socket i (zero_socket\<lparr>sk_read_offset := -1\<rparr>) m)"
  by (simp add: on_backend_bytes_def zero_socket_def hello_loop.simps[of _ _ _ 0] Let_def)

lemma recv_failed_sat:
  assumes "os_law os" "master_inv m" "i < ms_total_sockets m" "type_at m i = TYPE_BACKEND"
  shows "res_sat master_failures (step_post m)
    (res_bind (close_socket os i (add_log [RecvFailed fd] m)) (\<lambda>m. on_backend_bytes os i (-1) [] m))"
proof -
  let ?m = "add_log [RecvFailed fd] m"
  have m: "master_inv ?m" using assms(2) by (rule add_log_inv) simp
  then have b: "base_inv ?m" by (simp add: master_inv_def)
  note len = table_invD(3)[OF base_invD(1)[OF b]]
  have step: "step_post m (set_socket i (zero_socket\<lparr>sk_read_offset := -1\<rparr>) m')"
    if "master_inv m'" "ms_sockets m' ! i = zero_socket" "ms_total_sockets m' = ms_total_sockets m" for m'
    using that set_socket_base_inv[of m' "zero_socket\<lparr>sk_read_offset := -1\<rparr>" i]
    by (simp add: master_inv_def sock_ok_def zero_socket_def)
  show ?thesis
  proof (rule res_sat_bind)
    show "res_sat master_failures (\<lambda>m'. master_inv m' \<and> ms_sockets m' ! i = zero_socket \<and>
        ms_total_sockets m' = ms_total_sockets m) (close_socket os i ?m)"
      by (rule res_sat_mono[OF close_socket_sat[OF assms(1) b]])
         (use assms m len in \<open>auto simp: master_inv_def fifo_inv_def master_failures_def\<close>)
  qed (use step on_backend_bytes_after_close in auto)
qed

lemma on_backend_sat:
  assumes "os_law os" "master_inv m" "i < ms_total_sockets m" "type_at m i = TYPE_BACKEND"
  shows "res_sat master_failures (step_post m) (on_backend os i evs m)"
proof -
  define s where "s = ms_sockets m ! i"
  have base: "base_inv m" using assms(2) by (simp add: master_inv_def)
  have pos: "sk_pos s = int i"
    using link_pos[OF base_invD(2)[OF base] assms(3)] assms(4) by (simp add: s_def)
  have mask: "master_inv (modify_wait os (int i) {WL_SOCKET_CLOSED} m)"
    using modify_wait_base_inv[OF assms(1) base assms(3,4)] assms(2)
    by (simp add: master_inv_def fifo_inv_def)
  have read: "res_sat master_failures (step_post m)
      (on_backend_bytes os i (int (length buf)) buf (add_log [Recv fd buf] m))"
    if "unat (sk_read_offset s) < 12" "length buf \<le> 12 - unat (sk_read_offset s)" for buf fd
  proof -
    have "master_inv (add_log [Recv fd buf] m)" using assms(2) by (rule add_log_inv) simp
    then show ?thesis
      using on_backend_bytes_sat[OF assms(1), of "add_log [Recv fd buf] m" i buf] assms that
      by (simp add: s_def)
  qed
  show ?thesis
    using close_socket_step[OF assms(1-3)] assms(2,4) mask pos read recv_failed_sat[OF assms]
      os_lawD(3)[OF assms(1)]
    by (auto simp: on_backend_def Let_def s_def[symmetric] split: option.splits)
qed

section \<open>Workers that exit\<close>

lemma reap_handles_props:
  "reap_handles stopped hs = (hs', n) \<Longrightarrow> length hs' = length hs \<and>
     n = int (length (filter (\<lambda>h. h \<noteq> None) hs')) \<and>
     length (filter (\<lambda>h. h \<noteq> None) hs') \<le> length (filter (\<lambda>h. h \<noteq> None) hs)"
proof (induction hs arbitrary: hs' n)
  case (Cons h hs)
  obtain hs1 n1 where "reap_handles stopped hs = (hs1, n1)" by fastforce
  with Cons show ?case by (auto split: option.splits if_splits)
qed simp

lemma on_worker_died_sat:
  assumes "master_inv m"
  shows "res_sat {} (step_post m) (on_worker_died os m)"
proof -
  obtain hs n where r: "reap_handles (os_stopped os (ms_log m)) (ms_worker_handles m) = (hs, n)"
    by fastforce
  note p = reap_handles_props[OF r]
  have h: "handle_inv m" and parts: "table_inv m" "link_inv m" "sock_inv m" "queue_inv m"
      "mask_inv m" "fifo_inv m"
    using assms by (simp_all add: master_inv_def base_inv_def)
  have "handle_inv (m\<lparr>ms_worker_handles := hs, ms_num_workers := n\<rparr>)"
    using h p by (auto simp: handle_inv_def)
  then have inv: "master_inv (m\<lparr>ms_worker_handles := hs, ms_num_workers := n\<rparr>)"
    using parts by (simp add: master_inv_def base_inv_def fifo_inv_def)
  have le: "n \<le> ms_num_workers m" using h p by (simp add: handle_inv_def)
  have "on_worker_died os m = Inr (m\<lparr>ms_worker_handles := hs, ms_num_workers := n\<rparr>)"
    using r le by (cases "n < ms_num_workers m") (auto simp: on_worker_died_def Let_def)
  with inv show ?thesis by simp
qed

section \<open>The event loop\<close>

lemma on_latch_sat:
  assumes "master_inv m"
  shows "res_sat {} (step_post m) (on_latch os m)"
proof -
  have "master_inv (m\<lparr>ms_worker_died := False\<rparr>)"
    using assms by (simp add: master_inv_def fifo_inv_def)
  from on_worker_died_sat[OF this, of os] assms show ?thesis by (simp add: on_latch_def)
qed

lemma on_socket_event_sat:
  assumes "os_law os" "master_inv m" "i < ms_total_sockets m"
  shows "res_sat master_failures (step_post m) (on_socket_event os i evs m)"
  unfolding on_socket_event_def
proof (rule res_sat_bind)
  show "res_sat master_failures (step_post m) (if type_at m i = TYPE_IPC
      then on_backend_connect os i evs m else Inr m)"
    using on_backend_connect_sat[OF assms(1,2)] assms(2) by simp
next
  fix m1 assume 2: "step_post m m1"
  show "res_sat master_failures (step_post m)
     (res_bind (if type_at m1 i = TYPE_FRONTEND then on_frontend os i evs m1 else Inr m1)
       (\<lambda>m. if type_at m i = TYPE_BACKEND then on_backend os i evs m else Inr m))"
  proof (rule res_sat_bind)
    show "res_sat master_failures (step_post m) (if type_at m1 i = TYPE_FRONTEND
        then on_frontend os i evs m1 else Inr m1)"
      using on_frontend_sat[OF assms(1), of m1] 2 by simp
    show "res_sat master_failures (step_post m) (if type_at m2 i = TYPE_BACKEND
        then on_backend os i evs m2 else Inr m2)" if "step_post m m2" for m2
      using on_backend_sat[OF assms(1), of m2] that assms(3) by simp
  qed
qed

lemma process_events_sat:
  assumes "os_law os" "master_inv m" "\<forall>(i, evs) \<in> set evss. i < ms_total_sockets m"
  shows "res_sat master_failures (\<lambda>(stop, m'). step_post m m') (process_events os evss m)"
  using assms(2,3)
proof (induction evss arbitrary: m)
  case (Cons e evss)
  obtain i evs where e: "e = (i, evs)" by fastforce
  have first: "res_sat master_failures (step_post m)
      (if WL_LATCH_SET \<in> evs then on_latch os m else Inr m)"
    using res_sat_mono[OF on_latch_sat[OF Cons.prems(1), of os]] Cons.prems(1) by simp
  have next_: "res_sat master_failures (\<lambda>(stop, m'). step_post m m')
      (res_bind (on_socket_event os i evs m1) (process_events os evss))" if "step_post m m1" for m1
  proof (rule res_sat_bind)
    show "res_sat master_failures (step_post m) (on_socket_event os i evs m1)"
      using on_socket_event_sat[OF assms(1), of m1 i evs] that Cons.prems(2) e by simp
    show "res_sat master_failures (\<lambda>(stop, m'). step_post m m') (process_events os evss m2)"
      if "step_post m m2" for m2
      using Cons.IH[of m2] that Cons.prems(2) by simp
  qed
  show ?case
    using Cons.prems(1) res_sat_bind[OF first next_] by (simp add: e)
qed simp

lemma main_loop_sat:
  assumes "os_law os" "master_inv m"
    and "\<forall>evss \<in> set batches. \<forall>(i, evs) \<in> set evss. i < ms_total_sockets m"
  shows "res_sat master_failures (\<lambda>(stop, m'). step_post m m') (master_main_loop os batches m)"
  using assms(2,3)
proof (induction batches arbitrary: m)
  case (Cons evss batches)
  have "res_sat master_failures (\<lambda>(stop, m'). step_post m m')
      (if stop then Inr (True, m1) else master_main_loop os batches m1)"
    if "step_post m m1" for stop m1
    using Cons.IH[of m1] that Cons.prems by simp
  then show ?case
    using Cons.prems by (auto intro!: res_sat_bind[OF process_events_sat[OF assms(1)]])
qed simp

section \<open>Start\<close>

lemma CreateWaitEventSetEx_live: "es_live (CreateWaitEventSetEx n) = {}"
  by (auto simp: es_live_def CreateWaitEventSetEx_free)

lemma zero_socket_type [simp]: "sk_type zero_socket = TYPE_UNSET"
  by (simp add: zero_socket_def)

text \<open>The latch takes the first position; from then on the table is well formed.\<close>

lemma startup_latch:
  assumes "os_law os"
  obtains m where "add_socket os TYPE_UNSET (-1) {WL_LATCH_SET} (master_init n k) = Inr m"
    "master_inv m" "es_used (ms_wait_set m) = 1" "ms_total_sockets m = 1 + n + k"
    "ms_frontend_paused m = False" "ms_log m = []" "ms_worker_handles m = replicate k None"
    "ms_jobs m = ring_new (replicate JOB_QLEN 0)" "ms_idle m = ring_new (replicate (1 + n + k) 0)"
proof -
  let ?tot = "1 + n + k"
  let ?w = "CreateWaitEventSetEx ?tot"
  let ?ev = "\<lparr>we_events = {WL_LATCH_SET}, we_fd = -1, we_user_data = 0\<rparr>"
  note add = os_lawD(1)[OF assms]
  have es: "es_inv ?w" "es_used ?w < es_space ?w" "es_free ?w = 0 # [1..<?tot]"
    by (simp_all add: CreateWaitEventSetEx_inv CreateWaitEventSetEx_free upt_rec)
  obtain es' pos where a: "AddWaitEventToSetEx (os_add os) ?w ?ev = (es', pos)" by fastforce
  note free = AddWaitEventToSetEx_free[OF add es(1,2) a]
  have pos: "pos = 0" "NextWaitEventPos ?w = 0"
    using free(1) es NextWaitEventPos_free[OF es(1,2)] by simp_all
  have inv': "es_inv es'" using AddWaitEventToSetEx_inv[OF add es(1)] a by (metis fst_conv)
  have live: "es_live es' = {0}"
    using AddWaitEventToSetEx_live(1)[OF add es(1,2) a] pos
    by (simp add: CreateWaitEventSetEx_live)
  let ?init = "master_init n k"
  let ?m = "set_socket 0 (zero_socket\<lparr>sk_fd := -1, sk_pos := 0\<rparr>) (?init\<lparr>ms_wait_set := es'\<rparr>)"
  have sel: "ms_wait_set ?init = ?w" "ms_sockets ?init = replicate ?tot zero_socket"
    "ms_total_sockets ?init = ?tot" "ms_idle ?init = ring_new (replicate ?tot 0)"
    "ms_jobs ?init = ring_new (replicate JOB_QLEN 0)" "ms_frontend_paused ?init = False"
    "ms_num_workers ?init = 0" "ms_worker_handles ?init = replicate k None"
    "ms_max_worker_processes ?init = k" "ms_log ?init = []"
    by (simp_all add: master_init_def Let_def)
  have ty: "sk_type ((replicate ?tot zero_socket)[0 := zero_socket\<lparr>sk_fd := -1, sk_pos := 0\<rparr>] ! i)
      = TYPE_UNSET" if "i < ?tot" for i
    using that by (cases i) (auto simp: zero_socket_def)
  have eq: "add_socket os TYPE_UNSET (-1) {WL_LATCH_SET} ?init = Inr ?m"
    using a pos sel(1,2) by (simp add: add_socket_def Let_def zero_socket_def)
  have "table_inv ?m" using inv' live sel ty free(3) by (auto simp: table_inv_def)
  moreover have "link_inv ?m" "mask_inv ?m"
    using ty sel by (auto simp: link_inv_def mask_inv_def)
  moreover have "sock_inv ?m"
    using sel by (auto simp: sock_inv_def sock_ok_def zero_socket_def
      dest!: set_update_subset_insert [THEN subsetD])
  moreover have "queue_inv ?m" "handle_inv ?m" "fifo_inv ?m"
    using sel by (auto simp: queue_inv_def handle_inv_def fifo_inv_def ring_new_ok JOB_QLEN_def)
  ultimately have "master_inv ?m" by (simp add: master_inv_def base_inv_def)
  with eq free(4) sel show thesis by (intro that[of ?m]) simp_all
qed

lemma add_socket_sat:
  assumes "os_law os" "base_inv m" "ty \<noteq> TYPE_UNSET" "ty = TYPE_FRONTEND \<longrightarrow> evs = frontend_mask m"
    and "es_used (ms_wait_set m) < es_space (ms_wait_set m)"
  obtains m' where "add_socket os ty fd evs m = Inr m'" "base_inv m'"
    "es_used (ms_wait_set m') = Suc (es_used (ms_wait_set m))"
    "ms_total_sockets m' = ms_total_sockets m" "ms_frontend_paused m' = ms_frontend_paused m"
    "ms_log m' = ms_log m" "ms_jobs m' = ms_jobs m" "ms_idle m' = ms_idle m"
    "ms_worker_handles m' = ms_worker_handles m"
proof -
  obtain k where k: "NextWaitEventPos (ms_wait_set m) = int k" "k < ms_total_sockets m"
    by (rule next_pos[OF assms(2,5)])
  note t = table_invD[OF base_invD(1)[OF assms(2)]]
  let ?ev = "\<lparr>we_events = evs, we_fd = fd, we_user_data = k\<rparr>"
  obtain es pos where add: "AddWaitEventToSetEx (os_add os) (ms_wait_set m) ?ev = (es, pos)"
    by fastforce
  note att = attach_base_inv[OF assms(1,2) k(1) assms(5) add assms(3,4)]
  let ?m = "set_socket k ((ms_sockets m ! k)\<lparr>sk_type := ty, sk_fd := fd, sk_pos := pos\<rparr>)
      (m\<lparr>ms_wait_set := es\<rparr>)"
  have "add_socket os ty fd evs m = Inr ?m"
    using k add att(2) t(3) by (simp add: add_socket_def Let_def)
  moreover have "es_used es = Suc (es_used (ms_wait_set m))"
    by (rule AddWaitEventToSetEx_free(4)[OF os_lawD(1)[OF assms(1)] t(1) assms(5) add])
  ultimately show thesis using att(1) by (intro that[of ?m]) simp_all
qed

lemma add_frontends_sat:
  assumes "os_law os" "base_inv m" "\<not> ms_frontend_paused m" "PGINVALID_SOCKET \<notin> set fds"
    and "es_used (ms_wait_set m) + length fds \<le> ms_total_sockets m"
  obtains m' where "add_frontends os fds m = Inr m'" "base_inv m'"
    "es_used (ms_wait_set m') = es_used (ms_wait_set m) + length fds"
    "ms_total_sockets m' = ms_total_sockets m" "ms_log m' = ms_log m" "ms_jobs m' = ms_jobs m"
    "ms_idle m' = ms_idle m" "ms_worker_handles m' = ms_worker_handles m"
  using assms(2-)
proof (induction fds arbitrary: m thesis)
  case (Cons fd fds)
  have room: "es_used (ms_wait_set m) < es_space (ms_wait_set m)"
    using table_invD(2)[OF base_invD(1)[OF Cons.prems(2)]] Cons.prems(5) by simp
  have "TYPE_FRONTEND = TYPE_FRONTEND \<longrightarrow> {WL_SOCKET_ACCEPT} = frontend_mask m"
    using Cons.prems(3) by (simp add: frontend_mask_def)
  then obtain m1 where m1: "add_socket os TYPE_FRONTEND fd {WL_SOCKET_ACCEPT} m = Inr m1" "base_inv m1"
    "es_used (ms_wait_set m1) = Suc (es_used (ms_wait_set m))"
    "ms_total_sockets m1 = ms_total_sockets m" "ms_frontend_paused m1 = ms_frontend_paused m"
    "ms_log m1 = ms_log m" "ms_jobs m1 = ms_jobs m" "ms_idle m1 = ms_idle m"
    "ms_worker_handles m1 = ms_worker_handles m"
    using add_socket_sat[OF assms(1) Cons.prems(2) _ _ room] by (metis sock_type.distinct(3))
  have pre: "\<not> ms_frontend_paused m1" "PGINVALID_SOCKET \<notin> set fds"
    "es_used (ms_wait_set m1) + length fds \<le> ms_total_sockets m1"
    using m1 Cons.prems(3-5) by simp_all
  obtain m' where m': "add_frontends os fds m1 = Inr m'" "base_inv m'"
    "es_used (ms_wait_set m') = es_used (ms_wait_set m1) + length fds"
    "ms_total_sockets m' = ms_total_sockets m1" "ms_log m' = ms_log m1" "ms_jobs m' = ms_jobs m1"
    "ms_idle m' = ms_idle m1" "ms_worker_handles m' = ms_worker_handles m1"
    by (rule Cons.IH[OF _ m1(2) pre])
  show ?case
    using m1 m' Cons.prems(4) by (intro Cons.prems(1)[of m']) auto
qed (simp add: assms)

text \<open>
  With room for one worker connection the start succeeds, on every number of listening
  sockets, and one position is left for each background worker but one.
\<close>

lemma startup_ok:
  assumes "os_law os" "1 \<le> k" "PGINVALID_SOCKET \<notin> set fds"
  obtains m where "master_startup os fds ipc k = Inr m" "master_inv m"
    "es_used (ms_wait_set m) = 2 + length fds" "ms_total_sockets m = 1 + length fds + k"
    "ms_log m = []" "ms_jobs m = ring_new (replicate JOB_QLEN 0)" "rq_size (ms_idle m) = 0"
    "ms_worker_handles m = replicate k None"
proof -
  obtain m0 where m0: "add_socket os TYPE_UNSET (-1) {WL_LATCH_SET} (master_init (length fds) k) = Inr m0"
    "master_inv m0" "es_used (ms_wait_set m0) = 1" "ms_total_sockets m0 = 1 + length fds + k"
    "ms_frontend_paused m0 = False" "ms_log m0 = []" "ms_worker_handles m0 = replicate k None"
    "ms_jobs m0 = ring_new (replicate JOB_QLEN 0)"
    "ms_idle m0 = ring_new (replicate (1 + length fds + k) 0)"
    by (rule startup_latch[OF assms(1)])
  have b0: "base_inv m0" using m0(2) by (simp add: master_inv_def)
  have "es_used (ms_wait_set m0) < es_space (ms_wait_set m0)"
    using table_invD(2)[OF base_invD(1)[OF b0]] m0(3,4) assms(2) by simp
  then obtain m1 where m1: "add_socket os TYPE_IPC ipc {WL_SOCKET_ACCEPT} m0 = Inr m1" "base_inv m1"
    "es_used (ms_wait_set m1) = Suc (es_used (ms_wait_set m0))"
    "ms_total_sockets m1 = ms_total_sockets m0" "ms_frontend_paused m1 = ms_frontend_paused m0"
    "ms_log m1 = ms_log m0" "ms_jobs m1 = ms_jobs m0" "ms_idle m1 = ms_idle m0"
    "ms_worker_handles m1 = ms_worker_handles m0"
    using add_socket_sat[OF assms(1) b0] by (metis sock_type.distinct(1,7))
  have pre: "\<not> ms_frontend_paused m1" "es_used (ms_wait_set m1) + length fds \<le> ms_total_sockets m1"
    using m0 m1 assms(2) by simp_all
  obtain m' where m': "add_frontends os fds m1 = Inr m'" "base_inv m'"
    "es_used (ms_wait_set m') = es_used (ms_wait_set m1) + length fds"
    "ms_total_sockets m' = ms_total_sockets m1" "ms_log m' = ms_log m1" "ms_jobs m' = ms_jobs m1"
    "ms_idle m' = ms_idle m1" "ms_worker_handles m' = ms_worker_handles m1"
    by (rule add_frontends_sat[OF assms(1) m1(2) pre(1) assms(3) pre(2)])
  show thesis
    using m0 m1 m' by (intro that[of m']) (auto simp: master_startup_def master_inv_def fifo_inv_def)
qed

section \<open>Reachable states\<close>

text \<open>
  The states between two events of the loop. A step is one event for a registered position,
  or a signal handler, which can run between any two of them.
\<close>

inductive master_step :: "os \<Rightarrow> master \<Rightarrow> master \<Rightarrow> bool" for os where
  event: "i < ms_total_sockets m \<Longrightarrow> process_events os [(i, evs)] m = Inr (False, m') \<Longrightarrow>
    master_step os m m'"
| sigterm: "master_step os m (master_on_sigterm m)"
| sigusr1: "master_step os m (master_on_sigusr1 m)"

inductive_cases master_stepE: "master_step os m m'"

inductive master_reachable :: "os \<Rightarrow> int list \<Rightarrow> int \<Rightarrow> nat \<Rightarrow> master \<Rightarrow> bool" for os fds ipc k where
  start: "master_startup os fds ipc k = Inr m \<Longrightarrow> master_reachable os fds ipc k m"
| step: "master_reachable os fds ipc k m \<Longrightarrow> master_step os m m' \<Longrightarrow> master_reachable os fds ipc k m'"

definition master_config :: "os \<Rightarrow> int list \<Rightarrow> nat \<Rightarrow> bool" where
  "master_config os fds k \<longleftrightarrow> os_law os \<and> 1 \<le> k \<and> PGINVALID_SOCKET \<notin> set fds"

lemma shutdown_frame [frame_simps, simp]:
  "base_inv (m\<lparr>ms_shutdown_requested := d\<rparr>) = base_inv m"
  by (simp add: base_inv_def part_invs registered_def mask_of_def frontend_mask_def)

lemma signal_inv:
  "master_inv m \<Longrightarrow> master_inv (master_on_sigterm m)"
  "master_inv m \<Longrightarrow> master_inv (master_on_sigusr1 m)"
  by (simp_all add: master_on_sigterm_def master_on_sigusr1_def master_inv_def fifo_inv_def)

lemma step_inv:
  assumes "os_law os" "master_step os m m'" "master_inv m"
  shows "step_post m m'"
  using assms(2)
proof (cases rule: master_step.cases)
  case (event i evs)
  with process_events_sat[OF assms(1,3), of "[(i, evs)]"] show ?thesis by simp
qed (use signal_inv[OF assms(3)] in \<open>simp_all add: master_on_sigterm_def master_on_sigusr1_def\<close>)

lemma reachable_inv:
  assumes "master_config os fds k" "master_reachable os fds ipc k m"
  shows "master_inv m" "ms_total_sockets m = 1 + length fds + k"
  using assms(2)
proof (induction rule: master_reachable.induct)
  case (start m)
  obtain m0 where "master_startup os fds ipc k = Inr m0" "master_inv m0"
    "ms_total_sockets m0 = 1 + length fds + k"
    using startup_ok assms(1) by (metis master_config_def)
  with start show "master_inv m" "ms_total_sockets m = 1 + length fds + k" by simp_all
next
  case (step m m')
  with step_inv[of os m m'] assms(1)
  show "master_inv m'" "ms_total_sockets m' = 1 + length fds + k"
    by (simp_all add: master_config_def)
qed

end
