(* ===== verification/MasterProps.thy ===== *)
theory MasterProps
  imports MasterLoop
begin

text \<open>
  The properties of the dispatcher: the order in which connections are handed out, the
  paused flag, the number of workers, what can fail, and how the greeting of a worker is
  read. The lemmas first, then a small environment on which every hypothesis holds, then the
  properties.
\<close>

section \<open>Reading the greeting in pieces\<close>

text \<open>Events of one worker, one after the other.\<close>

fun backend_events :: "os \<Rightarrow> nat \<Rightarrow> wl set list \<Rightarrow> master \<Rightarrow> master res" where
  "backend_events os i [] m = Inr m"
| "backend_events os i (evs # evss) m = res_bind (on_backend os i evs m) (backend_events os i evss)"

lemma no_more_events [simp]: "res_bind r (backend_events os i []) = r"
  by (cases r) simp_all

definition readable :: "wl set \<Rightarrow> bool" where
  "readable evs \<longleftrightarrow> WL_SOCKET_READABLE \<in> evs \<and> WL_SOCKET_CLOSED \<notin> evs"

text \<open>
  The kernel gives the bytes \<open>cs\<close> in these pieces, to a reader that has \<open>n\<close> of the twelve bytes of a
  greeting and asks each time for the ones that are missing.
\<close>

fun receives :: "os \<Rightarrow> int \<Rightarrow> log \<Rightarrow> nat \<Rightarrow> byte list list \<Rightarrow> bool" where
  "receives os fd log n [] \<longleftrightarrow> True"
| "receives os fd log n (c # cs) \<longleftrightarrow>
     os_recv os log fd (12 - n) = Some c \<and> receives os fd (Recv fd c # log) (n + length c) cs"

lemma length_BACKEND_HELLO [simp]: "length BACKEND_HELLO = 8"
  by (simp add: BACKEND_HELLO_def)

lemma hello_loop_match:
  "(\<And>j. i \<le> j \<Longrightarrow> int j < limit \<Longrightarrow> BACKEND_HELLO ! (off + j) = buf ! j) \<Longrightarrow>
    hello_loop off buf limit i = Some (max i (nat limit))"
proof (induction off buf limit i rule: hello_loop.induct)
  case (1 off buf limit i)
  show ?case
  proof (cases "int i < limit")
    case True
    with 1 have "hello_loop off buf limit (i + 1) = Some (max (i + 1) (nat limit))" by simp
    with True 1(2)[of i] show ?thesis by (subst hello_loop.simps) simp
  qed (subst hello_loop.simps, simp)
qed

lemma hello_loop_mismatch:
  "i \<le> j \<Longrightarrow> int j < limit \<Longrightarrow> BACKEND_HELLO ! (off + j) \<noteq> buf ! j \<Longrightarrow>
    hello_loop off buf limit i = None"
proof (induction off buf limit i rule: hello_loop.induct)
  case (1 off buf limit i)
  then show ?case by (cases "i = j") (subst hello_loop.simps, simp)+
qed

text \<open>
  What the entry of a worker says after the bytes \<open>bs\<close>, fewer than twelve, of a greeting.
\<close>

definition greeted :: "socket \<Rightarrow> byte list \<Rightarrow> bool" where
  "greeted s bs \<longleftrightarrow> length bs < 12 \<and> unat (sk_read_offset s) = length bs \<and>
     length (sk_worker_id s) = 4 \<and> take (length bs - 8) (sk_worker_id s) = drop 8 bs"

lemma greeted_new: "sk_read_offset s = 0 \<Longrightarrow> length (sk_worker_id s) = 4 \<Longrightarrow> greeted s []"
  by (simp add: greeted_def)

lemma greeting_loop:
  assumes "greeted s bs" "take 8 (bs @ c) = take (length (bs @ c)) BACKEND_HELLO"
  shows "hello_loop (length bs) c (min (8 - int (length bs)) (int (length c))) 0
    = Some (min (8 - length bs) (length c))"
proof -
  have "BACKEND_HELLO ! (length bs + j) = c ! j"
    if "int j < min (8 - int (length bs)) (int (length c))" for j
  proof -
    have j: "length bs + j < 8" "j < length c" using that by auto
    then have "take 8 (bs @ c) ! (length bs + j) = c ! j" by (simp add: nth_append)
    moreover have "take (length (bs @ c)) BACKEND_HELLO ! (length bs + j) = BACKEND_HELLO ! (length bs + j)"
      using j by simp
    ultimately show ?thesis using assms(2) by simp
  qed
  then have "hello_loop (length bs) c (min (8 - int (length bs)) (int (length c))) 0
      = Some (max 0 (nat (min (8 - int (length bs)) (int (length c)))))"
    by (rule hello_loop_match)
  moreover have "nat (min (8 - int (length bs)) (int (length c))) = min (8 - length bs) (length c)"
    by linarith
  ultimately show ?thesis by simp
qed

lemma greeting_copy:
  assumes "greeted s bs" "length (bs @ c) \<le> 12" "min (8 - length bs) (length c) < length c"
  obtains w where "copy_worker_id (nat (max 0 (int (length bs) - 8)))
      (drop (min (8 - length bs) (length c)) c) (sk_worker_id s) = Inr w"
    "length w = 4" "take (length (bs @ c) - 8) w = drop 8 (bs @ c)"
proof -
  have n: "nat (max 0 (int (length bs) - 8)) = length bs - 8"
    "min (8 - length bs) (length c) = 8 - length bs"
    using assms(3) by auto
  have g: "length (sk_worker_id s) = 4" "take (length bs - 8) (sk_worker_id s) = drop 8 bs"
    using assms(1) by (simp_all add: greeted_def)
  have len: "length bs - 8 + (length c - (8 - length bs)) = length (bs @ c) - 8"
    using assms(3) by auto
  define w where "w = drop 8 bs @ drop (8 - length bs) c @ drop (length (bs @ c) - 8) (sk_worker_id s)"
  have 1: "copy_worker_id (length bs - 8) (drop (8 - length bs) c) (sk_worker_id s) = Inr w"
    using g len assms(2) by (simp add: copy_worker_id_def w_def)
  have "length w = length bs - 8 + (length c - (8 - length bs)) + (4 - (length (bs @ c) - 8))"
    using g(1) by (simp add: w_def)
  with len assms(2) have 2: "length w = 4" by linarith
  have 3: "take (length (bs @ c) - 8) w = drop 8 (bs @ c)"
    using len by (simp add: w_def)
  show thesis
    unfolding n by (rule that[unfolded n, OF 1 2 3])
qed

lemma greeting_step:
  assumes "greeted (ms_sockets m ! i) bs" "length (bs @ c) \<le> 12"
    and "take 8 (bs @ c) = take (length (bs @ c)) BACKEND_HELLO"
  obtains w where "length w = 4" "take (length (bs @ c) - 8) w = drop 8 (bs @ c)"
    "on_backend_bytes os i (int (length c)) c m =
      (if length (bs @ c) = 12 \<and> c \<noteq> [] then
         on_worker_idle os i (set_socket i ((ms_sockets m ! i)\<lparr>sk_worker_id := w, sk_read_offset := 0\<rparr>) m)
       else Inr (set_socket i ((ms_sockets m ! i)\<lparr>sk_worker_id := w,
         sk_read_offset := word_of_nat (length (bs @ c))\<rparr>) m))"
proof -
  let ?s = "ms_sockets m ! i"
  have off: "length bs = unat (sk_read_offset ?s)" using assms(1) by (simp add: greeted_def)
  note eq = on_backend_bytes_eq[OF refl off, of os "int (length c)" c]
    greeting_loop[OF assms(1,3)]
  have w: "word_of_int (int (length bs) + int (length c)) = (word_of_nat (length (bs @ c)) :: byte)"
    by (simp flip: of_nat_add)
  show thesis
  proof (cases "min (8 - length bs) (length c) < length c")
    case True
    obtain w where "copy_worker_id (nat (max 0 (int (length bs) - 8)))
      (drop (min (8 - length bs) (length c)) c) (sk_worker_id ?s) = Inr w"
      "length w = 4" "take (length (bs @ c) - 8) w = drop 8 (bs @ c)"
      by (rule greeting_copy[OF assms(1,2) True])
    with eq True w show thesis by (intro that[of w]) (auto simp flip: of_nat_add)
  next
    case False
    then have "length c = 0 \<or> length bs + length c \<le> 8" by linarith
    then have "length (bs @ c) \<le> 8 \<or> c = []" by auto
    moreover have "length (sk_worker_id ?s) = 4"
      "take (length bs - 8) (sk_worker_id ?s) = drop 8 bs"
      using assms(1) by (simp_all add: greeted_def)
    ultimately show thesis
      using eq False w by (intro that[of "sk_worker_id ?s"]) (auto simp: greeted_def)
  qed
qed

lemma take_of_prefix: "take n xs = take (length xs) (take n (xs @ ys))"
  by (cases "length xs \<le> n") simp_all

text \<open>All pieces of a greeting, one after the other.\<close>

lemma read_piece:
  assumes "greeted (ms_sockets m ! i) bs" "readable evs"
    and "os_recv os (ms_log m) (sk_fd (ms_sockets m ! i)) (12 - length bs) = Some c"
  shows "on_backend os i evs m =
    on_backend_bytes os i (int (length c)) c (add_log [Recv (sk_fd (ms_sockets m ! i)) c] m)"
  using assms by (simp add: on_backend_def readable_def greeted_def Let_def)

lemma set_socket_log [simp]:
  "i < length (ms_sockets m) \<Longrightarrow> set_socket i s' (add_log cs (set_socket i s (add_log cs' m))) =
    set_socket i s' (add_log (cs' @ cs) m)"
  by (simp add: set_socket_def add_log_def)

lemma greeting_pieces_from:
  assumes "greeted (ms_sockets m ! i) bs" "i < length (ms_sockets m)"
    and "bs @ concat cs = BACKEND_HELLO @ wid" "length wid = 4" "[] \<notin> set cs"
    and "length evss = length cs" "\<forall>evs \<in> set evss. readable evs"
    and "receives os (sk_fd (ms_sockets m ! i)) (ms_log m) (length bs) cs"
  shows "backend_events os i evss m = on_worker_idle os i
    (set_socket i ((ms_sockets m ! i)\<lparr>sk_worker_id := wid, sk_read_offset := 0\<rparr>)
      (add_log (map (Recv (sk_fd (ms_sockets m ! i))) cs) m))"
  using assms(1-3,5-)
proof (induction cs arbitrary: bs m evss)
  case Nil
  then have "length bs = 12" using assms(4) by simp
  with Nil(1) show ?case by (simp add: greeted_def)
next
  case (Cons c cs)
  let ?fd = "sk_fd (ms_sockets m ! i)" and ?m = "add_log [Recv (sk_fd (ms_sockets m ! i)) c] m"
  obtain evs evss' where ev: "evss = evs # evss'" "readable evs" "length evss' = length cs" "\<forall>e \<in> set evss'. readable e"
    using Cons.prems(5,6) by (cases evss) auto
  have bsc: "(bs @ c) @ concat cs = BACKEND_HELLO @ wid" using Cons.prems(3) by simp
  then have "length ((bs @ c) @ concat cs) = 12" using assms(4) by simp
  then have len: "length (bs @ c) + length (concat cs) = 12" by simp
  have "take 8 (bs @ c) = take (length (bs @ c)) (take 8 ((bs @ c) @ concat cs))"
    by (rule take_of_prefix)
  also have "\<dots> = take (length (bs @ c)) BACKEND_HELLO" by (simp only: bsc) simp
  finally have pre: "take 8 (bs @ c) = take (length (bs @ c)) BACKEND_HELLO" .
  have "greeted (ms_sockets ?m ! i) bs" using Cons.prems(1) by simp
  from greeting_step[OF this _ pre, of os] len obtain w where
    w: "length w = 4" "take (length (bs @ c) - 8) w = drop 8 (bs @ c)"
    "on_backend_bytes os i (int (length c)) c ?m =
      (if length (bs @ c) = 12 \<and> c \<noteq> [] then
         on_worker_idle os i (set_socket i ((ms_sockets ?m ! i)\<lparr>sk_worker_id := w, sk_read_offset := 0\<rparr>) ?m)
       else Inr (set_socket i ((ms_sockets ?m ! i)\<lparr>sk_worker_id := w,
         sk_read_offset := word_of_nat (length (bs @ c))\<rparr>) ?m))"
    by (metis le_add1)
  have c: "c \<noteq> []" using Cons.prems(4) by auto
  have first: "on_backend os i evs m = on_backend_bytes os i (int (length c)) c ?m"
    using Cons.prems(7) by (intro read_piece[OF Cons.prems(1) ev(2)]) simp
  show ?case
  proof (cases "cs = []")
    case True
    with len bsc have "bs @ c = BACKEND_HELLO @ wid" "length (bs @ c) = 12"
      using assms(4) by simp_all
    with w assms(4) have "w = wid" by simp
    with w c True ev first \<open>length (bs @ c) = 12\<close> show ?thesis by simp
  next
    case False
    let ?s = "(ms_sockets m ! i)\<lparr>sk_worker_id := w, sk_read_offset := word_of_nat (length (bs @ c))\<rparr>"
    let ?m1 = "set_socket i ?s ?m"
    have "concat cs \<noteq> []" using False Cons.prems(4) by (cases cs) auto
    then have lt: "length (bs @ c) < 12" using len by (cases "concat cs") simp_all
    then have "greeted ?s (bs @ c)"
      using w(1,2) by (simp add: greeted_def unat_of_nat flip: of_nat_add)
    then have g: "greeted (ms_sockets ?m1 ! i) (bs @ c)" using Cons.prems(2) by simp
    have "backend_events os i evss' ?m1 = on_worker_idle os i
      (set_socket i ((ms_sockets ?m1 ! i)\<lparr>sk_worker_id := wid, sk_read_offset := 0\<rparr>)
        (add_log (map (Recv ?fd) cs) ?m1))"
      using Cons.IH[OF g _ bsc _ ev(3,4)] Cons.prems(2,4,7) by simp
    then show ?thesis using w(3) lt ev(1) first Cons.prems(2) by simp
  qed
qed

text \<open>A byte that differs from the greeting closes the connection.\<close>

lemma greeting_mismatch:
  assumes "greeted (ms_sockets m ! i) bs" "j < length c" "length bs + j < 8"
    and "c ! j \<noteq> BACKEND_HELLO ! (length bs + j)"
  shows "on_backend_bytes os i (int (length c)) c m = close_socket os i m"
proof -
  have off: "length bs = unat (sk_read_offset (ms_sockets m ! i))"
    using assms(1) by (simp add: greeted_def)
  have "hello_loop (length bs) c (min (8 - int (length bs)) (int (length c))) 0 = None"
    using assms(2-4) by (intro hello_loop_mismatch[of 0 j]) auto
  then show ?thesis
    unfolding on_backend_bytes_eq[OF refl off, of os "int (length c)" c] by simp
qed

section \<open>Which worker gets a connection\<close>

lemma dispatch_first_live:
  assumes "ring_ok (ms_idle m)" "ring_list (ms_idle m) = dead @ int b # rest"
    and "\<forall>d \<in> set dead. 0 \<le> d \<and> nat d < length (ms_sockets m) \<and> type_at m (nat d) \<noteq> TYPE_BACKEND"
    and "b < length (ms_sockets m)" "type_at m b = TYPE_BACKEND"
    and "os_sendmsg os (ms_log m) (sk_fd (ms_sockets m ! b)) sock"
  shows "\<exists>m'. dispatch_to_idle os sock m = Inr (True, m') \<and> ring_list (ms_idle m') = rest \<and>
    ms_jobs m' = ms_jobs m \<and>
    ms_log m' = StreamClose sock # SendFd (sk_fd (ms_sockets m ! b)) sock # ms_log m"
  using assms
proof (induction dead arbitrary: m)
  case Nil
  then have size: "0 < rq_size (ms_idle m)" by (metis append_Nil length_Cons length_ring_list zero_less_Suc)
  have pop: "ring_first (ms_idle m) = int b" "ring_list (ring_pop (ms_idle m)) = rest"
    using ring_list_pop[OF Nil(1) size] Nil(2) by simp_all
  show ?case
    using Nil size pop by (subst dispatch_to_idle.simps) (simp add: Let_def)
next
  case (Cons d dead)
  have size: "0 < rq_size (ms_idle m)" using Cons.prems(2) by (metis append_Cons length_Cons length_ring_list zero_less_Suc)
  have pop: "ring_first (ms_idle m) = d" "ring_list (ring_pop (ms_idle m)) = dead @ int b # rest"
    using ring_list_pop[OF Cons.prems(1) size] Cons.prems(2) by simp_all
  let ?m = "m\<lparr>ms_idle := ring_pop (ms_idle m)\<rparr>"
  have d: "0 \<le> d" "nat d < length (ms_sockets m)" "type_at m (nat d) \<noteq> TYPE_BACKEND"
    using Cons.prems(3) by simp_all
  then have "\<not> int (length (ms_sockets m)) \<le> d" by linarith
  then have "dispatch_to_idle os sock m = dispatch_to_idle os sock ?m"
    using size pop(1) d by (subst dispatch_to_idle.simps) (simp add: Let_def)
  moreover have "\<exists>m'. dispatch_to_idle os sock ?m = Inr (True, m') \<and> ring_list (ms_idle m') = rest \<and>
      ms_jobs m' = ms_jobs ?m \<and>
      ms_log m' = StreamClose sock # SendFd (sk_fd (ms_sockets ?m ! b)) sock # ms_log ?m"
    using Cons.prems pop(2) size by (intro Cons.IH) auto
  ultimately show ?case by simp
qed

section \<open>A small environment\<close>

text \<open>
  Every call succeeds, new connections are descriptor 100 and every \<open>recv\<close> gives the first
  bytes of \<open>r\<close>, or fails.
\<close>

definition demo_os :: "byte list option \<Rightarrow> os" where
  "demo_os r =
     \<lparr>os_add = (\<lambda>ws ev. (ws\<lparr>ws_events := (ws_events ws)(ws_nevents ws \<mapsto> ev)\<rparr>, int (ws_nevents ws))),
      os_modify = (\<lambda>ws pos evs. ws\<lparr>ws_events := (ws_events ws)(nat pos :=
        map_option (we_events_update (\<lambda>_. evs)) (ws_events ws (nat pos)))\<rparr>),
      os_epoll_del = (\<lambda>_ _. True), os_accept = (\<lambda>_ _. Some 100), os_sendmsg = (\<lambda>_ _ _. True),
      os_recv = (\<lambda>_ _ n. map_option (take n) r), os_register = (\<lambda>_ _. None),
      os_stopped = (\<lambda>_ _. False)\<rparr>"

lemma demo_os_law: "os_law (demo_os r)"
  by (auto simp: os_law_def demo_os_def add_event_law_def modify_event_law_def)

lemma demo_config: "1 \<le> k \<Longrightarrow> master_config (demo_os r) [5] k"
  by (simp add: master_config_def demo_os_law PGINVALID_SOCKET_def)

definition demo_run :: "byte list option \<Rightarrow> nat \<Rightarrow> (nat \<times> wl set) list \<Rightarrow> master res" where
  "demo_run r k evs = res_bind (master_startup (demo_os r) [5] 4 k) (\<lambda>m.
     res_bind (process_events (demo_os r) evs m) (\<lambda>(stop, m).
       if stop then Inl (Trap ''stopped'') else Inr m))"

lemma process_events_reachable:
  assumes "master_config os fds k" "master_reachable os fds ipc k m"
    and "process_events os evss m = Inr (False, m')" "\<forall>e \<in> set evss. fst e < 1 + length fds + k"
  shows "master_reachable os fds ipc k m'"
  using assms(2-)
proof (induction evss arbitrary: m)
  case (Cons e evss)
  obtain i evs where e: "e = (i, evs)" by fastforce
  then obtain m1 where m1: "process_events os [e] m = Inr (False, m1)"
    "process_events os evss m1 = Inr (False, m')"
    using Cons.prems(2) by (auto simp: res_bind_eq_Inr split: if_splits)
  have "i < ms_total_sockets m"
    using reachable_inv(2)[OF assms(1) Cons.prems(1)] Cons.prems(3) e by simp
  then have "master_reachable os fds ipc k m1"
    using Cons.prems(1) m1(1) e by (blast intro: master_reachable.step master_step.event)
  from Cons.IH[OF this m1(2)] Cons.prems(3) show ?case by simp
qed simp

lemma demo_run_reachable:
  assumes "demo_run r k evs = Inr m" "1 \<le> k" "\<forall>e \<in> set evs. fst e < 2 + k"
  shows "master_reachable (demo_os r) [5] 4 k m"
  using assms process_events_reachable[OF demo_config[OF assms(2)] master_reachable.start, of r 4 _ evs m]
  by (auto simp: demo_run_def res_bind_eq_Inr split: if_splits)

text \<open>A worker greets and a connection comes; two connections come while there is no worker.\<close>

definition demo_greeting :: "byte list option" where
  "demo_greeting = Some (BACKEND_HELLO @ [7, 0, 0, 0])"

definition demo_busy :: master where
  "demo_busy = projr (demo_run demo_greeting 3
     [(1, {WL_SOCKET_ACCEPT}), (3, {WL_SOCKET_READABLE}), (2, {WL_SOCKET_ACCEPT})])"

definition demo_waiting :: master where
  "demo_waiting = projr (demo_run demo_greeting 3
     [(2, {WL_SOCKET_ACCEPT}), (2, {WL_SOCKET_ACCEPT}), (1, {WL_SOCKET_ACCEPT})])"

definition demo_idle :: master where
  "demo_idle = projr (demo_run demo_greeting 3 [(1, {WL_SOCKET_ACCEPT}), (3, {WL_SOCKET_READABLE})])"

lemma demo_reachable:
  "master_reachable (demo_os demo_greeting) [5] 4 3 demo_busy"
  "master_reachable (demo_os demo_greeting) [5] 4 3 demo_waiting"
  "master_reachable (demo_os demo_greeting) [5] 4 3 demo_idle"
proof -
  have run: "\<not> isl (demo_run demo_greeting 3
      [(1, {WL_SOCKET_ACCEPT}), (3, {WL_SOCKET_READABLE}), (2, {WL_SOCKET_ACCEPT})])"
    "\<not> isl (demo_run demo_greeting 3
      [(2, {WL_SOCKET_ACCEPT}), (2, {WL_SOCKET_ACCEPT}), (1, {WL_SOCKET_ACCEPT})])"
    "\<not> isl (demo_run demo_greeting 3 [(1, {WL_SOCKET_ACCEPT}), (3, {WL_SOCKET_READABLE})])"
    by code_simp+
  show "master_reachable (demo_os demo_greeting) [5] 4 3 demo_busy"
    "master_reachable (demo_os demo_greeting) [5] 4 3 demo_waiting"
    "master_reachable (demo_os demo_greeting) [5] 4 3 demo_idle"
    using run by (auto simp: demo_busy_def demo_waiting_def demo_idle_def sum.collapse(2)[symmetric]
        intro!: demo_run_reachable)
qed

text \<open>A worker connects and nothing of it can be read; two workers connect and fill the wait set.\<close>

definition demo_one :: master where
  "demo_one = projr (demo_run None 2 [(1, {WL_SOCKET_ACCEPT})])"

definition demo_deaf :: master where
  "demo_deaf = projr (on_backend_connect (demo_os None) 1 {WL_SOCKET_ACCEPT}
     (projr (on_backend (demo_os None) 3 {WL_SOCKET_READABLE} demo_one)))"

definition demo_full :: master where
  "demo_full = projr (demo_run None 3 [(1, {WL_SOCKET_ACCEPT}), (1, {WL_SOCKET_ACCEPT})])"

lemma demo_reachable_one:
  "master_reachable (demo_os None) [5] 4 2 demo_one"
  "master_reachable (demo_os None) [5] 4 3 demo_full"
proof -
  have run: "\<not> isl (demo_run None 2 [(1, {WL_SOCKET_ACCEPT})])"
    "\<not> isl (demo_run None 3 [(1, {WL_SOCKET_ACCEPT}), (1, {WL_SOCKET_ACCEPT})])"
    by code_simp+
  show "master_reachable (demo_os None) [5] 4 2 demo_one"
    "master_reachable (demo_os None) [5] 4 3 demo_full"
    using run by (auto simp: demo_one_def demo_full_def sum.collapse(2)[symmetric]
        intro!: demo_run_reachable)
qed

section \<open>Properties\<close>

text \<open>
  C1: connections are handed to workers in the order in which they were accepted. In every
  reachable state the accepted connections, less those refused because the queue was full,
  are those handed out followed by those in the queue: none is lost, sent twice, or overtaken.
\<close>
lemma jobs_in_order:
  assumes "master_config os fds k" "master_reachable os fds ipc k m"
  shows "kept_jobs (ms_log m) = sent_jobs (ms_log m) @ ring_list (ms_jobs m)"
  using reachable_inv(1)[OF assms] by (simp add: master_inv_def fifo_inv_def)

lemma jobs_in_order_witness:
  "kept_jobs (ms_log demo_waiting) = sent_jobs (ms_log demo_waiting) @ ring_list (ms_jobs demo_waiting)
   \<and> kept_jobs (ms_log demo_waiting) = [100, 100]"
  using jobs_in_order[OF demo_config demo_reachable(2)] by (auto, code_simp)

text \<open>
  C15: the frontend sockets are paused exactly while the job queue is full, and then every
  frontend waits for \<open>WL_SOCKET_CLOSED\<close> only; otherwise every frontend waits for connections.
\<close>
lemma paused_iff_queue_full:
  assumes "master_config os fds k" "master_reachable os fds ipc k m"
  shows "(ms_frontend_paused m \<longleftrightarrow> rq_size (ms_jobs m) = JOB_QLEN) \<and>
    (\<forall>i < ms_total_sockets m. type_at m i = TYPE_FRONTEND \<longrightarrow>
      mask_of m i = Some (if ms_frontend_paused m then {WL_SOCKET_CLOSED} else {WL_SOCKET_ACCEPT}))"
proof -
  have "queue_inv m" "mask_inv m"
    using reachable_inv(1)[OF assms] by (simp_all add: master_inv_def base_inv_def)
  then show ?thesis by (simp add: queue_inv_def mask_inv_def frontend_mask_def)
qed

lemma paused_iff_queue_full_witness:
  "type_at demo_busy 2 = TYPE_FRONTEND \<and> mask_of demo_busy 2 = Some {WL_SOCKET_ACCEPT} \<and>
   rq_size (ms_jobs demo_busy) \<noteq> JOB_QLEN"
proof -
  have "type_at demo_busy 2 = TYPE_FRONTEND" "2 < ms_total_sockets demo_busy"
    "\<not> ms_frontend_paused demo_busy" by code_simp+
  with paused_iff_queue_full[OF demo_config demo_reachable(1)] show ?thesis by simp
qed

text \<open>
  No connection waits while a worker is idle.
\<close>
lemma no_job_waits_while_idle:
  assumes "master_config os fds k" "master_reachable os fds ipc k m" "ring_list (ms_jobs m) \<noteq> []"
  shows "ring_list (ms_idle m) = []"
proof -
  have "queue_inv m" using reachable_inv(1)[OF assms(1,2)] by (simp add: master_inv_def base_inv_def)
  with assms(3) show ?thesis by (simp add: queue_inv_def)
qed

lemma no_job_waits_while_idle_witness:
  "ring_list (ms_jobs demo_waiting) = [100, 100] \<and> ring_list (ms_idle demo_waiting) = []"
proof -
  have "ring_list (ms_jobs demo_waiting) = [100, 100]" by code_simp
  with no_job_waits_while_idle[OF demo_config demo_reachable(2)] show ?thesis by simp
qed

text \<open>
  The count of background workers is the number of live handles and never exceeds
  \<open>max_worker_processes - 2\<close>.
\<close>
lemma worker_count_bound:
  assumes "master_config os fds k" "master_reachable os fds ipc k m"
  shows "ms_num_workers m = int (length (filter (\<lambda>h. h \<noteq> None) (ms_worker_handles m))) \<and>
    ms_num_workers m \<le> max 0 (int (ms_max_worker_processes m) - 2)"
  using reachable_inv(1)[OF assms] by (simp add: master_inv_def base_inv_def handle_inv_def)

lemma worker_count_bound_witness: "ms_num_workers demo_waiting \<le> 1"
proof -
  have "ms_max_worker_processes demo_waiting = 3" by code_simp
  with worker_count_bound[OF demo_config demo_reachable(2)] show ?thesis by simp
qed

text \<open>
  C37: from a reachable state an event either leaves the loop in a state of the invariant or
  fails in one of three ways: \<open>epoll_ctl\<close> refuses a descriptor, a worker connects while the
  wait set is full, the idle queue overflows. No other assertion of the file can fail and no
  other access is outside its array.
\<close>
lemma event_failures:
  assumes "master_config os fds k" "master_reachable os fds ipc k m" "i < ms_total_sockets m"
  shows "res_sat {PgError ''epoll_ctl() failed'', Undefined ''sockets[pos]'',
      Trap ''idle_qsize < total_sockets''} (\<lambda>(stop, m'). master_inv m') (process_events os [(i, evs)] m)"
proof -
  have "res_sat master_failures (\<lambda>(stop, m'). step_post m m') (process_events os [(i, evs)] m)"
    by (rule process_events_sat[OF _ reachable_inv(1)[OF assms(1,2)]])
       (use assms in \<open>simp_all add: master_config_def\<close>)
  then show ?thesis
    by (rule res_sat_mono) (auto simp: master_failures_def)
qed

lemma event_failures_witness:
  "res_sat {PgError ''epoll_ctl() failed'', Undefined ''sockets[pos]'',
      Trap ''idle_qsize < total_sockets''} (\<lambda>(stop, m'). master_inv m')
    (process_events (demo_os demo_greeting) [(3, {WL_SOCKET_CLOSED})] demo_idle)"
proof -
  have "3 < ms_total_sockets demo_idle" by code_simp
  then show ?thesis by (intro event_failures[OF demo_config demo_reachable(3)]) simp
qed

text \<open>
  The socket table and the wait set agree. In every reachable state an open socket knows
  its own position, the event at that position has its descriptor and points back at it, and
  the wait set uses one position for the latch and one for each open socket: closing a socket
  leaks no position and no position is shared.
\<close>
lemma positions_match:
  assumes "master_config os fds k" "master_reachable os fds ipc k m"
  shows "(\<forall>i < ms_total_sockets m. type_at m i \<noteq> TYPE_UNSET \<longrightarrow> registered m i) \<and>
    es_used (ms_wait_set m) = 1 + card {i. i < ms_total_sockets m \<and> type_at m i \<noteq> TYPE_UNSET}"
proof -
  have inv: "base_inv m" using reachable_inv(1)[OF assms] by (simp add: master_inv_def)
  note t = table_invD[OF base_invD(1)[OF inv]]
  have "card (es_live (ms_wait_set m)) = 1 + card {i. i < ms_total_sockets m \<and> type_at m i \<noteq> TYPE_UNSET}"
    using t(5) by (simp add: t(6))
  with card_es_live[OF t(1)] base_invD(2)[OF inv] show ?thesis by (simp add: link_inv_def)
qed

lemma positions_match_witness: "registered demo_busy 3"
proof -
  have "3 < ms_total_sockets demo_busy" "type_at demo_busy 3 \<noteq> TYPE_UNSET" by code_simp+
  with positions_match[OF demo_config demo_reachable(1)] show ?thesis by simp
qed

text \<open>
  A connection whose bytes differ from \<open>BACKEND_HELLO\<close> at any of the first eight is closed,
  wherever the pieces before it ended.
\<close>
lemma bad_greeting_closed:
  assumes "greeted (ms_sockets m ! i) bs" "j < length c" "length bs + j < 8"
    and "c ! j \<noteq> BACKEND_HELLO ! (length bs + j)"
  shows "on_backend_bytes os i (int (length c)) c m = close_socket os i m"
  by (rule greeting_mismatch[OF assms])

lemma bad_greeting_closed_witness:
  "on_backend_bytes (demo_os None) 3 (int (length [0x52, 0x50 :: byte])) [0x52, 0x50] demo_waiting
    = close_socket (demo_os None) 3 demo_waiting"
proof -
  have "greeted (ms_sockets demo_waiting ! 3) []" by code_simp
  then show ?thesis
    by (rule bad_greeting_closed[where j = 1]) (simp_all add: BACKEND_HELLO_def)
qed

text \<open>
  An arriving connection goes at once to the worker that has been idle longest, past the
  entries of workers that have gone. The master then closes its own descriptor of it.
\<close>
lemma oldest_idle_worker_first:
  assumes "master_config os fds k" "master_reachable os fds ipc k m"
    and "WL_SOCKET_ACCEPT \<in> evs" "os_accept os (ms_log m) (sk_fd (ms_sockets m ! i)) = Some sock"
    and "ring_list (ms_idle m) = dead @ int b # rest"
    and "\<forall>d \<in> set dead. type_at m (nat d) \<noteq> TYPE_BACKEND" "type_at m b = TYPE_BACKEND"
    and "os_sendmsg os (AcceptFrontend sock # ms_log m) (sk_fd (ms_sockets m ! b)) sock"
  shows "\<exists>m'. on_frontend os i evs m = Inr m' \<and> ring_list (ms_idle m') = rest \<and>
    ms_jobs m' = ms_jobs m \<and>
    ms_log m' = [StreamClose sock, SendFd (sk_fd (ms_sockets m ! b)) sock, AcceptFrontend sock] @ ms_log m"
proof -
  let ?m = "add_log [AcceptFrontend sock] m"
  have inv: "base_inv m" using reachable_inv(1)[OF assms(1,2)] by (simp add: master_inv_def)
  have len: "length (ms_sockets m) = ms_total_sockets m"
    by (rule table_invD(3)[OF base_invD(1)[OF inv]])
  have q: "ring_ok (ms_idle m)" "\<forall>x \<in> set (ring_list (ms_idle m)). 0 \<le> x \<and> nat x < length (ms_sockets m)"
    using base_invD(4)[OF inv] len by (simp_all add: queue_inv_def nat_less_iff)
  have "\<exists>m'. dispatch_to_idle os sock ?m = Inr (True, m') \<and> ring_list (ms_idle m') = rest \<and>
    ms_jobs m' = ms_jobs ?m \<and>
    ms_log m' = StreamClose sock # SendFd (sk_fd (ms_sockets ?m ! b)) sock # ms_log ?m"
    using q assms(5-8) by (intro dispatch_first_live) auto
  then show ?thesis using assms(3,4) by (auto simp: on_frontend_def)
qed

lemma oldest_idle_worker_first_witness:
  "\<exists>m'. on_frontend (demo_os demo_greeting) 2 {WL_SOCKET_ACCEPT} demo_idle = Inr m' \<and>
    ms_log m' = [StreamClose 100, SendFd 100 100, AcceptFrontend 100] @ ms_log demo_idle"
proof -
  have "os_accept (demo_os demo_greeting) (ms_log demo_idle) (sk_fd (ms_sockets demo_idle ! 2)) = Some 100"
    "ring_list (ms_idle demo_idle) = [] @ int 3 # []" "type_at demo_idle 3 = TYPE_BACKEND"
    "os_sendmsg (demo_os demo_greeting) (AcceptFrontend 100 # ms_log demo_idle)
      (sk_fd (ms_sockets demo_idle ! 3)) 100" "sk_fd (ms_sockets demo_idle ! 3) = 100"
    by code_simp+
  then show ?thesis
    using oldest_idle_worker_first[OF demo_config demo_reachable(3), of "{WL_SOCKET_ACCEPT}" 2 100 "[]" 3 "[]"]
    by auto
qed

text \<open>
  With at least one background worker allowed the master starts, on any number of
  listening sockets: each gets a position of its own, and no assertion fails.
\<close>
lemma startup_succeeds:
  assumes "os_law os" "1 \<le> k" "PGINVALID_SOCKET \<notin> set fds"
  shows "\<exists>m. master_startup os fds ipc k = Inr m \<and> ms_total_sockets m = 1 + length fds + k \<and>
    es_used (ms_wait_set m) = 2 + length fds \<and> ms_worker_handles m = replicate k None"
  using startup_ok[OF assms, of ipc] by metis

lemma startup_succeeds_witness:
  "\<exists>m. master_startup (demo_os None) [5, 6] 4 8 = Inr m \<and> ms_total_sockets m = 11"
  using startup_succeeds[OF demo_os_law, of 8 "[5, 6]" None 4] by (auto simp: PGINVALID_SOCKET_def)

section \<open>Properties that show defects\<close>

text \<open>
  After a failed \<open>recv\<close> the entry is cleared and then its offset becomes 255; a worker that
  gets this entry next is never read.
\<close>

lemma recv_failed_offset:
  assumes "os_law os" "master_inv m" "i < ms_total_sockets m" "type_at m i = TYPE_BACKEND"
    and "unat (sk_read_offset (ms_sockets m ! i)) < 12"
    and "os_recv os (ms_log m) (sk_fd (ms_sockets m ! i)) (12 - unat (sk_read_offset (ms_sockets m ! i))) = None"
    and "on_backend os i {WL_SOCKET_READABLE} m = Inr m'"
  shows "sk_read_offset (ms_sockets m' ! i) = 255" "type_at m' i = TYPE_UNSET" "master_inv m'"
proof -
  let ?m = "add_log [RecvFailed (sk_fd (ms_sockets m ! i))] m"
  have b: "base_inv ?m" using assms(2) by (simp add: master_inv_def)
  have len: "i < length (ms_sockets m)"
    using table_invD(3)[OF base_invD(1)[OF b]] assms(3) by simp
  obtain m1 where m1: "close_socket os i ?m = Inr m1" "on_backend_bytes os i (-1) [] m1 = Inr m'"
    using assms(5-7) by (auto simp: on_backend_def res_bind_eq_Inr Let_def)
  have "ms_sockets m1 = (ms_sockets m)[i := zero_socket]"
    using close_socket_sat[OF assms(1) b, of i] assms(3,4) m1(1) by simp
  with m1(2) len have "ms_sockets m' ! i = zero_socket\<lparr>sk_read_offset := -1\<rparr>"
    by (auto simp: on_backend_bytes_after_close)
  then show "sk_read_offset (ms_sockets m' ! i) = 255" "type_at m' i = TYPE_UNSET"
    by (simp_all add: zero_socket_def)
  show "master_inv m'" using on_backend_sat[OF assms(1-4), of "{WL_SOCKET_READABLE}"] assms(7) by simp
qed

lemma connect_keeps_offset:
  assumes "on_backend_connect os j evs m = Inr m'"
  shows "sk_read_offset (ms_sockets m' ! i) = sk_read_offset (ms_sockets m ! i)"
proof -
  have "sk_read_offset ((ms_sockets m)[k := (ms_sockets m ! k)\<lparr>sk_type := a, sk_fd := b, sk_pos := c\<rparr>] ! i)
      = sk_read_offset (ms_sockets m ! i)" for k a b c
    by (cases "k < length (ms_sockets m)") (auto simp: nth_list_update list_update_beyond not_less)
  with assms show ?thesis
    by (auto simp: on_backend_connect_def Let_def split: if_splits option.splits prod.splits)
qed

text \<open>
  When \<open>recv\<close> fails on a worker's socket, the worker that takes the freed entry next is
  deaf: its \<open>READABLE\<close> event only masks it, so its greeting is never read and it never becomes
  idle.
\<close>
lemma recv_failure_deafens_entry:
  assumes "master_config os fds k" "master_reachable os fds ipc k m"
    and "i < ms_total_sockets m" "type_at m i = TYPE_BACKEND"
    and "unat (sk_read_offset (ms_sockets m ! i)) < 12"
    and "os_recv os (ms_log m) (sk_fd (ms_sockets m ! i)) (12 - unat (sk_read_offset (ms_sockets m ! i))) = None"
    and "on_backend os i {WL_SOCKET_READABLE} m = Inr m1"
    and "on_backend_connect os 1 {WL_SOCKET_ACCEPT} m1 = Inr m2" "type_at m2 i = TYPE_BACKEND"
  shows "on_backend os i {WL_SOCKET_READABLE} m2 = Inr (modify_wait os (int i) {WL_SOCKET_CLOSED} m2)"
proof -
  have law: "os_law os" using assms(1) by (simp add: master_config_def)
  note failed = recv_failed_offset[OF law reachable_inv(1)[OF assms(1,2)] assms(3-7)]
  have "sk_read_offset (ms_sockets m2 ! i) = 255"
    using connect_keeps_offset[OF assms(8)] failed(1) by simp
  moreover have "master_inv m2"
    using on_backend_connect_sat[OF law failed(3), of 1 "{WL_SOCKET_ACCEPT}"] assms(8) by simp
  moreover have "ms_total_sockets m2 = ms_total_sockets m"
    using on_backend_connect_sat[OF law failed(3), of 1 "{WL_SOCKET_ACCEPT}"] assms(8)
      on_backend_sat[OF law reachable_inv(1)[OF assms(1,2)] assms(3,4), of "{WL_SOCKET_READABLE}"] assms(7)
    by simp
  ultimately have "sk_pos (ms_sockets m2 ! i) = int i"
    using link_pos[of m2 i] assms(3,9) by (simp add: master_inv_def base_inv_def)
  with \<open>sk_read_offset (ms_sockets m2 ! i) = 255\<close> show ?thesis by (simp add: on_backend_def Let_def)
qed

lemma recv_failure_deafens_entry_witness:
  "on_backend (demo_os None) 3 {WL_SOCKET_READABLE} demo_deaf =
    Inr (modify_wait (demo_os None) (int 3) {WL_SOCKET_CLOSED} demo_deaf)"
proof -
  have "3 < ms_total_sockets demo_one" "type_at demo_one 3 = TYPE_BACKEND"
    "unat (sk_read_offset (ms_sockets demo_one ! 3)) < 12" "type_at demo_deaf 3 = TYPE_BACKEND"
    "\<not> isl (on_backend (demo_os None) 3 {WL_SOCKET_READABLE} demo_one)"
    "\<not> isl (on_backend_connect (demo_os None) 1 {WL_SOCKET_ACCEPT}
      (projr (on_backend (demo_os None) 3 {WL_SOCKET_READABLE} demo_one)))"
    by code_simp+
  moreover have "os_recv (demo_os None) l fd n = None" for l fd n by (simp add: demo_os_def)
  ultimately show ?thesis
    using recv_failure_deafens_entry[OF demo_config demo_reachable_one(1), of 3
      "projr (on_backend (demo_os None) 3 {WL_SOCKET_READABLE} demo_one)" demo_deaf]
    by (simp add: demo_deaf_def)
qed

text \<open>
  A connection that waited in the queue is handed to a worker without the master closing
  its own descriptor of it, which it does for a connection handed over at once.
\<close>
lemma queued_job_not_closed:
  assumes "0 < rq_size (ms_jobs m)"
    and "os_sendmsg os (ms_log m) (sk_fd (ms_sockets m ! i)) (ring_first (ms_jobs m))"
  shows "\<exists>m'. on_worker_idle os i m = Inr m' \<and>
    ms_log m' = SendFd (sk_fd (ms_sockets m ! i)) (ring_first (ms_jobs m)) # ms_log m"
  using assms by (simp add: on_worker_idle_def resume_frontend_def Let_def)

lemma queued_job_not_closed_witness:
  "\<exists>m'. on_worker_idle (demo_os None) 3 demo_waiting = Inr m' \<and>
    ms_log m' = SendFd 100 100 # ms_log demo_waiting"
proof -
  have "0 < rq_size (ms_jobs demo_waiting)" "ring_first (ms_jobs demo_waiting) = 100"
    "os_sendmsg (demo_os None) (ms_log demo_waiting) (sk_fd (ms_sockets demo_waiting ! 3)) 100"
    "sk_fd (ms_sockets demo_waiting ! 3) = 100"
    by code_simp+
  with queued_job_not_closed[of demo_waiting "demo_os None" 3] show ?thesis by simp
qed

text \<open>
  A worker that connects while every position is in use makes the master write in front
  of \<open>sockets\<close>, before the check that would refuse the connection.
\<close>
lemma connect_when_full_undefined:
  assumes "master_config os fds k" "master_reachable os fds ipc k m"
    and "es_used (ms_wait_set m) = es_space (ms_wait_set m)"
    and "os_accept os (ms_log m) (sk_fd (ms_sockets m ! i)) = Some sock"
  shows "on_backend_connect os i {WL_SOCKET_ACCEPT} m = Inl (Undefined ''sockets[pos]'')"
proof -
  have "base_inv m" using reachable_inv(1)[OF assms(1,2)] by (simp add: master_inv_def)
  from next_pos_full[OF this] assms(3,4) show ?thesis by (simp add: on_backend_connect_def)
qed

lemma connect_when_full_undefined_witness:
  "on_backend_connect (demo_os None) 1 {WL_SOCKET_ACCEPT} demo_full = Inl (Undefined ''sockets[pos]'')"
proof -
  have "es_used (ms_wait_set demo_full) = es_space (ms_wait_set demo_full)" by code_simp
  moreover have "os_accept (demo_os None) l fd = Some 100" for l fd by (simp add: demo_os_def)
  ultimately show ?thesis
    using connect_when_full_undefined[OF demo_config demo_reachable_one(2)] by simp
qed

end
