(* ===== verification/Worker.thy ===== *)
theory Worker
  imports Master
begin

text \<open>
  A worker process (\<open>worker.c\<close>): it connects to the master's Unix socket, greets with twelve
  bytes, waits for a connection, runs the application on it inside a transaction, and greets
  again. The calls it makes are kept in a log; what they answer is the environment's.
\<close>

section \<open>State\<close>

text \<open>The two states of the socket are the same number in the source.\<close>

definition WAIT_WRITE :: nat where "WAIT_WRITE = 0"
definition WAIT_READ :: nat where "WAIT_READ = 0"

text \<open>The acts of one job, in the order of \<open>on_readable\<close>.\<close>

datatype job_act =
    StartTransaction | SpiConnect | PushSnapshot | LookupModule | PrepareModule | Instantiate
  | CreateWaitSet | AddLatch | AddClient | InitContext | InitJsonb | InitLlhttp | LookupStart | CallStart
  | Deinstantiate | FreeContext | DestroyExecEnv
  | SpiFinish | PopSnapshot | Commit | Abort | ReportStat | ReportIdle | CloseClient

datatype wcall = Sent "byte list" | SendError | Job int "job_act list"

record worker =
  wk_id :: i32
  wk_hello :: "byte list"
  wk_sent :: nat
  wk_state :: nat
  wk_mask :: "wl set" \<comment> \<open>what the Unix socket waits for\<close>
  wk_shutdown :: bool
  wk_log :: "wcall list" \<comment> \<open>latest first\<close>

text \<open>\<open>memcpy\<close> and friends: \<open>src\<close> replaces the bytes of \<open>dst\<close> from \<open>off\<close> on.\<close>

definition overwrite :: "nat \<Rightarrow> 'a list \<Rightarrow> 'a list \<Rightarrow> 'a list" where
  "overwrite off src dst = take off dst @ src @ drop (off + length src) dst"

text \<open>\<open>snprintf(hello, 12, BACKEND_HELLO)\<close> writes the text and its NUL; then the id.\<close>

definition worker_hello :: "i32 \<Rightarrow> byte list" where
  "worker_hello worker_id =
     overwrite 8 (le_bytes32 worker_id) (overwrite 0 (BACKEND_HELLO @ [0]) (replicate 12 0))"

definition worker_startup :: "i32 \<Rightarrow> worker" where
  "worker_startup worker_id =
     \<lparr>wk_id = worker_id, wk_hello = worker_hello worker_id, wk_sent = 0, wk_state = WAIT_WRITE,
      wk_mask = {WL_SOCKET_WRITEABLE, WL_SOCKET_CLOSED}, wk_shutdown = False, wk_log = []\<rparr>"

section \<open>Greeting\<close>

text \<open>\<open>send\<close> is given the bytes left; \<open>None\<close> is a negative result.\<close>

definition on_writeable :: "nat option \<Rightarrow> worker \<Rightarrow> worker" where
  "on_writeable nbytes w =
     (let rest = take (12 - wk_sent w) (drop (wk_sent w) (wk_hello w)) in
      case nbytes of
        None \<Rightarrow> w\<lparr>wk_log := SendError # wk_log w\<rparr>
      | Some n \<Rightarrow>
          let w = w\<lparr>wk_sent := wk_sent w + n, wk_log := Sent (take n rest) # wk_log w\<rparr> in
          if wk_sent w = 12 then
            w\<lparr>wk_state := WAIT_READ, wk_sent := 0, wk_mask := {WL_SOCKET_READABLE, WL_SOCKET_CLOSED}\<rparr>
          else w)"

section \<open>A job\<close>

text \<open>
  What the calls of a job do: \<open>je_raises h a\<close> says that act \<open>a\<close> raises an error after the
  acts \<open>h\<close>. A job ends with the error that is re-thrown, if any.
\<close>

record job_env =
  je_database :: bool \<comment> \<open>\<open>rst_database != NULL\<close>\<close>
  je_raises :: "job_act list \<Rightarrow> job_act \<Rightarrow> bool"
  je_loaded :: bool \<comment> \<open>\<open>rst_lookup_module\<close> finds the module\<close>
  je_has_start :: bool
  je_start_result :: bool \<comment> \<open>what \<open>wasm_runtime_call_wasm\<close> returns\<close>

record job =
  jb_acts :: "job_act list" \<comment> \<open>latest first\<close>
  jb_spi_connected :: bool
  jb_exec_env :: bool \<comment> \<open>\<open>exec_env != NULL\<close>\<close>
  jb_anyref_array :: bool \<comment> \<open>\<open>ctx->anyref_array\<close> is set, by \<open>rst_init_context_for_jsonb\<close>\<close>
  jb_success :: bool

type_synonym job_result = "job \<times> string option"

definition attempt :: "job_env \<Rightarrow> job_act \<Rightarrow> (job \<Rightarrow> job_result) \<Rightarrow> job \<Rightarrow> job_result" where
  "attempt env a k j =
     (if je_raises env (jb_acts j) a then (j\<lparr>jb_acts := a # jb_acts j\<rparr>, Some ''error'')
      else k (j\<lparr>jb_acts := a # jb_acts j\<rparr>))"

definition job_run :: "job_env \<Rightarrow> job \<Rightarrow> job_result" where
  "job_run env =
     attempt env CreateWaitSet (
     attempt env AddLatch (
     attempt env AddClient (
     attempt env InitContext (
     attempt env InitJsonb (\<lambda>j.
     attempt env InitLlhttp (
     attempt env LookupStart (\<lambda>j.
       if \<not> je_has_start env then (j, Some ''cannot find WASM entrypoint'')
       else attempt env CallStart (\<lambda>j. (j\<lparr>jb_success := je_start_result env\<rparr>, None)) j))
     (j\<lparr>jb_anyref_array := True\<rparr>))))))"

definition job_body :: "job_env \<Rightarrow> job \<Rightarrow> job_result" where
  "job_body env j =
     (if \<not> je_database env then (j, Some ''rustica.database is never configured'')
      else
        attempt env StartTransaction (
        attempt env SpiConnect (
        attempt env PushSnapshot (\<lambda>j.
        attempt env LookupModule (
          (if je_loaded env then (\<lambda>k. k) else attempt env PrepareModule)
          (attempt env Instantiate (\<lambda>j. job_run env (j\<lparr>jb_exec_env := True\<rparr>))))
        (j\<lparr>jb_spi_connected := True\<rparr>)))) j)"

definition do_acts :: "job_act list \<Rightarrow> job \<Rightarrow> job" where
  "do_acts as j = j\<lparr>jb_acts := rev as @ jb_acts j\<rparr>"

text \<open>
  \<open>PG_FINALLY\<close>, whose calls are taken not to raise. \<open>rst_free_instance_context\<close> dereferences
  \<open>anyref_array\<close>.
\<close>

definition job_finally :: "job_result \<Rightarrow> job_result res" where
  "job_finally r =
     (case r of (j, err) \<Rightarrow>
      if jb_exec_env j \<and> \<not> jb_anyref_array j then Inl (Undefined ''ctx->anyref_array->defined_type'')
      else
        let j = (if jb_exec_env j then do_acts [Deinstantiate, FreeContext, DestroyExecEnv] j else j);
            j = (if jb_spi_connected j then
                   do_acts ([SpiFinish, PopSnapshot,
                             if jb_success j \<and> err = None then Commit else Abort,
                             ReportStat, ReportIdle]) j
                 else j)
        in Inr (do_acts [CloseClient] j, err))"

definition new_job :: job where
  "new_job = \<lparr>jb_acts = [], jb_spi_connected = False, jb_exec_env = False,
     jb_anyref_array = False, jb_success = False\<rparr>"

definition run_job :: "job_env \<Rightarrow> job_result res" where
  "run_job env = job_finally (job_body env new_job)"

text \<open>\<open>recvmsg\<close> gives a descriptor, or fails.\<close>

definition on_readable :: "job_env \<Rightarrow> int option \<Rightarrow> worker \<Rightarrow> worker res" where
  "on_readable env recvmsg w =
     (case recvmsg of
        None \<Rightarrow> Inl (PgError ''failed to recvmsg'')
      | Some client \<Rightarrow>
          res_bind (run_job env) (\<lambda>(j, err).
            let w = w\<lparr>wk_log := Job client (rev (jb_acts j)) # wk_log w, wk_state := WAIT_WRITE,
                      wk_mask := {WL_SOCKET_WRITEABLE, WL_SOCKET_CLOSED}\<rparr>
            in case err of None \<Rightarrow> Inr w | Some e \<Rightarrow> Inl (PgError e)))"

section \<open>The event loop\<close>

datatype wexit = ShutdownRequested | SocketClosed | IdleTimeout

record worker_env =
  we_send :: "wcall list \<Rightarrow> byte list \<Rightarrow> nat option"
  we_recvmsg :: "wcall list \<Rightarrow> int option"
  we_job :: "wcall list \<Rightarrow> job_env"

definition we_law :: "worker_env \<Rightarrow> bool" where
  "we_law env \<longleftrightarrow> (\<forall>l bs n. we_send env l bs = Some n \<longrightarrow> n \<le> length bs)"

definition worker_event :: "worker_env \<Rightarrow> wl set \<Rightarrow> worker \<Rightarrow> (wexit option \<times> worker) res" where
  "worker_event env events w =
     (if WL_LATCH_SET \<in> events \<and> wk_shutdown w then Inr (Some ShutdownRequested, w)
      else if WL_SOCKET_CLOSED \<in> events then Inr (Some SocketClosed, w)
      else
        let w = (if wk_state w = WAIT_WRITE \<and> WL_SOCKET_WRITEABLE \<in> events then
                   on_writeable (we_send env (wk_log w) (take (12 - wk_sent w) (drop (wk_sent w) (wk_hello w)))) w
                 else w)
        in if wk_state w = WAIT_READ \<and> WL_SOCKET_READABLE \<in> events then
             res_bind (on_readable (we_job env (wk_log w)) (we_recvmsg env (wk_log w)) w) (\<lambda>w. Inr (None, w))
           else Inr (None, w))"

fun worker_events :: "worker_env \<Rightarrow> wl set list \<Rightarrow> worker \<Rightarrow> (wexit option \<times> worker) res" where
  "worker_events env [] w = Inr (None, w)"
| "worker_events env (ev # evs) w =
     res_bind (worker_event env ev w) (\<lambda>(ex, w).
       case ex of Some _ \<Rightarrow> Inr (ex, w) | None \<Rightarrow> worker_events env evs w)"

text \<open>
  Over the batches \<open>WaitEventSetWait\<close> gives, the empty one when it times out; it does so only
  if \<open>rst_worker_idle_timeout\<close> is not 0. \<open>None\<close>: the loop still waits.
\<close>

fun worker_main_loop :: "worker_env \<Rightarrow> wl set list list \<Rightarrow> worker \<Rightarrow> (wexit option \<times> worker) res" where
  "worker_main_loop env [] w = Inr (None, w)"
| "worker_main_loop env (evs # batches) w =
     (if evs = [] \<and> wk_state w = WAIT_READ then Inr (Some IdleTimeout, w)
      else res_bind (worker_events env evs w) (\<lambda>(ex, w).
        case ex of Some _ \<Rightarrow> Inr (ex, w) | None \<Rightarrow> worker_main_loop env batches w))"

definition worker_on_sigterm :: "worker \<Rightarrow> worker" where
  "worker_on_sigterm w = w\<lparr>wk_shutdown := True\<rparr>"

end
