(* ===== verification/WorkerProps.thy ===== *)
theory WorkerProps
  imports Worker MasterProps
begin

text \<open>
  The properties of a worker: what it sends, when it commits, what it releases, and the
  handshake with the master.
\<close>

section \<open>Greeting\<close>

lemma worker_hello_eq: "worker_hello worker_id = BACKEND_HELLO @ le_bytes32 worker_id"
  by (simp add: worker_hello_def overwrite_def)

lemma length_worker_hello [simp]: "length (worker_hello worker_id) = 12"
  by (simp add: worker_hello_eq)

text \<open>What was sent in all, and how many jobs were done.\<close>

fun sent_stream :: "wcall list \<Rightarrow> byte list" where
  "sent_stream [] = []"
| "sent_stream (Sent bs # l) = sent_stream l @ bs"
| "sent_stream (_ # l) = sent_stream l"

fun jobs_done :: "wcall list \<Rightarrow> nat" where
  "jobs_done [] = 0"
| "jobs_done (Job _ _ # l) = Suc (jobs_done l)"
| "jobs_done (_ # l) = jobs_done l"

definition waiting_for_job :: "worker \<Rightarrow> bool" where
  "waiting_for_job w \<longleftrightarrow> WL_SOCKET_READABLE \<in> wk_mask w"

definition greetings :: "worker \<Rightarrow> nat" where
  "greetings w = jobs_done (wk_log w) + (if waiting_for_job w then 1 else 0)"

definition worker_inv :: "worker \<Rightarrow> bool" where
  "worker_inv w \<longleftrightarrow> wk_hello w = worker_hello (wk_id w) \<and> wk_sent w < 12 \<and>
     (waiting_for_job w \<longrightarrow> wk_sent w = 0) \<and>
     wk_mask w \<in> {{WL_SOCKET_READABLE, WL_SOCKET_CLOSED}, {WL_SOCKET_WRITEABLE, WL_SOCKET_CLOSED}} \<and>
     sent_stream (wk_log w) = concat (replicate (greetings w) (wk_hello w)) @ take (wk_sent w) (wk_hello w)"

lemma concat_replicate_snoc: "concat (replicate n xs) @ xs = xs @ concat (replicate n xs)"
  by (induction n) simp_all

lemma worker_startup_inv: "worker_inv (worker_startup worker_id)"
  by (simp add: worker_inv_def worker_startup_def waiting_for_job_def greetings_def worker_hello_eq)

lemma on_writeable_inv:
  assumes "worker_inv w" "\<not> waiting_for_job w" "\<And>n. r = Some n \<Longrightarrow> n \<le> 12 - wk_sent w"
  shows "worker_inv (on_writeable r w)"
proof (cases r)
  case None
  with assms(1) show ?thesis
    by (simp add: worker_inv_def on_writeable_def greetings_def waiting_for_job_def)
next
  case (Some n)
  have h: "length (wk_hello w) = 12" "wk_sent w + n \<le> 12" "wk_sent w < 12"
    using assms(1) assms(3)[OF Some] by (simp_all add: worker_inv_def, linarith)
  let ?new = "take n (take (12 - wk_sent w) (drop (wk_sent w) (wk_hello w)))"
  have "sent_stream (Sent ?new # wk_log w) = concat (replicate (jobs_done (wk_log w)) (wk_hello w)) @
      take (wk_sent w) (wk_hello w) @ ?new"
    using assms(1,2) by (simp add: worker_inv_def greetings_def)
  also have "take (wk_sent w) (wk_hello w) @ ?new = take (wk_sent w + n) (wk_hello w)"
    using h by (simp add: take_add min_absorb1)
  finally have stream: "sent_stream (Sent ?new # wk_log w) =
      concat (replicate (jobs_done (wk_log w)) (wk_hello w)) @ take (wk_sent w + n) (wk_hello w)" .
  show ?thesis
  proof (cases "wk_sent w + n = 12")
    case True
    with stream h assms(1) Some show ?thesis
      by (simp add: worker_inv_def on_writeable_def Let_def waiting_for_job_def greetings_def
          concat_replicate_snoc)
  next
    case False
    with stream h assms(1,2) Some show ?thesis
      by (simp add: worker_inv_def on_writeable_def Let_def waiting_for_job_def greetings_def)
  qed
qed

lemma on_readable_Inr:
  assumes "on_readable env r w = Inr w'"
  obtains client acts where "w' = w\<lparr>wk_log := Job client acts # wk_log w, wk_state := WAIT_WRITE,
    wk_mask := {WL_SOCKET_WRITEABLE, WL_SOCKET_CLOSED}\<rparr>"
  using assms by (auto simp: on_readable_def Let_def res_bind_eq_Inr split: option.splits)

lemma on_readable_inv:
  assumes "worker_inv w" "waiting_for_job w" "on_readable env r w = Inr w'"
  shows "worker_inv w'"
proof -
  obtain client acts where "w' = w\<lparr>wk_log := Job client acts # wk_log w, wk_state := WAIT_WRITE,
    wk_mask := {WL_SOCKET_WRITEABLE, WL_SOCKET_CLOSED}\<rparr>"
    by (rule on_readable_Inr[OF assms(3)])
  with assms(1,2) show ?thesis by (simp add: worker_inv_def greetings_def waiting_for_job_def)
qed

lemma worker_event_inv:
  assumes "we_law env" "worker_inv w" "ev \<subseteq> insert WL_LATCH_SET (wk_mask w)"
    and "worker_event env ev w = Inr (None, w')"
  shows "worker_inv w'"
proof (cases "waiting_for_job w")
  case True
  with assms(2,3) have "WL_SOCKET_WRITEABLE \<notin> ev" by (auto simp: worker_inv_def waiting_for_job_def)
  with True assms(2,4) show ?thesis
    by (auto simp: worker_event_def Let_def res_bind_eq_Inr split: if_splits intro: on_readable_inv)
next
  case False
  with assms(2,3) have r: "WL_SOCKET_READABLE \<notin> ev" by (auto simp: waiting_for_job_def)
  have "n \<le> 12 - wk_sent w"
    if "we_send env (wk_log w) (take (12 - wk_sent w) (drop (wk_sent w) (wk_hello w))) = Some n" for n
    using assms(1) that unfolding we_law_def by fastforce
  with False r assms(2,4) show ?thesis
    by (auto simp: worker_event_def Let_def split: if_splits intro: on_writeable_inv)
qed

text \<open>
  The states of a worker between two events. The kernel reports what the mask asks for, or
  the latch.
\<close>

inductive worker_reachable :: "worker_env \<Rightarrow> i32 \<Rightarrow> worker \<Rightarrow> bool" for env worker_id where
  start: "worker_reachable env worker_id (worker_startup worker_id)"
| event: "worker_reachable env worker_id w \<Longrightarrow> ev \<subseteq> insert WL_LATCH_SET (wk_mask w) \<Longrightarrow>
    worker_event env ev w = Inr (None, w') \<Longrightarrow> worker_reachable env worker_id w'"
| sigterm: "worker_reachable env worker_id w \<Longrightarrow> worker_reachable env worker_id (worker_on_sigterm w)"

lemma worker_reachable_inv:
  assumes "we_law env" "worker_reachable env worker_id w"
  shows "worker_inv w"
  using assms(2)
proof (induction rule: worker_reachable.induct)
  case start
  show ?case by (rule worker_startup_inv)
next
  case (event w ev w')
  then show ?case using worker_event_inv[OF assms(1)] by blast
next
  case (sigterm w)
  then show ?case
    by (simp add: worker_inv_def worker_on_sigterm_def greetings_def waiting_for_job_def)
qed

text \<open>The id is the one of the start; each greeting that was sent whole is the same twelve bytes.\<close>

lemma worker_event_id: "worker_event env ev w = Inr (None, w') \<Longrightarrow> wk_id w' = wk_id w"
  by (auto simp: worker_event_def on_writeable_def Let_def res_bind_eq_Inr split: if_splits option.splits
      elim!: on_readable_Inr)

lemma worker_reachable_id: "worker_reachable env worker_id w \<Longrightarrow> wk_id w = worker_id"
  by (induction rule: worker_reachable.induct)
    (auto simp: worker_startup_def worker_on_sigterm_def dest: worker_event_id)

lemma nth_copy:
  "length xs = n \<Longrightarrow> k < g \<Longrightarrow> take n (drop (n * k) (concat (replicate g xs) @ ys)) = xs"
proof (induction k arbitrary: g)
  case (Suc k)
  then obtain g' where "g = Suc g'" "k < g'" by (cases g) auto
  with Suc show ?case by (simp flip: drop_drop)
qed (auto simp: gr0_conv_Suc)

lemma greeting_sent:
  assumes "we_law env" "worker_reachable env worker_id w" "k < greetings w"
  shows "take 12 (drop (12 * k) (sent_stream (wk_log w))) = BACKEND_HELLO @ le_bytes32 worker_id"
proof -
  have w: "wk_hello w = BACKEND_HELLO @ le_bytes32 worker_id"
    "sent_stream (wk_log w) = concat (replicate (greetings w) (wk_hello w)) @ take (wk_sent w) (wk_hello w)"
    using worker_reachable_inv[OF assms(1,2)] worker_reachable_id[OF assms(2)]
    by (simp_all only: worker_inv_def worker_hello_eq)
  have "length (wk_hello w) = 12" unfolding w(1) by simp
  then show ?thesis unfolding w(2) by (subst nth_copy[OF _ assms(3)]) (simp_all only: w(1))
qed

section \<open>A job\<close>










section \<open>A small environment\<close>

definition demo_job :: "job_env" where
  "demo_job = \<lparr>je_database = True, je_raises = (\<lambda>_ _. False), je_loaded = False, je_has_start = True,
     je_start_result = True\<rparr>"

definition demo_worker_env :: "nat \<Rightarrow> worker_env" where
  "demo_worker_env k = \<lparr>we_send = (\<lambda>_ bs. Some (min k (length bs))), we_recvmsg = (\<lambda>_. Some 9),
     we_job = (\<lambda>_. demo_job)\<rparr>"

lemma demo_worker_law: "we_law (demo_worker_env k)"
  by (simp add: we_law_def demo_worker_env_def)

text \<open>The worker after one greeting, sent in two pieces, one job, and the start of the next greeting.\<close>

definition demo_worker :: worker where
  "demo_worker = snd (projr (worker_events (demo_worker_env 7)
     [{WL_SOCKET_WRITEABLE}, {WL_SOCKET_WRITEABLE}, {WL_SOCKET_READABLE}, {WL_SOCKET_WRITEABLE}]
     (worker_startup 5)))"

definition demo_greeted :: worker where
  "demo_greeted = snd (projr (worker_events (demo_worker_env 7)
     [{WL_SOCKET_WRITEABLE}, {WL_SOCKET_WRITEABLE}] (worker_startup 5)))"

lemma demo_worker_reachable:
  "worker_reachable (demo_worker_env 7) 5 demo_worker"
  "worker_reachable (demo_worker_env 7) 5 demo_greeted"
proof -
  let ?env = "demo_worker_env 7"
  let ?w0 = "worker_startup 5"
  define w1 where "w1 = snd (projr (worker_event ?env {WL_SOCKET_WRITEABLE} ?w0))"
  define w2 where "w2 = snd (projr (worker_event ?env {WL_SOCKET_WRITEABLE} w1))"
  define w3 where "w3 = snd (projr (worker_event ?env {WL_SOCKET_READABLE} w2))"
  define w4 where "w4 = snd (projr (worker_event ?env {WL_SOCKET_WRITEABLE} w3))"
  note ws = w1_def w2_def w3_def w4_def
  have masks: "wk_mask w1 = {WL_SOCKET_WRITEABLE, WL_SOCKET_CLOSED}"
    "wk_mask w2 = {WL_SOCKET_READABLE, WL_SOCKET_CLOSED}"
    "wk_mask w3 = {WL_SOCKET_WRITEABLE, WL_SOCKET_CLOSED}"
    unfolding ws by code_simp+
  have run: "worker_event ?env {WL_SOCKET_WRITEABLE} ?w0 = Inr (None, w1)"
    "worker_event ?env {WL_SOCKET_WRITEABLE} w1 = Inr (None, w2)"
    "worker_event ?env {WL_SOCKET_READABLE} w2 = Inr (None, w3)"
    "worker_event ?env {WL_SOCKET_WRITEABLE} w3 = Inr (None, w4)"
    unfolding ws by code_simp+
  have "worker_reachable ?env 5 ?w0" by (rule worker_reachable.start)
  then have "worker_reachable ?env 5 w1"
    by (rule worker_reachable.event[OF _ _ run(1)]) (simp add: worker_startup_def)
  then have 2: "worker_reachable ?env 5 w2" by (rule worker_reachable.event[OF _ _ run(2)]) (simp add: masks)
  then have "worker_reachable ?env 5 w3" by (rule worker_reachable.event[OF _ _ run(3)]) (simp add: masks)
  then have "worker_reachable ?env 5 w4" by (rule worker_reachable.event[OF _ _ run(4)]) (simp add: masks)
  moreover have "w4 = demo_worker" by (simp add: demo_worker_def run)
  moreover have "w2 = demo_greeted" by (simp add: demo_greeted_def run)
  ultimately show "worker_reachable ?env 5 demo_worker" "worker_reachable ?env 5 demo_greeted"
    using 2 by simp_all
qed

section \<open>Properties\<close>

text \<open>
  A worker greets exactly once for each job it takes. In every reachable state the bytes it
  has sent are whole greetings, one for each finished job and one more while it waits for a
  job, followed by the part of the next greeting already sent.
\<close>
lemma one_greeting_per_job:
  assumes "we_law env" "worker_reachable env worker_id w"
  shows "sent_stream (wk_log w) = concat (replicate (greetings w) (wk_hello w)) @ take (wk_sent w) (wk_hello w)
    \<and> wk_hello w = worker_hello (wk_id w) \<and> wk_sent w < 12"
  using worker_reachable_inv[OF assms] by (simp add: worker_inv_def)

lemma one_greeting_per_job_witness:
  "sent_stream (wk_log demo_worker) = worker_hello 5 @ take 7 (worker_hello 5)"
proof -
  have "greetings demo_worker = 1" "wk_sent demo_worker = 7" "wk_id demo_worker = 5" by code_simp+
  with one_greeting_per_job[OF demo_worker_law demo_worker_reachable(1)] show ?thesis by simp
qed





text \<open>
  If the application's \<open>get_queries\<close> fails, so that \<open>rst_init_instance_context\<close> raises, the
  clean-up dereferences \<open>ctx->anyref_array\<close>, which only the next call would have set.
\<close>
lemma failed_init_dereferences_null:
  assumes "je_database env" "\<And>h a. je_raises env h a \<longleftrightarrow> a = InitContext"
  shows "run_job env = Inl (Undefined ''ctx->anyref_array->defined_type'')"
  using assms by (simp add: run_job_def job_body_def job_run_def attempt_def new_job_def job_finally_def)

lemma failed_init_dereferences_null_witness:
  "run_job (demo_job\<lparr>je_raises := \<lambda>_ a. a = InitContext\<rparr>)
    = Inl (Undefined ''ctx->anyref_array->defined_type'')"
  by (rule failed_init_dereferences_null) (simp_all add: demo_job_def)

text \<open>
  The idle time-out ends a worker whatever it is doing, because the two states of its
  socket are the same number: also one that has sent only part of its greeting.
\<close>
lemma idle_timeout_ignores_state:
  assumes "we_law env" "worker_reachable env worker_id w"
  shows "worker_main_loop env ([] # batches) w = Inr (Some IdleTimeout, w)"
proof -
  have "wk_state w = 0"
    using assms(2)
  proof (induction rule: worker_reachable.induct)
    case (event w ev w')
    then show ?case
      by (auto simp: worker_event_def on_writeable_def WAIT_WRITE_def WAIT_READ_def Let_def
          res_bind_eq_Inr split: if_splits option.splits elim!: on_readable_Inr)
  qed (simp_all add: worker_startup_def WAIT_WRITE_def worker_on_sigterm_def)
  then show ?thesis by (simp add: WAIT_READ_def)
qed

lemma idle_timeout_ignores_state_witness:
  "wk_sent demo_worker = 7 \<and>
   worker_main_loop (demo_worker_env 7) [[]] demo_worker = Inr (Some IdleTimeout, demo_worker)"
proof -
  have "wk_sent demo_worker = 7" by code_simp
  with idle_timeout_ignores_state[OF demo_worker_law demo_worker_reachable(1), of "[]"] show ?thesis by simp
qed

text \<open>
  C14: the handshake. Of the bytes a worker has sent, take those of any of its greetings. When the
  events of the worker's entry in the master, which has read none of them, give these bytes in
  any pieces, the master takes the worker as idle after the last piece and not before, with the
  four bytes of the id the worker was started with; nothing else in the master has changed.
\<close>
lemma handshake:
  assumes "we_law env" "worker_reachable env worker_id w" "k < greetings w"
    and "master_inv m" "i < ms_total_sockets m" "sk_read_offset (ms_sockets m ! i) = 0"
    and "concat pieces = take 12 (drop (12 * k) (sent_stream (wk_log w)))" "[] \<notin> set pieces"
    and "receives os (sk_fd (ms_sockets m ! i)) (ms_log m) 0 pieces"
    and "length evss = length pieces" "\<forall>evs \<in> set evss. readable evs"
  shows "backend_events os i evss m = on_worker_idle os i
    (set_socket i ((ms_sockets m ! i)\<lparr>sk_worker_id := le_bytes32 worker_id, sk_read_offset := 0\<rparr>)
      (add_log (map (Recv (sk_fd (ms_sockets m ! i))) pieces) m))"
proof -
  have base: "base_inv m" using assms(4) by (simp add: master_inv_def)
  have i: "i < length (ms_sockets m)" using table_invD(3)[OF base_invD(1)[OF base]] assms(5) by simp
  then have "length (sk_worker_id (ms_sockets m ! i)) = 4"
    using base_invD(3)[OF base] by (simp add: sock_inv_def sock_ok_def)
  then have "greeted (ms_sockets m ! i) []" using assms(6) by (intro greeted_new)
  moreover have "[] @ concat pieces = BACKEND_HELLO @ le_bytes32 worker_id"
    using assms(7) greeting_sent[OF assms(1-3)] by simp
  ultimately show ?thesis using assms(8-11) i by (intro greeting_pieces_from[of _ _ "[]"]) simp_all
qed

text \<open>A worker started with the id 5; the kernel gives its greeting in two pieces.\<close>

definition demo_pieces :: "byte list list" where
  "demo_pieces = [take 3 (worker_hello 5), drop 3 (worker_hello 5)]"

definition demo_pieces_os :: os where
  "demo_pieces_os = (demo_os None)\<lparr>os_recv := \<lambda>_ _ n.
     Some (if n = 12 then take 3 (worker_hello 5) else drop 3 (worker_hello 5))\<rparr>"

lemma handshake_witness:
  "backend_events demo_pieces_os 3 [{WL_SOCKET_READABLE}, {WL_SOCKET_READABLE}] demo_waiting =
    on_worker_idle demo_pieces_os 3
      (set_socket 3 ((ms_sockets demo_waiting ! 3)\<lparr>sk_worker_id := [5, 0, 0, 0], sk_read_offset := 0\<rparr>)
        (add_log (map (Recv (sk_fd (ms_sockets demo_waiting ! 3))) demo_pieces) demo_waiting))"
proof -
  have "greetings demo_greeted = 1" "sent_stream (wk_log demo_greeted) = worker_hello 5"
    "le_bytes32 5 = [5, 0, 0, 0]" by code_simp+
  moreover have "3 < ms_total_sockets demo_waiting" "sk_read_offset (ms_sockets demo_waiting ! 3) = 0" by code_simp+
  moreover have "master_inv demo_waiting" using reachable_inv(1)[OF demo_config demo_reachable(2)] by simp
  moreover have "[] \<notin> set demo_pieces" "concat demo_pieces = take 12 (worker_hello 5)" by code_simp+
  moreover have "receives demo_pieces_os fd log 0 demo_pieces" for fd log
    by (simp add: demo_pieces_def demo_pieces_os_def)
  moreover have "length demo_pieces = 2" by (simp add: demo_pieces_def)
  ultimately show ?thesis
    using handshake[OF demo_worker_law demo_worker_reachable(2), of 0 demo_waiting 3 demo_pieces demo_pieces_os
      "[{WL_SOCKET_READABLE}, {WL_SOCKET_READABLE}]"] by (simp add: readable_def)
qed

end
