(* ===== verification/Http.thy ===== *)
theory Http
  imports Worker
begin

text \<open>
  What \<open>worker.c\<close> offers the application: reading and writing the client's socket through a
  \<open>bytea\<close>, and the HTTP parser llhttp with its callbacks. llhttp is not part of the sources;
  what it does with a callback is not modelled, only which function of the application each
  callback runs and how its result is passed on.
\<close>

section \<open>The client's socket\<close>

text \<open>
  \<open>view\<close> are the bytes of the \<open>bytea\<close>, \<open>start\<close> and \<open>len\<close> come from the application. \<open>recv\<close> gets
  \<open>len\<close> converted to \<open>size_t\<close> and gives the bytes it stores, or \<open>None\<close> for -1.
\<close>

definition size_of_len :: "i32 \<Rightarrow> 64 word" where
  "size_of_len len = scast len"

definition env_recv ::
  "wl set \<Rightarrow> (64 word \<Rightarrow> byte list option) \<Rightarrow> byte list \<Rightarrow> i32 \<Rightarrow> i32 \<Rightarrow> (byte list \<times> i32) res" where
  "env_recv events recv view start len =
     (if WL_LATCH_SET \<in> events then Inr (view, -1)
      else if WL_SOCKET_CLOSED \<in> events then Inr (view, 0)
      else case recv (size_of_len len) of
        None \<Rightarrow> Inr (view, -1)
      | Some bs \<Rightarrow>
          if sint start < 0 \<or> int (length view) < sint start + int (length bs) then
            Inl (Undefined ''recv past the end of view'')
          else Inr (overwrite (nat (sint start)) bs view, word_of_nat (length bs)))"

text \<open>\<open>send\<close> reads \<open>len\<close> bytes and says how many it took.\<close>

definition env_send ::
  "wl set \<Rightarrow> (byte list \<Rightarrow> nat option) \<Rightarrow> byte list \<Rightarrow> i32 \<Rightarrow> i32 \<Rightarrow> i32 res" where
  "env_send events send view start len =
     (if WL_LATCH_SET \<in> events then Inr (-1)
      else if WL_SOCKET_CLOSED \<in> events then Inr 0
      else if sint start < 0 \<or> int (length view) < sint start + uint (size_of_len len) then
        Inl (Undefined ''send past the end of view'')
      else case send (take (unat (size_of_len len)) (drop (nat (sint start)) view)) of
        None \<Rightarrow> Inr (-1)
      | Some n \<Rightarrow> Inr (word_of_nat n))"

section \<open>Callbacks of the HTTP parser\<close>

datatype callback =
    on_message_begin | on_method | on_method_complete | on_url | on_url_complete
  | on_version | on_version_complete | on_header_field | on_header_field_complete
  | on_header_value | on_header_value_complete | on_headers_complete | on_body | on_message_complete

text \<open>
  A callback of \<open>llhttp_settings_t\<close> is a C function of this file; it runs one of the functions
  the context holds, with or without a view of the data.
\<close>

datatype cb_kind = Cb | DataCb

datatype cb_result = HPE_OK | HPE_PAUSED | CbError \<comment> \<open>-1\<close>

fun callback_function :: "callback \<Rightarrow> callback \<times> cb_kind" where
  "callback_function on_message_begin = (on_message_begin, Cb)"
| "callback_function on_method = (on_method, DataCb)"
| "callback_function on_method_complete = (on_method_complete, Cb)"
| "callback_function on_url = (on_url, DataCb)"
| "callback_function on_url_complete = (on_url_complete, Cb)"
| "callback_function on_version = (on_version, DataCb)"
| "callback_function on_version_complete = (on_version_complete, Cb)"
| "callback_function on_header_field = (on_header_field, DataCb)"
| "callback_function on_header_field_complete = (on_header_field_complete, Cb)"
| "callback_function on_header_value = (on_header_value, DataCb)"
| "callback_function on_headers_complete = (on_headers_complete, Cb)"
| "callback_function on_header_value_complete = (on_header_value_complete, Cb)"
| "callback_function on_body = (on_body, DataCb)"
| "callback_function on_message_complete = (on_message_complete, Cb)"

text \<open>\<open>'f\<close>: functions of the application. The fields of \<open>Context\<close> the parser uses.\<close>

record 'f http_context =
  hc_function :: "callback \<Rightarrow> 'f option" \<comment> \<open>\<open>ctx->on_url\<close> and its like\<close>
  hc_settings :: "callback \<Rightarrow> callback option" \<comment> \<open>\<open>ctx->http_settings.on_url = on_url\<close>\<close>
  hc_on_error :: "'f option"
  hc_bytes_view :: i32

definition lookups :: "(string \<times> callback) list" where
  "lookups =
     [(''on_message_begin'', on_message_begin), (''on_method'', on_method),
      (''on_method_complete'', on_method_complete), (''on_url'', on_url),
      (''on_url_complete'', on_url_complete), (''on_version'', on_version),
      (''on_version_complete'', on_version_complete), (''on_header_field'', on_header_field),
      (''on_header_field_complete'', on_header_field_complete), (''on_header_value'', on_header_value),
      (''on_header_value_complete'', on_header_value_complete),
      (''on_headers_complete'', on_headers_complete), (''on_body'', on_body),
      (''on_message_complete'', on_message_complete)]"

definition init_callback :: "(string \<Rightarrow> 'f option) \<Rightarrow> string \<times> callback \<Rightarrow> 'f http_context \<Rightarrow> 'f http_context" where
  "init_callback lookup row ctx =
     (case lookup (fst row) of
        None \<Rightarrow> ctx
      | Some f \<Rightarrow> ctx\<lparr>hc_function := (hc_function ctx)(snd row \<mapsto> f),
                     hc_settings := (hc_settings ctx)(snd row \<mapsto> snd row)\<rparr>)"

definition init_llhttp :: "(string \<Rightarrow> 'f option) \<Rightarrow> 'f http_context \<Rightarrow> 'f http_context" where
  "init_llhttp lookup ctx =
     (let ctx = fold (init_callback lookup) lookups (ctx\<lparr>hc_bytes_view := -1\<rparr>) in
      case lookup ''on_error'' of None \<Rightarrow> ctx | Some f \<Rightarrow> ctx\<lparr>hc_on_error := Some f\<rparr>)"

text \<open>A fresh \<open>Context\<close>: the fields its initialiser does not name are zero.\<close>

definition new_context :: "'f http_context" where
  "new_context = \<lparr>hc_function = (\<lambda>_. None), hc_settings = (\<lambda>_. None), hc_on_error = None, hc_bytes_view = 0\<rparr>"

text \<open>The application's result, or \<open>None\<close> when the call failed.\<close>

definition cb_result :: "i32 option \<Rightarrow> cb_result" where
  "cb_result r =
     (case r of
        None \<Rightarrow> CbError
      | Some v \<Rightarrow> if v = 0 then HPE_OK else if v = 1 then CbError else if v = 2 then HPE_PAUSED
                  else CbError)"

definition llhttp_cb_impl :: "('f \<Rightarrow> i32 option) \<Rightarrow> 'f \<Rightarrow> cb_result" where
  "llhttp_cb_impl call func = cb_result (call func)"

text \<open>
  The view handed to a data callback: the buffer's bytes from \<open>at\<close> on. Its struct type is
  that of the function's first parameter, looked up once. \<open>at\<close> is the offset of the data in
  the buffer.
\<close>

definition llhttp_data_cb_impl ::
  "('f \<Rightarrow> i32) \<Rightarrow> ('f \<Rightarrow> i32 \<times> i32 \<times> i32 \<Rightarrow> i32 option) \<Rightarrow> 'f \<Rightarrow> nat \<Rightarrow> nat \<Rightarrow> 'f http_context
   \<Rightarrow> cb_result \<times> 'f http_context" where
  "llhttp_data_cb_impl param_type call func at len ctx =
     (let ctx = (if hc_bytes_view ctx = -1 then ctx\<lparr>hc_bytes_view := param_type func\<rparr> else ctx);
          start = word_of_nat at; length = word_of_nat len
      in (cb_result (call func (hc_bytes_view ctx, start, length)), ctx))"

text \<open>The parser reaches a point of the message; \<open>at\<close> and \<open>len\<close> are its data, if it has any.\<close>

definition run_callback ::
  "('f \<Rightarrow> i32) \<Rightarrow> ('f \<Rightarrow> i32 option) \<Rightarrow> ('f \<Rightarrow> i32 \<times> i32 \<times> i32 \<Rightarrow> i32 option) \<Rightarrow> callback \<Rightarrow> nat \<Rightarrow> nat
   \<Rightarrow> 'f http_context \<Rightarrow> (cb_result \<times> 'f http_context) option res" where
  "run_callback param_type call data_call cb at len ctx =
     (case hc_settings ctx cb of
        None \<Rightarrow> Inr None
      | Some c \<Rightarrow>
          (case callback_function c of (field, kind) \<Rightarrow>
           case hc_function ctx field of
             None \<Rightarrow> Inl (Undefined ''call of a null function'')
           | Some f \<Rightarrow>
               (case kind of
                  Cb \<Rightarrow> Inr (Some (llhttp_cb_impl call f, ctx))
                | DataCb \<Rightarrow> Inr (Some (llhttp_data_cb_impl param_type data_call f at len ctx)))))"

text \<open>
  \<open>maybe_call_on_error\<close>: the function the error is reported to, if any. \<open>pausing\<close> and \<open>ok\<close>
  say whether llhttp returned \<open>HPE_PAUSED\<close> or \<open>HPE_OK\<close>.
\<close>

definition maybe_call_on_error :: "bool \<Rightarrow> bool \<Rightarrow> 'f http_context \<Rightarrow> 'f option" where
  "maybe_call_on_error ok pausing ctx = (if ok \<or> pausing then None else hc_on_error ctx)"

section \<open>Invalidation of cached modules\<close>

text \<open>
  The message Postgres would send to a client for a notification. \<open>pq_getmsgint\<close> and
  \<open>pq_getmsgstring\<close> are Postgres code; they take a prefix of the message or raise. The result
  is the module to be unloaded, if any.
\<close>

definition cache_invalidation :: "byte list" where
  "cache_invalidation = map of_char ''rustica_module_cache_invalidation''"

definition mock_comm_putmessage ::
  "(byte list \<Rightarrow> (u32 \<times> byte list) res) \<Rightarrow> (byte list \<Rightarrow> (byte list \<times> byte list) res) \<Rightarrow> char \<Rightarrow> byte list
   \<Rightarrow> byte list option res" where
  "mock_comm_putmessage getmsgint getmsgstring msgtype s =
     (if msgtype = CHR ''A'' then
        res_bind (getmsgint s) (\<lambda>(pid, s).
        res_bind (getmsgstring s) (\<lambda>(channel, s).
          if channel = cache_invalidation then
            res_bind (getmsgstring s) (\<lambda>(payload, s). Inr (Some payload))
          else Inr None))
      else Inr None)"

section \<open>Lemmas\<close>

lemma length_overwrite [simp]: "off + length src \<le> length dst \<Longrightarrow> length (overwrite off src dst) = length dst"
  by (simp add: overwrite_def)

lemma nth_overwrite:
  "off + length src \<le> length dst \<Longrightarrow> k < length dst \<Longrightarrow> overwrite off src dst ! k =
    (if off \<le> k \<and> k < off + length src then src ! (k - off) else dst ! k)"
  by (auto simp: overwrite_def nth_append)

text \<open>\<open>recv\<close> stores at most as many bytes as it was asked for.\<close>

definition recv_law :: "(64 word \<Rightarrow> byte list option) \<Rightarrow> bool" where
  "recv_law recv \<longleftrightarrow> (\<forall>n bs. recv n = Some bs \<longrightarrow> length bs \<le> unat n)"

lemma init_callback_other:
  "snd row \<noteq> cb \<Longrightarrow> hc_function (init_callback lookup row ctx) cb = hc_function ctx cb"
  "snd row \<noteq> cb \<Longrightarrow> hc_settings (init_callback lookup row ctx) cb = hc_settings ctx cb"
  by (simp_all add: init_callback_def split: option.split)

lemma init_callbacks:
  assumes "distinct (map snd rows)" "(name, cb) \<in> set rows"
  shows "hc_function (fold (init_callback lookup) rows ctx) cb =
      (case lookup name of None \<Rightarrow> hc_function ctx cb | Some f \<Rightarrow> Some f) \<and>
    hc_settings (fold (init_callback lookup) rows ctx) cb =
      (case lookup name of None \<Rightarrow> hc_settings ctx cb | Some f \<Rightarrow> Some cb)"
  using assms
proof (induction rows arbitrary: ctx)
  case (Cons row rows)
  show ?case
  proof (cases "row = (name, cb)")
    case True
    have "hc_function (fold (init_callback lookup) rows c) cb = hc_function c cb \<and>
        hc_settings (fold (init_callback lookup) rows c) cb = hc_settings c cb"
      if "cb \<notin> snd ` set rows" for c
      using that by (induction rows arbitrary: c) (auto simp: init_callback_other)
    with True Cons.prems(1) show ?thesis
      by (auto simp: init_callback_def[of lookup "(name, cb)"] split: option.split)
  next
    case False
    with Cons.prems(2) have row: "(name, cb) \<in> set rows" by simp
    then have "cb \<in> snd ` set rows" by force
    with Cons.prems(1) have "snd row \<noteq> cb" by auto
    with row Cons.IH[of "init_callback lookup row ctx"] Cons.prems(1) show ?thesis
      by (simp add: init_callback_other split: option.split)
  qed
qed simp

lemma lookups_distinct: "distinct (map snd lookups)" "snd ` set lookups = UNIV"
proof -
  show "distinct (map snd lookups)" by (simp add: lookups_def)
  have "cb \<in> snd ` set lookups" for cb by (cases cb) (simp_all add: lookups_def)
  then show "snd ` set lookups = UNIV" by auto
qed

lemma init_llhttp_slots:
  assumes "(name, cb) \<in> set lookups"
  shows "hc_function (init_llhttp lookup new_context) cb = lookup name"
    "hc_settings (init_llhttp lookup new_context) cb = map_option (\<lambda>_. cb) (lookup name)"
  using init_callbacks[OF lookups_distinct(1) assms, of lookup "new_context\<lparr>hc_bytes_view := -1\<rparr>"]
  by (auto simp: init_llhttp_def Let_def new_context_def split: option.splits)

lemma callback_function_self: "fst (callback_function cb) = cb"
  by (cases cb) simp_all

section \<open>Properties\<close>

text \<open>
  Reading into a \<open>bytea\<close> is checked nowhere. Some peer can make \<open>env_recv\<close> write outside the
  bytes of \<open>view\<close>, unless the application asked for a range inside it, negative lengths
  counting as the huge unsigned number they are converted to.
\<close>
lemma recv_overflow_iff:
  "(\<exists>recv e. recv_law recv \<and> env_recv {WL_SOCKET_READABLE} recv view start len = Inl e) \<longleftrightarrow>
    sint start < 0 \<or> int (length view) < sint start + uint (size_of_len len)"
proof
  assume "\<exists>recv e. recv_law recv \<and> env_recv {WL_SOCKET_READABLE} recv view start len = Inl e"
  then obtain recv e where r: "recv_law recv"
    "env_recv {WL_SOCKET_READABLE} recv view start len = Inl e" by blast
  then obtain bs where bs: "recv (size_of_len len) = Some bs"
    "sint start < 0 \<or> int (length view) < sint start + int (length bs)"
    by (auto simp: env_recv_def split: option.splits if_splits)
  have "length bs \<le> unat (size_of_len len)" using r(1) bs(1) unfolding recv_law_def by blast
  then have "int (length bs) \<le> uint (size_of_len len)" unfolding uint_nat of_nat_le_iff .
  with bs(2) show "sint start < 0 \<or> int (length view) < sint start + uint (size_of_len len)" by linarith
next
  assume bad: "sint start < 0 \<or> int (length view) < sint start + uint (size_of_len len)"
  define k where "k = (if sint start < 0 then 0 else Suc (length view) - nat (sint start))"
  have k: "k \<le> unat (size_of_len len)"
  proof (cases "sint start < 0")
    case False
    with bad have "int (Suc (length view) - nat (sint start)) \<le> uint (size_of_len len)"
      using uint_ge_0[of "size_of_len len"] by arith
    then have "int k \<le> uint (size_of_len len)" using False unfolding k_def by simp
    then show ?thesis unfolding uint_nat of_nat_le_iff .
  qed (simp add: k_def)
  have "recv_law (\<lambda>n. if k \<le> unat n then Some (replicate k 0) else None)" by (auto simp: recv_law_def)
  moreover have "env_recv {WL_SOCKET_READABLE} (\<lambda>n. if k \<le> unat n then Some (replicate k 0) else None)
      view start len = Inl (Undefined ''recv past the end of view'')"
    using k bad by (auto simp: env_recv_def k_def)
  ultimately show "\<exists>recv e. recv_law recv \<and> env_recv {WL_SOCKET_READABLE} recv view start len = Inl e"
    by blast
qed

text \<open>
  Reading into a range inside \<open>view\<close> never fails, changes no byte outside the received
  part, and returns the number of bytes received.
\<close>
lemma recv_in_bounds:
  assumes "recv_law recv" "0 \<le> sint start" "sint start + uint (size_of_len len) \<le> int (length view)"
    and "length view < 2 ^ 31"
  shows "\<exists>view' r. env_recv events recv view start len = Inr (view', r) \<and> length view' = length view \<and>
    (\<forall>k < length view. view' ! k \<noteq> view ! k \<longrightarrow>
       nat (sint start) \<le> k \<and> k < nat (sint start) + nat (sint r))"
proof (cases "recv (size_of_len len)")
  case None
  then show ?thesis by (simp add: env_recv_def)
next
  case (Some bs)
  have "length bs \<le> unat (size_of_len len)" using assms(1) Some unfolding recv_law_def by blast
  then have "int (length bs) \<le> uint (size_of_len len)" unfolding uint_nat of_nat_le_iff .
  then have fit: "sint start + int (length bs) \<le> int (length view)" using assms(3) by linarith
  with assms(2) have n: "nat (sint start) + length bs \<le> length view" by linarith
  have r: "sint (word_of_nat (length bs) :: i32) = int (length bs)"
    using n assms(4) by (intro sint_of_nat32) simp
  have "env_recv events recv view start len \<in> {Inr (view, -1), Inr (view, 0),
      Inr (overwrite (nat (sint start)) bs view, word_of_nat (length bs))}"
    using Some fit assms(2) by (simp add: env_recv_def)
  then show ?thesis
    using n r by (auto simp: nth_overwrite)
qed

lemma recv_in_bounds_witness:
  "\<exists>view' r. env_recv {WL_SOCKET_READABLE} (\<lambda>n. Some (take (unat n) [7, 8, 9])) [0, 0, 0, 0] 1 2 = Inr (view', r) \<and>
    length view' = 4"
proof -
  have "recv_law (\<lambda>n. Some (take (unat n) [7, 8, 9]))" by (auto simp: recv_law_def)
  moreover have "uint (size_of_len 2) = 2" "sint (1 :: i32) = 1" by (simp_all add: size_of_len_def)
  ultimately show ?thesis
    using recv_in_bounds[of "\<lambda>n. Some (take (unat n) [7, 8, 9])" 1 2 "[0, 0, 0, 0]" "{WL_SOCKET_READABLE}"]
    by auto
qed

text \<open>
  Each callback of the HTTP parser runs the function the application exports under the
  callback's own name, as a data callback where the parser passes data, and is not installed
  when the application exports no such function; no callback calls a null pointer.
\<close>
lemma callbacks_run_their_export:
  assumes "(name, cb) \<in> set lookups"
  shows "run_callback param_type call data_call cb at len (init_llhttp lookup new_context) =
    (case lookup name of
       None \<Rightarrow> Inr None
     | Some f \<Rightarrow> Inr (Some
         (if cb \<in> {on_method, on_url, on_version, on_header_field, on_header_value, on_body}
          then llhttp_data_cb_impl param_type data_call f at len (init_llhttp lookup new_context)
          else (llhttp_cb_impl call f, init_llhttp lookup new_context))))"
  unfolding run_callback_def init_llhttp_slots[OF assms]
  using init_llhttp_slots[OF assms, of lookup]
  by (cases "lookup name"; cases cb) simp_all

lemma callbacks_run_their_export_witness:
  "run_callback (\<lambda>_. 3) (\<lambda>_. Some 2) (\<lambda>_ _. None) on_headers_complete 0 0
     (init_llhttp (\<lambda>n. if n = ''on_headers_complete'' then Some (42 :: nat) else None) new_context)
   = Inr (Some (HPE_PAUSED, init_llhttp (\<lambda>n. if n = ''on_headers_complete'' then Some 42 else None) new_context))"
proof -
  have "(''on_headers_complete'', on_headers_complete) \<in> set lookups" by (simp add: lookups_def)
  then show ?thesis
    by (simp add: callbacks_run_their_export llhttp_cb_impl_def cb_result_def)
qed

end
