(* ===== verification/ObjSys.thy ===== *)
theory ObjSys
  imports Prelude
begin

text \<open>
  The host objects the application holds references to (\<open>datatypes.h\<close>, \<open>datatypes.c\<close>): a typed
  header, flags saying what the object owns, a body, an optional reference that keeps another
  object alive, and a finalizer that releases what is owned.
\<close>

section \<open>Data\<close>

text \<open>The Postgres types the engine names; any other OID is \<open>OtherOid\<close>.\<close>

datatype pg_type =
    BOOLOID | INT2OID | INT4OID | INT8OID | FLOAT4OID | FLOAT8OID
  | DATEOID | TIMEOID | TIMESTAMPOID | TIMESTAMPTZOID | INTERVALOID
  | TEXTOID | VARCHAROID | UUIDOID | JSONOID | JSONBOID | BYTEAOID
  | INT2ARRAYOID | INT4ARRAYOID | OtherOid nat

text \<open>
  A \<open>Datum\<close>: a machine word, a pointer to a value of some type (whose contents the engine
  treats as opaque here), or a pointer to an array that was built or is taken apart.
\<close>

datatype datum = DWord "64 word" | DPointer pg_type "byte list" | DArray pg_type "64 word list" | DNull

datatype jbv_type = jbvNull | jbvString | jbvNumeric | jbvBool | jbvArray | jbvObject | jbvBinary

datatype body =
    BodyDatum datum          \<comment> \<open>\<open>OBJ_DATUM\<close>\<close>
  | BodyStringInfo           \<comment> \<open>\<open>OBJ_STRING_INFO\<close>\<close>
  | BodyJsonb jbv_type       \<comment> \<open>\<open>OBJ_JSONB_VALUE\<close>\<close>
  | BodyPortal "nat option"  \<comment> \<open>\<open>OBJ_PORTAL\<close>; \<open>None\<close>: closed\<close>
  | BodyTupleTable "nat option" \<comment> \<open>\<open>OBJ_TUPLE_TABLE\<close>; \<open>None\<close>: no rows\<close>
  | BodyHeapTuple nat        \<comment> \<open>\<open>OBJ_HEAP_TUPLE\<close>\<close>
  | BodyInstrTime            \<comment> \<open>\<open>OBJ_CLOCK_MONOTONIC\<close>\<close>

datatype obj_type =
    OBJ_DATUM | OBJ_STRING_INFO | OBJ_JSONB_VALUE | OBJ_PORTAL | OBJ_TUPLE_TABLE | OBJ_HEAP_TUPLE
  | OBJ_CLOCK_MONOTONIC

fun body_type :: "body \<Rightarrow> obj_type" where
  "body_type (BodyDatum _) = OBJ_DATUM"
| "body_type BodyStringInfo = OBJ_STRING_INFO"
| "body_type (BodyJsonb _) = OBJ_JSONB_VALUE"
| "body_type (BodyPortal _) = OBJ_PORTAL"
| "body_type (BodyTupleTable _) = OBJ_TUPLE_TABLE"
| "body_type (BodyHeapTuple _) = OBJ_HEAP_TUPLE"
| "body_type BodyInstrTime = OBJ_CLOCK_MONOTONIC"

datatype obj_flag = OBJ_REFERENCING | OBJ_OWNS_BODY | OBJ_OWNS_BODY_MEMBERS

datatype obj = Obj
  (ob_type: obj_type)
  (ob_flags: "obj_flag set")
  (ob_oid: pg_type) \<comment> \<open>only for \<open>OBJ_DATUM\<close>\<close>
  (ob_query_idx: i32) \<comment> \<open>only for \<open>OBJ_PORTAL\<close> and \<open>OBJ_TUPLE_TABLE\<close>\<close>
  (ob_body: body)
  (ob_ref: "obj option") \<comment> \<open>\<open>ref[0].val\<close>, the object kept alive\<close>

text \<open>What a reference handed to the engine by the application can be.\<close>

datatype wasm_ref =
    NullRef
  | Externref wasm_ref \<comment> \<open>an externref and the object inside\<close>
  | Anyref obj
  | GcObject \<comment> \<open>a struct or an array of the application\<close>

section \<open>Making and reading objects\<close>

text \<open>The size of the allocation and the place of the embedded data in it.\<close>

definition sizeof_Obj :: nat where "sizeof_Obj = 16"
definition sizeof_local_obj_ref :: nat where "sizeof_local_obj_ref = 16"

definition obj_alloc_size :: "bool \<Rightarrow> nat \<Rightarrow> nat" where
  "obj_alloc_size has_ref embed_size =
     sizeof_Obj + embed_size + (if has_ref then sizeof_local_obj_ref else 0)"

definition obj_embed_offset :: "bool \<Rightarrow> nat" where
  "obj_embed_offset has_ref = (if has_ref then sizeof_Obj + sizeof_local_obj_ref else sizeof_Obj)"

text \<open>
  \<open>rst_obj_new\<close> and the assignments its callers make to the fresh object: the flags they add,
  the OID or the query index, the body.
\<close>

definition rst_obj_new :: "obj_type \<Rightarrow> obj option \<Rightarrow> obj_flag set \<Rightarrow> pg_type \<Rightarrow> i32 \<Rightarrow> body \<Rightarrow> obj" where
  "rst_obj_new ty ref flags oid query_idx body =
     Obj ty ((if ref = None then {} else {OBJ_REFERENCING}) \<union> flags) oid query_idx body ref"

text \<open>
  An object that no collector frees: behind its header come the value that is handed out, the two
  references, and the embedded data. The sizes of WAMR's structures are arguments.
\<close>

record wamr_sizes =
  ws_value :: nat
  ws_externref :: nat
  ws_anyref :: nat

record static_obj =
  so_size :: nat
  so_value :: nat
  so_externref :: nat
  so_anyref :: nat
  so_body :: nat \<comment> \<open>\<open>body.ptr\<close>\<close>
  so_ref :: wasm_ref

definition rst_obj_new_static :: "wamr_sizes \<Rightarrow> obj_type \<Rightarrow> nat \<Rightarrow> obj_flag set \<Rightarrow> pg_type \<Rightarrow> body \<Rightarrow> static_obj" where
  "rst_obj_new_static ws ty embed_size flags oid body =
     (let size = obj_alloc_size False (ws_value ws + ws_externref ws + ws_anyref ws + embed_size);
          ptr = obj_embed_offset False;
          externref = ptr + ws_value ws;
          anyref = externref + ws_externref ws
      in \<lparr>so_size = size, so_value = ptr, so_externref = externref, so_anyref = anyref,
          so_body = (if 0 < embed_size then anyref + ws_anyref ws else ptr),
          so_ref = Externref (Anyref (rst_obj_new ty None flags oid 0 body))\<rparr>)"

definition rst_externref_of_obj :: "obj \<Rightarrow> wasm_ref" where
  "rst_externref_of_obj ob = Externref (Anyref ob)"

definition wasm_externref_obj_get_obj :: "wasm_ref \<Rightarrow> obj_type \<Rightarrow> obj res" where
  "wasm_externref_obj_get_obj refobj ty =
     (case refobj of
        NullRef \<Rightarrow> Inl (Undefined ''wasm_obj_is_externref_obj(NULL)'')
      | Externref anyref \<Rightarrow>
          (case anyref of
             NullRef \<Rightarrow> Inl (Undefined ''wasm_obj_is_anyref_obj(NULL)'')
           | Anyref ob \<Rightarrow>
               if ob_type ob \<noteq> ty then Inl (PgError ''expected object type %d, got %d'') else Inr ob
           | _ \<Rightarrow> Inl (PgError ''not an externref of anyref object''))
      | _ \<Rightarrow> Inl (PgError ''not an externref object''))"

definition wasm_externref_obj_get_datum :: "wasm_ref \<Rightarrow> pg_type \<Rightarrow> datum res" where
  "wasm_externref_obj_get_datum refobj oid =
     res_bind (wasm_externref_obj_get_obj refobj OBJ_DATUM) (\<lambda>ob.
       if ob_oid ob \<noteq> oid then Inl (PgError ''expected OID %d, got %d'')
       else case ob_body ob of
         BodyDatum d \<Rightarrow> Inr d
       | _ \<Rightarrow> Inl (Undefined ''obj->body.datum''))"

definition rst_externref_of_owned_datum :: "datum \<Rightarrow> pg_type \<Rightarrow> wasm_ref" where
  "rst_externref_of_owned_datum d oid =
     rst_externref_of_obj (rst_obj_new OBJ_DATUM None {OBJ_OWNS_BODY} oid 0 (BodyDatum d))"

text \<open>
  \<open>cstring_into_varatt_obj\<close>: the bytes with a one-byte or a four-byte header. The header says
  its own length, so the whole of it is the pair of header size and bytes.
\<close>

definition VARATT_MAX :: nat where "VARATT_MAX = 0x3FFFFFFF"
definition VARATT_SHORT_MAX :: nat where "VARATT_SHORT_MAX = 0x7F"
definition VARHDRSZ :: nat where "VARHDRSZ = 4"
definition VARHDRSZ_SHORT :: nat where "VARHDRSZ_SHORT = 1"

datatype varlena = Varlena (varhdrsz: nat) (vardata_any: "byte list")

definition varatt_new :: "byte list \<Rightarrow> varlena res" where
  "varatt_new data =
     (let len = length data in
      if VARATT_MAX - VARHDRSZ < len then Inl (PgError ''varlena_new: input too long'')
      else if len \<le> VARATT_SHORT_MAX - VARHDRSZ_SHORT then Inr (Varlena VARHDRSZ_SHORT data)
      else Inr (Varlena VARHDRSZ data))"

definition cstring_into_varatt_obj :: "byte list \<Rightarrow> pg_type \<Rightarrow> wasm_ref res" where
  "cstring_into_varatt_obj data oid =
     res_bind (varatt_new data) (\<lambda>v.
       Inr (rst_externref_of_obj
         (rst_obj_new OBJ_DATUM None {} oid 0 (BodyDatum (DPointer oid (vardata_any v))))))"

section \<open>Finalizer\<close>

datatype release =
    FreeDatum | FreeStringInfoData | FreeStringInfo | FreeJsonbString | FreeJsonbElems | FreeJsonbPairs
  | FreeJsonbValue | CloseCursor nat | FreeTupleTable "nat option" | RemoveRef | FreeObj

definition obj_finalizer :: "obj \<Rightarrow> release list" where
  "obj_finalizer ob =
     (case ob_body ob of
        BodyDatum _ \<Rightarrow> if OBJ_OWNS_BODY \<in> ob_flags ob then [FreeDatum] else []
      | BodyStringInfo \<Rightarrow>
          (if OBJ_OWNS_BODY_MEMBERS \<in> ob_flags ob then [FreeStringInfoData] else []) @
          (if OBJ_OWNS_BODY \<in> ob_flags ob then [FreeStringInfo] else [])
      | BodyJsonb t \<Rightarrow>
          (if OBJ_OWNS_BODY_MEMBERS \<in> ob_flags ob then
             (case t of jbvString \<Rightarrow> [FreeJsonbString] | jbvArray \<Rightarrow> [FreeJsonbElems]
              | jbvObject \<Rightarrow> [FreeJsonbPairs] | _ \<Rightarrow> [])
           else []) @
          (if OBJ_OWNS_BODY \<in> ob_flags ob then [FreeJsonbValue] else [])
      | BodyPortal p \<Rightarrow> (case p of Some c \<Rightarrow> [CloseCursor c] | None \<Rightarrow> [])
      | BodyTupleTable t \<Rightarrow> [FreeTupleTable t]
      | _ \<Rightarrow> []) @
     (if OBJ_REFERENCING \<in> ob_flags ob then [RemoveRef] else []) @ [FreeObj]"

section \<open>The list of references\<close>

text \<open>
  The execution environment links the references by \<open>prev\<close>; addresses are numbers. \<open>walk\<close> is
  the loop of \<open>wasm_runtime_remove_local_obj_ref\<close>; it gives the last value of \<open>next\<close>. On a
  cycle without \<open>me\<close> it does not end.
\<close>

type_synonym ref_heap = "nat \<Rightarrow> nat option option" \<comment> \<open>the \<open>prev\<close> of an allocated reference\<close>

partial_function (option) walk ::
  "ref_heap \<Rightarrow> nat \<Rightarrow> nat option \<Rightarrow> nat option \<Rightarrow> nat option res option" where
  "walk h me current next =
     (if current = Some me then Some (Inr next)
      else case current of
        None \<Rightarrow> Some (Inl (Undefined ''current->prev''))
      | Some a \<Rightarrow>
          (case h a of
             None \<Rightarrow> Some (Inl (Undefined ''current->prev''))
           | Some prev \<Rightarrow> walk h me prev (Some a)))"

definition remove_local_obj_ref ::
  "ref_heap \<Rightarrow> nat option \<Rightarrow> nat \<Rightarrow> (ref_heap \<times> nat option) res option" where
  "remove_local_obj_ref h cur me =
     (if cur = Some me then
        (case h me of None \<Rightarrow> Some (Inl (Undefined ''cur->prev'')) | Some prev \<Rightarrow> Some (Inr (h, prev)))
      else case walk h me cur None of
        None \<Rightarrow> None
      | Some (Inl e) \<Rightarrow> Some (Inl e)
      | Some (Inr next) \<Rightarrow>
          (case (next, h me) of
             (Some a, Some prev) \<Rightarrow> Some (Inr (h(a \<mapsto> prev), cur))
           | _ \<Rightarrow> Some (Inl (Undefined ''next->prev''))))"

section \<open>Lemmas\<close>

text \<open>The references from \<open>cur\<close> on.\<close>

fun chain :: "ref_heap \<Rightarrow> nat option \<Rightarrow> nat list \<Rightarrow> bool" where
  "chain h cur [] \<longleftrightarrow> cur = None"
| "chain h cur (a # as) \<longleftrightarrow> cur = Some a \<and> (\<exists>prev. h a = Some prev \<and> chain h prev as)"

lemma chain_upd [simp]: "a \<notin> set as \<Longrightarrow> chain (h(a := x)) cur as = chain h cur as"
  by (induction as arbitrary: cur) auto

lemma walk_found:
  "chain h cur (as @ me # bs) \<Longrightarrow> me \<notin> set as \<Longrightarrow>
    walk h me cur next = Some (Inr (if as = [] then next else Some (last as)))"
  by (induction as arbitrary: cur "next") (subst walk.simps, auto)+

lemma walk_missing:
  "chain h cur as \<Longrightarrow> me \<notin> set as \<Longrightarrow> walk h me cur next = Some (Inl (Undefined ''current->prev''))"
  by (induction as arbitrary: cur "next") (subst walk.simps, auto)+

lemma chain_unlink:
  "chain h cur (as @ me # bs) \<Longrightarrow> distinct (as @ me # bs) \<Longrightarrow> as \<noteq> [] \<Longrightarrow> h me = Some prev \<Longrightarrow>
    chain (h(last as \<mapsto> prev)) cur (as @ bs)"
proof (induction as arbitrary: cur)
  case (Cons a as)
  obtain p where p: "cur = Some a" "h a = Some p" "chain h p (as @ me # bs)"
    using Cons.prems(1) by auto
  show ?case
  proof (cases "as = []")
    case True
    then have "chain (h(a \<mapsto> prev)) prev bs" using p Cons.prems by simp
    with p True show ?thesis by (simp del: fun_upd_apply add: fun_upd_same)
  next
    case False
    have "distinct (as @ me # bs)" using Cons.prems(2) by simp
    then have "chain (h(last as \<mapsto> prev)) p (as @ bs)"
      using Cons.IH[OF p(3) _ False Cons.prems(4)] by blast
    moreover have "last as \<noteq> a" using Cons.prems(2) False by auto
    ultimately show ?thesis using p False by (simp del: fun_upd_apply add: fun_upd_other)
  qed
qed simp

lemma remove_local_obj_ref_chain:
  assumes "chain h cur as" "distinct as" "me \<in> set as"
  shows "\<exists>h' cur'. remove_local_obj_ref h cur me = Some (Inr (h', cur')) \<and> chain h' cur' (remove1 me as)"
proof -
  obtain xs ys where as: "as = xs @ me # ys" "me \<notin> set xs"
    using split_list_first[OF assms(3)] by blast
  have me: "\<exists>prev. h me = Some prev \<and> chain h prev ys"
    using assms(1) unfolding as(1) by (induction xs arbitrary: cur) auto
  show ?thesis
  proof (cases "xs = []")
    case True
    with as me assms(1) show ?thesis by (auto simp: remove_local_obj_ref_def)
  next
    case False
    then have "cur \<noteq> Some me" using assms(1) as by (cases xs) auto
    moreover obtain prev where "h me = Some prev" using me by blast
    ultimately have "remove_local_obj_ref h cur me = Some (Inr (h(last xs \<mapsto> prev), cur))"
      using walk_found[of h cur xs me ys None] assms(1) as False by (simp add: remove_local_obj_ref_def)
    moreover have "chain (h(last xs \<mapsto> prev)) cur (xs @ ys)"
      using chain_unlink[of h cur xs me ys prev] assms(1,2) as False \<open>h me = Some prev\<close> by simp
    ultimately show ?thesis using as by (simp add: remove1_append)
  qed
qed

lemma get_obj_type:
  "wasm_externref_obj_get_obj r ty = Inr ob \<Longrightarrow> ob_type ob = ty"
  by (auto simp: wasm_externref_obj_get_obj_def split: wasm_ref.splits if_splits)

lemma get_datum_of_new [simp]:
  "wasm_externref_obj_get_datum (rst_externref_of_obj (rst_obj_new OBJ_DATUM ref flags oid q (BodyDatum d))) oid'
    = (if oid = oid' then Inr d else Inl (PgError ''expected OID %d, got %d''))"
  by (simp add: wasm_externref_obj_get_datum_def wasm_externref_obj_get_obj_def rst_externref_of_obj_def
      rst_obj_new_def)

text \<open>The parts of a static object follow each other without a gap and fill the allocation.\<close>

lemma static_parts:
  assumes "so = rst_obj_new_static ws ty embed_size flags oid body" "0 < embed_size"
  shows "sizeof_Obj \<le> so_value so \<and> so_externref so = so_value so + ws_value ws \<and>
    so_anyref so = so_externref so + ws_externref ws \<and> so_body so = so_anyref so + ws_anyref ws \<and>
    so_body so + embed_size = so_size so \<and>
    wasm_externref_obj_get_obj (so_ref so) ty = Inr (rst_obj_new ty None flags oid 0 body)"
  using assms
  by (simp add: rst_obj_new_static_def obj_alloc_size_def obj_embed_offset_def wasm_externref_obj_get_obj_def rst_obj_new_def Let_def)

lemma embed_inside: "obj_embed_offset has_ref + embed_size = obj_alloc_size has_ref embed_size"
  by (simp add: obj_embed_offset_def obj_alloc_size_def)

section \<open>Properties\<close>

text \<open>
  Removing a reference from the environment's list, as a finalizer does in whatever order
  objects die, takes out that reference and leaves the others in their order. The loop ends and
  dereferences no null pointer.
\<close>
lemma local_ref_removed:
  assumes "chain h cur as" "distinct as" "me \<in> set as"
  shows "\<exists>h' cur'. remove_local_obj_ref h cur me = Some (Inr (h', cur')) \<and> chain h' cur' (remove1 me as)"
  by (rule remove_local_obj_ref_chain[OF assms])

lemma local_ref_removed_witness:
  "\<exists>h' cur'. remove_local_obj_ref [3 \<mapsto> Some 2, 2 \<mapsto> Some 1, 1 \<mapsto> None] (Some 3) 2 = Some (Inr (h', cur')) \<and>
    chain h' cur' [3, 1]"
  using local_ref_removed[of "[3 \<mapsto> Some 2, 2 \<mapsto> Some 1, 1 \<mapsto> None]" "Some 3" "[3, 2, 1]" 2] by simp

text \<open>
  Bytes put into a host object come back unchanged when it is read at the same type, and
  are refused at any other type; only input longer than a varlena can hold is refused at once.
\<close>
lemma varatt_obj_roundtrip:
  "(case cstring_into_varatt_obj data oid of
      Inl e \<Rightarrow> VARATT_MAX - VARHDRSZ < length data \<and> e = PgError ''varlena_new: input too long''
    | Inr r \<Rightarrow> length data \<le> VARATT_MAX - VARHDRSZ \<and>
        wasm_externref_obj_get_datum r oid' =
          (if oid = oid' then Inr (DPointer oid data) else Inl (PgError ''expected OID %d, got %d'')))"
  by (simp add: cstring_into_varatt_obj_def varatt_new_def Let_def)

end
