(* ===== verification/WasmTypes.thy ===== *)
theory WasmTypes
  imports ObjSys
begin

text \<open>
  The types of a WebAssembly module as the engine inspects them (\<open>wamr.c\<close>). The runtime WAMR is
  not part of the sources: the table of defined types of a module, the test for an externref and
  the export list are parameters.
\<close>

section \<open>Data\<close>

datatype value_type =
    VALUE_TYPE_I32 | VALUE_TYPE_I64 | VALUE_TYPE_F32 | VALUE_TYPE_F64 | VALUE_TYPE_V128
  | VALUE_TYPE_I8 | VALUE_TYPE_I16
  | VALUE_TYPE_NULLFUNCREF | VALUE_TYPE_NULLEXTERNREF | VALUE_TYPE_NULLREF
  | VALUE_TYPE_FUNCREF | VALUE_TYPE_EXTERNREF | VALUE_TYPE_ANYREF | VALUE_TYPE_EQREF
  | VALUE_TYPE_I31REF | VALUE_TYPE_STRUCTREF | VALUE_TYPE_ARRAYREF
  | VALUE_TYPE_HT_NON_NULLABLE_REF | VALUE_TYPE_HT_NULLABLE_REF
  | VALUE_TYPE_OTHER nat \<comment> \<open>any other number\<close>

datatype heap_type = HEAP_TYPE_EXTERN | HEAP_TYPE_INDEX nat | HEAP_TYPE_NONE

record ref_type =
  rt_value :: value_type \<comment> \<open>\<open>value_type\<close>\<close>
  rt_heap :: heap_type \<comment> \<open>\<open>heap_type\<close>\<close>

datatype wasm_type = StructType "ref_type list" | ArrayType ref_type | FuncType "ref_type list" "ref_type list"

text \<open>
  \<open>wm_defined_type\<close> is \<open>wasm_get_defined_type\<close>; \<open>None\<close> is an index outside the module's table.
  The exports are a name and, for a function, its type.
\<close>

record wasm_module =
  wm_defined_type :: "heap_type \<Rightarrow> wasm_type option"
  wm_is_externref :: "value_type \<Rightarrow> bool" \<comment> \<open>\<open>wasm_is_reftype_externref\<close>\<close>
  wm_exports :: "(string \<times> wasm_type option) list"

section \<open>Inspecting types\<close>

definition wasm_get_defined_type :: "wasm_module \<Rightarrow> heap_type \<Rightarrow> wasm_type res" where
  "wasm_get_defined_type m ht =
     (case wm_defined_type m ht of None \<Rightarrow> Inl (Undefined ''types[type_index]'') | Some t \<Rightarrow> Inr t)"

text \<open>\<open>None\<close>: the code returns \<open>NULL\<close>.\<close>

definition wasm_ref_type_get_referred_struct ::
  "ref_type \<Rightarrow> wasm_module \<Rightarrow> bool \<Rightarrow> ref_type list option res" where
  "wasm_ref_type_get_referred_struct ref_type m nullable =
     (if nullable \<and> rt_value ref_type \<noteq> VALUE_TYPE_HT_NULLABLE_REF then Inr None
      else if \<not> nullable \<and> rt_value ref_type \<noteq> VALUE_TYPE_HT_NON_NULLABLE_REF then Inr None
      else res_bind (wasm_get_defined_type m (rt_heap ref_type)) (\<lambda>type.
        case type of StructType fs \<Rightarrow> Inr (Some fs) | _ \<Rightarrow> Inr None))"

definition wasm_ref_type_get_referred_array ::
  "ref_type \<Rightarrow> wasm_module \<Rightarrow> bool \<Rightarrow> ref_type option res" where
  "wasm_ref_type_get_referred_array ref_type m nullable =
     (if nullable \<and> rt_value ref_type \<noteq> VALUE_TYPE_HT_NULLABLE_REF then Inr None
      else if \<not> nullable \<and> rt_value ref_type \<noteq> VALUE_TYPE_HT_NON_NULLABLE_REF then Inr None
      else res_bind (wasm_get_defined_type m (rt_heap ref_type)) (\<lambda>type.
        case type of ArrayType elem \<Rightarrow> Inr (Some elem) | _ \<Rightarrow> Inr None))"

definition wasm_ref_type_is_ref_extern :: "ref_type \<Rightarrow> bool" where
  "wasm_ref_type_is_ref_extern ref_type \<longleftrightarrow>
     rt_value ref_type = VALUE_TYPE_HT_NON_NULLABLE_REF \<and> rt_heap ref_type = HEAP_TYPE_EXTERN"

fun lookup_export :: "(string \<times> wasm_type option) list \<Rightarrow> string \<Rightarrow> wasm_type option" where
  "lookup_export [] name = None"
| "lookup_export ((n, kind) # exports) name =
     (case kind of
        None \<Rightarrow> lookup_export exports name \<comment> \<open>not a function\<close>
      | Some func_type \<Rightarrow> if n = name then Some func_type else lookup_export exports name)"

definition wasm_module_lookup_exported_func :: "wasm_module \<Rightarrow> string \<Rightarrow> wasm_type option" where
  "wasm_module_lookup_exported_func m name = lookup_export (wm_exports m) name"

definition wasm_ref_type_repr :: "ref_type \<Rightarrow> string res" where
  "wasm_ref_type_repr ref_type =
     (case rt_value ref_type of
        VALUE_TYPE_I32 \<Rightarrow> Inr ''i32''
      | VALUE_TYPE_I64 \<Rightarrow> Inr ''i64''
      | VALUE_TYPE_F32 \<Rightarrow> Inr ''f32''
      | VALUE_TYPE_F64 \<Rightarrow> Inr ''f64''
      | VALUE_TYPE_V128 \<Rightarrow> Inr ''v128''
      | VALUE_TYPE_I8 \<Rightarrow> Inr ''i8''
      | VALUE_TYPE_I16 \<Rightarrow> Inr ''i16''
      | VALUE_TYPE_NULLFUNCREF \<Rightarrow> Inr ''ref null nofunc''
      | VALUE_TYPE_NULLEXTERNREF \<Rightarrow> Inr ''ref null noextern''
      | VALUE_TYPE_NULLREF \<Rightarrow> Inr ''ref null none''
      | VALUE_TYPE_FUNCREF \<Rightarrow> Inr ''ref null func''
      | VALUE_TYPE_EXTERNREF \<Rightarrow> Inr ''ref null extern''
      | VALUE_TYPE_ANYREF \<Rightarrow> Inr ''ref null any''
      | VALUE_TYPE_EQREF \<Rightarrow> Inr ''ref null eq''
      | VALUE_TYPE_I31REF \<Rightarrow> Inr ''ref null i31''
      | VALUE_TYPE_STRUCTREF \<Rightarrow> Inr ''ref null struct''
      | VALUE_TYPE_ARRAYREF \<Rightarrow> Inr ''ref null array''
      | VALUE_TYPE_HT_NON_NULLABLE_REF \<Rightarrow>
          Inr (if rt_heap ref_type = HEAP_TYPE_EXTERN then ''ref extern'' else ''ref <unknown>'')
      | VALUE_TYPE_HT_NULLABLE_REF \<Rightarrow>
          Inr (if rt_heap ref_type = HEAP_TYPE_EXTERN then ''ref null extern'' else ''ref null <unknown>'')
      | VALUE_TYPE_OTHER _ \<Rightarrow> Inl (Trap ''pg_unreachable''))"

text \<open>
  \<open>env_tid_to_oid\<close>: the OID of a type by its UUID, from the map the compiler was given; 0 when
  it is not there.
\<close>

fun tid_lookup :: "(byte list \<times> u32) list \<Rightarrow> byte list \<Rightarrow> u32" where
  "tid_lookup [] tid = 0"
| "tid_lookup ((t, oid) # m) tid = (if t = tid then oid else tid_lookup m tid)"

definition env_tid_to_oid :: "(byte list \<times> u32) list \<Rightarrow> wasm_ref \<Rightarrow> i32 res" where
  "env_tid_to_oid tid_map refobj =
     (if tid_map = [] then Inr 0
      else res_bind (wasm_externref_obj_get_datum refobj UUIDOID) (\<lambda>d.
        case d of DPointer _ tid \<Rightarrow> Inr (tid_lookup tid_map tid)
        | _ \<Rightarrow> Inl (Undefined ''tid->data'')))"

section \<open>Lemmas\<close>

lemma referred_struct_Some:
  "wasm_ref_type_get_referred_struct rt m nullable = Inr (Some fs) \<Longrightarrow>
    rt_value rt = (if nullable then VALUE_TYPE_HT_NULLABLE_REF else VALUE_TYPE_HT_NON_NULLABLE_REF) \<and>
    wm_defined_type m (rt_heap rt) = Some (StructType fs)"
  by (auto simp: wasm_ref_type_get_referred_struct_def wasm_get_defined_type_def res_bind_eq_Inr
      split: if_splits option.splits wasm_type.splits)

lemma referred_array_Some:
  "wasm_ref_type_get_referred_array rt m nullable = Inr (Some el) \<Longrightarrow>
    rt_value rt = (if nullable then VALUE_TYPE_HT_NULLABLE_REF else VALUE_TYPE_HT_NON_NULLABLE_REF) \<and>
    wm_defined_type m (rt_heap rt) = Some (ArrayType el)"
  by (auto simp: wasm_ref_type_get_referred_array_def wasm_get_defined_type_def res_bind_eq_Inr
      split: if_splits option.splits wasm_type.splits)

lemma tid_lookup_map_of: "tid_lookup m tid = (case map_of m tid of None \<Rightarrow> 0 | Some oid \<Rightarrow> oid)"
  by (induction m tid rule: tid_lookup.induct) simp_all

end
