(* ===== verification/Convert.thy ===== *)
theory Convert
  imports WasmTypes
begin

text \<open>
  The converters between WebAssembly values and Postgres datums (\<open>query.c\<close>, lines 17 to 233).
  Reading the member of a union that was not written, or a pointer as a number, is undefined.
\<close>

section \<open>Values\<close>

text \<open>
  A value of the application. Structs and arrays are read, or built and returned, never
  shared and changed here, so they are trees; \<open>WHost\<close> is an externref or null.
\<close>

datatype wvalue =
    V_I32 i32 | V_I64 i64 | V_F32 "32 word" | V_F64 "64 word" | V_Obj wobj
and wobj = WStruct heap_type "wvalue list" | WArray heap_type "wvalue list" | WHost wasm_ref

definition get_field :: "wvalue \<Rightarrow> nat \<Rightarrow> wvalue res" where
  "get_field v i =
     (case v of
        V_Obj (WStruct _ vs) \<Rightarrow> if i < length vs then Inr (vs ! i) else Inl (Undefined ''struct field index'')
      | _ \<Rightarrow> Inl (Undefined ''not a struct''))"

definition get_elem :: "wvalue \<Rightarrow> nat \<Rightarrow> wvalue res" where
  "get_elem v i =
     (case v of
        V_Obj (WArray _ vs) \<Rightarrow> if i < length vs then Inr (vs ! i) else Inl (Undefined ''array index'')
      | _ \<Rightarrow> Inl (Undefined ''not an array''))"

definition get_i32 :: "wvalue \<Rightarrow> i32 res" where
  "get_i32 v = (case v of V_I32 w \<Rightarrow> Inr w | _ \<Rightarrow> Inl (Undefined ''value.i32''))"

text \<open>\<open>wasm_externref_obj_get_datum\<close> on a value.\<close>

definition get_datum :: "wvalue \<Rightarrow> pg_type \<Rightarrow> datum res" where
  "get_datum v oid =
     (case v of
        V_Obj (WHost r) \<Rightarrow> wasm_externref_obj_get_datum r oid
      | V_Obj _ \<Rightarrow> wasm_externref_obj_get_datum GcObject oid
      | _ \<Rightarrow> Inl (Undefined ''value.gc_obj''))"

section \<open>From WebAssembly to Postgres\<close>

definition wasm_i32_to_pg_bool :: "pg_type \<Rightarrow> wvalue \<Rightarrow> datum res" where
  "wasm_i32_to_pg_bool oid v = res_bind (get_i32 v) (\<lambda>w. Inr (DWord (if w \<noteq> 0 then 1 else 0)))"

definition wasm_i32_to_pg_int4 :: "pg_type \<Rightarrow> wvalue \<Rightarrow> datum res" where
  "wasm_i32_to_pg_int4 oid v = res_bind (get_i32 v) (\<lambda>w. Inr (DWord (scast w)))"

definition wasm_i64_to_pg_int8 :: "pg_type \<Rightarrow> wvalue \<Rightarrow> datum res" where
  "wasm_i64_to_pg_int8 oid v = (case v of V_I64 w \<Rightarrow> Inr (DWord w) | _ \<Rightarrow> Inl (Undefined ''value.i64''))"

definition wasm_f32_to_pg_float4 :: "pg_type \<Rightarrow> wvalue \<Rightarrow> datum res" where
  "wasm_f32_to_pg_float4 oid v =
     (case v of V_F32 w \<Rightarrow> Inr (DWord (scast w)) | _ \<Rightarrow> Inl (Undefined ''value.f32''))"

definition wasm_f64_to_pg_float8 :: "pg_type \<Rightarrow> wvalue \<Rightarrow> datum res" where
  "wasm_f64_to_pg_float8 oid v = (case v of V_F64 w \<Rightarrow> Inr (DWord w) | _ \<Rightarrow> Inl (Undefined ''value.f64''))"

definition wasm_externref_to_datum_obj :: "pg_type \<Rightarrow> wvalue \<Rightarrow> datum res" where
  "wasm_externref_to_datum_obj oid v = get_datum v oid"

text \<open>The loop over a MoonBit array; \<open>palloc\<close> refuses sizes above \<open>MaxAllocSize\<close>.\<close>

definition MaxAllocSize :: int where "MaxAllocSize = 0x3fffffff"

fun read_elems :: "wvalue \<Rightarrow> nat \<Rightarrow> nat \<Rightarrow> i32 list res" where
  "read_elems arr i 0 = Inr []"
| "read_elems arr i (Suc n) =
     res_bind (get_elem arr i) (\<lambda>v. res_bind (get_i32 v) (\<lambda>w.
     res_bind (read_elems arr (Suc i) n) (\<lambda>ws. Inr (w # ws))))"

definition read_moonbit_array :: "wvalue \<Rightarrow> i32 list res" where
  "read_moonbit_array v =
     res_bind (get_field v 0) (\<lambda>fixed_array.
     res_bind (get_field v 1) (\<lambda>val.
     res_bind (get_i32 val) (\<lambda>len.
       if sint len < 0 \<or> MaxAllocSize < 8 * sint len then Inl (PgError ''invalid memory alloc request size'')
       else read_elems fixed_array 0 (nat (sint len)))))"

definition wasm_i32_array_to_pg_int2_array :: "pg_type \<Rightarrow> wvalue \<Rightarrow> datum res" where
  "wasm_i32_array_to_pg_int2_array oid v =
     res_bind (read_moonbit_array v) (\<lambda>ws. Inr (DArray INT2OID (map (\<lambda>w. scast (ucast w :: u16)) ws)))"

definition wasm_i32_array_to_pg_int4_array :: "pg_type \<Rightarrow> wvalue \<Rightarrow> datum res" where
  "wasm_i32_array_to_pg_int4_array oid v =
     res_bind (read_moonbit_array v) (\<lambda>ws. Inr (DArray INT4OID (map scast ws)))"

definition wasm_to_pg_funcs :: "(pg_type \<Rightarrow> wvalue \<Rightarrow> datum res) list" where
  "wasm_to_pg_funcs =
     [wasm_i32_to_pg_bool, wasm_i32_to_pg_int4, wasm_i64_to_pg_int8, wasm_f32_to_pg_float4,
      wasm_f64_to_pg_float8, wasm_externref_to_datum_obj, wasm_i32_array_to_pg_int2_array,
      wasm_i32_array_to_pg_int4_array]"

section \<open>From Postgres to WebAssembly\<close>

text \<open>
  The arguments: the module (for the type of the array inside a MoonBit array), the tuple that
  is kept alive by a datum taken from it, the type of the column, the type of the field. An SQL
  NULL is the datum 0.
\<close>

type_synonym pg_to_wasm_func = "wasm_module \<Rightarrow> obj option \<Rightarrow> pg_type \<Rightarrow> ref_type \<Rightarrow> datum \<Rightarrow> wvalue res"

definition datum_word :: "datum \<Rightarrow> 64 word res" where
  "datum_word d = (case d of DWord w \<Rightarrow> Inr w | DNull \<Rightarrow> Inr 0 | _ \<Rightarrow> Inl (Undefined ''pointer as a number''))"

definition pg_bool_to_wasm_i32 :: pg_to_wasm_func where
  "pg_bool_to_wasm_i32 m tuple oid rt d = res_bind (datum_word d) (\<lambda>w. Inr (V_I32 (if w \<noteq> 0 then 1 else 0)))"

definition pg_int4_to_wasm_i32 :: pg_to_wasm_func where
  "pg_int4_to_wasm_i32 m tuple oid rt d = res_bind (datum_word d) (\<lambda>w. Inr (V_I32 (ucast w)))"

definition pg_int8_to_wasm_i64 :: pg_to_wasm_func where
  "pg_int8_to_wasm_i64 m tuple oid rt d = res_bind (datum_word d) (\<lambda>w. Inr (V_I64 w))"

definition pg_float4_to_wasm_f32 :: pg_to_wasm_func where
  "pg_float4_to_wasm_f32 m tuple oid rt d = res_bind (datum_word d) (\<lambda>w. Inr (V_F32 (ucast w)))"

definition pg_float8_to_wasm_f64 :: pg_to_wasm_func where
  "pg_float8_to_wasm_f64 m tuple oid rt d = res_bind (datum_word d) (\<lambda>w. Inr (V_F64 w))"

definition pg_datum_to_wasm_obj :: pg_to_wasm_func where
  "pg_datum_to_wasm_obj m tuple oid rt d =
     Inr (V_Obj (WHost (rst_externref_of_obj (rst_obj_new OBJ_DATUM tuple {} oid 0 (BodyDatum d)))))"

text \<open>
  \<open>deconstruct_array\<close> takes the elements of an array of the given type; the elements that are
  NULL are not looked at separately. The struct and the array have the types the module says.
\<close>

definition deconstruct_array :: "pg_type \<Rightarrow> datum \<Rightarrow> 64 word list res" where
  "deconstruct_array el d =
     (case d of
        DArray t ws \<Rightarrow> if t = el then Inr ws else Inl (Trap ''ARR_ELEMTYPE(array) == elmtype'')
      | _ \<Rightarrow> Inl (Undefined ''DatumGetArrayTypeP''))"

definition build_moonbit_array :: "wasm_module \<Rightarrow> ref_type \<Rightarrow> i32 list \<Rightarrow> wvalue res" where
  "build_moonbit_array m rt ws =
     res_bind (wasm_get_defined_type m (rt_heap rt)) (\<lambda>type.
       case type of
         StructType (f # fs) \<Rightarrow>
           Inr (V_Obj (WStruct (rt_heap rt)
             [V_Obj (WArray (rt_heap f) (map V_I32 ws)), V_I32 (word_of_nat (length ws))]))
       | _ \<Rightarrow> Inl (Undefined ''struct_type''))"

definition pg_int2_array_to_wasm_i32_array :: pg_to_wasm_func where
  "pg_int2_array_to_wasm_i32_array m tuple oid rt d =
     res_bind (deconstruct_array INT2OID d) (\<lambda>ws.
       build_moonbit_array m rt (map (\<lambda>w. scast (ucast w :: u16)) ws))"

definition pg_int4_array_to_wasm_i32_array :: pg_to_wasm_func where
  "pg_int4_array_to_wasm_i32_array m tuple oid rt d =
     res_bind (deconstruct_array INT4OID d) (\<lambda>ws. build_moonbit_array m rt (map ucast ws))"

definition pg_to_wasm_funcs :: "pg_to_wasm_func list" where
  "pg_to_wasm_funcs =
     [pg_bool_to_wasm_i32, pg_int4_to_wasm_i32, pg_int8_to_wasm_i64, pg_float4_to_wasm_f32,
      pg_float8_to_wasm_f64, pg_datum_to_wasm_obj, pg_int2_array_to_wasm_i32_array,
      pg_int4_array_to_wasm_i32_array]"

lemmas to_pg_defs =
  wasm_i32_to_pg_bool_def wasm_i32_to_pg_int4_def wasm_i64_to_pg_int8_def wasm_f32_to_pg_float4_def
  wasm_f64_to_pg_float8_def wasm_externref_to_datum_obj_def wasm_i32_array_to_pg_int2_array_def
  wasm_i32_array_to_pg_int4_array_def

lemmas to_wasm_defs =
  pg_bool_to_wasm_i32_def pg_int4_to_wasm_i32_def pg_int8_to_wasm_i64_def pg_float4_to_wasm_f32_def
  pg_float8_to_wasm_f64_def pg_datum_to_wasm_obj_def pg_int2_array_to_wasm_i32_array_def
  pg_int4_array_to_wasm_i32_array_def

section \<open>Lemmas\<close>

lemma read_elems_map:
  "read_elems (V_Obj (WArray h (map V_I32 ws))) i n =
    (if i + n \<le> length ws then Inr (take n (drop i ws)) else
     (if n = 0 then Inr [] else Inl (Undefined ''array index'')))"
proof (induction n arbitrary: i)
  case (Suc n)
  show ?case
  proof (cases "i < length ws")
    case True
    then have "get_elem (V_Obj (WArray h (map V_I32 ws))) i = Inr (V_I32 (ws ! i))" by (simp add: get_elem_def)
    with True Suc show ?thesis
      by (auto simp: get_i32_def Cons_nth_drop_Suc[symmetric])
  next
    case False
    then show ?thesis by (simp add: get_elem_def)
  qed
qed simp

text \<open>A MoonBit array value: the elements are the first \<open>len\<close> of the array inside.\<close>

definition moonbit_array :: "wvalue \<Rightarrow> i32 list \<Rightarrow> bool" where
  "moonbit_array v ws \<longleftrightarrow> (\<exists>h1 h2 buf. v = V_Obj (WStruct h1
     [V_Obj (WArray h2 (map V_I32 (ws @ buf))), V_I32 (word_of_nat (length ws))])) \<and>
     8 * int (length ws) \<le> MaxAllocSize"

lemma read_moonbit_array_ok:
  assumes "moonbit_array v ws"
  shows "read_moonbit_array v = Inr ws"
proof -
  obtain h1 h2 buf where v: "v = V_Obj (WStruct h1
      [V_Obj (WArray h2 (map V_I32 (ws @ buf))), V_I32 (word_of_nat (length ws))])"
    using assms by (auto simp: moonbit_array_def)
  have len: "8 * int (length ws) \<le> MaxAllocSize" using assms by (simp add: moonbit_array_def)
  then have "sint (word_of_nat (length ws) :: i32) = int (length ws)"
    by (intro sint_of_nat32) (simp add: MaxAllocSize_def)
  with len show ?thesis
    unfolding v by (simp add: read_moonbit_array_def get_field_def get_i32_def read_elems_map del: map_append)
qed

end
