(* ===== verification/Compiler.thy ===== *)
theory Compiler
  imports Convert
begin

text \<open>
  The compiler of query signatures (\<open>compiler.c\<close>): an application exports \<open>get_queries\<close>, whose
  result type describes each query by a struct; the compiler checks the struct, describes the
  query's results through Postgres' parser and chooses a converter for each argument and each
  result column. The ahead-of-time compiler of WAMR is not modelled.
\<close>

section \<open>Converters by number\<close>

datatype wasm_to_pg_fn =
    Fn_i32_to_bool | Fn_i32_to_int4 | Fn_i64_to_int8 | Fn_f32_to_float4 | Fn_f64_to_float8
  | Fn_externref_to_datum | Fn_i32_array_to_int2_array | Fn_i32_array_to_int4_array

datatype pg_to_wasm_fn =
    Fn_bool_to_i32 | Fn_int4_to_i32 | Fn_int8_to_i64 | Fn_float4_to_f32 | Fn_float8_to_f64
  | Fn_datum_to_obj | Fn_int2_array_to_i32_array | Fn_int4_array_to_i32_array

text \<open>The number of an enumerator is its place in the \<open>enum\<close>.\<close>

fun wasm_to_pg_num :: "wasm_to_pg_fn \<Rightarrow> nat" where
  "wasm_to_pg_num Fn_i32_to_bool = 0"
| "wasm_to_pg_num Fn_i32_to_int4 = 1"
| "wasm_to_pg_num Fn_i64_to_int8 = 2"
| "wasm_to_pg_num Fn_f32_to_float4 = 3"
| "wasm_to_pg_num Fn_f64_to_float8 = 4"
| "wasm_to_pg_num Fn_externref_to_datum = 5"
| "wasm_to_pg_num Fn_i32_array_to_int2_array = 6"
| "wasm_to_pg_num Fn_i32_array_to_int4_array = 7"

fun pg_to_wasm_num :: "pg_to_wasm_fn \<Rightarrow> nat" where
  "pg_to_wasm_num Fn_bool_to_i32 = 0"
| "pg_to_wasm_num Fn_int4_to_i32 = 1"
| "pg_to_wasm_num Fn_int8_to_i64 = 2"
| "pg_to_wasm_num Fn_float4_to_f32 = 3"
| "pg_to_wasm_num Fn_float8_to_f64 = 4"
| "pg_to_wasm_num Fn_datum_to_obj = 5"
| "pg_to_wasm_num Fn_int2_array_to_i32_array = 6"
| "pg_to_wasm_num Fn_int4_array_to_i32_array = 7"

text \<open>\<open>None\<close>: \<open>false\<close>; otherwise the type of the elements.\<close>

definition validate_moonbit_array :: "ref_type \<Rightarrow> wasm_module \<Rightarrow> bool \<Rightarrow> ref_type option res" where
  "validate_moonbit_array rt m nullable =
     res_bind (wasm_ref_type_get_referred_struct rt m nullable) (\<lambda>array_struct.
       case array_struct of
         Some [f0, f1] \<Rightarrow>
           res_bind (wasm_ref_type_get_referred_array f0 m False) (\<lambda>array_type.
             case array_type of
               None \<Rightarrow> Inr None
             | Some elem \<Rightarrow> if rt_value f1 \<noteq> VALUE_TYPE_I32 then Inr None else Inr (Some elem))
       | _ \<Rightarrow> Inr None)"

definition is_extern :: "wasm_module \<Rightarrow> ref_type \<Rightarrow> bool" where
  "is_extern m rt \<longleftrightarrow> wm_is_externref m (rt_value rt) \<or> rt_heap rt = HEAP_TYPE_EXTERN"

definition no_cast :: "ref_type \<Rightarrow> string \<Rightarrow> 'a res" where
  "no_cast rt msg = res_bind (wasm_ref_type_repr rt) (\<lambda>_. Inl (PgError msg))"

text \<open>After a failed cast of an array the message names the type of the elements.\<close>

definition wasm_to_pg :: "wasm_module \<Rightarrow> ref_type \<Rightarrow> pg_type \<Rightarrow> wasm_to_pg_fn res" where
  "wasm_to_pg m rt pg_type =
     (let failed = (\<lambda>rt. no_cast rt ''cannot cast WASM into PG'') in
      case pg_type of
        BOOLOID \<Rightarrow> if rt_value rt = VALUE_TYPE_I32 then Inr Fn_i32_to_bool else failed rt
      | INT4OID \<Rightarrow> if rt_value rt = VALUE_TYPE_I32 then Inr Fn_i32_to_int4 else failed rt
      | DATEOID \<Rightarrow> if rt_value rt = VALUE_TYPE_I32 then Inr Fn_i32_to_int4 else failed rt
      | INT8OID \<Rightarrow> if rt_value rt = VALUE_TYPE_I64 then Inr Fn_i64_to_int8
                   else if rt_value rt = VALUE_TYPE_I32 then Inr Fn_i32_to_int4 else failed rt
      | TIMESTAMPOID \<Rightarrow> if rt_value rt = VALUE_TYPE_I64 then Inr Fn_i64_to_int8 else failed rt
      | TIMESTAMPTZOID \<Rightarrow> if rt_value rt = VALUE_TYPE_I64 then Inr Fn_i64_to_int8 else failed rt
      | TIMEOID \<Rightarrow> if rt_value rt = VALUE_TYPE_I64 then Inr Fn_i64_to_int8 else failed rt
      | FLOAT4OID \<Rightarrow> if rt_value rt = VALUE_TYPE_F32 then Inr Fn_f32_to_float4 else failed rt
      | FLOAT8OID \<Rightarrow> if rt_value rt = VALUE_TYPE_F64 then Inr Fn_f64_to_float8 else failed rt
      | INT2ARRAYOID \<Rightarrow>
          res_bind (validate_moonbit_array rt m False) (\<lambda>elem. case elem of
            None \<Rightarrow> failed rt
          | Some e \<Rightarrow> if rt_value e = VALUE_TYPE_I32 then Inr Fn_i32_array_to_int2_array else failed e)
      | INT4ARRAYOID \<Rightarrow>
          res_bind (validate_moonbit_array rt m False) (\<lambda>elem. case elem of
            None \<Rightarrow> failed rt
          | Some e \<Rightarrow> if rt_value e = VALUE_TYPE_I32 then Inr Fn_i32_array_to_int4_array else failed e)
      | _ \<Rightarrow>
          if pg_type \<in> {TEXTOID, VARCHAROID, UUIDOID, JSONOID, JSONBOID, BYTEAOID, INTERVALOID} then
            if is_extern m rt then Inr Fn_externref_to_datum else failed rt
          else failed rt)"

definition pg_to_wasm :: "wasm_module \<Rightarrow> pg_type \<Rightarrow> ref_type \<Rightarrow> pg_to_wasm_fn res" where
  "pg_to_wasm m pg_type rt =
     (let failed = (\<lambda>rt. no_cast rt ''cannot cast PG into WASM'') in
      case pg_type of
        BOOLOID \<Rightarrow> if rt_value rt = VALUE_TYPE_I32 then Inr Fn_bool_to_i32 else failed rt
      | INT4OID \<Rightarrow> if rt_value rt = VALUE_TYPE_I32 then Inr Fn_int4_to_i32 else failed rt
      | DATEOID \<Rightarrow> if rt_value rt = VALUE_TYPE_I32 then Inr Fn_int4_to_i32 else failed rt
      | INT8OID \<Rightarrow> if rt_value rt = VALUE_TYPE_I64 then Inr Fn_int8_to_i64 else failed rt
      | TIMESTAMPOID \<Rightarrow> if rt_value rt = VALUE_TYPE_I64 then Inr Fn_int8_to_i64 else failed rt
      | TIMESTAMPTZOID \<Rightarrow> if rt_value rt = VALUE_TYPE_I64 then Inr Fn_int8_to_i64 else failed rt
      | TIMEOID \<Rightarrow> if rt_value rt = VALUE_TYPE_I64 then Inr Fn_int8_to_i64 else failed rt
      | FLOAT4OID \<Rightarrow> if rt_value rt = VALUE_TYPE_F32 then Inr Fn_float4_to_f32 else failed rt
      | FLOAT8OID \<Rightarrow> if rt_value rt = VALUE_TYPE_F64 then Inr Fn_float8_to_f64 else failed rt
      | INT2ARRAYOID \<Rightarrow>
          res_bind (validate_moonbit_array rt m False) (\<lambda>elem. case elem of
            None \<Rightarrow> failed rt
          | Some e \<Rightarrow> if rt_value e = VALUE_TYPE_I32 then Inr Fn_int2_array_to_i32_array else failed e)
      | INT4ARRAYOID \<Rightarrow>
          res_bind (validate_moonbit_array rt m False) (\<lambda>elem. case elem of
            None \<Rightarrow> failed rt
          | Some e \<Rightarrow> if rt_value e = VALUE_TYPE_I32 then Inr Fn_int4_array_to_i32_array else failed e)
      | _ \<Rightarrow>
          if pg_type \<in> {TEXTOID, VARCHAROID, UUIDOID, JSONOID, JSONBOID, BYTEAOID, INTERVALOID} then
            if is_extern m rt then Inr Fn_datum_to_obj else failed rt
          else failed rt)"

section \<open>The type of a query\<close>

text \<open>A row of \<open>rustica.queries\<close>, without the module's name; \<open>query_attrs[1]\<close> to \<open>[10]\<close>.\<close>

record query_row =
  qr_index :: i32
  qr_sql :: "byte list"
  qr_arg_type :: ref_type
  qr_arg_oids :: "pg_type list"
  qr_arg_field_types :: "ref_type list"
  qr_arg_field_fn :: "nat list"
  qr_ret_type :: ref_type
  qr_ret_oids :: "pg_type list"
  qr_ret_field_types :: "ref_type list"
  qr_ret_field_fn :: "nat list"

record query_type =
  qt_arg_type :: ref_type
  qt_arg_field_types :: "ref_type list"
  qt_ret_type :: ref_type
  qt_ret_field_types :: "ref_type list"

definition compile_query_type :: "wasm_module \<Rightarrow> ref_type \<Rightarrow> query_type res" where
  "compile_query_type m rt =
     res_bind (wasm_ref_type_get_referred_struct rt m False) (\<lambda>query_type.
       case query_type of
         None \<Rightarrow> Inl (PgError ''Query must be a non-nullable struct'')
       | Some fs \<Rightarrow>
           if length fs < 5 then Inl (PgError ''Query must have at least 5 fields'')
           else if rt_value (fs ! 0) \<noteq> VALUE_TYPE_I64 \<and> rt_value (fs ! 0) \<noteq> VALUE_TYPE_I32 then
             Inl (PgError ''first field of Query must be an integer'')
           else if \<not> wasm_ref_type_is_ref_extern (fs ! 1) then
             Inl (PgError ''second field of Query must be bytes'')
           else res_bind (validate_moonbit_array (fs ! 2) m False) (\<lambda>oids. case oids of
             None \<Rightarrow> Inl (PgError ''third field of Query must be an array'')
           | Some e \<Rightarrow>
             if rt_value e \<noteq> VALUE_TYPE_I32 then Inl (PgError ''third field of Query must be an array of i32'')
             else
               res_bind (if rt_value (fs ! 3) = VALUE_TYPE_I32 then Inr (Some [])
                         else wasm_ref_type_get_referred_struct (fs ! 3) m True) (\<lambda>args. case args of
                 None \<Rightarrow> Inl (PgError ''forth field of Query must be a nullable struct or Unit'')
               | Some arg_fields \<Rightarrow>
                 if 65535 < length arg_fields then Inl (PgError ''too many arguments (max: 65535)'')
                 else
                   res_bind (wasm_ref_type_get_referred_struct (fs ! 4) m False) (\<lambda>ref_box. case ref_box of
                     None \<Rightarrow> Inl (PgError ''fifth field of Query must be a result box'')
                   | Some box_fields \<Rightarrow>
                     if length box_fields \<noteq> 1 then Inl (PgError ''the result box must have exactly 1 field'')
                     else
                       res_bind (if rt_value (box_fields ! 0) = VALUE_TYPE_I32 then Inr (Some [])
                                 else wasm_ref_type_get_referred_struct (box_fields ! 0) m True) (\<lambda>ret. case ret of
                         None \<Rightarrow> Inl (PgError ''fifth field of Query must be a box of nullable struct or Unit'')
                       | Some ret_fields \<Rightarrow>
                         Inr \<lparr>qt_arg_type = fs ! 3, qt_arg_field_types = arg_fields,
                              qt_ret_type = box_fields ! 0, qt_ret_field_types = ret_fields\<rparr>)))))"

section \<open>The results of a query\<close>

text \<open>Postgres' parser and analyzer are parameters; \<open>'s\<close> is a raw statement.\<close>

datatype portal_strategy =
    PORTAL_ONE_SELECT | PORTAL_ONE_RETURNING | PORTAL_ONE_MOD_WITH | PORTAL_UTIL_SELECT | PORTAL_MULTI_QUERY

record target_entry =
  te_resjunk :: bool
  te_type :: pg_type \<comment> \<open>\<open>exprType\<close> of its expression\<close>

record query =
  q_targetList :: "target_entry list"
  q_returningList :: "target_entry list"
  q_canSetTag :: bool

record 's parser =
  ps_raw_parser :: "byte list \<Rightarrow> 's list res"
  ps_analyze :: "'s \<Rightarrow> byte list \<Rightarrow> pg_type list \<Rightarrow> query list res"
  ps_strategy :: "query list \<Rightarrow> portal_strategy"

fun first_can_set_tag :: "query list \<Rightarrow> target_entry list" where
  "first_can_set_tag [] = []"
| "first_can_set_tag (q # qs) = (if q_canSetTag q then q_returningList q else first_can_set_tag qs)"

text \<open>What a function that takes a \<open>const char *\<close> sees: the bytes before the NUL.\<close>

definition c_string :: "byte list \<Rightarrow> byte list res" where
  "c_string bs = (if 0 \<in> set bs then Inr (takeWhile (\<lambda>b. b \<noteq> 0) bs) else Inl (Undefined ''no NUL''))"

definition describe_query_results :: "'s parser \<Rightarrow> byte list \<Rightarrow> pg_type list \<Rightarrow> target_entry list res" where
  "describe_query_results ps sql argtypes =
     res_bind (c_string sql) (\<lambda>text.
     res_bind (ps_raw_parser ps text) (\<lambda>trees.
       case trees of
         [tree] \<Rightarrow>
           res_bind (ps_analyze ps tree text argtypes) (\<lambda>queries.
             case ps_strategy ps queries of
               PORTAL_ONE_RETURNING \<Rightarrow> Inr (first_can_set_tag queries)
             | PORTAL_UTIL_SELECT \<Rightarrow> Inl (PgError ''utilities SQL is not allowed'')
             | PORTAL_MULTI_QUERY \<Rightarrow> Inr []
             | _ \<Rightarrow> (case queries of [] \<Rightarrow> Inl (Undefined ''linitial of an empty list'')
                     | stmt # _ \<Rightarrow> Inr (q_targetList stmt)))
       | _ \<Rightarrow> Inl (PgError ''expect exactly 1 SQL statement'')))"

section \<open>A query\<close>

fun map_res :: "('a \<Rightarrow> 'b res) \<Rightarrow> 'a list \<Rightarrow> 'b list res" where
  "map_res f [] = Inr []"
| "map_res f (x # xs) = res_bind (f x) (\<lambda>y. res_bind (map_res f xs) (\<lambda>ys. Inr (y # ys)))"

text \<open>
  \<open>ret_array\<close> has an entry for each target, but only those that are not junk are written; an
  entry that was not written is \<open>None\<close>.
\<close>

definition fill_ret_array :: "nat \<Rightarrow> target_entry list \<Rightarrow> pg_type option list" where
  "fill_ret_array nattrs targets =
     (let oids = map te_type (filter (\<lambda>t. \<not> te_resjunk t) targets)
      in map Some oids @ replicate (nattrs - length oids) None)"

definition read_ret :: "pg_type option \<Rightarrow> pg_type res" where
  "read_ret x = (case x of None \<Rightarrow> Inl (Undefined ''ret_array not initialised'') | Some t \<Rightarrow> Inr t)"

text \<open>\<open>oid_type\<close> reads an OID given as a number. The SQL text gets a NUL at its end.\<close>

definition terminate_sql :: "byte list \<Rightarrow> byte list res" where
  "terminate_sql sql =
     (if sql = [] then Inl (Undefined ''sql[sql_len - 1]'')
      else Inr (if last sql \<noteq> 0 then sql @ [0] else sql))"

definition compile_query ::
  "'s parser \<Rightarrow> (u32 \<Rightarrow> pg_type) \<Rightarrow> wasm_module \<Rightarrow> query_type \<Rightarrow> wvalue \<Rightarrow> query_row res" where
  "compile_query ps oid_type m qt query =
     res_bind (get_field query 0) (\<lambda>idx. res_bind (case idx of V_I32 w \<Rightarrow> Inr w | V_I64 w \<Rightarrow> Inr (ucast w)
         | _ \<Rightarrow> Inl (Undefined ''value.i32'')) (\<lambda>index.
     res_bind (get_field query 1) (\<lambda>v. res_bind (get_datum v BYTEAOID) (\<lambda>d.
     res_bind (case d of DPointer _ bs \<Rightarrow> terminate_sql bs | _ \<Rightarrow> Inl (Undefined ''VARDATA_ANY'')) (\<lambda>sql.
     let nargs = length (qt_arg_field_types qt) in
     res_bind (get_field query 2) (\<lambda>args_oids_array.
     res_bind (get_field args_oids_array 1) (\<lambda>v. res_bind (get_i32 v) (\<lambda>len.
       if sint len \<noteq> int nargs then Inl (PgError ''given %d OIDs but expect %d'')
       else
     res_bind (get_field args_oids_array 0) (\<lambda>buf.
     res_bind (read_elems buf 0 nargs) (\<lambda>oids.
     let argtypes = map oid_type oids in
     res_bind (map_res (\<lambda>(rt, oid). wasm_to_pg m rt oid) (zip (qt_arg_field_types qt) argtypes)) (\<lambda>arg_fns.
     res_bind (describe_query_results ps sql argtypes) (\<lambda>targets.
     let nattrs = length (qt_ret_field_types qt) in
       if nattrs \<noteq> length targets then Inl (PgError ''given %d OIDs but expect %d'')
       else
     res_bind (map_res read_ret (fill_ret_array nattrs targets)) (\<lambda>ret_oids.
     res_bind (map_res (\<lambda>(oid, rt). pg_to_wasm m oid rt) (zip ret_oids (qt_ret_field_types qt))) (\<lambda>ret_fns.
       Inr \<lparr>qr_index = index, qr_sql = sql, qr_arg_type = qt_arg_type qt, qr_arg_oids = argtypes,
            qr_arg_field_types = qt_arg_field_types qt, qr_arg_field_fn = map wasm_to_pg_num arg_fns,
            qr_ret_type = qt_ret_type qt, qr_ret_oids = ret_oids,
            qr_ret_field_types = qt_ret_field_types qt,
            qr_ret_field_fn = map pg_to_wasm_num ret_fns\<rparr>))))))))))))))"

section \<open>All queries of a module\<close>

text \<open>
  What instantiating the module gives: whether the instance and the execution environment could
  be made, and the object \<open>get_queries\<close> returned, if the call succeeded.
\<close>

record instance_run =
  ir_instantiate :: bool
  ir_exec_env :: bool
  ir_get_queries :: "wvalue option"

datatype cleanup = ReleaseTupleDesc | DestroyExecEnv | Deinstantiate

text \<open>\<open>wasm_struct_obj_set_field(query, 0, &value)\<close> with the query's number.\<close>

definition set_index :: "nat \<Rightarrow> wvalue \<Rightarrow> wvalue res" where
  "set_index q v =
     (case v of
        V_Obj (WStruct h (x # vs)) \<Rightarrow>
          Inr (V_Obj (WStruct h ((case x of V_I32 _ \<Rightarrow> V_I32 (word_of_nat q) | _ \<Rightarrow> V_I64 (word_of_nat q)) # vs)))
      | V_Obj (WStruct h []) \<Rightarrow> Inl (Undefined ''struct field index'')
      | _ \<Rightarrow> Inl (Trap ''wasm_obj_is_struct_obj''))"

fun compile_each ::
  "'s parser \<Rightarrow> (u32 \<Rightarrow> pg_type) \<Rightarrow> wasm_module \<Rightarrow> wvalue \<Rightarrow> nat \<Rightarrow> ref_type list \<Rightarrow> query_row list res" where
  "compile_each ps oid_type m queries q [] = Inr []"
| "compile_each ps oid_type m queries q (rt # rts) =
     res_bind (compile_query_type m rt) (\<lambda>qt.
     res_bind (get_field queries q) (\<lambda>v. res_bind (set_index q v) (\<lambda>query.
     res_bind (compile_query ps oid_type m qt query) (\<lambda>row.
     res_bind (compile_each ps oid_type m queries (Suc q) rts) (\<lambda>rows. Inr (row # rows))))))"

definition struct_field_count :: "wvalue \<Rightarrow> nat" where
  "struct_field_count v = (case v of V_Obj (WStruct _ vs) \<Rightarrow> length vs | _ \<Rightarrow> 0)"

text \<open>The rows, and what \<open>PG_FINALLY\<close> releases.\<close>

definition compile_queries ::
  "'s parser \<Rightarrow> (u32 \<Rightarrow> pg_type) \<Rightarrow> wasm_module \<Rightarrow> instance_run \<Rightarrow> wasm_type \<Rightarrow> query_row list res \<times> cleanup list"
where
  "compile_queries ps oid_type m run func_type =
     (case func_type of
        FuncType params results \<Rightarrow>
          if length params \<noteq> 1 then (Inl (PgError ''get_queries() must take exactly 1 argument''), [])
          else if rt_value (params ! 0) \<noteq> VALUE_TYPE_I32 then
            (Inl (PgError ''get_queries() must take a boolean/i32 argument''), [])
          else if length results \<noteq> 1 then (Inl (PgError ''get_queries() must return exactly 1 value''), [])
          else
            (case wasm_ref_type_get_referred_struct (results ! 0) m False of
               Inl e \<Rightarrow> (Inl e, [])
             | Inr None \<Rightarrow> (Inl (PgError ''get_queries() must return a non-nullable struct''), [])
             | Inr (Some queries_type) \<Rightarrow>
                 if queries_type = [] then (Inr [], [])
                 else if 65535 < length queries_type then
                   (Inl (PgError ''get_queries() returned too many queries''), [])
                 else if \<not> ir_instantiate run then (Inl (PgError ''cannot instantiate WASM module''), [])
                 else if \<not> ir_exec_env run then
                   (Inl (PgError ''cannot create execution environment''), [Deinstantiate])
                 else
                   (case ir_get_queries run of
                      None \<Rightarrow> (Inl (PgError ''failed to call get_queries()''), [DestroyExecEnv, Deinstantiate])
                    | Some queries \<Rightarrow>
                        if struct_field_count queries \<noteq> length queries_type then
                          (Inl (Trap ''nqueries == field count''), [DestroyExecEnv, Deinstantiate])
                        else (compile_each ps oid_type m queries 0 queries_type,
                              [ReleaseTupleDesc, DestroyExecEnv, Deinstantiate])))
      | _ \<Rightarrow> (Inl (Undefined ''not a function type''), []))"

text \<open>\<open>CommonHeapTypes\<close> has one member, which nothing sets after the \<open>memset\<close>.\<close>

definition run_and_compile ::
  "'s parser \<Rightarrow> (u32 \<Rightarrow> pg_type) \<Rightarrow> wasm_module \<Rightarrow> instance_run \<Rightarrow> (i32 list \<times> query_row list option) res" where
  "run_and_compile ps oid_type m run =
     (case wasm_module_lookup_exported_func m ''get_queries'' of
        None \<Rightarrow> Inr ([-1], None)
      | Some func_type \<Rightarrow>
          res_bind (fst (compile_queries ps oid_type m run func_type)) (\<lambda>rows. Inr ([-1], Some rows)))"

text \<open>
  \<open>rst_compile\<close>: \<open>load\<close> and \<open>compile_aot\<close> are WAMR's. \<open>PG_FINALLY\<close> frees \<open>tid_map\<close>, which was
  allocated only if the map has an entry; Postgres' \<open>pfree\<close> does not take a null pointer.
\<close>

definition rst_compile ::
  "(byte list \<Rightarrow> wasm_module option) \<Rightarrow> (wasm_module \<Rightarrow> byte list res) \<Rightarrow> (wasm_module \<Rightarrow> instance_run)
   \<Rightarrow> 's parser \<Rightarrow> (u32 \<Rightarrow> pg_type) \<Rightarrow> byte list \<Rightarrow> (byte list \<times> u32) list
   \<Rightarrow> (byte list \<times> i32 list \<times> query_row list option) res" where
  "rst_compile load compile_aot run ps oid_type wasm tid_oid_map =
     (let body =
        (case load wasm of
           None \<Rightarrow> Inl (PgError ''failed to load WASM module'')
         | Some m \<Rightarrow>
             res_bind (compile_aot m) (\<lambda>bin.
             res_bind (run_and_compile ps oid_type m (run m)) (\<lambda>(heap_types, queries).
               Inr (bin, heap_types, queries))))
      in if tid_oid_map = [] then Inl (Undefined ''pfree(NULL)'') else body)"

end
