(* ===== verification/CompilerProps.thy ===== *)
theory CompilerProps
  imports Compiler
begin

text \<open>
  The properties of the compiler: the converters it chooses fit the types on both sides, its rows
  are consistent, and some programs it cannot compile.
\<close>

section \<open>Types of values\<close>

lemma validate_moonbit_array_Some:
  assumes "validate_moonbit_array rt m False = Inr (Some e)"
  obtains f0 f1 where "wm_defined_type m (rt_heap rt) = Some (StructType [f0, f1])"
    "wm_defined_type m (rt_heap f0) = Some (ArrayType e)" "rt_value f1 = VALUE_TYPE_I32"
    "rt_value rt = VALUE_TYPE_HT_NON_NULLABLE_REF"
proof -
  obtain st where st: "wasm_ref_type_get_referred_struct rt m False = Inr st"
    using assms by (auto simp: validate_moonbit_array_def res_bind_eq_Inr)
  with assms obtain f0 f1 where f: "st = Some [f0, f1]"
    by (auto simp: validate_moonbit_array_def split: option.splits list.splits)
  with st assms obtain el where "wasm_ref_type_get_referred_array f0 m False = Inr (Some el)"
    "el = e" "rt_value f1 = VALUE_TYPE_I32"
    by (auto simp: validate_moonbit_array_def res_bind_eq_Inr split: option.splits if_splits)
  with st f that show thesis
    by (auto dest!: referred_struct_Some referred_array_Some)
qed

text \<open>
  A host object that is a datum points to a value of the type it is tagged with. A value has a
  WebAssembly type: the right member of the union, a host object for an external reference, a
  MoonBit array of integers for the type of such an array.
\<close>

definition host_obj_ok :: "obj \<Rightarrow> bool" where
  "host_obj_ok ob \<longleftrightarrow> (ob_type ob = OBJ_DATUM \<longrightarrow> (\<exists>bs. ob_body ob = BodyDatum (DPointer (ob_oid ob) bs)))"

definition int_array_type :: "wasm_module \<Rightarrow> ref_type \<Rightarrow> bool" where
  "int_array_type m rt \<longleftrightarrow> (\<exists>e. validate_moonbit_array rt m False = Inr (Some e) \<and> rt_value e = VALUE_TYPE_I32)"

definition wasm_value_ok :: "wasm_module \<Rightarrow> ref_type \<Rightarrow> wvalue \<Rightarrow> bool" where
  "wasm_value_ok m rt v \<longleftrightarrow>
     (rt_value rt = VALUE_TYPE_I32 \<longrightarrow> (\<exists>w. v = V_I32 w)) \<and>
     (rt_value rt = VALUE_TYPE_I64 \<longrightarrow> (\<exists>w. v = V_I64 w)) \<and>
     (rt_value rt = VALUE_TYPE_F32 \<longrightarrow> (\<exists>w. v = V_F32 w)) \<and>
     (rt_value rt = VALUE_TYPE_F64 \<longrightarrow> (\<exists>w. v = V_F64 w)) \<and>
     (is_extern m rt \<longrightarrow> (\<exists>ob. v = V_Obj (WHost (Externref (Anyref ob))) \<and> host_obj_ok ob)) \<and>
     (int_array_type m rt \<longrightarrow> (\<exists>ws. moonbit_array v ws))"

fun pg_value_ok :: "pg_type \<Rightarrow> datum \<Rightarrow> bool" where
  "pg_value_ok BOOLOID d \<longleftrightarrow> d \<in> {DWord 0, DWord 1}"
| "pg_value_ok INT4OID d \<longleftrightarrow> (\<exists>w :: i32. d = DWord (scast w))"
| "pg_value_ok DATEOID d \<longleftrightarrow> (\<exists>w :: i32. d = DWord (scast w))"
| "pg_value_ok INT8OID d \<longleftrightarrow> (\<exists>w. d = DWord w)"
| "pg_value_ok TIMESTAMPOID d \<longleftrightarrow> (\<exists>w. d = DWord w)"
| "pg_value_ok TIMESTAMPTZOID d \<longleftrightarrow> (\<exists>w. d = DWord w)"
| "pg_value_ok TIMEOID d \<longleftrightarrow> (\<exists>w. d = DWord w)"
| "pg_value_ok FLOAT4OID d \<longleftrightarrow> (\<exists>w :: 32 word. d = DWord (scast w))"
| "pg_value_ok FLOAT8OID d \<longleftrightarrow> (\<exists>w. d = DWord w)"
| "pg_value_ok INT2ARRAYOID d \<longleftrightarrow> (\<exists>ws :: u16 list. d = DArray INT2OID (map scast ws) \<and>
     8 * int (length ws) \<le> MaxAllocSize)"
| "pg_value_ok INT4ARRAYOID d \<longleftrightarrow> (\<exists>ws :: i32 list. d = DArray INT4OID (map scast ws) \<and>
     8 * int (length ws) \<le> MaxAllocSize)"
| "pg_value_ok oid d \<longleftrightarrow> (\<exists>bs. d = DPointer oid bs)"

lemma wasm_to_pg_Inr:
  assumes "wasm_to_pg m rt oid = Inr fn"
  shows "(fn = Fn_i32_to_bool \<and> oid = BOOLOID \<and> rt_value rt = VALUE_TYPE_I32) \<or>
    (fn = Fn_i32_to_int4 \<and> oid \<in> {INT4OID, DATEOID, INT8OID} \<and> rt_value rt = VALUE_TYPE_I32) \<or>
    (fn = Fn_i64_to_int8 \<and> oid \<in> {INT8OID, TIMESTAMPOID, TIMESTAMPTZOID, TIMEOID} \<and> rt_value rt = VALUE_TYPE_I64) \<or>
    (fn = Fn_f32_to_float4 \<and> oid = FLOAT4OID \<and> rt_value rt = VALUE_TYPE_F32) \<or>
    (fn = Fn_f64_to_float8 \<and> oid = FLOAT8OID \<and> rt_value rt = VALUE_TYPE_F64) \<or>
    (fn = Fn_externref_to_datum \<and> is_extern m rt \<and>
       oid \<in> {TEXTOID, VARCHAROID, UUIDOID, JSONOID, JSONBOID, BYTEAOID, INTERVALOID}) \<or>
    (fn = Fn_i32_array_to_int2_array \<and> oid = INT2ARRAYOID \<and> int_array_type m rt) \<or>
    (fn = Fn_i32_array_to_int4_array \<and> oid = INT4ARRAYOID \<and> int_array_type m rt)"
  using assms
  by (cases oid)
     (auto simp: wasm_to_pg_def no_cast_def res_bind_eq_Inr int_array_type_def split: if_splits option.splits)

lemma pg_to_wasm_Inr:
  assumes "pg_to_wasm m oid rt = Inr fn"
  shows "(fn = Fn_bool_to_i32 \<and> oid = BOOLOID \<and> rt_value rt = VALUE_TYPE_I32) \<or>
    (fn = Fn_int4_to_i32 \<and> oid \<in> {INT4OID, DATEOID} \<and> rt_value rt = VALUE_TYPE_I32) \<or>
    (fn = Fn_int8_to_i64 \<and> oid \<in> {INT8OID, TIMESTAMPOID, TIMESTAMPTZOID, TIMEOID} \<and> rt_value rt = VALUE_TYPE_I64) \<or>
    (fn = Fn_float4_to_f32 \<and> oid = FLOAT4OID \<and> rt_value rt = VALUE_TYPE_F32) \<or>
    (fn = Fn_float8_to_f64 \<and> oid = FLOAT8OID \<and> rt_value rt = VALUE_TYPE_F64) \<or>
    (fn = Fn_datum_to_obj \<and> is_extern m rt \<and>
       oid \<in> {TEXTOID, VARCHAROID, UUIDOID, JSONOID, JSONBOID, BYTEAOID, INTERVALOID}) \<or>
    (fn = Fn_int2_array_to_i32_array \<and> oid = INT2ARRAYOID \<and> int_array_type m rt) \<or>
    (fn = Fn_int4_array_to_i32_array \<and> oid = INT4ARRAYOID \<and> int_array_type m rt)"
  using assms
  by (cases oid)
     (auto simp: pg_to_wasm_def no_cast_def res_bind_eq_Inr int_array_type_def split: if_splits option.splits)

definition datum_errors :: "failure set" where
  "datum_errors = {PgError ''expected object type %d, got %d'', PgError ''expected OID %d, got %d''}"

lemma externref_sound:
  assumes "host_obj_ok ob" "oid \<in> {TEXTOID, VARCHAROID, UUIDOID, JSONOID, JSONBOID, BYTEAOID, INTERVALOID}"
  shows "res_sat datum_errors (pg_value_ok oid)
    (wasm_externref_to_datum_obj oid (V_Obj (WHost (Externref (Anyref ob)))))"
  using assms
  by (auto simp: wasm_externref_to_datum_obj_def get_datum_def wasm_externref_obj_get_datum_def
      wasm_externref_obj_get_obj_def host_obj_ok_def datum_errors_def)

lemma map_scast_u16: "map (\<lambda>w. scast (ucast w :: u16)) ws = map scast (map (ucast :: i32 \<Rightarrow> u16) ws)"
  by simp

lemma wasm_to_pg_sound:
  assumes "wasm_to_pg m rt oid = Inr fn" "wasm_value_ok m rt v"
  shows "res_sat datum_errors (pg_value_ok oid) ((wasm_to_pg_funcs ! wasm_to_pg_num fn) oid v)"
proof -
  note ok = assms(2)[unfolded wasm_value_ok_def]
  consider (simple) "fn \<in> {Fn_i32_to_bool, Fn_i32_to_int4, Fn_i64_to_int8, Fn_f32_to_float4, Fn_f64_to_float8}"
    | (extern) "fn = Fn_externref_to_datum" | (array) "fn \<in> {Fn_i32_array_to_int2_array, Fn_i32_array_to_int4_array}"
    by (cases fn) auto
  then show ?thesis
  proof cases
    case simple
    with ok wasm_to_pg_Inr[OF assms(1)] show ?thesis
      by (auto simp: wasm_to_pg_funcs_def to_pg_defs get_i32_def)
  next
    case extern
    with wasm_to_pg_Inr[OF assms(1)] have o: "is_extern m rt"
      "oid \<in> {TEXTOID, VARCHAROID, UUIDOID, JSONOID, JSONBOID, BYTEAOID, INTERVALOID}" by auto
    with ok obtain ob where "v = V_Obj (WHost (Externref (Anyref ob)))" "host_obj_ok ob" by blast
    with externref_sound[OF _ o(2)] extern show ?thesis by (simp add: wasm_to_pg_funcs_def)
  next
    case array
    with wasm_to_pg_Inr[OF assms(1)] have "int_array_type m rt" by auto
    with ok obtain ws where ws: "moonbit_array v ws" by blast
    then have "8 * int (length ws) \<le> MaxAllocSize" by (simp add: moonbit_array_def)
    then have "pg_value_ok INT2ARRAYOID (DArray INT2OID (map (\<lambda>w. scast (ucast w :: u16)) ws))"
      "pg_value_ok INT4ARRAYOID (DArray INT4OID (map scast ws))"
      unfolding map_scast_u16 by (auto intro: exI[of _ "map ucast ws"])
    with array wasm_to_pg_Inr[OF assms(1)] read_moonbit_array_ok[OF ws] show ?thesis
      by (auto simp: wasm_to_pg_funcs_def to_pg_defs simp del: pg_value_ok.simps)
  qed
qed

lemma build_moonbit_array_ok:
  assumes "int_array_type m rt" "8 * int (length ws) \<le> MaxAllocSize"
  obtains v where "build_moonbit_array m rt ws = Inr v" "moonbit_array v ws"
proof -
  obtain e f0 f1 where "wm_defined_type m (rt_heap rt) = Some (StructType [f0, f1])"
    using assms(1) unfolding int_array_type_def by (metis validate_moonbit_array_Some)
  with assms(2) show thesis
    by (intro that) (auto simp: build_moonbit_array_def wasm_get_defined_type_def moonbit_array_def)
qed

text \<open>
  A type is what one of the converters can be chosen for: a number, an external reference or an
  array of integers, and not two of them.
\<close>

definition type_wf :: "wasm_module \<Rightarrow> ref_type \<Rightarrow> bool" where
  "type_wf m rt \<longleftrightarrow>
     (is_extern m rt \<longrightarrow> rt_value rt \<notin> {VALUE_TYPE_I32, VALUE_TYPE_I64, VALUE_TYPE_F32, VALUE_TYPE_F64} \<and>
        \<not> int_array_type m rt)"

lemma int_array_type_value: "int_array_type m rt \<Longrightarrow> rt_value rt = VALUE_TYPE_HT_NON_NULLABLE_REF"
  unfolding int_array_type_def by (metis validate_moonbit_array_Some)

lemma pg_to_wasm_sound:
  assumes "pg_to_wasm m oid rt = Inr fn" "pg_value_ok oid d" "type_wf m rt"
  shows "res_sat {} (wasm_value_ok m rt) ((pg_to_wasm_funcs ! pg_to_wasm_num fn) m tuple oid rt d)"
proof -
  consider (simple) "fn \<in> {Fn_bool_to_i32, Fn_int4_to_i32, Fn_int8_to_i64, Fn_float4_to_f32, Fn_float8_to_f64}"
    | (extern) "fn = Fn_datum_to_obj" | (array) "fn \<in> {Fn_int2_array_to_i32_array, Fn_int4_array_to_i32_array}"
    by (cases fn) auto
  then show ?thesis
  proof cases
    case simple
    then have "rt_value rt \<in> {VALUE_TYPE_I32, VALUE_TYPE_I64, VALUE_TYPE_F32, VALUE_TYPE_F64}"
      using pg_to_wasm_Inr[OF assms(1)] by auto
    then have "\<not> is_extern m rt" "\<not> int_array_type m rt"
      using assms(3) int_array_type_value[of m rt] by (auto simp: type_wf_def)
    with simple assms(2) pg_to_wasm_Inr[OF assms(1)] show ?thesis
      by (auto simp: pg_to_wasm_funcs_def to_wasm_defs datum_word_def wasm_value_ok_def)
  next
    case extern
    then have o: "is_extern m rt" "oid \<in> {TEXTOID, VARCHAROID, UUIDOID, JSONOID, JSONBOID, BYTEAOID, INTERVALOID}"
      using pg_to_wasm_Inr[OF assms(1)] by auto
    then have "\<exists>bs. d = DPointer oid bs" using assms(2) by auto
    with extern o(1) assms(3) show ?thesis
      by (auto simp: pg_to_wasm_funcs_def pg_datum_to_wasm_obj_def wasm_value_ok_def type_wf_def
          rst_externref_of_obj_def host_obj_ok_def rst_obj_new_def)
  next
    case array
    then have ar: "int_array_type m rt" "oid \<in> {INT2ARRAYOID, INT4ARRAYOID}"
      using pg_to_wasm_Inr[OF assms(1)] by auto
    then have "\<not> is_extern m rt" "rt_value rt = VALUE_TYPE_HT_NON_NULLABLE_REF"
      using assms(3) int_array_type_value by (auto simp: type_wf_def)
    then have ok: "wasm_value_ok m rt v \<longleftrightarrow> (\<exists>ws. moonbit_array v ws)" for v
      using ar(1) by (simp add: wasm_value_ok_def)
    have "\<exists>ws. (pg_to_wasm_funcs ! pg_to_wasm_num fn) m tuple oid rt d = build_moonbit_array m rt ws \<and>
        8 * int (length ws) \<le> MaxAllocSize"
      using array assms(2) pg_to_wasm_Inr[OF assms(1)]
      by (auto simp: pg_to_wasm_funcs_def to_wasm_defs deconstruct_array_def)
        (metis length_map)+
    then obtain v where "(pg_to_wasm_funcs ! pg_to_wasm_num fn) m tuple oid rt d = Inr v" "\<exists>ws. moonbit_array v ws"
      using build_moonbit_array_ok[OF ar(1)] by metis
    with ok show ?thesis by simp
  qed
qed

text \<open>
  What a value becomes on its way to Postgres and back: a Boolean is 0 or 1, the elements of an
  \<open>int2[]\<close> are cut to 16 bits, everything else is itself.
\<close>

definition comes_back :: "pg_type \<Rightarrow> wvalue \<Rightarrow> wvalue \<Rightarrow> bool" where
  "comes_back oid v v' \<longleftrightarrow>
     (case v of
        V_I32 w \<Rightarrow> v' = (if oid = BOOLOID then V_I32 (if w \<noteq> 0 then 1 else 0) else v)
      | V_Obj (WHost _) \<Rightarrow> get_datum v' oid = get_datum v oid
      | V_Obj _ \<Rightarrow> (\<forall>ws. moonbit_array v ws \<longrightarrow>
          moonbit_array v' (if oid = INT2ARRAYOID then map (\<lambda>w. scast (ucast w :: u16)) ws else ws))
      | _ \<Rightarrow> v' = v)"

lemma cast_back [simp]:
  "ucast (scast w :: 64 word) = (w :: 32 word)"
  "ucast (scast x :: 64 word) = (x :: u16)"
  by (rule bit_word_eqI; auto simp: bit_simps)+

lemma roundtrip_value:
  assumes "wasm_to_pg m rt oid = Inr fn" "pg_to_wasm m oid rt = Inr fn'" "wasm_value_ok m rt v"
    and "type_wf m rt" "(wasm_to_pg_funcs ! wasm_to_pg_num fn) oid v = Inr d"
  shows "\<exists>v'. (pg_to_wasm_funcs ! pg_to_wasm_num fn') m tuple oid rt d = Inr v' \<and> comes_back oid v v'"
proof -
  note in_ = wasm_to_pg_Inr[OF assms(1)] and out = pg_to_wasm_Inr[OF assms(2)]
  note ok = assms(3)[unfolded wasm_value_ok_def]
  consider (simple) "fn \<in> {Fn_i32_to_bool, Fn_i32_to_int4, Fn_i64_to_int8, Fn_f32_to_float4, Fn_f64_to_float8}"
    | (extern) "fn = Fn_externref_to_datum" | (array) "fn \<in> {Fn_i32_array_to_int2_array, Fn_i32_array_to_int4_array}"
    by (cases fn) auto
  then show ?thesis
  proof cases
    case simple
    with ok in_ out assms(5) show ?thesis
      by (auto simp: wasm_to_pg_funcs_def to_pg_defs get_i32_def pg_to_wasm_funcs_def to_wasm_defs
          datum_word_def comes_back_def split: if_splits)
  next
    case extern
    with in_ out have "fn' = Fn_datum_to_obj" "is_extern m rt" by auto
    moreover from this(2) ok obtain r where v: "v = V_Obj (WHost r)" by blast
    moreover have "get_datum v oid = Inr d"
      using assms(5) extern by (simp add: wasm_to_pg_funcs_def wasm_externref_to_datum_obj_def)
    ultimately show ?thesis
      by (simp add: pg_to_wasm_funcs_def pg_datum_to_wasm_obj_def comes_back_def get_datum_def)
  next
    case array
    with in_ out have fn': "fn' = (if oid = INT2ARRAYOID then Fn_int2_array_to_i32_array else Fn_int4_array_to_i32_array)"
      "int_array_type m rt" "oid \<in> {INT2ARRAYOID, INT4ARRAYOID}" by auto
    with ok obtain ws where ws: "moonbit_array v ws" by blast
    let ?ws = "if oid = INT2ARRAYOID then map (\<lambda>w. scast (ucast w :: u16)) ws else ws"
    have "8 * int (length ?ws) \<le> MaxAllocSize" using ws by (simp add: moonbit_array_def)
    then obtain v' where v': "build_moonbit_array m rt ?ws = Inr v'" "moonbit_array v' ?ws"
      by (rule build_moonbit_array_ok[OF fn'(2)])
    have "(pg_to_wasm_funcs ! pg_to_wasm_num fn') m tuple oid rt d = build_moonbit_array m rt ?ws"
      using array in_ assms(5) read_moonbit_array_ok[OF ws] fn'(1)
      by (auto simp: wasm_to_pg_funcs_def to_pg_defs pg_to_wasm_funcs_def to_wasm_defs
          deconstruct_array_def comp_def)
    moreover have "ws' = ws" if "moonbit_array v ws'" for ws'
      using read_moonbit_array_ok[OF that] read_moonbit_array_ok[OF ws] by simp
    moreover have "\<exists>h vs. v = V_Obj (WStruct h vs)" using ws by (auto simp: moonbit_array_def)
    ultimately show ?thesis using v' by (auto simp: comes_back_def)
  qed
qed

section \<open>Rows\<close>

lemma map_res_Inr: "map_res f xs = Inr ys \<Longrightarrow> length ys = length xs"
  by (induction xs arbitrary: ys) (auto simp: res_bind_eq_Inr)

lemma map_res_read_ret: "map_res read_ret xs = Inr ys \<Longrightarrow> xs = map Some ys"
  by (induction xs arbitrary: ys) (auto simp: res_bind_eq_Inr read_ret_def split: option.splits)

lemma read_elems_length: "read_elems v i n = Inr ws \<Longrightarrow> length ws = n"
  by (induction n arbitrary: i ws) (auto simp: res_bind_eq_Inr)

lemma wasm_to_pg_num_lt: "wasm_to_pg_num fn < length wasm_to_pg_funcs"
  by (cases fn) (simp_all add: wasm_to_pg_funcs_def)

lemma pg_to_wasm_num_lt: "pg_to_wasm_num fn < length pg_to_wasm_funcs"
  by (cases fn) (simp_all add: pg_to_wasm_funcs_def)

text \<open>What the loader of the rows relies on.\<close>

definition row_ok :: "query_row \<Rightarrow> bool" where
  "row_ok row \<longleftrightarrow> qr_sql row \<noteq> [] \<and> last (qr_sql row) = 0 \<and>
     length (qr_arg_field_fn row) = length (qr_arg_oids row) \<and>
     length (qr_ret_oids row) = length (qr_ret_field_types row) \<and>
     length (qr_ret_field_fn row) = length (qr_ret_field_types row) \<and>
     (\<forall>n \<in> set (qr_arg_field_fn row). n < length wasm_to_pg_funcs) \<and>
     (\<forall>n \<in> set (qr_ret_field_fn row). n < length pg_to_wasm_funcs)"

lemma terminate_sql_Inr: "terminate_sql bs = Inr sql \<Longrightarrow> sql \<noteq> [] \<and> last sql = 0"
  by (auto simp: terminate_sql_def split: if_splits)

lemma if_Inl_eq_Inr: "(if P then Inl e else x) = Inr y \<longleftrightarrow> \<not> P \<and> x = Inr y"
  by simp

lemma compile_query_Inr:
  assumes "compile_query ps oid_type m qt query = Inr row"
  shows "(\<exists>idx. get_field query 0 = Inr idx \<and> (idx = V_I32 (qr_index row) \<or> (\<exists>w. idx = V_I64 w \<and> qr_index row = ucast w)))"
    "(\<exists>bs. terminate_sql bs = Inr (qr_sql row))"
    "length (qr_arg_oids row) = length (qt_arg_field_types qt)"
    "(\<exists>fns. map_res (\<lambda>(rt, oid). wasm_to_pg m rt oid) (zip (qt_arg_field_types qt) (qr_arg_oids row)) = Inr fns
       \<and> qr_arg_field_fn row = map wasm_to_pg_num fns)"
    "(\<exists>targets. describe_query_results ps (qr_sql row) (qr_arg_oids row) = Inr targets \<and>
        length targets = length (qt_ret_field_types qt) \<and>
        map_res read_ret (fill_ret_array (length targets) targets) = Inr (qr_ret_oids row))"
    "(\<exists>fns. map_res (\<lambda>(oid, rt). pg_to_wasm m oid rt) (zip (qr_ret_oids row) (qt_ret_field_types qt)) = Inr fns
       \<and> qr_ret_field_fn row = map pg_to_wasm_num fns)"
    "qr_ret_field_types row = qt_ret_field_types qt"
    "qr_arg_field_types row = qt_arg_field_types qt"
    "qr_ret_type row = qt_ret_type qt"
proof -
  from assms obtain idx w v d sql v2 v3 len buf oids arg_fns targets ret_oids ret_fns where s:
    "get_field query 0 = Inr idx"
    "(case idx of V_I32 w \<Rightarrow> Inr w | V_I64 w \<Rightarrow> Inr (ucast w) | _ \<Rightarrow> Inl (Undefined ''value.i32'')) = Inr w"
    "(case d of DPointer _ bs \<Rightarrow> terminate_sql bs | _ \<Rightarrow> Inl (Undefined ''VARDATA_ANY'')) = Inr sql"
    "read_elems buf 0 (length (qt_arg_field_types qt)) = Inr oids"
    "map_res (\<lambda>(rt, oid). wasm_to_pg m rt oid) (zip (qt_arg_field_types qt) (map oid_type oids)) = Inr arg_fns"
    "describe_query_results ps sql (map oid_type oids) = Inr targets"
    "length (qt_ret_field_types qt) = length targets"
    "map_res read_ret (fill_ret_array (length (qt_ret_field_types qt)) targets) = Inr ret_oids"
    "map_res (\<lambda>(oid, rt). pg_to_wasm m oid rt) (zip ret_oids (qt_ret_field_types qt)) = Inr ret_fns"
    "row = \<lparr>qr_index = w, qr_sql = sql, qr_arg_type = qt_arg_type qt, qr_arg_oids = map oid_type oids,
            qr_arg_field_types = qt_arg_field_types qt, qr_arg_field_fn = map wasm_to_pg_num arg_fns,
            qr_ret_type = qt_ret_type qt, qr_ret_oids = ret_oids,
            qr_ret_field_types = qt_ret_field_types qt,
            qr_ret_field_fn = map pg_to_wasm_num ret_fns\<rparr>"
    unfolding compile_query_def Let_def res_bind_eq_Inr if_Inl_eq_Inr not_not sum.inject
    by (elim exE conjE) (rule that, (assumption | erule sym)+)
  show "\<exists>idx. get_field query 0 = Inr idx \<and> (idx = V_I32 (qr_index row) \<or> (\<exists>w. idx = V_I64 w \<and> qr_index row = ucast w))"
    using s(1,2,10) by (auto split: wvalue.splits)
  show "\<exists>bs. terminate_sql bs = Inr (qr_sql row)"
    using s(3,10) by (auto split: datum.splits)
  note rest = s(5-10) read_elems_length[OF s(4)]
  show "length (qr_arg_oids row) = length (qt_arg_field_types qt)" using rest by simp
  show "\<exists>fns. map_res (\<lambda>(rt, oid). wasm_to_pg m rt oid) (zip (qt_arg_field_types qt) (qr_arg_oids row)) = Inr fns
       \<and> qr_arg_field_fn row = map wasm_to_pg_num fns" using rest by simp
  show "\<exists>targets. describe_query_results ps (qr_sql row) (qr_arg_oids row) = Inr targets \<and>
        length targets = length (qt_ret_field_types qt) \<and>
        map_res read_ret (fill_ret_array (length targets) targets) = Inr (qr_ret_oids row)" using rest by simp
  show "\<exists>fns. map_res (\<lambda>(oid, rt). pg_to_wasm m oid rt) (zip (qr_ret_oids row) (qt_ret_field_types qt)) = Inr fns
       \<and> qr_ret_field_fn row = map pg_to_wasm_num fns" using rest by simp
  show "qr_ret_field_types row = qt_ret_field_types qt" "qr_arg_field_types row = qt_arg_field_types qt"
    "qr_ret_type row = qt_ret_type qt"
    using rest by simp_all
qed

lemma fill_ret_array_full:
  "map_res read_ret (fill_ret_array (length targets) targets) = Inr oids \<Longrightarrow>
    oids = map te_type targets \<and> (\<forall>t \<in> set targets. \<not> te_resjunk t)"
proof -
  assume a: "map_res read_ret (fill_ret_array (length targets) targets) = Inr oids"
  let ?kept = "filter (\<lambda>t. \<not> te_resjunk t) targets"
  have eq: "map Some (map te_type ?kept) @ replicate (length targets - length ?kept) None = map Some oids"
    using map_res_read_ret[OF a] by (simp add: fill_ret_array_def)
  have "None \<notin> set (map Some (map te_type ?kept) @ replicate (length targets - length ?kept) None)"
    unfolding eq by auto
  then have n: "length targets - length ?kept = 0"
    unfolding set_append Un_iff in_set_replicate by blast
  with eq have "map Some (map te_type ?kept) = map Some oids" by simp
  then have "map te_type ?kept = oids" by (simp add: inj_map_eq_map del: map_map)
  moreover have kept: "\<forall>t \<in> set targets. \<not> te_resjunk t"
    using n length_filter_less[of _ targets "\<lambda>t. \<not> te_resjunk t"] by force
  ultimately show ?thesis by simp
qed

lemma compile_query_row_ok:
  assumes "compile_query ps oid_type m qt query = Inr row"
  shows "row_ok row"
proof -
  note c = compile_query_Inr[OF assms]
  obtain afns where a: "map_res (\<lambda>(rt, oid). wasm_to_pg m rt oid) (zip (qt_arg_field_types qt) (qr_arg_oids row)) = Inr afns"
    "qr_arg_field_fn row = map wasm_to_pg_num afns" using c(4) by blast
  obtain rfns where r: "map_res (\<lambda>(oid, rt). pg_to_wasm m oid rt) (zip (qr_ret_oids row) (qt_ret_field_types qt)) = Inr rfns"
    "qr_ret_field_fn row = map pg_to_wasm_num rfns" using c(6) by blast
  obtain targets :: "target_entry list" where t: "length targets = length (qt_ret_field_types qt)"
    "qr_ret_oids row = map te_type targets" using c(5) fill_ret_array_full by metis
  obtain bs where "terminate_sql bs = Inr (qr_sql row)" using c(2) by blast
  then show ?thesis
    using map_res_Inr[OF a(1)] map_res_Inr[OF r(1)] t c(3,7,8) a(2) r(2)
    by (auto simp: row_ok_def wasm_to_pg_num_lt pg_to_wasm_num_lt dest: terminate_sql_Inr)
qed

lemma set_index_get: "set_index q v = Inr query \<Longrightarrow>
    get_field query 0 = Inr (V_I32 (word_of_nat q)) \<or> get_field query 0 = Inr (V_I64 (word_of_nat q))"
  by (auto simp: set_index_def get_field_def split: wvalue.splits wobj.splits list.splits)

lemma compile_each_rows:
  "compile_each ps oid_type m queries q rts = Inr rows \<Longrightarrow>
    length rows = length rts \<and>
    (\<forall>k < length rows. row_ok (rows ! k) \<and> qr_index (rows ! k) = word_of_nat (q + k))"
proof (induction rts arbitrary: q rows)
  case (Cons rt rts)
  then obtain qt v query row rows' where s: "set_index q v = Inr query"
    "compile_query ps oid_type m qt query = Inr row"
    "compile_each ps oid_type m queries (Suc q) rts = Inr rows'" "rows = row # rows'"
    by (auto simp: res_bind_eq_Inr)
  have "qr_index row = word_of_nat q"
    using set_index_get[OF s(1)] compile_query_Inr(1)[OF s(2)] by (auto simp: unsigned_of_nat word_of_nat_eq_iff take_bit_take_bit)
  with Cons.IH[OF s(3)] compile_query_row_ok[OF s(2)] show ?case
    unfolding s(4) by (auto simp: All_less_Suc2)
qed simp

section \<open>A module with one query\<close>

text \<open>
  \<open>SELECT id, name FROM t WHERE id = $1 AND tags = $2\<close>: the query takes an integer and an array
  of integers and gives an integer and a text.
\<close>

definition nn_ref :: "nat \<Rightarrow> ref_type" where
  "nn_ref i = \<lparr>rt_value = VALUE_TYPE_HT_NON_NULLABLE_REF, rt_heap = HEAP_TYPE_INDEX i\<rparr>"

definition null_ref :: "nat \<Rightarrow> ref_type" where
  "null_ref i = \<lparr>rt_value = VALUE_TYPE_HT_NULLABLE_REF, rt_heap = HEAP_TYPE_INDEX i\<rparr>"

definition i32_type :: ref_type where
  "i32_type = \<lparr>rt_value = VALUE_TYPE_I32, rt_heap = HEAP_TYPE_NONE\<rparr>"

definition extern_type :: ref_type where
  "extern_type = \<lparr>rt_value = VALUE_TYPE_HT_NON_NULLABLE_REF, rt_heap = HEAP_TYPE_EXTERN\<rparr>"

fun demo_types :: "heap_type \<Rightarrow> wasm_type option" where
  "demo_types (HEAP_TYPE_INDEX i) =
     (if i = 0 then Some (ArrayType i32_type)
      else if i = 7 then Some (StructType [nn_ref 0, i32_type])
      else if i = 2 then Some (StructType [i32_type, nn_ref 7])
      else if i = 3 then Some (StructType [i32_type, extern_type])
      else if i = 4 then Some (StructType [null_ref 3])
      else if i = 5 then Some (StructType [i32_type, extern_type, nn_ref 7, null_ref 2, nn_ref 4])
      else if i = 6 then Some (StructType [nn_ref 5])
      else None)"
| "demo_types ht = None"

definition demo_get_queries :: wasm_type where "demo_get_queries = FuncType [i32_type] [nn_ref 6]"

definition demo_module :: wasm_module where
  "demo_module = \<lparr>wm_defined_type = demo_types, wm_is_externref = (\<lambda>v. v = VALUE_TYPE_EXTERNREF),
     wm_exports = [(''memory'', None), (''get_queries'', Some demo_get_queries)]\<rparr>"

definition demo_oid :: "u32 \<Rightarrow> pg_type" where
  "demo_oid w = (if w = 23 then INT4OID else if w = 25 then TEXTOID else if w = 1007 then INT4ARRAYOID
     else OtherOid (unat w))"

definition demo_sql :: "byte list" where "demo_sql = [83, 69, 76, 69, 67, 84]"

definition demo_targets :: "target_entry list" where
  "demo_targets = [\<lparr>te_resjunk = False, te_type = INT4OID\<rparr>, \<lparr>te_resjunk = False, te_type = TEXTOID\<rparr>]"

definition demo_parser :: "target_entry list \<Rightarrow> unit parser" where
  "demo_parser targets = \<lparr>ps_raw_parser = (\<lambda>_. Inr [()]),
     ps_analyze = (\<lambda>_ _ _. Inr [\<lparr>q_targetList = targets, q_returningList = [], q_canSetTag = True\<rparr>]),
     ps_strategy = (\<lambda>_. PORTAL_ONE_SELECT)\<rparr>"

definition demo_array :: "i32 list \<Rightarrow> wvalue" where
  "demo_array ws = V_Obj (WStruct (HEAP_TYPE_INDEX 7)
     [V_Obj (WArray (HEAP_TYPE_INDEX 0) (map V_I32 ws)), V_I32 (word_of_nat (length ws))])"

definition demo_host :: "datum \<Rightarrow> pg_type \<Rightarrow> wvalue" where
  "demo_host d oid = V_Obj (WHost (rst_externref_of_owned_datum d oid))"

definition demo_args :: wvalue where
  "demo_args = V_Obj (WStruct (HEAP_TYPE_INDEX 2) [V_I32 5, demo_array [10, 20]])"

definition demo_query :: wvalue where
  "demo_query = V_Obj (WStruct (HEAP_TYPE_INDEX 5) [V_I32 0, demo_host (DPointer BYTEAOID demo_sql) BYTEAOID,
     demo_array [23, 1007], demo_args,
     V_Obj (WStruct (HEAP_TYPE_INDEX 4) [V_Obj (WHost NullRef)])])"

definition demo_queries :: wvalue where
  "demo_queries = V_Obj (WStruct (HEAP_TYPE_INDEX 6) [demo_query])"

definition demo_instance :: instance_run where
  "demo_instance = \<lparr>ir_instantiate = True, ir_exec_env = True, ir_get_queries = Some demo_queries\<rparr>"

definition demo_row :: query_row where
  "demo_row = \<lparr>qr_index = 0, qr_sql = demo_sql @ [0], qr_arg_type = null_ref 2,
     qr_arg_oids = [INT4OID, INT4ARRAYOID], qr_arg_field_types = [i32_type, nn_ref 7],
     qr_arg_field_fn = [1, 7], qr_ret_type = null_ref 3, qr_ret_oids = [INT4OID, TEXTOID],
     qr_ret_field_types = [i32_type, extern_type], qr_ret_field_fn = [1, 5]\<rparr>"

definition demo_query_type :: query_type where
  "demo_query_type = \<lparr>qt_arg_type = null_ref 2, qt_arg_field_types = [i32_type, nn_ref 7],
     qt_ret_type = null_ref 3, qt_ret_field_types = [i32_type, extern_type]\<rparr>"

lemma demo_struct [simp]:
  "wasm_ref_type_get_referred_struct (nn_ref 7) demo_module False = Inr (Some [nn_ref 0, i32_type])"
  "wasm_ref_type_get_referred_struct (null_ref 2) demo_module True = Inr (Some [i32_type, nn_ref 7])"
  "wasm_ref_type_get_referred_struct (null_ref 3) demo_module True = Inr (Some [i32_type, extern_type])"
  "wasm_ref_type_get_referred_struct (nn_ref 4) demo_module False = Inr (Some [null_ref 3])"
  "wasm_ref_type_get_referred_struct (nn_ref 5) demo_module False =
     Inr (Some [i32_type, extern_type, nn_ref 7, null_ref 2, nn_ref 4])"
  "wasm_ref_type_get_referred_struct (nn_ref 6) demo_module False = Inr (Some [nn_ref 5])"
  "wasm_ref_type_get_referred_array (nn_ref 0) demo_module False = Inr (Some i32_type)"
  by (simp_all add: wasm_ref_type_get_referred_struct_def wasm_ref_type_get_referred_array_def
      wasm_get_defined_type_def demo_module_def nn_ref_def null_ref_def)

lemma demo_values [simp]:
  "rt_value i32_type = VALUE_TYPE_I32" "rt_value (null_ref i) = VALUE_TYPE_HT_NULLABLE_REF"
  "rt_value (nn_ref i) = VALUE_TYPE_HT_NON_NULLABLE_REF"
  "wasm_ref_type_is_ref_extern extern_type" "is_extern m extern_type"
  by (simp_all add: i32_type_def null_ref_def nn_ref_def extern_type_def wasm_ref_type_is_ref_extern_def
      is_extern_def)

lemma demo_array_type [simp]: "validate_moonbit_array (nn_ref 7) demo_module False = Inr (Some i32_type)"
  by (simp add: validate_moonbit_array_def)

lemma demo_query_type [simp]: "compile_query_type demo_module (nn_ref 5) = Inr demo_query_type"
  by (simp add: compile_query_type_def demo_query_type_def)

lemma demo_query_row [simp]:
  "describe_query_results ps (demo_sql @ [0]) [INT4OID, INT4ARRAYOID] = Inr demo_targets \<Longrightarrow>
    compile_query ps demo_oid demo_module demo_query_type demo_query = Inr demo_row"
  by (simp add: compile_query_def demo_query_def demo_row_def demo_query_type_def get_field_def Let_def
      demo_host_def demo_array_def get_datum_def rst_externref_of_owned_datum_def terminate_sql_def
      demo_sql_def get_i32_def get_elem_def demo_oid_def wasm_to_pg_def demo_targets_def
      fill_ret_array_def read_ret_def pg_to_wasm_def)

lemma demo_describe [simp]:
  "describe_query_results (demo_parser targets) (sql @ [0]) oids = Inr targets"
  by (simp add: describe_query_results_def demo_parser_def c_string_def)

lemma demo_compiles:
  "compile_queries (demo_parser demo_targets) demo_oid demo_module demo_instance demo_get_queries =
    (Inr [demo_row], [ReleaseTupleDesc, DestroyExecEnv, Deinstantiate])"
proof -
  have "get_field demo_queries 0 = Inr demo_query" "struct_field_count demo_queries = 1"
    by (simp_all add: demo_queries_def get_field_def struct_field_count_def)
  moreover have "set_index 0 demo_query = Inr demo_query" by (simp add: set_index_def demo_query_def)
  ultimately show ?thesis
    by (simp add: compile_queries_def demo_get_queries_def demo_instance_def)
qed

section \<open>Properties\<close>

lemma compile_queries_Inr:
  assumes "compile_queries ps oid_type m run func_type = (Inr rows, cl)"
  obtains params rt fields where "func_type = FuncType params [rt]"
    "wasm_ref_type_get_referred_struct rt m False = Inr (Some fields)"
    "length fields \<le> 65535" "length rows = length fields"
    "\<forall>k < length rows. row_ok (rows ! k) \<and> qr_index (rows ! k) = word_of_nat k"
    "cl = (if fields = [] then [] else [ReleaseTupleDesc, DestroyExecEnv, Deinstantiate])"
proof -
  obtain params results fields where f: "func_type = FuncType params results" "length results = 1"
    "wasm_ref_type_get_referred_struct (results ! 0) m False = Inr (Some fields)"
    using assms by (auto simp: compile_queries_def split: wasm_type.splits if_splits sum.splits option.splits)
  then obtain rt where rt: "results = [rt]" by (auto simp: length_Suc_conv)
  with f have s: "wasm_ref_type_get_referred_struct rt m False = Inr (Some fields)" by simp
  show thesis
  proof (cases "fields = []")
    case True
    with assms f rt s show thesis
      by (intro that[OF f(1)[unfolded rt] s]) (auto simp: compile_queries_def split: if_splits)
  next
    case False
    then obtain qs where "compile_each ps oid_type m qs 0 fields = Inr rows" "length fields \<le> 65535"
      "cl = [ReleaseTupleDesc, DestroyExecEnv, Deinstantiate]"
      using assms f rt s by (auto simp: compile_queries_def split: if_splits option.splits)
    with compile_each_rows[OF this(1)] False show thesis
      by (intro that[OF f(1)[unfolded rt] s]) auto
  qed
qed

text \<open>
  When compilation succeeds, there is one row for each field of the struct \<open>get_queries\<close>
  returns, numbered 0, 1, 2 and so on, whatever numbers the application had put into its query
  objects. Each row is consistent: its lists are as long as each other, its SQL text ends in a
  NUL, its converter numbers are places of the converter tables. Everything the compiler
  acquired has been released, the execution environment before its instance.
\<close>
lemma compiled_rows:
  assumes "compile_queries ps oid_type m run func_type = (Inr rows, cl)"
  shows "(\<exists>params rt fields. func_type = FuncType params [rt] \<and>
      wasm_ref_type_get_referred_struct rt m False = Inr (Some fields) \<and> length rows = length fields \<and>
      cl = (if fields = [] then [] else [ReleaseTupleDesc, DestroyExecEnv, Deinstantiate])) \<and>
    (\<forall>k < length rows. row_ok (rows ! k) \<and> sint (qr_index (rows ! k)) = int k)"
proof -
  obtain params rt fields where f: "func_type = FuncType params [rt]"
    "wasm_ref_type_get_referred_struct rt m False = Inr (Some fields)"
    "length fields \<le> 65535" "length rows = length fields"
    "\<forall>k < length rows. row_ok (rows ! k) \<and> qr_index (rows ! k) = word_of_nat k"
    "cl = (if fields = [] then [] else [ReleaseTupleDesc, DestroyExecEnv, Deinstantiate])"
    by (rule compile_queries_Inr[OF assms])
  then have "sint (qr_index (rows ! k)) = int k" if "k < length rows" for k
    using that by (simp add: sint_of_nat32)
  with f show ?thesis by auto
qed

lemma compiled_rows_witness:
  "\<exists>fields. length [demo_row] = length (fields :: ref_type list) \<and> row_ok demo_row \<and> sint (qr_index demo_row) = 0"
  using compiled_rows[OF demo_compiles] by auto

text \<open>
  A query whose target list has a junk entry is never compiled: Postgres adds such an entry
  for a column of \<open>ORDER BY\<close> that is not selected, the compiler counts it when it compares
  the number of results with the number of fields, and leaves a place of \<open>ret_array\<close> unset
  when the numbers agree.
\<close>
lemma junk_targets_not_compiled:
  assumes "describe_query_results ps sql argtypes = Inr targets" "t \<in> set targets" "te_resjunk t"
  shows "\<not> (\<exists>row. compile_query ps oid_type m qt query = Inr row \<and> qr_sql row = sql \<and> qr_arg_oids row = argtypes)"
proof
  assume "\<exists>row. compile_query ps oid_type m qt query = Inr row \<and> qr_sql row = sql \<and> qr_arg_oids row = argtypes"
  then obtain row where "compile_query ps oid_type m qt query = Inr row" "qr_sql row = sql" "qr_arg_oids row = argtypes"
    by blast
  with compile_query_Inr(5)[OF this(1)] assms(1)
  have "map_res read_ret (fill_ret_array (length targets) targets) = Inr (qr_ret_oids row)" by auto
  from fill_ret_array_full[OF this] assms(2,3) show False by blast
qed

lemma junk_targets_not_compiled_witness:
  "\<not> (\<exists>row. compile_query (demo_parser (demo_targets @ [\<lparr>te_resjunk = True, te_type = DATEOID\<rparr>]))
      demo_oid demo_module demo_query_type demo_query = Inr row \<and>
    qr_sql row = demo_sql @ [0] \<and> qr_arg_oids row = [INT4OID, INT4ARRAYOID])"
  by (rule junk_targets_not_compiled[OF demo_describe, of "\<lparr>te_resjunk = True, te_type = DATEOID\<rparr>"]) simp_all

text \<open>
  C22: where the compiler chooses a converter in both directions between a field's type and a
  column's, a value that went to Postgres can be read back and is the value it was, but for a
  Boolean becoming 0 or 1 and the elements of an \<open>int2[]\<close> being cut to 16 bits.
\<close>
lemma value_comes_back:
  assumes "wasm_to_pg m rt oid = Inr fn" "pg_to_wasm m oid rt = Inr fn'" "wasm_value_ok m rt v"
    and "type_wf m rt" "(wasm_to_pg_funcs ! wasm_to_pg_num fn) oid v = Inr d"
  shows "\<exists>v'. (pg_to_wasm_funcs ! pg_to_wasm_num fn') m tuple oid rt d = Inr v' \<and> comes_back oid v v'"
  using assms by (rule roundtrip_value)

lemma demo_value_ok: "wasm_value_ok demo_module (nn_ref 7) (demo_array [1, 70000])"
  "type_wf demo_module (nn_ref 7)" "moonbit_array (demo_array [1, 70000]) [1, 70000]"
proof -
  show a: "moonbit_array (demo_array [1, 70000]) [1, 70000]"
    by (simp add: moonbit_array_def demo_array_def MaxAllocSize_def)
  have "\<not> is_extern demo_module (nn_ref 7)" by (simp add: is_extern_def demo_module_def nn_ref_def)
  with a show "wasm_value_ok demo_module (nn_ref 7) (demo_array [1, 70000])" "type_wf demo_module (nn_ref 7)"
    by (auto simp: wasm_value_ok_def type_wf_def)
qed

lemma value_comes_back_witness:
  "\<exists>v'. pg_int2_array_to_wasm_i32_array demo_module None INT2ARRAYOID (nn_ref 7) (DArray INT2OID [1, 4464]) = Inr v' \<and>
    comes_back INT2ARRAYOID (demo_array [1, 70000]) v'"
proof -
  have "wasm_i32_array_to_pg_int2_array INT2ARRAYOID (demo_array [1, 70000]) = Inr (DArray INT2OID [1, 4464])"
    using read_moonbit_array_ok[OF demo_value_ok(3)] by (simp add: wasm_i32_array_to_pg_int2_array_def)
  then show ?thesis
    using value_comes_back[where oid = INT2ARRAYOID and fn = Fn_i32_array_to_int2_array and
        fn' = Fn_int2_array_to_i32_array, OF _ _ demo_value_ok(1,2)]
    by (simp add: wasm_to_pg_def pg_to_wasm_def wasm_to_pg_funcs_def pg_to_wasm_funcs_def)
qed

end
