(* ===== verification/Act.thy ===== *)
theory Act
  imports Prelude
begin

text \<open>
  Functions that change state and can fail: a state comes back with every outcome, since what a
  function did before it raised stays done. \<open>PG_CATCH\<close> and \<open>PG_FINALLY\<close> run their handlers
  for errors raised with \<open>ereport\<close>; a failed assertion or undefined behaviour ends the process.
\<close>

type_synonym ('s, 'a) act = "'s \<Rightarrow> 'a res \<times> 's"

definition act_return :: "'a \<Rightarrow> ('s, 'a) act" where "act_return x s = (Inr x, s)"

definition act_lift :: "'a res \<Rightarrow> ('s, 'a) act" where "act_lift r s = (r, s)"

definition act_modify :: "('s \<Rightarrow> 's) \<Rightarrow> ('s, unit) act" where "act_modify f s = (Inr (), f s)"

definition act_gets :: "('s \<Rightarrow> 'a) \<Rightarrow> ('s, 'a) act" where "act_gets f s = (Inr (f s), s)"

definition act_bind :: "('s, 'a) act \<Rightarrow> ('a \<Rightarrow> ('s, 'b) act) \<Rightarrow> ('s, 'b) act" where
  "act_bind m f s = (case m s of (Inl e, s') \<Rightarrow> (Inl e, s') | (Inr x, s') \<Rightarrow> f x s')"

definition act_then :: "('s, 'a) act \<Rightarrow> ('s, 'b) act \<Rightarrow> ('s, 'b) act" where
  "act_then m m' = act_bind m (\<lambda>_. m')"

text \<open>\<open>PG_CATCH(); { h; PG_RE_THROW(); }\<close> and \<open>PG_FINALLY(); { h }\<close>.\<close>

definition pg_catch :: "('s, 'a) act \<Rightarrow> ('s, unit) act \<Rightarrow> ('s, 'a) act" where
  "pg_catch m h s =
     (case m s of
        (Inl (PgError msg), s') \<Rightarrow> act_then h (act_lift (Inl (PgError msg))) s'
      | r \<Rightarrow> r)"

definition pg_finally :: "('s, 'a) act \<Rightarrow> ('s, unit) act \<Rightarrow> ('s, 'a) act" where
  "pg_finally m h s =
     (case m s of
        (Inl (PgError msg), s') \<Rightarrow> act_then h (act_lift (Inl (PgError msg))) s'
      | (Inl e, s') \<Rightarrow> (Inl e, s')
      | (Inr x, s') \<Rightarrow> act_then h (act_return x) s')"

text \<open>
  An action on the state alone, and an action with a variable of the function that is not
  visible outside: its last value is returned, and lost when the function raises.
\<close>

definition act_global :: "('s, 'a) act \<Rightarrow> ('l \<times> 's, 'a) act" where
  "act_global m = (\<lambda>(l, s). case m s of (r, s') \<Rightarrow> (r, (l, s')))"

definition act_local :: "'l \<Rightarrow> ('l \<times> 's, unit) act \<Rightarrow> ('s, 'l) act" where
  "act_local l m s = (case m (l, s) of (Inl e, (l', s')) \<Rightarrow> (Inl e, s') | (Inr _, (l', s')) \<Rightarrow> (Inr l', s'))"

fun act_each :: "('a \<Rightarrow> ('s, unit) act) \<Rightarrow> 'a list \<Rightarrow> ('s, unit) act" where
  "act_each f [] = act_return ()"
| "act_each f (x # xs) = act_then (f x) (act_each f xs)"

section \<open>Reasoning\<close>

text \<open>
  \<open>wp m s Q E\<close>: started in \<open>s\<close>, the action ends with a result and a state satisfying \<open>Q\<close>, or
  with a failure and a state satisfying \<open>E\<close>.
\<close>

definition wp :: "('s, 'a) act \<Rightarrow> 's \<Rightarrow> ('a \<Rightarrow> 's \<Rightarrow> bool) \<Rightarrow> (failure \<Rightarrow> 's \<Rightarrow> bool) \<Rightarrow> bool" where
  "wp m s Q E = (case m s of (Inl e, s') \<Rightarrow> E e s' | (Inr x, s') \<Rightarrow> Q x s')"

lemma wp_return [simp]: "wp (act_return x) s Q E = Q x s"
  by (simp add: wp_def act_return_def)

lemma wp_lift [simp]: "wp (act_lift r) s Q E = (case r of Inl e \<Rightarrow> E e s | Inr x \<Rightarrow> Q x s)"
  by (simp add: wp_def act_lift_def split: sum.splits)

lemma wp_modify [simp]: "wp (act_modify f) s Q E = Q () (f s)"
  by (simp add: wp_def act_modify_def)

lemma wp_gets [simp]: "wp (act_gets g) s Q E = Q (g s) s"
  by (simp add: wp_def act_gets_def)

lemma wp_bind [simp]: "wp (act_bind m k) s Q E = wp m s (\<lambda>x s'. wp (k x) s' Q E) E"
  by (auto simp: wp_def act_bind_def split: sum.splits prod.splits)

lemma wp_then [simp]: "wp (act_then m m') s Q E = wp m s (\<lambda>_ s'. wp m' s' Q E) E"
  by (auto simp: wp_def act_bind_def act_then_def split: sum.splits prod.splits)

lemma wp_catch [simp]:
  "wp (pg_catch m h) s Q E =
    wp m s Q (\<lambda>e s'. case e of PgError msg \<Rightarrow> wp h s' (\<lambda>_ s''. E e s'') E | _ \<Rightarrow> E e s')"
  by (auto simp: wp_def pg_catch_def act_lift_def act_bind_def act_then_def
      split: sum.splits prod.splits failure.splits)

lemma wp_finally [simp]:
  "wp (pg_finally m h) s Q E =
    wp m s (\<lambda>x s'. wp h s' (\<lambda>_ s''. Q x s'') E)
      (\<lambda>e s'. case e of PgError msg \<Rightarrow> wp h s' (\<lambda>_ s''. E e s'') E | _ \<Rightarrow> E e s')"
  by (auto simp: wp_def pg_finally_def act_lift_def act_return_def act_bind_def act_then_def
      split: sum.splits prod.splits failure.splits)

lemma wp_global [simp]:
  "wp (act_global m) (l, s) Q E = wp m s (\<lambda>x s'. Q x (l, s')) (\<lambda>e s'. E e (l, s'))"
  by (auto simp: wp_def act_global_def split: sum.splits prod.splits)

lemma wp_local [simp]:
  "wp (act_local l m) s Q E = wp m (l, s) (\<lambda>_ (l', s'). Q l' s') (\<lambda>e (l', s'). E e s')"
  by (auto simp: wp_def act_local_def split: sum.splits prod.splits)

lemma wp_if [simp]: "wp (if b then m else m') s Q E = (if b then wp m s Q E else wp m' s Q E)"
  by simp

lemma wp_mono:
  "wp m s Q E \<Longrightarrow> (\<And>x s'. Q x s' \<Longrightarrow> Q' x s') \<Longrightarrow> (\<And>e s'. E e s' \<Longrightarrow> E' e s') \<Longrightarrow> wp m s Q' E'"
  by (auto simp: wp_def split: sum.splits prod.splits)

lemma wp_conj: "wp m s Q E \<Longrightarrow> wp m s Q' E' \<Longrightarrow> wp m s (\<lambda>x s'. Q x s' \<and> Q' x s') (\<lambda>e s'. E e s' \<and> E' e s')"
  by (auto simp: wp_def split: sum.splits prod.splits)

text \<open>A loop: an invariant over the elements that were done.\<close>

lemma wp_each:
  assumes "I [] s"
    and "\<And>done x todo s'. xs = done @ x # todo \<Longrightarrow> I done s' \<Longrightarrow> wp (f x) s' (\<lambda>_. I (done @ [x])) E"
  shows "wp (act_each f xs) s (\<lambda>_. I xs) E"
proof -
  have "wp (act_each f ys) s' (\<lambda>_. I (zs @ ys)) E" if "I zs s'" "xs = zs @ ys" for ys zs s'
    using that
  proof (induction ys arbitrary: zs s')
    case (Cons y ys)
    have "wp (f y) s' (\<lambda>_. I (zs @ [y])) E" by (rule assms(2)[OF Cons.prems(2,1)])
    then show ?case
      by (auto elim!: wp_mono dest!: Cons.IH[of "zs @ [y]"] simp: Cons.prems(2))
  qed simp
  from this[OF assms(1)] show ?thesis by simp
qed

section \<open>Resources\<close>

text \<open>
  What the engine acquires from Postgres and WAMR and has to give back. An object gets a fresh
  number; releasing one that is not live is undefined (a double free).
\<close>

datatype resource =
    Plan nat    \<comment> \<open>a plan kept with \<open>SPI_keepplan\<close>\<close>
  | Block nat   \<comment> \<open>an allocation in \<open>TopMemoryContext\<close>\<close>
  | Table nat   \<comment> \<open>an \<open>SPITupleTable\<close>\<close>
  | Module nat  \<comment> \<open>a module loaded by WAMR\<close>

fun rid :: "resource \<Rightarrow> nat" where
  "rid (Plan n) = n" | "rid (Block n) = n" | "rid (Table n) = n" | "rid (Module n) = n"

text \<open>The registry of WAMR: a name, the module, the block of memory the name is in.\<close>

record engine =
  en_next :: nat
  en_live :: "resource set"
  en_registry :: "(byte list \<times> nat \<times> nat) list"

definition acquire :: "(nat \<Rightarrow> resource) \<Rightarrow> (engine, nat) act" where
  "acquire kind en =
     (Inr (en_next en), en\<lparr>en_next := Suc (en_next en), en_live := insert (kind (en_next en)) (en_live en)\<rparr>)"

definition release :: "resource \<Rightarrow> (engine, unit) act" where
  "release r en =
     (if r \<in> en_live en then (Inr (), en\<lparr>en_live := en_live en - {r}\<rparr>) else (Inl (Undefined ''double free''), en))"

definition release_opt :: "('a \<Rightarrow> resource) \<Rightarrow> 'a option \<Rightarrow> (engine, unit) act" where
  "release_opt kind x = (case x of None \<Rightarrow> act_return () | Some a \<Rightarrow> release (kind a))"

definition en_wf :: "engine \<Rightarrow> bool" where
  "en_wf en \<longleftrightarrow> (\<forall>r \<in> en_live en. rid r < en_next en)"

text \<open>\<open>grown R en en'\<close>: nothing changed but that the resources \<open>R\<close>, all new, are live.\<close>

definition grown :: "resource set \<Rightarrow> engine \<Rightarrow> engine \<Rightarrow> bool" where
  "grown R en en' \<longleftrightarrow> en_wf en' \<and> en_live en' = en_live en \<union> R \<and> R \<inter> en_live en = {} \<and>
     en_registry en' = en_registry en \<and> en_next en \<le> en_next en'"

lemma grown_refl [simp]: "en_wf en \<Longrightarrow> grown {} en en"
  by (simp add: grown_def)

lemma wp_acquire [simp]:
  "wp (acquire kind) en Q E =
    Q (en_next en) (en\<lparr>en_next := Suc (en_next en), en_live := insert (kind (en_next en)) (en_live en)\<rparr>)"
  by (simp add: wp_def acquire_def)

lemma wp_release [simp]:
  "wp (release r) en Q E =
    (if r \<in> en_live en then Q () (en\<lparr>en_live := en_live en - {r}\<rparr>) else E (Undefined ''double free'') en)"
  by (simp add: wp_def release_def)

lemma wp_release_opt [simp]:
  "wp (release_opt kind x) en Q E = (case x of None \<Rightarrow> Q () en | Some a \<Rightarrow> wp (release (kind a)) en Q E)"
  by (simp add: release_opt_def split: option.splits)

lemma grown_acquire:
  assumes "grown R en en'" "\<And>n. rid (kind n) = n" "en_wf en"
  shows "grown (insert (kind (en_next en')) R) en
    (en'\<lparr>en_next := Suc (en_next en'), en_live := insert (kind (en_next en')) (en_live en')\<rparr>)"
  using assms unfolding grown_def en_wf_def
  by (fastforce simp: less_Suc_eq)

lemma grown_release:
  assumes "grown R en en'" "r \<in> R"
  shows "grown (R - {r}) en (en'\<lparr>en_live := en_live en' - {r}\<rparr>)"
  using assms unfolding grown_def en_wf_def by auto

lemma grown_trans:
  "grown R en en' \<Longrightarrow> grown R' en' en'' \<Longrightarrow> grown (R \<union> R') en en''"
  unfolding grown_def by auto

lemma grown_fresh: "grown R en en' \<Longrightarrow> rid r = en_next en' \<Longrightarrow> r \<notin> en_live en'"
  unfolding grown_def en_wf_def by (metis less_irrefl)

end
