(* ===== verification/Query.thy ===== *)
theory Query
  imports Compiler Act
begin

text \<open>
  Prepared queries and what an application does with them (\<open>query.c\<close>, lines 235 to 655): a plan
  is made from a row of \<open>rustica.queries\<close> and freed, a query is executed with arguments read out
  of the application's objects, a row of the result is written into them. SPI is a parameter.
\<close>

section \<open>Plans\<close>

text \<open>What \<open>SPI_prepare\<close> gives: the number of statements, of result columns, and the kind.\<close>

record prepared =
  pp_sources :: nat
  pp_natts :: nat
  pp_cursor :: bool \<comment> \<open>\<open>SPI_is_cursor_plan\<close>\<close>

text \<open>\<open>sp_prepare\<close> raises, or returns \<open>NULL\<close> (\<open>None\<close>); \<open>sp_keepplan\<close>: it returned 0.\<close>

record spi =
  sp_prepare :: "byte list \<Rightarrow> pg_type list \<Rightarrow> prepared option answer"
  sp_keepplan :: "byte list \<Rightarrow> bool"

text \<open>A row of \<open>rustica.queries\<close> as it is read back; \<open>None\<close> is an SQL NULL.\<close>

record stored_query =
  sq_index :: "i32 option"
  sq_sql :: "byte list option"
  sq_arg_oids :: "pg_type list option"
  sq_arg_field_fn :: "i32 list option"
  sq_ret_type :: "ref_type list option"
  sq_ret_oids :: "pg_type list option"
  sq_ret_field_types :: "ref_type list option"
  sq_ret_field_fn :: "i32 list option"

record query_plan =
  qp_plan :: "(nat \<times> prepared) option"
  qp_block :: "nat option" \<comment> \<open>the allocation \<open>wasm_to_pg_funcs\<close> points to\<close>
  qp_nargs :: nat
  qp_nattrs :: nat
  qp_argtypes :: "pg_type list"
  qp_rettypes :: "pg_type list"
  qp_ret_type :: "ref_type option"
  qp_ret_field_types :: "ref_type list"
  qp_wasm_to_pg_funcs :: "(pg_type \<Rightarrow> wvalue \<Rightarrow> datum res) list"
  qp_pg_to_wasm_funcs :: "pg_to_wasm_func list"

definition zero_plan :: query_plan where
  "zero_plan = \<lparr>qp_plan = None, qp_block = None, qp_nargs = 0, qp_nattrs = 0, qp_argtypes = [],
     qp_rettypes = [], qp_ret_type = None, qp_ret_field_types = [], qp_wasm_to_pg_funcs = [],
     qp_pg_to_wasm_funcs = []\<rparr>"

definition not_null :: "'a option \<Rightarrow> 'a res" where
  "not_null x = (case x of None \<Rightarrow> Inl (Trap ''!isnull'') | Some y \<Rightarrow> Inr y)"

text \<open>\<open>table[DatumGetInt32(n)]\<close>.\<close>

definition table_at :: "'a list \<Rightarrow> i32 \<Rightarrow> 'a res" where
  "table_at table n =
     (if 0 \<le> sint n \<and> nat (sint n) < length table then Inr (table ! nat (sint n))
      else Inl (Undefined ''converter table index''))"

definition expect_length :: "string \<Rightarrow> nat \<Rightarrow> 'a list \<Rightarrow> 'a list res" where
  "expect_length msg n xs = (if length xs = n then Inr xs else Inl (PgError msg))"

text \<open>
  \<open>rst_init_query_plan\<close> on a zeroed plan: the steps in the order of the code, since an error
  leaves the plan as it is then, to be freed.
\<close>

definition init_statement :: "spi \<Rightarrow> stored_query \<Rightarrow> (query_plan \<times> engine, prepared) act" where
  "init_statement sp row =
     act_bind (act_lift (not_null (sq_sql row))) (\<lambda>sql.
     act_bind (act_lift (not_null (sq_arg_oids row))) (\<lambda>argtypes.
     act_then (act_modify (\<lambda>(p, en). (p\<lparr>qp_nargs := length argtypes\<rparr>, en)))
     (act_bind (act_lift (c_string sql)) (\<lambda>text.
      act_bind (act_lift (raised (sp_prepare sp text argtypes))) (\<lambda>prep. case prep of
        None \<Rightarrow> act_lift (Inl (PgError ''failed to prepare statement''))
      | Some pp \<Rightarrow>
          if \<not> sp_keepplan sp text then act_lift (Inl (PgError ''failed to keep plan''))
          else
            act_bind (act_global (acquire Plan)) (\<lambda>n.
            act_then (act_modify (\<lambda>(p, en). (p\<lparr>qp_plan := Some (n, pp)\<rparr>, en)))
            (if pp_sources pp \<noteq> 1 then act_lift (Inl (Trap ''list_length(source_list) == 1''))
             else act_return pp)))))))"

definition init_arguments :: "stored_query \<Rightarrow> nat \<Rightarrow> (query_plan \<times> engine, unit) act" where
  "init_arguments row nattrs =
     act_bind (act_lift (not_null (sq_arg_oids row))) (\<lambda>argtypes.
     act_bind (act_lift (not_null (sq_arg_field_fn row))) (\<lambda>fns.
     act_bind (act_lift (expect_length ''arg_field_fn has different length (%d) than arg_oids (%d)''
         (length argtypes) fns)) (\<lambda>fns.
       if length argtypes + nattrs > 0 then
         act_bind (act_global (acquire Block)) (\<lambda>b.
         act_then (act_modify (\<lambda>(p, en). (p\<lparr>qp_block := Some b\<rparr>, en)))
         (act_bind (act_lift (map_res (table_at wasm_to_pg_funcs) fns)) (\<lambda>fs.
          act_modify (\<lambda>(p, en). (p\<lparr>qp_wasm_to_pg_funcs := fs, qp_argtypes := argtypes\<rparr>, en)))))
       else act_return ())))"

definition init_results :: "stored_query \<Rightarrow> nat \<Rightarrow> (query_plan \<times> engine, unit) act" where
  "init_results row nattrs =
     act_bind (act_lift (not_null (sq_ret_type row))) (\<lambda>ret_type.
     act_bind (act_lift (expect_length ''wrong number of ret_type elements'' 1 ret_type)) (\<lambda>ret_type.
     act_then (act_modify (\<lambda>(p, en). (p\<lparr>qp_ret_type := Some (hd ret_type)\<rparr>, en)))
     (act_bind (act_lift (not_null (sq_ret_oids row))) (\<lambda>oids.
      act_bind (act_lift (expect_length ''ret_oids has different length (%d) than described (%d)''
          nattrs oids)) (\<lambda>oids.
      act_then (act_modify (\<lambda>(p, en). (p\<lparr>qp_rettypes := oids\<rparr>, en)))
      (act_bind (act_lift (not_null (sq_ret_field_types row))) (\<lambda>types.
       act_bind (act_lift (expect_length ''ret_field_types has different length (%d) than described (%d)''
           nattrs types)) (\<lambda>types.
       act_modify (\<lambda>(p, en). (p\<lparr>qp_ret_field_types := types\<rparr>, en))))))))))"

definition init_result_converters :: "stored_query \<Rightarrow> nat \<Rightarrow> (query_plan \<times> engine, unit) act" where
  "init_result_converters row nattrs =
     act_bind (act_lift (not_null (sq_ret_field_fn row))) (\<lambda>fns.
     act_bind (act_lift (expect_length ''ret_field_fn has different length (%d) than described (%d)''
         nattrs fns)) (\<lambda>fns.
     act_bind (act_lift (map_res (table_at pg_to_wasm_funcs) fns)) (\<lambda>fs.
     act_modify (\<lambda>(p, en). (p\<lparr>qp_pg_to_wasm_funcs := fs, qp_nattrs := nattrs\<rparr>, en)))))"

definition rst_init_query_plan :: "spi \<Rightarrow> stored_query \<Rightarrow> (query_plan \<times> engine, unit) act" where
  "rst_init_query_plan sp row =
     act_bind (init_statement sp row) (\<lambda>pp.
     act_then (init_arguments row (pp_natts pp))
     (act_then (if pp_natts pp > 0 then init_results row (pp_natts pp) else act_return ())
      (init_result_converters row (pp_natts pp))))"

definition rst_free_query_plan :: "query_plan \<Rightarrow> (engine, unit) act" where
  "rst_free_query_plan p =
     act_then (release_opt (Plan \<circ> fst) (qp_plan p)) (release_opt Block (qp_block p))"

section \<open>An instance\<close>

text \<open>
  The context of an execution environment as far as queries go: the module's types, its plans,
  the application's query objects.
\<close>

record inst_context =
  cx_module :: wasm_module
  cx_plans :: "query_plan list"
  cx_queries :: wvalue

text \<open>Fields of objects inside objects, written.\<close>

definition set_field :: "wvalue \<Rightarrow> nat \<Rightarrow> wvalue \<Rightarrow> wvalue res" where
  "set_field v i x =
     (case v of
        V_Obj (WStruct h vs) \<Rightarrow> if i < length vs then Inr (V_Obj (WStruct h (vs[i := x])))
          else Inl (Undefined ''struct field index'')
      | _ \<Rightarrow> Inl (Undefined ''not a struct''))"

text \<open>\<open>rst_init_instance_context\<close>: \<open>result\<close> is what the call of \<open>get_queries\<close> gave.\<close>

fun number_queries :: "nat \<Rightarrow> nat \<Rightarrow> wvalue \<Rightarrow> wvalue res" where
  "number_queries i 0 queries = Inr queries"
| "number_queries i (Suc n) queries =
     res_bind (get_field queries i) (\<lambda>v. res_bind (set_index i v) (\<lambda>query.
     res_bind (set_field queries i query) (\<lambda>queries. number_queries (Suc i) n queries)))"

definition rst_init_instance_context ::
  "bool \<Rightarrow> wvalue option \<Rightarrow> inst_context \<Rightarrow> inst_context res" where
  "rst_init_instance_context exported result cx =
     (if \<not> exported then Inr cx
      else case result of
        None \<Rightarrow> Inl (PgError ''failed to call get_queries()'')
      | Some queries \<Rightarrow>
          if length (cx_plans cx) \<noteq> struct_field_count queries then Inl (Trap ''nqueries == field count'')
          else res_bind (number_queries 0 (length (cx_plans cx)) queries) (\<lambda>queries.
            Inr (cx\<lparr>cx_queries := queries\<rparr>)))"

section \<open>Execution\<close>

fun convert_args :: "query_plan \<Rightarrow> wvalue \<Rightarrow> nat \<Rightarrow> nat \<Rightarrow> datum list res" where
  "convert_args p args i 0 = Inr []"
| "convert_args p args i (Suc n) =
     res_bind (get_field args i) (\<lambda>v.
     res_bind ((qp_wasm_to_pg_funcs p ! i) (qp_argtypes p ! i) v) (\<lambda>d.
     res_bind (convert_args p args (Suc i) n) (\<lambda>ds. Inr (d # ds))))"

definition find_plan :: "inst_context \<Rightarrow> i32 \<Rightarrow> query_plan res" where
  "find_plan cx idx =
     (if sint idx < 0 \<or> int (length (cx_plans cx)) \<le> sint idx then Inl (PgError ''no such query: #%d'')
      else Inr (cx_plans cx ! nat (sint idx)))"

definition read_args :: "inst_context \<Rightarrow> i32 \<Rightarrow> query_plan \<Rightarrow> datum list res" where
  "read_args cx idx p =
     res_bind (get_field (cx_queries cx) (nat (sint idx))) (\<lambda>query.
     res_bind (get_field query 3) (\<lambda>args. convert_args p args 0 (qp_nargs p)))"

text \<open>The values handed to \<open>SPI_execute_plan\<close>, whose own result is not looked at.\<close>

definition env_execute_statement :: "inst_context \<Rightarrow> i32 \<Rightarrow> (query_plan \<times> datum list) res" where
  "env_execute_statement cx idx =
     res_bind (find_plan cx idx) (\<lambda>p. res_bind (read_args cx idx p) (\<lambda>values. Inr (p, values)))"

section \<open>Rows\<close>

fun default_value :: "value_type \<Rightarrow> wvalue" where
  "default_value VALUE_TYPE_I32 = V_I32 0"
| "default_value VALUE_TYPE_I64 = V_I64 0"
| "default_value VALUE_TYPE_F32 = V_F32 0"
| "default_value VALUE_TYPE_F64 = V_F64 0"
| "default_value _ = V_Obj (WHost NullRef)"

text \<open>
  \<open>env_tuple_lower\<close>: \<open>row\<close> are the columns of the tuple, \<open>DNull\<close> for an SQL NULL and what
  \<open>SPI_getbinval\<close> gives for a column that is not there. The fresh struct, whose fields start
  as zeros, is the value of the box when the function returns.
\<close>

fun lower_columns :: "inst_context \<Rightarrow> obj \<Rightarrow> query_plan \<Rightarrow> datum list \<Rightarrow> nat \<Rightarrow> nat \<Rightarrow> wvalue list res" where
  "lower_columns cx tuple p row i 0 = Inr []"
| "lower_columns cx tuple p row i (Suc n) =
     (let d = (if i < length row then row ! i else DNull) in
     res_bind ((qp_pg_to_wasm_funcs p ! i) (cx_module cx) (Some tuple) (qp_rettypes p ! i)
         (qp_ret_field_types p ! i) d) (\<lambda>v.
     res_bind (lower_columns cx tuple p row (Suc i) n) (\<lambda>vs. Inr (v # vs))))"

definition env_tuple_lower :: "inst_context \<Rightarrow> i32 \<Rightarrow> obj \<Rightarrow> datum list \<Rightarrow> inst_context res" where
  "env_tuple_lower cx query_idx tuple row =
     (let i = nat (sint query_idx) in
      if sint query_idx < 0 \<or> length (cx_plans cx) \<le> i then Inl (Undefined ''queries[query_idx]'')
      else
        (let p = cx_plans cx ! i in
         if qp_nattrs p = 0 then Inl (PgError ''no attributes in the tuple'')
         else
           res_bind (get_field (cx_queries cx) i) (\<lambda>query.
           res_bind (get_field query 4) (\<lambda>box.
           case qp_ret_type p of
             None \<Rightarrow> Inl (Undefined ''ret_type'')
           | Some rt \<Rightarrow>
               res_bind (wasm_get_defined_type (cx_module cx) (rt_heap rt)) (\<lambda>type. case type of
                 StructType fs \<Rightarrow>
                   if length fs < qp_nattrs p then Inl (Undefined ''struct field index'')
                   else
                     res_bind (lower_columns cx tuple p row 0 (qp_nattrs p)) (\<lambda>vs.
                     res_bind (set_field box 0 (V_Obj (WStruct (rt_heap rt)
                       (vs @ map (default_value \<circ> rt_value) (drop (qp_nattrs p) fs))))) (\<lambda>box.
                     res_bind (set_field query 4 box) (\<lambda>query.
                     res_bind (set_field (cx_queries cx) i query) (\<lambda>queries.
                       Inr (cx\<lparr>cx_queries := queries\<rparr>)))))
               | _ \<Rightarrow> Inl (Undefined ''not a struct type''))))))"

end
