(* ===== verification/QueryProps.thy ===== *)
theory QueryProps
  imports Query CompilerProps
begin

text \<open>
  The properties of prepared queries: what a plan owns and gives back, what is in a plan that
  was initialised, and that the values passed between the application and Postgres have the
  types both sides declared.
\<close>

section \<open>What a plan owns\<close>

definition owned_plan :: "query_plan \<Rightarrow> resource set" where
  "owned_plan p = set_option (map_option (Plan \<circ> fst) (qp_plan p)) \<union> set_option (map_option Block (qp_block p))"

lemma owned_plan_simps [simp]:
  "owned_plan zero_plan = {}"
  "owned_plan (p\<lparr>qp_nargs := a\<rparr>) = owned_plan p"
  "owned_plan (p\<lparr>qp_nattrs := a\<rparr>) = owned_plan p"
  "owned_plan (p\<lparr>qp_argtypes := l1\<rparr>) = owned_plan p"
  "owned_plan (p\<lparr>qp_rettypes := l1\<rparr>) = owned_plan p"
  "owned_plan (p\<lparr>qp_ret_type := rt\<rparr>) = owned_plan p"
  "owned_plan (p\<lparr>qp_ret_field_types := l2\<rparr>) = owned_plan p"
  "owned_plan (p\<lparr>qp_wasm_to_pg_funcs := l3\<rparr>) = owned_plan p"
  "owned_plan (p\<lparr>qp_pg_to_wasm_funcs := l4\<rparr>) = owned_plan p"
  "qp_plan p = None \<Longrightarrow> owned_plan (p\<lparr>qp_plan := Some (n, pp)\<rparr>) = insert (Plan n) (owned_plan p)"
  "qp_block p = None \<Longrightarrow> owned_plan (p\<lparr>qp_block := Some b\<rparr>) = insert (Block b) (owned_plan p)"
  by (auto simp: owned_plan_def zero_plan_def)

text \<open>
  What holds after an error. A failed assertion or undefined behaviour ends the process, and can
  only be one of these: rows that are not what the compiler writes, a statement that Postgres
  reads as more than one. A double free is not among them.
\<close>

definition load_ends :: "failure set" where
  "load_ends = {Trap ''!isnull'', Trap ''list_length(source_list) == 1'',
     Trap ''tuptable->tupdesc->natts == 11'', Undefined ''converter table index'', Undefined ''no NUL''}"

definition on_error :: "('s \<Rightarrow> bool) \<Rightarrow> failure \<Rightarrow> 's \<Rightarrow> bool" where
  "on_error P e s \<longleftrightarrow> (case e of PgError msg \<Rightarrow> P s | _ \<Rightarrow> e \<in> load_ends)"

lemma on_error_simps [simp]:
  "on_error P (PgError msg) s = P s" "on_error P (Trap x) s \<longleftrightarrow> Trap x \<in> load_ends"
  "on_error P (Undefined x) s \<longleftrightarrow> Undefined x \<in> load_ends"
  by (simp_all add: on_error_def)

lemma load_ends_simps [simp]:
  "Trap ''!isnull'' \<in> load_ends" "Trap ''list_length(source_list) == 1'' \<in> load_ends"
  "Trap ''tuptable->tupdesc->natts == 11'' \<in> load_ends" "Undefined ''converter table index'' \<in> load_ends"
  "Undefined ''no NUL'' \<in> load_ends" "PgError msg \<notin> load_ends" "Undefined ''double free'' \<notin> load_ends"
  "Undefined ''pmod'' \<notin> load_ends"
  by (simp_all add: load_ends_def)

lemma map_res_Inl: "map_res f xs = Inl e \<Longrightarrow> \<exists>x \<in> set xs. f x = Inl e"
  by (induction xs) (auto simp: res_bind_def split: sum.splits)

lemma converters_end: "map_res (table_at table) ns = Inl e \<Longrightarrow> on_error P e s"
  by (auto simp: table_at_def split: if_splits dest!: map_res_Inl)

lemma c_string_end: "c_string bs = Inl e \<Longrightarrow> on_error P e s"
  by (auto simp: c_string_def split: if_splits)

text \<open>The plan owns all that is new.\<close>

definition plan_grown :: "engine \<Rightarrow> query_plan \<times> engine \<Rightarrow> bool" where
  "plan_grown en = (\<lambda>(p, en'). grown (owned_plan p) en en')"

lemma plan_grown_eq [simp]: "plan_grown en (p, en') = grown (owned_plan p) en en'"
  by (simp add: plan_grown_def)

definition statement_ready :: "spi \<Rightarrow> stored_query \<Rightarrow> prepared \<Rightarrow> query_plan \<Rightarrow> bool" where
  "statement_ready sp row pp p \<longleftrightarrow> (\<exists>sql text argtypes n.
     sq_sql row = Some sql \<and> sq_arg_oids row = Some argtypes \<and> c_string sql = Inr text \<and>
     sp_prepare sp text argtypes = Inr (Some pp) \<and> qp_plan p = Some (n, pp) \<and> qp_nargs p = length argtypes)"

lemma wp_init_statement:
  assumes "en_wf en"
  shows "wp (init_statement sp row) (zero_plan, en)
    (\<lambda>pp (p, en'). grown (owned_plan p) en en' \<and> statement_ready sp row pp p \<and>
       p = zero_plan\<lparr>qp_plan := qp_plan p, qp_nargs := qp_nargs p\<rparr>)
    (on_error (plan_grown en))"
  using assms grown_acquire[OF grown_refl[OF assms], of Plan]
  by (auto simp: init_statement_def statement_ready_def not_null_def zero_plan_def owned_plan_def c_string_end
      split: option.splits sum.splits prod.splits)

definition arguments_ready :: "stored_query \<Rightarrow> query_plan \<Rightarrow> bool" where
  "arguments_ready row p \<longleftrightarrow> (\<exists>fns. sq_arg_oids row = Some (qp_argtypes p) \<and> sq_arg_field_fn row = Some fns \<and>
     map_res (table_at wasm_to_pg_funcs) fns = Inr (qp_wasm_to_pg_funcs p) \<and>
     length fns = length (qp_argtypes p))"

lemma wp_init_arguments:
  assumes "en_wf en" "grown (owned_plan p0) en en1" "qp_block p0 = None" "qp_argtypes p0 = []"
    "qp_wasm_to_pg_funcs p0 = []"
  shows "wp (init_arguments row nattrs) (p0, en1)
    (\<lambda>_ (p, en'). grown (owned_plan p) en en' \<and> arguments_ready row p \<and>
       p = p0\<lparr>qp_block := qp_block p, qp_argtypes := qp_argtypes p, qp_wasm_to_pg_funcs := qp_wasm_to_pg_funcs p\<rparr>)
    (on_error (plan_grown en))"
  using assms grown_acquire[OF assms(2), of Block]
  by (auto simp: init_arguments_def arguments_ready_def not_null_def expect_length_def converters_end
      split: option.splits sum.splits)

definition results_ready :: "stored_query \<Rightarrow> nat \<Rightarrow> query_plan \<Rightarrow> bool" where
  "results_ready row nattrs p \<longleftrightarrow> (\<exists>rt. sq_ret_type row = Some [rt] \<and> qp_ret_type p = Some rt \<and>
     sq_ret_oids row = Some (qp_rettypes p) \<and> length (qp_rettypes p) = nattrs \<and>
     sq_ret_field_types row = Some (qp_ret_field_types p) \<and> length (qp_ret_field_types p) = nattrs)"

lemma wp_init_results:
  assumes "grown (owned_plan p0) en en1"
  shows "wp (init_results row nattrs) (p0, en1)
    (\<lambda>_ (p, en'). grown (owned_plan p) en en' \<and> results_ready row nattrs p \<and>
       p = p0\<lparr>qp_ret_type := qp_ret_type p, qp_rettypes := qp_rettypes p, qp_ret_field_types := qp_ret_field_types p\<rparr>)
    (on_error (plan_grown en))"
  using assms
  by (auto simp: init_results_def results_ready_def not_null_def expect_length_def length_Suc_conv
      split: option.splits sum.splits if_splits)

definition converters_ready :: "stored_query \<Rightarrow> nat \<Rightarrow> query_plan \<Rightarrow> bool" where
  "converters_ready row nattrs p \<longleftrightarrow> (\<exists>fns. sq_ret_field_fn row = Some fns \<and> length fns = nattrs \<and>
     map_res (table_at pg_to_wasm_funcs) fns = Inr (qp_pg_to_wasm_funcs p) \<and> qp_nattrs p = nattrs)"

lemma wp_init_result_converters:
  assumes "grown (owned_plan p0) en en1"
  shows "wp (init_result_converters row nattrs) (p0, en1)
    (\<lambda>_ (p, en'). grown (owned_plan p) en en' \<and> converters_ready row nattrs p \<and>
       p = p0\<lparr>qp_pg_to_wasm_funcs := qp_pg_to_wasm_funcs p, qp_nattrs := qp_nattrs p\<rparr>)
    (on_error (plan_grown en))"
  using assms
  by (auto simp: init_result_converters_def converters_ready_def not_null_def expect_length_def converters_end
      split: option.splits sum.splits if_splits)

definition plan_ready :: "spi \<Rightarrow> stored_query \<Rightarrow> query_plan \<Rightarrow> bool" where
  "plan_ready sp row p \<longleftrightarrow> (\<exists>pp. statement_ready sp row pp p \<and> arguments_ready row p \<and>
     (0 < pp_natts pp \<longrightarrow> results_ready row (pp_natts pp) p) \<and> converters_ready row (pp_natts pp) p)"

lemma wp_init_query_plan:
  assumes "en_wf en"
  shows "wp (rst_init_query_plan sp row) (zero_plan, en)
    (\<lambda>_ (p, en'). grown (owned_plan p) en en' \<and> plan_ready sp row p) (on_error (plan_grown en))"
  unfolding rst_init_query_plan_def wp_bind
proof (rule wp_mono[OF wp_init_statement[OF assms]], goal_cases)
  case (1 pp s1)
  obtain p1 en1 where s1: "s1 = (p1, en1)" by (cases s1)
  with 1 have p1: "grown (owned_plan p1) en en1" "statement_ready sp row pp p1"
    "p1 = zero_plan\<lparr>qp_plan := qp_plan p1, qp_nargs := qp_nargs p1\<rparr>" by auto
  have z: "qp_block p1 = None" "qp_argtypes p1 = []" "qp_wasm_to_pg_funcs p1 = []"
    by (subst p1(3), simp add: zero_plan_def)+
  show ?case unfolding s1 wp_then
  proof (rule wp_mono[OF wp_init_arguments[OF assms p1(1) z]], goal_cases)
    case (1 u s2)
    obtain p2 en2 where s2: "s2 = (p2, en2)" by (cases s2)
    with 1 have p2: "grown (owned_plan p2) en en2" "arguments_ready row p2" "p2 = p1\<lparr>qp_block := qp_block p2,
       qp_argtypes := qp_argtypes p2, qp_wasm_to_pg_funcs := qp_wasm_to_pg_funcs p2\<rparr>" by auto
    have st2: "statement_ready sp row pp p2" using p1(2) by (subst p2(3)) (simp add: statement_ready_def)
    show ?case unfolding s2 wp_then
    proof (rule wp_mono[where Q = "\<lambda>_ (p, en'). grown (owned_plan p) en en' \<and> statement_ready sp row pp p \<and>
        arguments_ready row p \<and> (0 < pp_natts pp \<longrightarrow> results_ready row (pp_natts pp) p)"
        and E = "on_error (plan_grown en)"], goal_cases)
      case 1
      show ?case
      proof (cases "0 < pp_natts pp")
        case True
        then show ?thesis unfolding wp_if if_P[OF True]
          by (rule_tac wp_mono[OF wp_init_results[OF p2(1)]])
            (clarsimp; erule ssubst; use st2 p2(2) in \<open>simp add: statement_ready_def arguments_ready_def\<close>)+
      qed (use p2 st2 in simp)
    next
      case (2 u s3)
      obtain p3 en3 where s3: "s3 = (p3, en3)" by (cases s3)
      with 2 have p3: "grown (owned_plan p3) en en3" "statement_ready sp row pp p3" "arguments_ready row p3"
        "0 < pp_natts pp \<longrightarrow> results_ready row (pp_natts pp) p3" by auto
      show ?case unfolding s3
      proof (rule wp_mono[OF wp_init_result_converters[OF p3(1)]], goal_cases)
        case (1 u s4)
        obtain p4 en4 where s4: "s4 = (p4, en4)" by (cases s4)
        with 1 have p4: "grown (owned_plan p4) en en4" "converters_ready row (pp_natts pp) p4"
          "p4 = p3\<lparr>qp_pg_to_wasm_funcs := qp_pg_to_wasm_funcs p4, qp_nattrs := qp_nattrs p4\<rparr>" by auto
        have "statement_ready sp row pp p4" "arguments_ready row p4"
          "0 < pp_natts pp \<longrightarrow> results_ready row (pp_natts pp) p4"
          using p3(2-4) by (subst p4(3), simp add: statement_ready_def arguments_ready_def results_ready_def)+
        with p4 s4 show ?case by (auto simp: plan_ready_def)
      qed simp
    qed simp
  qed simp
qed simp

lemma wp_free_query_plan:
  assumes "owned_plan p \<subseteq> en_live en" "Q () (en\<lparr>en_live := en_live en - owned_plan p\<rparr>)"
  shows "wp (rst_free_query_plan p) en Q E"
proof -
  have "en_live en - {Plan a} - {Block b} = en_live en - {Block b, Plan a}" for a b by auto
  with assms show ?thesis
    by (auto simp: rst_free_query_plan_def owned_plan_def split: option.splits)
qed

section \<open>Compiled rows as plans\<close>

text \<open>The row as the table keeps it: numbers are integers, the result type is a list of one.\<close>

definition stored_of :: "query_row \<Rightarrow> stored_query" where
  "stored_of row = \<lparr>sq_index = Some (qr_index row), sq_sql = Some (qr_sql row),
     sq_arg_oids = Some (qr_arg_oids row), sq_arg_field_fn = Some (map word_of_nat (qr_arg_field_fn row)),
     sq_ret_type = Some [qr_ret_type row], sq_ret_oids = Some (qr_ret_oids row),
     sq_ret_field_types = Some (qr_ret_field_types row),
     sq_ret_field_fn = Some (map word_of_nat (qr_ret_field_fn row))\<rparr>"

definition plan_for :: "query_row \<Rightarrow> query_plan \<Rightarrow> bool" where
  "plan_for row p \<longleftrightarrow> qp_nargs p = length (qr_arg_oids row) \<and> qp_argtypes p = qr_arg_oids row \<and>
     qp_wasm_to_pg_funcs p = map (\<lambda>n. wasm_to_pg_funcs ! n) (qr_arg_field_fn row) \<and>
     qp_nattrs p = length (qr_ret_oids row) \<and>
     qp_pg_to_wasm_funcs p = map (\<lambda>n. pg_to_wasm_funcs ! n) (qr_ret_field_fn row) \<and>
     (0 < qp_nattrs p \<longrightarrow> qp_ret_type p = Some (qr_ret_type row) \<and> qp_rettypes p = qr_ret_oids row \<and>
        qp_ret_field_types p = qr_ret_field_types row)"

lemma map_res_map: "(\<And>x. x \<in> set xs \<Longrightarrow> f (g x) = Inr (h x)) \<Longrightarrow> map_res f (map g xs) = Inr (map h xs)"
  by (induction xs) auto

lemma map_res_nth: "map_res f xs = Inr ys \<Longrightarrow> i < length xs \<Longrightarrow> f (xs ! i) = Inr (ys ! i)"
  by (induction xs arbitrary: ys i) (auto simp: res_bind_eq_Inr nth_Cons')

lemma map_res_table_at:
  assumes "\<forall>n \<in> set ns. n < length table" "length table < 2 ^ 31"
  shows "map_res (table_at table) (map word_of_nat ns) = Inr (map (\<lambda>n. table ! n) ns)"
  using assms by (intro map_res_map) (auto simp: table_at_def sint_of_nat32)

lemma row_tables:
  assumes "row_ok row"
  shows "map_res (table_at wasm_to_pg_funcs) (map word_of_nat (qr_arg_field_fn row)) =
      Inr (map (\<lambda>n. wasm_to_pg_funcs ! n) (qr_arg_field_fn row))"
    "map_res (table_at pg_to_wasm_funcs) (map word_of_nat (qr_ret_field_fn row)) =
      Inr (map (\<lambda>n. pg_to_wasm_funcs ! n) (qr_ret_field_fn row))"
  using assms by (auto simp: row_ok_def wasm_to_pg_funcs_def pg_to_wasm_funcs_def intro!: map_res_table_at)

lemma plan_ready_for:
  assumes "plan_ready sp (stored_of row) p" "row_ok row"
  shows "plan_for row p"
  using assms row_tables[OF assms(2)]
  by (auto simp: plan_ready_def statement_ready_def arguments_ready_def results_ready_def converters_ready_def
      plan_for_def stored_of_def row_ok_def)

lemma initialised_plan_for:
  assumes "rst_init_query_plan sp (stored_of row) (zero_plan, en) = (Inr (), (p, en'))" "en_wf en" "row_ok row"
  shows "plan_for row p"
  using wp_init_query_plan[OF assms(2), of sp "stored_of row"]
  by (auto simp: wp_def assms(1) intro: plan_ready_for[OF _ assms(3)])

text \<open>What Postgres has to answer for a compiled query: the number of columns the compiler saw.\<close>

definition prepares :: "spi \<Rightarrow> query_row \<Rightarrow> bool" where
  "prepares sp row \<longleftrightarrow> (\<exists>text pp. c_string (qr_sql row) = Inr text \<and>
     sp_prepare sp text (qr_arg_oids row) = Inr (Some pp) \<and> sp_keepplan sp text \<and> pp_sources pp = 1 \<and>
     pp_natts pp = length (qr_ret_oids row))"

lemma wp_init_compiled:
  assumes "en_wf en" "row_ok row" "prepares sp row"
  shows "wp (rst_init_query_plan sp (stored_of row)) (zero_plan, en)
    (\<lambda>_ (p, en'). grown (owned_plan p) en en' \<and> plan_for row p) (\<lambda>_ _. False)"
proof -
  note defs = rst_init_query_plan_def init_statement_def init_arguments_def init_results_def
    init_result_converters_def expect_length_def not_null_def
  have "wp (rst_init_query_plan sp (stored_of row)) (zero_plan, en) (\<lambda>_ _. True) (\<lambda>_ _. False)"
    using assms(2,3) row_tables[OF assms(2)]
    by (auto simp: defs stored_of_def row_ok_def prepares_def simp del: neq0_conv)
  from wp_conj[OF wp_init_query_plan[OF assms(1)] this] show ?thesis
    by (rule wp_mono) (auto dest: plan_ready_for[OF _ assms(2)])
qed

section \<open>Values in and out\<close>

lemma converter_choice:
  assumes "compile_query ps oid_type m qt query = Inr row" "plan_for row p"
  shows "qp_nargs p = length (qt_arg_field_types qt)" "qp_argtypes p = qr_arg_oids row"
    "length (qr_arg_oids row) = length (qt_arg_field_types qt)"
    "i < qp_nargs p \<Longrightarrow> \<exists>fn. wasm_to_pg m (qt_arg_field_types qt ! i) (qr_arg_oids row ! i) = Inr fn \<and>
      qp_wasm_to_pg_funcs p ! i = wasm_to_pg_funcs ! wasm_to_pg_num fn"
    "qp_nattrs p = length (qt_ret_field_types qt)" "length (qr_ret_oids row) = length (qt_ret_field_types qt)"
    "i < qp_nattrs p \<Longrightarrow> \<exists>fn. pg_to_wasm m (qr_ret_oids row ! i) (qt_ret_field_types qt ! i) = Inr fn \<and>
      qp_pg_to_wasm_funcs p ! i = pg_to_wasm_funcs ! pg_to_wasm_num fn \<and>
      qp_rettypes p ! i = qr_ret_oids row ! i \<and> qp_ret_field_types p ! i = qt_ret_field_types qt ! i"
proof -
  note c = compile_query_Inr[OF assms(1)] and ok = compile_query_row_ok[OF assms(1)]
  obtain fns where a: "map_res (\<lambda>(rt, oid). wasm_to_pg m rt oid) (zip (qt_arg_field_types qt) (qr_arg_oids row)) = Inr fns"
    "qr_arg_field_fn row = map wasm_to_pg_num fns" using c(4) by blast
  obtain rfns where r: "map_res (\<lambda>(oid, rt). pg_to_wasm m oid rt) (zip (qr_ret_oids row) (qt_ret_field_types qt)) = Inr rfns"
    "qr_ret_field_fn row = map pg_to_wasm_num rfns" using c(6) by blast
  show n: "qp_nargs p = length (qt_arg_field_types qt)" "qp_argtypes p = qr_arg_oids row"
    "length (qr_arg_oids row) = length (qt_arg_field_types qt)"
    using assms(2) c(3) by (simp_all add: plan_for_def)
  show rn: "qp_nattrs p = length (qt_ret_field_types qt)"
    and rl: "length (qr_ret_oids row) = length (qt_ret_field_types qt)"
    using assms(2) ok c(7) by (simp_all add: plan_for_def row_ok_def)
  show "\<exists>fn. wasm_to_pg m (qt_arg_field_types qt ! i) (qr_arg_oids row ! i) = Inr fn \<and>
      qp_wasm_to_pg_funcs p ! i = wasm_to_pg_funcs ! wasm_to_pg_num fn" if "i < qp_nargs p"
    using map_res_nth[OF a(1), of i] map_res_Inr[OF a(1)] that n assms(2) a(2) by (auto simp: plan_for_def)
  show "\<exists>fn. pg_to_wasm m (qr_ret_oids row ! i) (qt_ret_field_types qt ! i) = Inr fn \<and>
      qp_pg_to_wasm_funcs p ! i = pg_to_wasm_funcs ! pg_to_wasm_num fn \<and>
      qp_rettypes p ! i = qr_ret_oids row ! i \<and> qp_ret_field_types p ! i = qt_ret_field_types qt ! i"
    if "i < qp_nattrs p"
    using map_res_nth[OF r(1), of i] map_res_Inr[OF r(1)] that rn rl assms(2) r(2) c(7)
    by (auto simp: plan_for_def)
qed

lemma res_sat_Cons:
  assumes "res_sat F (P i) r" "res_sat F (\<lambda>vs. length vs = n \<and> (\<forall>k < n. P (Suc i + k) (vs ! k))) r'"
  shows "res_sat F (\<lambda>vs. length vs = Suc n \<and> (\<forall>k < Suc n. P (i + k) (vs ! k)))
    (res_bind r (\<lambda>v. res_bind r' (\<lambda>vs. Inr (v # vs))))"
  using assms by (cases r; cases r') (auto simp: All_less_Suc2)

lemma convert_args_sound:
  assumes "\<And>j. i \<le> j \<Longrightarrow> j < i + n \<Longrightarrow> res_sat F (P j) ((qp_wasm_to_pg_funcs p ! j) (qp_argtypes p ! j) (vs ! j))"
    and "n = 0 \<or> args = V_Obj (WStruct h vs)" "i + n \<le> length vs"
  shows "res_sat F (\<lambda>ds. length ds = n \<and> (\<forall>k < n. P (i + k) (ds ! k))) (convert_args p args i n)"
  using assms
proof (induction n arbitrary: i)
  case (Suc n)
  have "get_field args i = Inr (vs ! i)" using Suc.prems by (simp add: get_field_def)
  moreover have "res_sat F (\<lambda>ds. length ds = n \<and> (\<forall>k < n. P (Suc i + k) (ds ! k))) (convert_args p args (Suc i) n)"
    using Suc.prems by (intro Suc.IH) auto
  moreover have "res_sat F (P i) ((qp_wasm_to_pg_funcs p ! i) (qp_argtypes p ! i) (vs ! i))"
    using Suc.prems(1)[of i] by simp
  ultimately show ?case by (simp add: res_sat_Cons)
qed simp

lemma lower_columns_sound:
  assumes "\<And>j. i \<le> j \<Longrightarrow> j < i + n \<Longrightarrow>
      res_sat F (P j) ((qp_pg_to_wasm_funcs p ! j) (cx_module cx) (Some tuple) (qp_rettypes p ! j)
        (qp_ret_field_types p ! j) (row ! j))"
    and "i + n \<le> length row"
  shows "res_sat F (\<lambda>vs. length vs = n \<and> (\<forall>k < n. P (i + k) (vs ! k))) (lower_columns cx tuple p row i n)"
  using assms
proof (induction n arbitrary: i)
  case (Suc n)
  have "res_sat F (\<lambda>vs. length vs = n \<and> (\<forall>k < n. P (Suc i + k) (vs ! k))) (lower_columns cx tuple p row (Suc i) n)"
    using Suc.prems by (intro Suc.IH) auto
  moreover have "res_sat F (P i) ((qp_pg_to_wasm_funcs p ! i) (cx_module cx) (Some tuple) (qp_rettypes p ! i)
        (qp_ret_field_types p ! i) (row ! i))"
    using Suc.prems(1)[of i] by simp
  moreover have "i < length row" using Suc.prems(2) by simp
  ultimately show ?case by (simp only: lower_columns.simps Let_def if_True res_sat_Cons)
qed simp

lemma set_field_ok:
  "get_field v i = Inr y \<Longrightarrow> \<exists>v'. set_field v i x = Inr v' \<and>
    (\<forall>j. get_field v' j = (if j = i then Inr x else get_field v j))"
  by (auto simp: get_field_def set_field_def split: wvalue.splits wobj.splits if_splits)

lemma case_None_eq_Inr:
  "(case x of None \<Rightarrow> Inl e | Some y \<Rightarrow> f y) = Inr z \<longleftrightarrow> (\<exists>y. x = Some y \<and> f y = Inr z)"
  by (cases x) auto

lemma compile_query_type_ret:
  assumes "compile_query_type m rt = Inr qt" "qt_ret_field_types qt \<noteq> []"
  shows "wm_defined_type m (rt_heap (qt_ret_type qt)) = Some (StructType (qt_ret_field_types qt))"
proof -
  obtain box_fields ret_fields where b: "(if rt_value (box_fields ! 0) = VALUE_TYPE_I32 then Inr (Some [])
        else wasm_ref_type_get_referred_struct (box_fields ! 0) m True) = Inr (Some ret_fields)"
    "qt_ret_type qt = box_fields ! 0" "qt_ret_field_types qt = ret_fields"
    using assms(1) unfolding compile_query_type_def
      res_bind_eq_Inr if_Inl_eq_Inr case_None_eq_Inr sum.inject
    by (elim exE conjE, hypsubst) (rule that, assumption, simp_all)
  then have "wasm_ref_type_get_referred_struct (box_fields ! 0) m True = Inr (Some ret_fields)"
    using assms(2) by (simp split: if_splits)
  from referred_struct_Some[OF this] b show ?thesis by simp
qed

text \<open>The plan of a query is at its number, and the query object is where the code looks.\<close>

definition query_at :: "inst_context \<Rightarrow> i32 \<Rightarrow> query_plan \<Rightarrow> wvalue \<Rightarrow> bool" where
  "query_at cx idx p query \<longleftrightarrow> 0 \<le> sint idx \<and> nat (sint idx) < length (cx_plans cx) \<and>
     cx_plans cx ! nat (sint idx) = p \<and> get_field (cx_queries cx) (nat (sint idx)) = Inr query"

text \<open>
  What a column becomes. An SQL NULL is not looked at: a number becomes 0, a host object gets the
  null datum, an array of integers cannot be read at all.
\<close>

definition null_column :: "wasm_module \<Rightarrow> ref_type \<Rightarrow> wvalue \<Rightarrow> bool" where
  "null_column m rt v \<longleftrightarrow>
     (if is_extern m rt then \<exists>ob. v = V_Obj (WHost (Externref (Anyref ob))) \<and> ob_body ob = BodyDatum DNull
      else v = default_value (rt_value rt))"

definition column_ok :: "wasm_module \<Rightarrow> ref_type \<Rightarrow> datum \<Rightarrow> wvalue \<Rightarrow> bool" where
  "column_ok m rt d v \<longleftrightarrow> (if d = DNull then null_column m rt v else wasm_value_ok m rt v)"

definition null_array :: "pg_type list \<Rightarrow> datum list \<Rightarrow> bool" where
  "null_array oids cols \<longleftrightarrow>
     (\<exists>k < length oids. oids ! k \<in> {INT2ARRAYOID, INT4ARRAYOID} \<and> cols ! k = DNull)"

lemma null_sound:
  assumes "pg_to_wasm m oid rt = Inr fn" "type_wf m rt"
  shows "res_sat (if oid \<in> {INT2ARRAYOID, INT4ARRAYOID} then {Undefined ''DatumGetArrayTypeP''} else {})
    (null_column m rt) ((pg_to_wasm_funcs ! pg_to_wasm_num fn) m tuple oid rt DNull)"
proof -
  have "\<not> is_extern m rt" if "rt_value rt \<in> {VALUE_TYPE_I32, VALUE_TYPE_I64, VALUE_TYPE_F32, VALUE_TYPE_F64}"
    using assms(2) that by (auto simp: type_wf_def)
  then show ?thesis
    using pg_to_wasm_Inr[OF assms(1)]
    by (cases fn) (auto simp: pg_to_wasm_funcs_def to_wasm_defs datum_word_def null_column_def
        rst_externref_of_obj_def rst_obj_new_def deconstruct_array_def)
qed

lemma columns_lowered:
  assumes "compile_query ps oid_type m qt q = Inr row" "plan_for row p" "cx_module cx = m"
    and "list_all2 (\<lambda>oid d. d = DNull \<or> pg_value_ok oid d) (qr_ret_oids row) cols"
    and "\<forall>t \<in> set (qt_ret_field_types qt). type_wf m t"
  shows "res_sat (if null_array (qr_ret_oids row) cols then {Undefined ''DatumGetArrayTypeP''} else {})
    (\<lambda>vs. length vs = qp_nattrs p \<and> (\<forall>k < qp_nattrs p. column_ok m (qt_ret_field_types qt ! k) (cols ! k) (vs ! k)))
    (lower_columns cx tuple p cols 0 (qp_nattrs p))"
proof -
  note ch = converter_choice[OF assms(1,2)]
  let ?F = "if null_array (qr_ret_oids row) cols then {Undefined ''DatumGetArrayTypeP''} else {}"
  have len: "length cols = qp_nattrs p" using assms(4) ch(5,6) by (simp add: list_all2_lengthD)
  have "res_sat ?F (column_ok m (qt_ret_field_types qt ! j) (cols ! j))
      ((qp_pg_to_wasm_funcs p ! j) (cx_module cx) (Some tuple) (qp_rettypes p ! j) (qp_ret_field_types p ! j) (cols ! j))"
    if j: "j < qp_nattrs p" for j
  proof -
    obtain fn where fn: "pg_to_wasm m (qr_ret_oids row ! j) (qt_ret_field_types qt ! j) = Inr fn"
      "qp_pg_to_wasm_funcs p ! j = pg_to_wasm_funcs ! pg_to_wasm_num fn"
      "qp_rettypes p ! j = qr_ret_oids row ! j" "qp_ret_field_types p ! j = qt_ret_field_types qt ! j"
      using ch(7)[OF j] by blast
    have t: "type_wf m (qt_ret_field_types qt ! j)" using assms(5) j ch(5) by simp
    show ?thesis
    proof (cases "cols ! j = DNull")
      case True
      with null_sound[OF fn(1) t, of "Some tuple"] fn(2-4) assms(3) j ch(5,6) show ?thesis
        by (auto simp: column_ok_def null_array_def elim!: res_sat_mono split: if_splits)
    next
      case False
      then have "pg_value_ok (qr_ret_oids row ! j) (cols ! j)"
        using assms(4) j len by (auto dest: list_all2_nthD2)
      with pg_to_wasm_sound[OF fn(1) _ t, of "cols ! j" "Some tuple"] fn(2-4) assms(3) False show ?thesis
        by (auto simp: column_ok_def elim!: res_sat_mono)
    qed
  qed
  then show ?thesis
    using lower_columns_sound[of 0 "qp_nattrs p" ?F "\<lambda>j. column_ok m (qt_ret_field_types qt ! j) (cols ! j)" p cx tuple cols] len
    by simp
qed

lemma null_array_fails:
  assumes "compile_query ps oid_type m qt q = Inr row" "plan_for row p" "null_array (qr_ret_oids row) cols"
    and "length cols = qp_nattrs p"
  shows "lower_columns cx tuple p cols 0 (qp_nattrs p) \<noteq> Inr vs"
proof -
  obtain k where k: "k < qp_nattrs p" "qr_ret_oids row ! k \<in> {INT2ARRAYOID, INT4ARRAYOID}" "cols ! k = DNull"
    using assms(2,3) by (auto simp: null_array_def plan_for_def)
  obtain fn where fn: "pg_to_wasm m (qr_ret_oids row ! k) (qt_ret_field_types qt ! k) = Inr fn"
    "qp_pg_to_wasm_funcs p ! k = pg_to_wasm_funcs ! pg_to_wasm_num fn"
    using converter_choice(7)[OF assms(1,2) k(1)] by blast
  then have "fn \<in> {Fn_int2_array_to_i32_array, Fn_int4_array_to_i32_array}"
    using pg_to_wasm_Inr[OF fn(1)] k(2) by auto
  then have bad: "\<nexists>v. (qp_pg_to_wasm_funcs p ! k) mm t oid rt DNull = Inr v" for mm t oid rt
    using fn(2) by (auto simp: pg_to_wasm_funcs_def to_wasm_defs deconstruct_array_def)
  have "\<nexists>vs. lower_columns cx tuple p cols i n = Inr vs" if "i \<le> k" "k < i + n" for i n
    using that
  proof (induction n arbitrary: i)
    case (Suc n)
    show ?case
    proof (cases "i = k")
      case True
      with bad k assms(4) show ?thesis by (auto simp: res_bind_eq_Inr)
    next
      case False
      with Suc show ?thesis by (auto simp: res_bind_eq_Inr Let_def)
    qed
  qed simp
  from this[of 0 "qp_nattrs p"] k(1) show ?thesis by auto
qed

section \<open>Properties\<close>

text \<open>
  C6: when a compiled query is executed with arguments of the types the application declared,
  every value handed to \<open>SPI_execute_plan\<close> is a value of the Postgres type the statement was
  prepared with, and there are as many as it has parameters. The only errors are a host object
  that is not a datum or one of another Postgres type.
\<close>
lemma arguments_type_safe:
  assumes "compile_query ps oid_type m qt q = Inr row"
    and "rst_init_query_plan sp (stored_of row) (zero_plan, en) = (Inr (), (p, en'))" "en_wf en"
    and "query_at cx idx p query" "get_field query 3 = Inr (V_Obj (WStruct h vs))"
    and "list_all2 (wasm_value_ok m) (qt_arg_field_types qt) vs"
  shows "res_sat datum_errors (\<lambda>(p', ds). p' = p \<and> list_all2 pg_value_ok (qr_arg_oids row) ds)
    (env_execute_statement cx idx)"
proof -
  have pf: "plan_for row p" using initialised_plan_for[OF assms(2,3) compile_query_row_ok[OF assms(1)]] .
  note ch = converter_choice[OF assms(1) pf]
  have len: "length vs = qp_nargs p" using assms(6) ch(1) by (simp add: list_all2_lengthD)
  have "res_sat datum_errors (pg_value_ok (qr_arg_oids row ! j))
      ((qp_wasm_to_pg_funcs p ! j) (qp_argtypes p ! j) (vs ! j))" if "j < qp_nargs p" for j
    using ch(4)[OF that] wasm_to_pg_sound list_all2_nthD2[OF assms(6)] that len ch(2) by metis
  then have "res_sat datum_errors (\<lambda>ds. length ds = qp_nargs p \<and> (\<forall>k < qp_nargs p. pg_value_ok (qr_arg_oids row ! k) (ds ! k)))
      (convert_args p (V_Obj (WStruct h vs)) 0 (qp_nargs p))"
    using convert_args_sound[of 0 "qp_nargs p" datum_errors "\<lambda>j. pg_value_ok (qr_arg_oids row ! j)" p vs
        "V_Obj (WStruct h vs)" h] len by simp
  then have "res_sat datum_errors (list_all2 pg_value_ok (qr_arg_oids row))
      (convert_args p (V_Obj (WStruct h vs)) 0 (qp_nargs p))"
    by (rule res_sat_mono) (use ch(1,3) in \<open>auto simp: list_all2_conv_all_nth\<close>)
  moreover have "find_plan cx idx = Inr p" using assms(4) by (auto simp: query_at_def find_plan_def)
  ultimately show ?thesis using assms(4,5)
    by (cases "convert_args p (V_Obj (WStruct h vs)) 0 (qp_nargs p)")
      (simp_all add: env_execute_statement_def read_args_def query_at_def)
qed

definition no_engine :: engine where
  "no_engine = \<lparr>en_next = 0, en_live = {}, en_registry = []\<rparr>"

definition demo_spi :: spi where
  "demo_spi = \<lparr>sp_prepare = (\<lambda>_ _. Inr (Some \<lparr>pp_sources = 1, pp_natts = 2, pp_cursor = True\<rparr>)),
     sp_keepplan = (\<lambda>_. True)\<rparr>"

definition demo_context :: "query_plan \<Rightarrow> inst_context" where
  "demo_context p = \<lparr>cx_module = demo_module, cx_plans = [p], cx_queries = demo_queries\<rparr>"

lemma demo_compiled:
  "compile_query (demo_parser demo_targets) demo_oid demo_module demo_query_type demo_query = Inr demo_row"
  by simp

lemma demo_prepared:
  obtains p en' where "rst_init_query_plan demo_spi (stored_of demo_row) (zero_plan, no_engine) = (Inr (), (p, en'))"
    "en_wf no_engine" "query_at (demo_context p) 0 p demo_query"
proof -
  have wf: "en_wf no_engine" by (simp add: en_wf_def no_engine_def)
  have "prepares demo_spi demo_row"
    by (auto simp: prepares_def demo_row_def demo_spi_def c_string_def)
  from wp_init_compiled[OF wf compile_query_row_ok[OF demo_compiled] this]
  obtain p en' where "rst_init_query_plan demo_spi (stored_of demo_row) (zero_plan, no_engine) = (Inr (), (p, en'))"
    by (auto simp: wp_def split: prod.splits sum.splits)
  moreover have "query_at (demo_context p) 0 p demo_query"
    by (simp add: query_at_def demo_context_def demo_queries_def get_field_def)
  ultimately show thesis using wf by (rule_tac that)
qed

lemma demo_types_wf: "\<forall>t \<in> set (qt_ret_field_types demo_query_type). type_wf demo_module t"
  by (auto simp: demo_query_type_def type_wf_def is_extern_def i32_type_def extern_type_def demo_module_def
      int_array_type_def validate_moonbit_array_def wasm_ref_type_get_referred_struct_def
      wasm_get_defined_type_def)

lemma arguments_type_safe_witness:
  "\<exists>p. res_sat datum_errors (\<lambda>(p', ds). p' = p \<and> list_all2 pg_value_ok [INT4OID, INT4ARRAYOID] ds)
    (env_execute_statement (demo_context p) 0)"
proof (rule demo_prepared)
  fix p en'
  assume "rst_init_query_plan demo_spi (stored_of demo_row) (zero_plan, no_engine) = (Inr (), (p, en'))"
    "en_wf no_engine" "query_at (demo_context p) 0 p demo_query"
  moreover have "get_field demo_query 3 = Inr (V_Obj (WStruct (HEAP_TYPE_INDEX 2) [V_I32 5, demo_array [10, 20]]))"
    by (simp add: demo_query_def get_field_def demo_args_def)
  moreover have "list_all2 (wasm_value_ok demo_module) (qt_arg_field_types demo_query_type) [V_I32 5, demo_array [10, 20]]"
  proof -
    have "moonbit_array (demo_array [10, 20]) [10, 20]"
      by (simp add: moonbit_array_def demo_array_def MaxAllocSize_def)
    moreover have "\<not> is_extern demo_module (nn_ref 7)" "\<not> is_extern demo_module i32_type"
      "\<not> int_array_type demo_module i32_type"
      using int_array_type_value[of demo_module i32_type]
      by (auto simp: is_extern_def demo_module_def nn_ref_def i32_type_def)
    ultimately show ?thesis by (auto simp: demo_query_type_def wasm_value_ok_def)
  qed
  ultimately have "res_sat datum_errors (\<lambda>(p', ds). p' = p \<and> list_all2 pg_value_ok (qr_arg_oids demo_row) ds)
      (env_execute_statement (demo_context p) 0)"
    by (rule arguments_type_safe[OF demo_compiled])
  then show ?thesis by (auto simp: demo_row_def)
qed

text \<open>
  C8: lowering a row of a compiled query, whose columns have the types Postgres described or are
  SQL NULLs. With a NULL in a column that is read as an array of integers the call is undefined.
  Otherwise it never fails: the application's box then holds a struct of the result type with a
  value of the right WebAssembly type in each field, or with 0 or the null datum where the
  column is NULL; no other query and no other field of the query changes.
\<close>
lemma rows_type_safe:
  assumes "compile_query_type m rt = Inr qt" "compile_query ps oid_type m qt q = Inr row"
    and "rst_init_query_plan sp (stored_of row) (zero_plan, en) = (Inr (), (p, en'))" "en_wf en"
    and "query_at cx idx p query" "get_field query 4 = Inr (V_Obj (WStruct hb (b # bs)))"
    and "cx_module cx = m" "list_all2 (\<lambda>oid d. d = DNull \<or> pg_value_ok oid d) (qr_ret_oids row) cols"
    and "\<forall>t \<in> set (qt_ret_field_types qt). type_wf m t" "qt_ret_field_types qt \<noteq> []"
  shows "if null_array (qr_ret_oids row) cols
    then env_tuple_lower cx idx tuple cols = Inl (Undefined ''DatumGetArrayTypeP'')
    else \<exists>cx' query' vs. env_tuple_lower cx idx tuple cols = Inr cx' \<and> query_at cx' idx p query' \<and>
      get_field query' 4 = Inr (V_Obj (WStruct hb (V_Obj (WStruct (rt_heap (qt_ret_type qt)) vs) # bs))) \<and>
      length vs = length (qt_ret_field_types qt) \<and>
      (\<forall>k < length vs. column_ok m (qt_ret_field_types qt ! k) (cols ! k) (vs ! k)) \<and>
      (\<forall>j. j \<noteq> 4 \<longrightarrow> get_field query' j = get_field query j) \<and>
      (\<forall>j. j \<noteq> nat (sint idx) \<longrightarrow> get_field (cx_queries cx') j = get_field (cx_queries cx) j)"
proof -
  let ?i = "nat (sint idx)" and ?h = "rt_heap (qt_ret_type qt)"
  have pf: "plan_for row p" using initialised_plan_for[OF assms(3,4) compile_query_row_ok[OF assms(2)]] .
  note ch = converter_choice[OF assms(2) pf]
  have len: "length cols = qp_nattrs p" using assms(8) ch(5,6) by (simp add: list_all2_lengthD)
  note low = columns_lowered[OF assms(2) pf assms(7,8,9), of tuple]
  have defs: "qp_nattrs p \<noteq> 0" "qp_ret_type p = Some (qt_ret_type qt)"
    "wasm_get_defined_type m ?h = Inr (StructType (qt_ret_field_types qt))"
    using assms(10) ch(5) pf compile_query_type_ret[OF assms(1,10)] compile_query_Inr(9)[OF assms(2)]
    by (auto simp: plan_for_def wasm_get_defined_type_def)
  have q: "get_field (cx_queries cx) ?i = Inr query" "0 \<le> sint idx" "?i < length (cx_plans cx)" "cx_plans cx ! ?i = p"
    using assms(5) by (auto simp: query_at_def)
  show ?thesis
  proof (cases "null_array (qr_ret_oids row) cols")
    case True
    with low null_array_fails[OF assms(2) pf True len]
    have "lower_columns cx tuple p cols 0 (qp_nattrs p) = Inl (Undefined ''DatumGetArrayTypeP'')"
      by (cases "lower_columns cx tuple p cols 0 (qp_nattrs p)") auto
    then have "env_tuple_lower cx idx tuple cols = Inl (Undefined ''DatumGetArrayTypeP'')"
      using q assms(6,7) defs ch(5) by (simp add: env_tuple_lower_def Let_def)
    with True show ?thesis by simp
  next
    case False
    with low obtain vs where vs: "lower_columns cx tuple p cols 0 (qp_nattrs p) = Inr vs" "length vs = qp_nattrs p"
      "\<forall>k < qp_nattrs p. column_ok m (qt_ret_field_types qt ! k) (cols ! k) (vs ! k)"
      by (cases "lower_columns cx tuple p cols 0 (qp_nattrs p)") auto
    define box where "box = V_Obj (WStruct hb (V_Obj (WStruct ?h vs) # bs))"
    obtain query' where query': "set_field query 4 box = Inr query'"
      "\<forall>j. get_field query' j = (if j = 4 then Inr box else get_field query j)"
      using set_field_ok[OF assms(6), of box] by blast
    obtain queries' where queries': "set_field (cx_queries cx) ?i query' = Inr queries'"
      "\<forall>j. get_field queries' j = (if j = ?i then Inr query' else get_field (cx_queries cx) j)"
      using set_field_ok[OF q(1), of query'] by blast
    have "set_field (V_Obj (WStruct hb (b # bs))) 0 (V_Obj (WStruct ?h vs)) = Inr box"
      by (simp add: set_field_def box_def)
    then have "env_tuple_lower cx idx tuple cols = Inr (cx\<lparr>cx_queries := queries'\<rparr>)"
      using q assms(6,7) vs(1) defs ch(5) query'(1) queries'(1) by (simp add: env_tuple_lower_def Let_def)
    moreover have "query_at (cx\<lparr>cx_queries := queries'\<rparr>) idx p query'"
      using q queries'(2) by (simp add: query_at_def)
    ultimately show ?thesis using query'(2) queries'(2) vs(2,3) ch(5) False by (auto simp: box_def)
  qed
qed

text \<open>A row whose number is NULL.\<close>

lemma rows_type_safe_witness:
  "\<exists>p cx' query' v. env_tuple_lower (demo_context p) 0 (rst_obj_new OBJ_HEAP_TUPLE None {} (OtherOid 0) 0 (BodyHeapTuple 0))
      [DNull, DPointer TEXTOID [104, 105]] = Inr cx' \<and>
    get_field query' 4 = Inr (V_Obj (WStruct (HEAP_TYPE_INDEX 4) [V_Obj (WStruct (HEAP_TYPE_INDEX 3) [V_I32 0, v])])) \<and>
    wasm_value_ok demo_module extern_type v"
proof (rule demo_prepared)
  fix p en'
  assume p: "rst_init_query_plan demo_spi (stored_of demo_row) (zero_plan, no_engine) = (Inr (), (p, en'))"
    "en_wf no_engine" "query_at (demo_context p) 0 p demo_query"
  have a: "get_field demo_query 4 = Inr (V_Obj (WStruct (HEAP_TYPE_INDEX 4) [V_Obj (WHost NullRef)]))"
    by (simp add: demo_query_def get_field_def)
  have c: "list_all2 (\<lambda>oid d. d = DNull \<or> pg_value_ok oid d) (qr_ret_oids demo_row) [DNull, DPointer TEXTOID [104, 105]]"
    "\<not> null_array (qr_ret_oids demo_row) [DNull, DPointer TEXTOID [104, 105]]"
    by (auto simp: demo_row_def null_array_def less_Suc_eq)
  have n: "\<not> is_extern demo_module i32_type" by (simp add: is_extern_def i32_type_def demo_module_def)
  from rows_type_safe[OF demo_query_type demo_compiled p a _ c(1) demo_types_wf,
      of "rst_obj_new OBJ_HEAP_TUPLE None {} (OtherOid 0) 0 (BodyHeapTuple 0)"] c(2) n
  show ?thesis
    by (auto simp: demo_context_def demo_query_type_def null_ref_def length_Suc_conv All_less_Suc2 column_ok_def
        null_column_def i32_type_def) blast
qed

end
