(* ===== verification/Module.thy ===== *)
theory Module
  imports QueryProps
begin

text \<open>
  Loading a module (\<open>module.c\<close>): its prepared queries are made first, then its binary code is
  taken from the database and loaded into WAMR, with handlers that give everything back when a
  step fails. SPI's answers and WAMR are parameters. The local variables that are changed
  inside \<open>PG_TRY\<close> and read by the handler are taken to keep their values (they are not
  \<open>volatile\<close> in the source). Memory of the current context is not tracked, Postgres frees it.
\<close>

section \<open>Data\<close>

text \<open>\<open>pm_block\<close> is the allocation of the structure, which is also the address of its name.\<close>

record prepared_module =
  pm_name :: "byte list"
  pm_module :: "nat option"
  pm_loading_tuptable :: "nat option"
  pm_heap_types :: "i32 list"
  pm_queries :: "query_plan list"
  pm_block :: nat

definition RST_MODULE_NAME_MAXLEN :: nat where "RST_MODULE_NAME_MAXLEN = 127"

text \<open>The two statements \<open>rst_module_worker_startup\<close> prepares, as functions of the name: they raise an
  error, or give rows.\<close>

record module_db =
  md_queries :: "byte list \<Rightarrow> stored_query list answer"
  md_natts :: nat \<comment> \<open>columns of \<open>rustica.queries\<close>\<close>
  md_modules :: "byte list \<Rightarrow> (byte list option \<times> i32 list option) list answer"

datatype load_result = LoadFailed | Wasm_Module_Bytecode | Wasm_Module_AoT nat \<comment> \<open>\<open>type_count\<close>\<close>

type_synonym registry = "(byte list \<times> nat \<times> nat) list"

record wamr =
  wr_load :: "byte list \<Rightarrow> load_result"
  wr_rtt_type_new :: "byte list \<Rightarrow> nat \<Rightarrow> bool"
  wr_register :: "registry \<Rightarrow> byte list \<Rightarrow> bool"
  wr_find :: "registry \<Rightarrow> byte list \<Rightarrow> (byte list \<times> nat \<times> nat) option"

section \<open>Freeing\<close>

definition unregister_module :: "nat \<Rightarrow> (engine, unit) act" where
  "unregister_module m =
     act_modify (\<lambda>en. en\<lparr>en_registry := filter (\<lambda>(_, m', _). m' \<noteq> m) (en_registry en)\<rparr>)"

definition free_aot_module :: "nat option \<Rightarrow> (engine, unit) act" where
  "free_aot_module module =
     (case module of
        None \<Rightarrow> act_return ()
      | Some m \<Rightarrow> act_then (unregister_module m) (release (Module m)))"

definition rst_free_module :: "prepared_module \<Rightarrow> (engine, unit) act" where
  "rst_free_module pm =
     act_then (act_each rst_free_query_plan (pm_queries pm))
     (act_then (free_aot_module (pm_module pm))
     (act_then (release_opt Table (pm_loading_tuptable pm))
       (release (Block (pm_block pm)))))"

section \<open>Creating\<close>

definition zero_module :: "nat \<Rightarrow> nat \<Rightarrow> prepared_module" where
  "zero_module b n = \<lparr>pm_name = [], pm_module = None, pm_loading_tuptable = None, pm_heap_types = [0],
     pm_queries = replicate n zero_plan, pm_block = b\<rparr>"

text \<open>An action on \<open>&pmod->queries[i]\<close>.\<close>

definition on_plan :: "nat \<Rightarrow> (query_plan \<times> engine, unit) act \<Rightarrow> (prepared_module \<times> engine, unit) act" where
  "on_plan i m = (\<lambda>(pm, en). case m (pm_queries pm ! i, en) of
     (r, (p, en')) \<Rightarrow> (r, (pm\<lparr>pm_queries := (pm_queries pm)[i := p]\<rparr>, en')))"

definition load_query :: "spi \<Rightarrow> stored_query list \<Rightarrow> nat \<Rightarrow> (prepared_module \<times> engine, unit) act" where
  "load_query sp rows i =
     act_bind (act_lift (not_null (sq_index (rows ! i)))) (\<lambda>idx.
       if int i \<noteq> sint idx then act_lift (Inl (PgError ''bad query index %d: expect %d''))
       else on_plan i (rst_init_query_plan sp (rows ! i)))"

definition free_local :: "(prepared_module \<times> engine, unit) act" where
  "free_local = act_bind (act_gets fst) (\<lambda>pm. act_global (rst_free_module pm))"

definition create_module_with_queries ::
  "module_db \<Rightarrow> spi \<Rightarrow> byte list \<Rightarrow> (engine, prepared_module) act" where
  "create_module_with_queries db sp name =
     act_bind (act_lift (raised (md_queries db name))) (\<lambda>rows.
     act_bind (acquire Table) (\<lambda>t.
       if md_natts db \<noteq> 11 then act_lift (Inl (Trap ''tuptable->tupdesc->natts == 11''))
       else pg_finally
         (act_bind (acquire Block) (\<lambda>b.
            act_local (zero_module b (length rows))
              (pg_catch
                (act_then (act_modify (\<lambda>(pm, en). (pm\<lparr>pm_name := name\<rparr>, en)))
                  (act_each (load_query sp rows) [0..<length rows]))
                free_local)))
         (release (Table t))))"

section \<open>Loading\<close>

text \<open>\<open>CommonHeapTypes\<close> has one member.\<close>

definition load_heap_types :: "i32 list \<Rightarrow> i32 list res" where
  "load_heap_types xs = (if length xs \<noteq> 1 then Inl (PgError ''expected %d heap types, actual: %d'') else Inr xs)"

definition load_aot_module :: "wamr \<Rightarrow> byte list \<Rightarrow> nat \<Rightarrow> byte list \<Rightarrow> (engine, nat) act" where
  "load_aot_module w name b bin =
     (case wr_load w bin of
        LoadFailed \<Rightarrow> act_lift (Inl (PgError ''bad WASM bin_code of module''))
      | Wasm_Module_Bytecode \<Rightarrow>
          act_bind (acquire Module) (\<lambda>m.
          act_then (release (Module m)) (act_lift (Inl (PgError ''WASM bin_code of module is not AoT-compiled''))))
      | Wasm_Module_AoT type_count \<Rightarrow>
          act_bind (acquire Module) (\<lambda>m.
          act_then
            (pg_catch
              (act_then
                (act_each (\<lambda>i. if wr_rtt_type_new w bin i then act_return ()
                    else act_lift (Inl (PgError ''failed to create rtt object''))) [0..<type_count])
                (act_bind (act_gets en_registry) (\<lambda>reg.
                  if \<not> wr_register w reg name then act_lift (Inl (PgError ''cannot register module''))
                  else act_modify (\<lambda>en. en\<lparr>en_registry := (name, m, b) # en_registry en\<rparr>))))
              (release (Module m)))
            (act_return m)))"

type_synonym prepare_locals = "prepared_module option \<times> nat option" \<comment> \<open>\<open>pmod\<close> and \<open>tuptable\<close>\<close>

definition set_pmod :: "(prepared_module \<Rightarrow> prepared_module) \<Rightarrow> (prepare_locals \<times> engine, unit) act" where
  "set_pmod f = act_modify (\<lambda>((pmod, tup), en). ((map_option f pmod, tup), en))"

definition set_tuptable :: "nat option \<Rightarrow> (prepare_locals \<times> engine, unit) act" where
  "set_tuptable t = act_modify (\<lambda>((pmod, tup), en). ((pmod, t), en))"

definition prepare_body ::
  "module_db \<Rightarrow> spi \<Rightarrow> wamr \<Rightarrow> byte list \<Rightarrow> bool \<Rightarrow> (prepare_locals \<times> engine, unit) act" where
  "prepare_body db sp w name buffer =
     act_bind (act_global (create_module_with_queries db sp name)) (\<lambda>pm.
     act_then (act_modify (\<lambda>((_, tup), en). ((Some pm, tup), en)))
     (act_bind (act_lift (raised (md_modules db name))) (\<lambda>rows.
      act_bind (act_global (acquire Table)) (\<lambda>t.
      act_then (set_tuptable (Some t))
      (case rows of
         [] \<Rightarrow> act_lift (Inl (PgError ''module doesn't exist''))
       | (bin_code, heap_types) # _ \<Rightarrow>
           act_bind (act_lift (not_null bin_code)) (\<lambda>bin.
           act_bind (act_lift (not_null heap_types)) (\<lambda>types.
           act_bind (act_lift (load_heap_types types)) (\<lambda>types.
           act_then (set_pmod (\<lambda>pm. pm\<lparr>pm_heap_types := types\<rparr>))
           (if buffer then set_pmod (\<lambda>pm. pm\<lparr>pm_loading_tuptable := Some t\<rparr>)
            else
              act_bind (act_global (load_aot_module w name (pm_block pm) bin)) (\<lambda>m.
              act_then (set_pmod (\<lambda>pm. pm\<lparr>pm_module := Some m\<rparr>))
              (act_then (act_global (release (Table t))) (set_tuptable None))))))))))))"

definition prepare_catch :: "(prepare_locals \<times> engine, unit) act" where
  "prepare_catch =
     act_bind (act_gets fst) (\<lambda>(pmod, tup).
     act_then (act_global (case pmod of None \<Rightarrow> act_return () | Some pm \<Rightarrow> rst_free_module pm))
       (act_global (release_opt Table tup)))"

text \<open>With \<open>buffer\<close> the caller gets the binary code and loads the module itself.\<close>

definition rst_prepare_module ::
  "module_db \<Rightarrow> spi \<Rightarrow> wamr \<Rightarrow> byte list \<Rightarrow> bool \<Rightarrow> (engine, prepared_module) act" where
  "rst_prepare_module db sp w name buffer =
     (if RST_MODULE_NAME_MAXLEN < length name then act_lift (Inl (PgError ''module name too long''))
      else
        act_bind (act_local (None, None) (pg_catch (prepare_body db sp w name buffer) prepare_catch)) (\<lambda>(pmod, _).
          case pmod of
            None \<Rightarrow> act_lift (Inl (Undefined ''pmod''))
          | Some pm \<Rightarrow> act_return pm))"

definition rst_lookup_module :: "wamr \<Rightarrow> engine \<Rightarrow> byte list \<Rightarrow> nat option" where
  "rst_lookup_module w en name = map_option (\<lambda>(_, _, b). b) (wr_find w (en_registry en) name)"

text \<open>Instantiating: what was made when it raises is given back.\<close>

datatype instance_act = DoInstantiate | DoCreateEnv | DoDeinstantiate

definition rst_module_instantiate :: "bool \<Rightarrow> bool \<Rightarrow> bool res \<times> instance_act list" where
  "rst_module_instantiate instantiates creates_env =
     (if \<not> instantiates then (Inl (PgError ''failed to instantiate module''), [])
      else if \<not> creates_env then
        (Inl (PgError ''failed to instantiate module: create exec env failed''), [DoInstantiate, DoDeinstantiate])
      else (Inr True, [DoInstantiate, DoCreateEnv]))"

end
