(* ===== verification/ModuleProps.thy ===== *)
theory ModuleProps
  imports Module
begin

text \<open>
  The properties of loading: what a failed load leaves behind, what a module holds and gives
  back, that compiled queries load, and that a registered name always leads to a live module.
\<close>

section \<open>Lists of plans\<close>

definition owned_plans :: "query_plan list \<Rightarrow> resource set" where
  "owned_plans ps = \<Union> (owned_plan ` set ps)"

fun disjoint_plans :: "query_plan list \<Rightarrow> bool" where
  "disjoint_plans [] \<longleftrightarrow> True"
| "disjoint_plans (p # ps) \<longleftrightarrow> owned_plan p \<inter> owned_plans ps = {} \<and> disjoint_plans ps"

lemma owned_plans_simps [simp]:
  "owned_plans [] = {}" "owned_plans (p # ps) = owned_plan p \<union> owned_plans ps"
  "owned_plans (replicate n zero_plan) = {}"
  by (auto simp: owned_plans_def)

lemma disjoint_replicate [simp]: "disjoint_plans (replicate n zero_plan)"
  by (induction n) auto

lemma set_plan:
  "i < length ps \<Longrightarrow> owned_plan (ps ! i) = {} \<Longrightarrow> owned_plan p \<inter> owned_plans ps = {} \<Longrightarrow> disjoint_plans ps \<Longrightarrow>
    disjoint_plans (ps[i := p]) \<and> owned_plans (ps[i := p]) = owned_plan p \<union> owned_plans ps"
proof (induction ps arbitrary: i)
  case (Cons q ps)
  then show ?case by (cases i) (auto simp: Int_Un_distrib)
qed simp

lemma owned_plan_kind: "r \<in> owned_plan p \<Longrightarrow> (\<exists>n. r = Plan n) \<or> (\<exists>n. r = Block n)"
  by (auto simp: owned_plan_def)

lemma owned_plans_kind [simp]: "Table t \<notin> owned_plans ps" "Module m \<notin> owned_plans ps"
  by (auto simp: owned_plans_def dest!: owned_plan_kind)

lemma wp_free_plans:
  "disjoint_plans ps \<Longrightarrow> owned_plans ps \<subseteq> en_live en \<Longrightarrow>
    Q () (en\<lparr>en_live := en_live en - owned_plans ps\<rparr>) \<Longrightarrow> wp (act_each rst_free_query_plan ps) en Q E"
proof (induction ps arbitrary: en)
  case (Cons p ps)
  have "en_live en - owned_plan p - owned_plans ps = en_live en - (owned_plan p \<union> owned_plans ps)" by auto
  with Cons show ?case by (simp, intro wp_free_query_plan Cons.IH) auto
qed simp

section \<open>What a module owns\<close>

definition owned_module :: "prepared_module \<Rightarrow> resource set" where
  "owned_module pm = insert (Block (pm_block pm)) (owned_plans (pm_queries pm) \<union>
     Module ` set_option (pm_module pm) \<union> Table ` set_option (pm_loading_tuptable pm))"

definition module_wf :: "prepared_module \<Rightarrow> bool" where
  "module_wf pm \<longleftrightarrow> disjoint_plans (pm_queries pm) \<and> Block (pm_block pm) \<notin> owned_plans (pm_queries pm)"

definition unregistered :: "prepared_module \<Rightarrow> registry \<Rightarrow> registry" where
  "unregistered pm reg = filter (\<lambda>(_, m, _). pm_module pm \<noteq> Some m) reg"

lemma unregistered_None [simp]: "pm_module pm = None \<Longrightarrow> unregistered pm reg = reg"
  by (simp add: unregistered_def)

lemma wp_release_set:
  "kind ` set_option x \<subseteq> en_live en \<Longrightarrow> Q () (en\<lparr>en_live := en_live en - kind ` set_option x\<rparr>) \<Longrightarrow>
    wp (release_opt kind x) en Q E"
  by (cases x) auto

lemma wp_free_aot:
  "Module ` set_option (pm_module pm) \<subseteq> en_live en \<Longrightarrow>
    Q () (en\<lparr>en_registry := unregistered pm (en_registry en),
      en_live := en_live en - Module ` set_option (pm_module pm)\<rparr>) \<Longrightarrow>
    wp (free_aot_module (pm_module pm)) en Q E"
  by (auto simp: free_aot_module_def unregister_module_def unregistered_def eq_commute split: option.splits)

lemma wp_free_module:
  assumes "module_wf pm" "owned_module pm \<subseteq> en_live en"
    and "Q () (en\<lparr>en_registry := unregistered pm (en_registry en), en_live := en_live en - owned_module pm\<rparr>)"
  shows "wp (rst_free_module pm) en Q E"
proof -
  have "en_live en - owned_plans (pm_queries pm) - Module ` set_option (pm_module pm)
      - Table ` set_option (pm_loading_tuptable pm) - {Block (pm_block pm)} = en_live en - owned_module pm"
    by (auto simp: owned_module_def)
  with assms show ?thesis unfolding rst_free_module_def wp_then
    by (intro wp_free_plans wp_free_aot wp_release_set)
      (auto simp: owned_module_def module_wf_def)
qed

section \<open>Creating and loading\<close>

text \<open>The module holds all that is new since \<open>en0\<close>.\<close>

definition module_state :: "engine \<Rightarrow> prepared_module \<Rightarrow> engine \<Rightarrow> bool" where
  "module_state en0 pm en \<longleftrightarrow> grown (owned_module pm) en0 en \<and> module_wf pm"

lemma grown_wf: "grown R en en' \<Longrightarrow> en_wf en'"
  by (simp add: grown_def)

lemma wp_on_plan [simp]:
  "wp (on_plan i m) (pm, en) Q E =
    wp m (pm_queries pm ! i, en) (\<lambda>x (p, en'). Q x (pm\<lparr>pm_queries := (pm_queries pm)[i := p]\<rparr>, en'))
      (\<lambda>e (p, en'). E e (pm\<lparr>pm_queries := (pm_queries pm)[i := p]\<rparr>, en'))"
  by (auto simp: wp_def on_plan_def split: sum.splits prod.splits)

lemma module_state_plan:
  assumes "module_state en0 pm en1" "pm_queries pm ! i = zero_plan" "i < length (pm_queries pm)"
    and "grown (owned_plan p) en1 en2"
  shows "module_state en0 (pm\<lparr>pm_queries := (pm_queries pm)[i := p]\<rparr>) en2"
proof -
  have "owned_plans (pm_queries pm) \<subseteq> en_live en1" "Block (pm_block pm) \<in> en_live en1"
    using assms(1) by (auto simp: module_state_def grown_def owned_module_def)
  then have new: "owned_plan p \<inter> owned_plans (pm_queries pm) = {}" "Block (pm_block pm) \<notin> owned_plan p"
    using assms(4) by (auto simp: grown_def)
  have "disjoint_plans (pm_queries pm)" using assms(1) by (simp add: module_state_def module_wf_def)
  from set_plan[OF assms(3) _ new(1) this] assms(2)
  have s: "disjoint_plans ((pm_queries pm)[i := p])"
    "owned_plans ((pm_queries pm)[i := p]) = owned_plan p \<union> owned_plans (pm_queries pm)" by auto
  moreover have "owned_module (pm\<lparr>pm_queries := (pm_queries pm)[i := p]\<rparr>) = owned_module pm \<union> owned_plan p"
    by (auto simp: owned_module_def s(2))
  ultimately show ?thesis
    using assms(1,4) new(2) by (auto simp: module_state_def module_wf_def intro: grown_trans)
qed

lemma wp_load_queries:
  assumes "module_state en0 pm0 en1" "pm_queries pm0 = replicate (length rows) zero_plan"
  shows "wp (act_each (load_query sp rows) [0..<length rows]) (pm0, en1)
    (\<lambda>_ (pm, en'). module_state en0 pm en' \<and> pm = pm0\<lparr>pm_queries := pm_queries pm\<rparr> \<and>
       length (pm_queries pm) = length rows \<and>
       (\<forall>j < length rows. plan_ready sp (rows ! j) (pm_queries pm ! j)))
    (on_error (\<lambda>(pm, en'). module_state en0 pm en' \<and> pm_module pm = pm_module pm0))"
proof -
  define I where "I dn = (\<lambda>(pm, en'). module_state en0 pm en' \<and> pm = pm0\<lparr>pm_queries := pm_queries pm\<rparr> \<and>
     length (pm_queries pm) = length rows \<and>
     (\<forall>j < length dn. plan_ready sp (rows ! j) (pm_queries pm ! j)) \<and>
     (\<forall>j < length rows. length dn \<le> j \<longrightarrow> pm_queries pm ! j = zero_plan))" for dn :: "nat list"
  have "wp (act_each (load_query sp rows) [0..<length rows]) (pm0, en1) (\<lambda>_. I [0..<length rows])
      (on_error (\<lambda>(pm, en'). module_state en0 pm en' \<and> pm_module pm = pm_module pm0))"
  proof (rule wp_each, goal_cases)
    case 1
    show ?case using assms by (simp add: I_def)
  next
    case (2 dn i todo s)
    from 2(1) have i: "length dn = i" "i < length rows"
      by (metis add.left_neutral diff_zero length_append length_upt list.size(4) nth_append_length nth_upt
          less_add_Suc1 add_Suc_right)+
    obtain pm en where s: "s = (pm, en)" by (cases s)
    with 2(2) i have pm: "module_state en0 pm en" "pm = pm0\<lparr>pm_queries := pm_queries pm\<rparr>"
      "length (pm_queries pm) = length rows" "\<forall>j < i. plan_ready sp (rows ! j) (pm_queries pm ! j)"
      "\<forall>j < length rows. i \<le> j \<longrightarrow> pm_queries pm ! j = zero_plan" by (auto simp: I_def)
    then have wf: "en_wf en" by (auto simp: module_state_def dest: grown_wf)
    have z: "pm_queries pm ! i = zero_plan" using pm(5) i by simp
    note st = module_state_plan[OF pm(1) z]
    have m0: "pm_module pm = pm_module pm0" by (subst pm(2)) simp
    have p2: "pm\<lparr>pm_queries := qs\<rparr> = pm0\<lparr>pm_queries := qs\<rparr>" for qs by (subst pm(2)) simp
    show ?case
      unfolding s load_query_def
      by (auto simp: not_null_def z pm(1) split: option.splits
          intro!: wp_mono[OF wp_init_query_plan[OF wf]])
        (use pm i st p2 m0 in \<open>auto simp: I_def nth_list_update less_Suc_eq on_error_def split: failure.splits\<close>)
  qed
  then show ?thesis by (rule wp_mono) (auto simp: I_def)
qed

lemma grown_drop:
  "grown {r} en en1 \<Longrightarrow> grown R en1 en2 \<Longrightarrow>
    r \<in> en_live en2 \<and> grown R en (en2\<lparr>en_live := en_live en2 - {r}\<rparr>)"
  unfolding grown_def en_wf_def by auto

lemma grown_free:
  "grown R en en1 \<Longrightarrow> R' \<subseteq> R \<Longrightarrow> grown (R - R') en (en1\<lparr>en_live := en_live en1 - R'\<rparr>)"
  unfolding grown_def en_wf_def by auto

lemma grown_next: "grown R en en1 \<Longrightarrow> rid r = en_next en1 \<Longrightarrow>
    grown (insert r R) en (en1\<lparr>en_next := Suc (en_next en1), en_live := insert r (en_live en1)\<rparr>)"
  using grown_fresh[of R en en1 r] unfolding grown_def en_wf_def by (auto simp: less_Suc_eq)

lemma wp_free_state:
  assumes "module_state en0 pm en" "pm_module pm = None"
    and "\<And>en'. grown {} en0 en' \<Longrightarrow> Q () en'"
  shows "wp (rst_free_module pm) en Q E"
proof (rule wp_free_module)
  have g: "grown (owned_module pm) en0 en" using assms(1) by (simp add: module_state_def)
  from assms(1) show "module_wf pm" by (simp add: module_state_def)
  from g show "owned_module pm \<subseteq> en_live en" by (auto simp: grown_def)
  from grown_free[OF g subset_refl] assms(2,3)
  show "Q () (en\<lparr>en_registry := unregistered pm (en_registry en), en_live := en_live en - owned_module pm\<rparr>)"
    by (simp add: unregistered_def)
qed

definition created :: "module_db \<Rightarrow> spi \<Rightarrow> byte list \<Rightarrow> prepared_module \<Rightarrow> bool" where
  "created db sp name pm \<longleftrightarrow> pm_module pm = None \<and> pm_loading_tuptable pm = None \<and> pm_name pm = name \<and>
     (\<exists>rows. md_queries db name = Inr rows \<and> length (pm_queries pm) = length rows \<and>
       (\<forall>j < length rows. plan_ready sp (rows ! j) (pm_queries pm ! j)))"

lemma wp_create_inner:
  assumes "en_wf en" "md_queries db name = Inr rows"
  shows "wp (act_bind (acquire Block) (\<lambda>b. act_local (zero_module b (length rows))
      (pg_catch (act_then (act_modify (\<lambda>(pm, en). (pm\<lparr>pm_name := name\<rparr>, en)))
        (act_each (load_query sp rows) [0..<length rows])) free_local))) en
    (\<lambda>pm en'. module_state en pm en' \<and> created db sp name pm) (on_error (grown {} en))"
proof -
  define en2 where "en2 = en\<lparr>en_next := Suc (en_next en), en_live := insert (Block (en_next en)) (en_live en)\<rparr>"
  let ?pm0 = "zero_module (en_next en) (length rows)\<lparr>pm_name := name\<rparr>"
  have "grown {Block (en_next en)} en en2"
    using grown_next[OF grown_refl[OF assms(1)], of "Block (en_next en)"] by (simp add: en2_def)
  then have st: "module_state en ?pm0 en2"
    by (simp add: module_state_def module_wf_def owned_module_def zero_module_def)
  show ?thesis
  proof (simp add: en2_def[symmetric], rule wp_mono[OF wp_load_queries[OF st, of rows sp]], goal_cases)
    case (2 u s)
    then show ?case
      by (cases s) (auto simp: created_def assms(2) zero_module_def; metis prepared_module.select_convs prepared_module.surjective)
  next
    case (3 e s)
    then show ?case
      by (cases s; cases e) (auto simp: free_local_def zero_module_def intro!: wp_free_state)
  qed (simp add: zero_module_def)
qed

lemma wp_create:
  assumes "en_wf en"
  shows "wp (create_module_with_queries db sp name) en
    (\<lambda>pm en'. module_state en pm en' \<and> created db sp name pm) (on_error (grown {} en))"
proof (cases "md_queries db name")
  case (Inl e)
  then show ?thesis using assms by (simp add: create_module_with_queries_def on_error_def)
next
  case (Inr rows)
  define t where "t = en_next en"
  define en1 where "en1 = en\<lparr>en_next := Suc t, en_live := insert (Table t) (en_live en)\<rparr>"
  have g1: "grown {Table t} en en1"
    using grown_next[OF grown_refl[OF assms], of "Table t"] by (simp add: en1_def t_def)
  note inner = wp_create_inner[OF grown_wf[OF g1] Inr, of sp]
  note drop = grown_drop[OF g1]
  have "wp (pg_finally (act_bind (acquire Block) (\<lambda>b. act_local (zero_module b (length rows))
      (pg_catch (act_then (act_modify (\<lambda>(pm, en). (pm\<lparr>pm_name := name\<rparr>, en)))
        (act_each (load_query sp rows) [0..<length rows])) free_local))) (release (Table t))) en1
    (\<lambda>pm en'. module_state en pm en' \<and> created db sp name pm) (on_error (grown {} en))"
    unfolding wp_finally
    by (rule wp_mono[OF inner])
      (auto simp: module_state_def on_error_def dest!: drop split: failure.splits)
  then show ?thesis
    by (simp add: create_module_with_queries_def Inr t_def[symmetric] en1_def[symmetric] del: wp_finally)
qed

lemma wp_check_each:
  "Q () en \<Longrightarrow> E err en \<Longrightarrow> wp (act_each (\<lambda>i. if f i then act_return () else act_lift (Inl err)) xs) en Q E"
  by (induction xs) auto

text \<open>The registry got the module's entry in front.\<close>

definition registered_new :: "resource set \<Rightarrow> byte list \<times> nat \<times> nat \<Rightarrow> engine \<Rightarrow> engine \<Rightarrow> bool" where
  "registered_new R e en en' \<longleftrightarrow> grown R en (en'\<lparr>en_registry := en_registry en\<rparr>) \<and>
     en_registry en' = e # en_registry en"

lemma wp_load_aot:
  assumes "en_wf en"
  shows "wp (load_aot_module w name b bin) en (\<lambda>m. registered_new {Module m} (name, m, b) en) (on_error (grown {} en))"
proof -
  define en1 where "en1 = en\<lparr>en_next := Suc (en_next en), en_live := insert (Module (en_next en)) (en_live en)\<rparr>"
  have g: "grown {Module (en_next en)} en en1"
    using grown_next[OF grown_refl[OF assms], of "Module (en_next en)"] by (simp add: en1_def)
  then have "Module (en_next en) \<in> en_live en1" "grown {} en (en1\<lparr>en_live := en_live en1 - {Module (en_next en)}\<rparr>)"
    "registered_new {Module (en_next en)} (name, en_next en, b) en
       (en1\<lparr>en_registry := (name, en_next en, b) # en_registry en1\<rparr>)"
    using grown_free[OF g subset_refl] by (auto simp: grown_def registered_new_def en_wf_def)
  then show ?thesis
    by (simp add: load_aot_module_def assms en1_def[symmetric] split: load_result.split)
      (auto intro!: wp_check_each simp: en1_def)
qed

definition locals_ok :: "engine \<Rightarrow> prepare_locals \<Rightarrow> engine \<Rightarrow> bool" where
  "locals_ok en = (\<lambda>(pmod, tup) en'. case pmod of
     None \<Rightarrow> tup = None \<and> grown {} en en'
   | Some pm \<Rightarrow> pm_module pm = None \<and> pm_loading_tuptable pm = None \<and> module_wf pm \<and>
       grown (owned_module pm \<union> Table ` set_option tup) en en')"

definition loaded :: "module_db \<Rightarrow> spi \<Rightarrow> byte list \<Rightarrow> bool \<Rightarrow> engine \<Rightarrow> prepared_module \<Rightarrow> engine \<Rightarrow> bool" where
  "loaded db sp name buffer en pm en' \<longleftrightarrow> grown (owned_module pm) en (en'\<lparr>en_registry := en_registry en\<rparr>) \<and> module_wf pm \<and>
     pm_name pm = name \<and> (buffer \<longleftrightarrow> pm_module pm = None) \<and> (buffer \<longleftrightarrow> pm_loading_tuptable pm \<noteq> None) \<and>
     en_registry en' = (case pm_module pm of None \<Rightarrow> [] | Some m \<Rightarrow> [(name, m, pm_block pm)]) @ en_registry en \<and>
     (\<exists>rows. md_queries db name = Inr rows \<and> length (pm_queries pm) = length rows \<and>
       (\<forall>j < length rows. plan_ready sp (rows ! j) (pm_queries pm ! j)))"

lemma same_registry [simp]: "en\<lparr>en_registry := en_registry en\<rparr> = en"
  by (cases en) simp

lemma wp_prepare_catch:
  assumes "locals_ok en l en'"
  shows "wp prepare_catch (l, en') (\<lambda>_ (l', en''). grown {} en en'') E"
proof -
  obtain pmod tup where l: "l = (pmod, tup)" by (cases l)
  show ?thesis
  proof (cases pmod)
    case None
    with assms show ?thesis by (simp add: l locals_ok_def prepare_catch_def)
  next
    case (Some pm)
    with assms l have pm: "pm_module pm = None" "pm_loading_tuptable pm = None" "module_wf pm"
      "grown (owned_module pm \<union> Table ` set_option tup) en en'" by (auto simp: locals_ok_def)
    have *: "(owned_module pm \<union> Table ` set_option tup) - owned_module pm = Table ` set_option tup"
      using pm(1,2) by (auto simp: owned_module_def)
    have sub: "owned_module pm \<subseteq> en_live en'" using pm(4) by (auto simp: grown_def)
    with grown_free[OF pm(4), of "owned_module pm"] *
    have g: "grown (Table ` set_option tup) en (en'\<lparr>en_live := en_live en' - owned_module pm\<rparr>)" by auto
    have "wp (release_opt Table tup) (en'\<lparr>en_live := en_live en' - owned_module pm\<rparr>) (\<lambda>_. grown {} en) (\<lambda>_ _. False)"
      using grown_free[OF g subset_refl] g by (intro wp_release_set) (auto simp: grown_def)
    then have "wp (rst_free_module pm) en' (\<lambda>_ en''. wp (release_opt Table tup) en'' (\<lambda>_. grown {} en) (\<lambda>_ _. False)) (\<lambda>_ _. False)"
      using pm(1) sub by (intro wp_free_module[OF pm(3)]) (simp_all del: wp_release_opt)
    then have "wp prepare_catch (l, en') (\<lambda>_ (l', en''). grown {} en en'') (\<lambda>_ _. False)"
      by (simp add: l Some prepare_catch_def)
    then show ?thesis by (rule wp_mono) simp_all
  qed
qed

lemma owned_module_simps [simp]:
  "owned_module (pm\<lparr>pm_heap_types := h\<rparr>) = owned_module pm"
  "pm_loading_tuptable pm = None \<Longrightarrow> owned_module (pm\<lparr>pm_loading_tuptable := Some t\<rparr>) = insert (Table t) (owned_module pm)"
  "pm_module pm = None \<Longrightarrow> owned_module (pm\<lparr>pm_module := Some m\<rparr>) = insert (Module m) (owned_module pm)"
  "module_wf (pm\<lparr>pm_heap_types := h\<rparr>) = module_wf pm"
  "module_wf (pm\<lparr>pm_loading_tuptable := x\<rparr>) = module_wf pm"
  "module_wf (pm\<lparr>pm_module := y\<rparr>) = module_wf pm"
  by (auto simp: owned_module_def module_wf_def)

text \<open>The state after the binary code was read: the module and the tuple table are held.\<close>

lemma prepare_loaded:
  assumes "grown (insert (Table t) (owned_module pm)) en en2" "created db sp name pm" "module_wf pm"
    and "registered_new {Module m} (name, m, pm_block pm) en2 en3"
  shows "Table t \<in> en_live en3"
    "loaded db sp name False en (pm\<lparr>pm_heap_types := h, pm_module := Some m\<rparr>) (en3\<lparr>en_live := en_live en3 - {Table t}\<rparr>)"
proof -
  have t: "Table t \<notin> owned_module pm" using assms(2) by (auto simp: owned_module_def created_def)
  have "grown (insert (Module m) (owned_module pm)) en
      (en3\<lparr>en_registry := en_registry en, en_live := en_live en3 - {Table t}\<rparr>)"
    using assms(1,4) t unfolding grown_def registered_new_def en_wf_def by auto
  moreover have "en3\<lparr>en_registry := en_registry en, en_live := en_live en3 - {Table t}\<rparr> =
      en3\<lparr>en_live := en_live en3 - {Table t}, en_registry := en_registry en\<rparr>" by simp
  moreover have "en_registry en3 = (name, m, pm_block pm) # en_registry en"
    using assms(1,4) by (simp add: registered_new_def grown_def)
  ultimately show "loaded db sp name False en (pm\<lparr>pm_heap_types := h, pm_module := Some m\<rparr>)
      (en3\<lparr>en_live := en_live en3 - {Table t}\<rparr>)"
    using assms(2,3) by (simp add: loaded_def created_def)
  show "Table t \<in> en_live en3" using assms(1,4) by (auto simp: grown_def registered_new_def)
qed

lemma wp_prepare_body:
  assumes "en_wf en"
  shows "wp (prepare_body db sp w name buffer) ((None, None), en)
    (\<lambda>_ (l, en'). \<exists>pm tup. l = (Some pm, tup) \<and> loaded db sp name buffer en pm en')
    (on_error (\<lambda>(l, en'). locals_ok en l en'))"
  unfolding prepare_body_def wp_bind wp_global
proof (rule wp_mono[OF wp_create[OF assms]], goal_cases)
  case (1 pm en1)
  then have pm: "grown (owned_module pm) en en1" "module_wf pm" "created db sp name pm"
    by (simp_all add: module_state_def)
  define t where "t = en_next en1"
  define en2 where "en2 = en1\<lparr>en_next := Suc t, en_live := insert (Table t) (en_live en1)\<rparr>"
  have g2: "grown (insert (Table t) (owned_module pm)) en en2"
    using grown_next[OF pm(1), of "Table t"] by (simp add: en2_def t_def)
  have err: "locals_ok en (Some pm, None) en1" "locals_ok en (Some pm, Some t) en2"
    "locals_ok en (Some (pm\<lparr>pm_heap_types := h\<rparr>), Some t) en2" for h
    using pm g2 by (auto simp: locals_ok_def created_def)
  have aot: "wp (load_aot_module w name (pm_block pm) bin) en2
      (\<lambda>m en3. Table t \<in> en_live en3 \<and> loaded db sp name False en (pm\<lparr>pm_heap_types := h, pm_module := Some m\<rparr>)
         (en3\<lparr>en_live := en_live en3 - {Table t}\<rparr>))
      (on_error (\<lambda>en3. locals_ok en (Some (pm\<lparr>pm_heap_types := h\<rparr>), Some t) en3))" for bin h
  proof (rule wp_mono[OF wp_load_aot[OF grown_wf[OF g2]]], goal_cases)
    case (1 m en3)
    then show ?case using prepare_loaded[OF g2 pm(3,2)] by blast
  next
    case (2 e en3)
    then show ?case using grown_trans[OF g2, of "{}" en3] pm by (auto simp: on_error_def locals_ok_def created_def split: failure.splits)
  qed
  have buf: "loaded db sp name True en (pm\<lparr>pm_heap_types := h, pm_loading_tuptable := Some t\<rparr>) en2" for h
    using g2 pm by (auto simp: loaded_def created_def grown_def en_wf_def)
  have nm: "pm_name pm = name" using pm(3) by (simp add: created_def)
  show ?case
    using err buf pm(3)
    by (auto intro!: wp_mono[OF aot[folded nm]] simp: set_tuptable_def set_pmod_def load_heap_types_def not_null_def on_error_def created_def
        t_def[symmetric] en2_def[symmetric] split: sum.splits list.splits option.splits)
next
  case (2 e en1)
  then show ?case by (auto simp: on_error_def locals_ok_def split: failure.splits)
qed

lemma wp_prepare_module:
  assumes "en_wf en"
  shows "wp (rst_prepare_module db sp w name buffer) en (loaded db sp name buffer en) (on_error (grown {} en))"
proof -
  have "wp (pg_catch (prepare_body db sp w name buffer) prepare_catch) ((None, None), en)
      (\<lambda>_ (l, en'). \<exists>pm tup. l = (Some pm, tup) \<and> loaded db sp name buffer en pm en')
      (on_error (\<lambda>(l, en'). grown {} en en'))"
    unfolding wp_catch
  proof (rule wp_mono[OF wp_prepare_body[OF assms]], goal_cases)
    case (2 e s)
    then show ?case
      by (cases s; cases e) (auto intro!: wp_mono[OF wp_prepare_catch])
  qed
  then show ?thesis
    using assms by (auto simp: rst_prepare_module_def on_error_def simp del: wp_catch elim!: wp_mono
        split: failure.splits)
qed

section \<open>A process that loads and frees modules\<close>

text \<open>
  The modules the process holds. A worker loads a module when the name is not found; any load
  may fail; a module that is held may be freed. (A failed assertion ends the process.)
\<close>

inductive module_step ::
  "wamr \<Rightarrow> engine \<times> prepared_module list \<Rightarrow> engine \<times> prepared_module list \<Rightarrow> bool" for w where
  Load: "rst_lookup_module w en name = None \<Longrightarrow> rst_prepare_module db sp w name False en = (Inr pm, en') \<Longrightarrow>
    module_step w (en, held) (en', pm # held)"
| LoadFails: "rst_prepare_module db sp w name False en = (Inl (PgError msg), en') \<Longrightarrow>
    module_step w (en, held) (en', held)"
| Free: "pm \<in> set held \<Longrightarrow> rst_free_module pm en = (Inr (), en') \<Longrightarrow>
    module_step w (en, held) (en', remove1 pm held)"

inductive module_reachable :: "wamr \<Rightarrow> engine \<times> prepared_module list \<Rightarrow> bool" for w where
  Start: "module_reachable w (\<lparr>en_next = n, en_live = {}, en_registry = []\<rparr>, [])"
| Step: "module_reachable w s \<Longrightarrow> module_step w s s' \<Longrightarrow> module_reachable w s'"

text \<open>What WAMR documents of the registry: a lookup gives an entry of that name if there is one.\<close>

definition find_law :: "wamr \<Rightarrow> bool" where
  "find_law w \<longleftrightarrow> (\<forall>reg name. (wr_find w reg name = None \<longleftrightarrow> name \<notin> fst ` set reg) \<and>
     (\<forall>e. wr_find w reg name = Some e \<longrightarrow> e \<in> set reg \<and> fst e = name))"

definition entry_of :: "prepared_module \<Rightarrow> byte list \<times> nat \<times> nat" where
  "entry_of pm = (pm_name pm, the (pm_module pm), pm_block pm)"

definition owned_all :: "prepared_module list \<Rightarrow> resource set" where
  "owned_all pms = \<Union> (owned_module ` set pms)"

lemma owned_all_simps [simp]:
  "owned_all [] = {}" "owned_all (pm # pms) = owned_module pm \<union> owned_all pms"
  by (simp_all add: owned_all_def)

lemma owned_allI: "pm \<in> set pms \<Longrightarrow> r \<in> owned_module pm \<Longrightarrow> r \<in> owned_all pms"
  by (auto simp: owned_all_def)

fun disjoint_modules :: "prepared_module list \<Rightarrow> bool" where
  "disjoint_modules [] \<longleftrightarrow> True"
| "disjoint_modules (pm # pms) \<longleftrightarrow>
     owned_module pm \<inter> owned_all pms = {} \<and> disjoint_modules pms"

text \<open>\<open>others\<close> is what the process owns besides its modules.\<close>

definition held_inv :: "resource set \<Rightarrow> engine \<times> prepared_module list \<Rightarrow> bool" where
  "held_inv others = (\<lambda>(en, held). en_wf en \<and> en_live en = others \<union> owned_all held \<and>
     others \<inter> owned_all held = {} \<and> disjoint_modules held \<and>
     (\<forall>pm \<in> set held. module_wf pm \<and> pm_module pm \<noteq> None) \<and> en_registry en = map entry_of held \<and>
     distinct (map pm_name held))"

lemma disjoint_modules_remove:
  "disjoint_modules pms \<Longrightarrow> pm \<in> set pms \<Longrightarrow>
    disjoint_modules (remove1 pm pms) \<and> pm \<notin> set (remove1 pm pms) \<and>
    owned_module pm \<inter> owned_all (remove1 pm pms) = {} \<and>
    owned_all pms = owned_module pm \<union> owned_all (remove1 pm pms)"
proof (induction pms)
  case (Cons q pms)
  have "owned_module pm \<noteq> {}" by (simp add: owned_module_def)
  with Cons show ?case
    by (auto split: if_splits dest: owned_allI simp: Int_Un_distrib)
qed simp

lemma held_inv_free:
  assumes "held_inv others (en, held)" "pm \<in> set held"
  shows "\<exists>en'. rst_free_module pm en = (Inr (), en') \<and> held_inv others (en', remove1 pm held)"
proof -
  note h = assms(1)[unfolded held_inv_def prod.case]
  note r = disjoint_modules_remove[OF _ assms(2), of]
  from h r have d: "disjoint_modules (remove1 pm held)" "pm \<notin> set (remove1 pm held)"
    "owned_module pm \<inter> owned_all (remove1 pm held) = {}"
    "owned_all held = owned_module pm \<union> owned_all (remove1 pm held)" by blast+
  let ?en = "en\<lparr>en_registry := unregistered pm (en_registry en), en_live := en_live en - owned_module pm\<rparr>"
  have "wp (rst_free_module pm) en (\<lambda>_ en'. en' = ?en) (\<lambda>_ _. False)"
    using h assms(2) owned_allI[OF assms(2)] by (intro wp_free_module) auto
  then have f: "rst_free_module pm en = (Inr (), ?en)"
    by (auto simp: wp_def split: prod.splits sum.splits)
  obtain m where m: "pm_module pm = Some m" using h assms(2) by auto
  have "the (pm_module q) \<noteq> m" if "q \<in> set (remove1 pm held)" for q
  proof -
    have "q \<in> set held" using that by (meson notin_set_remove1)
    then obtain m' where "pm_module q = Some m'" using h by auto
    then have "Module m' \<in> owned_module q" by (simp add: owned_module_def)
    then have "Module m' \<notin> owned_module pm" using d(3) owned_allI[OF that] by blast
    with m \<open>pm_module q = Some m'\<close> show ?thesis by (auto simp: owned_module_def)
  qed
  then have "filter (\<lambda>q. m \<noteq> the (pm_module q)) (remove1 pm held) = remove1 pm held"
    by (intro filter_True) auto
  moreover have "filter (\<lambda>q. m \<noteq> the (pm_module q)) held = filter (\<lambda>q. m \<noteq> the (pm_module q)) (remove1 pm held)"
    by (simp add: filter_remove1 m remove1_idem)
  ultimately have "unregistered pm (map entry_of held) = map entry_of (remove1 pm held)"
    by (auto simp: unregistered_def m filter_map comp_def entry_of_def split_beta)
  moreover have "distinct (map pm_name (remove1 pm held))"
    using h by (metis distinct_map distinct_remove1 inj_on_subset set_remove1_subset)
  ultimately have "held_inv others (?en, remove1 pm held)"
    using h d by (auto simp: held_inv_def en_wf_def dest: notin_set_remove1)
  with f show ?thesis by blast
qed

lemma held_inv_load:
  assumes "held_inv others (en, held)" "find_law w" "rst_lookup_module w en name = None"
    and "loaded db sp name False en pm en'"
  shows "held_inv others (en', pm # held)"
proof -
  note h = assms(1)[unfolded held_inv_def prod.case]
  obtain m where m: "pm_module pm = Some m" "pm_name pm = name" "module_wf pm"
    "grown (owned_module pm) en (en'\<lparr>en_registry := en_registry en\<rparr>)"
    "en_registry en' = (name, m, pm_block pm) # en_registry en"
    using assms(4) by (auto simp: loaded_def)
  have "name \<notin> fst ` set (en_registry en)"
    using assms(2,3) by (auto simp: rst_lookup_module_def find_law_def)
  then have "name \<notin> pm_name ` set held" using h by (auto simp: entry_of_def image_image)
  with h m show ?thesis
    by (auto simp: held_inv_def grown_def en_wf_def entry_of_def)
qed

lemma lookup_held:
  assumes "held_inv others (en, held)" "find_law w"
  shows "case rst_lookup_module w en name of
      Some b \<Rightarrow> \<exists>pm \<in> set held. pm_block pm = b \<and> pm_name pm = name \<and> pm_module pm \<noteq> None \<and>
        owned_module pm \<subseteq> en_live en
    | None \<Rightarrow> name \<notin> pm_name ` set held"
proof -
  have h: "\<forall>pm \<in> set held. owned_module pm \<subseteq> en_live en" "\<forall>pm \<in> set held. pm_module pm \<noteq> None"
    "en_registry en = map entry_of held" using assms(1) by (auto simp: held_inv_def dest: owned_allI)
  have "name \<notin> pm_name ` set held" if "wr_find w (en_registry en) name = None"
    using that assms(2) h(3) by (auto simp: find_law_def entry_of_def image_image)
  moreover have "\<exists>pm \<in> set held. pm_block pm = b \<and> pm_name pm = name \<and> pm_module pm \<noteq> None \<and>
        owned_module pm \<subseteq> en_live en" if "wr_find w (en_registry en) name = Some (n, m, b)" for n m b
  proof -
    have "(n, m, b) \<in> set (en_registry en)" "n = name" using that assms(2) by (auto simp: find_law_def)
    then obtain pm where "pm \<in> set held" "(name, m, b) = entry_of pm" using h(3) by auto
    with h(1,2) show ?thesis by (auto simp: entry_of_def)
  qed
  ultimately show ?thesis by (auto simp: rst_lookup_module_def split: option.splits)
qed

lemma held_inv_step:
  assumes "module_step w s s'" "held_inv others s" "find_law w"
  shows "held_inv others s'"
  using assms(1)
proof (cases rule: module_step.cases)
  case (Load en name db sp pm en' held)
  with assms(2) have inv: "held_inv others (en, held)" by simp
  then have "en_wf en" by (simp add: held_inv_def)
  from wp_prepare_module[OF this, of db sp w name False] Load(4)
  have "loaded db sp name False en pm en'" by (simp add: wp_def)
  from held_inv_load[OF inv assms(3) Load(3) this] Load(2) show ?thesis by simp
next
  case (LoadFails db sp name en msg en' held)
  with assms(2) have inv: "held_inv others (en, held)" by simp
  then have "en_wf en" by (simp add: held_inv_def)
  from wp_prepare_module[OF this, of db sp w name False] LoadFails(3)
  have "grown {} en en'" by (simp add: wp_def)
  with inv LoadFails(2) show ?thesis by (auto simp: held_inv_def grown_def)
next
  case (Free pm held en en')
  with assms(2) have inv: "held_inv others (en, held)" by simp
  from held_inv_free[OF inv Free(3)] Free(2,4) show ?thesis by auto
qed

lemma reachable_held_inv: "module_reachable w s \<Longrightarrow> find_law w \<Longrightarrow> held_inv {} s"
proof (induction rule: module_reachable.induct)
  case (Start n)
  show ?case by (simp add: held_inv_def en_wf_def)
qed (rule held_inv_step)

section \<open>Compiled queries load\<close>

text \<open>What Postgres and WAMR have to answer for the load to succeed.\<close>

definition loads :: "module_db \<Rightarrow> spi \<Rightarrow> wamr \<Rightarrow> byte list \<Rightarrow> byte list \<Rightarrow> query_row list \<Rightarrow> bool" where
  "loads db sp w name bin rows \<longleftrightarrow> length name \<le> RST_MODULE_NAME_MAXLEN \<and>
     md_queries db name = Inr (map stored_of rows) \<and> md_natts db = 11 \<and> (\<forall>row \<in> set rows. prepares sp row) \<and>
     md_modules db name = Inr [(Some bin, Some [-1])] \<and>
     (\<exists>n. wr_load w bin = Wasm_Module_AoT n \<and> (\<forall>i < n. wr_rtt_type_new w bin i)) \<and>
     (\<forall>reg. wr_register w reg name)"

definition rows_ok :: "query_row list \<Rightarrow> bool" where
  "rows_ok rows \<longleftrightarrow> (\<forall>k < length rows. row_ok (rows ! k) \<and> sint (qr_index (rows ! k)) = int k)"

lemma wp_load_queries_ok:
  assumes "rows_ok rows" "\<forall>row \<in> set rows. prepares sp row" "en_wf en"
    and "pm_queries pm = replicate (length rows) zero_plan"
  shows "wp (act_each (load_query sp (map stored_of rows)) [0..<length rows]) (pm, en) (\<lambda>_ _. True) (\<lambda>_ _. False)"
proof -
  define I where "I dn = (\<lambda>(pm :: prepared_module, en). en_wf en \<and> length (pm_queries pm) = length rows \<and>
     (\<forall>j < length rows. length dn \<le> j \<longrightarrow> pm_queries pm ! j = zero_plan))" for dn :: "nat list"
  have "wp (act_each (load_query sp (map stored_of rows)) [0..<length rows]) (pm, en) (\<lambda>_. I [0..<length rows]) (\<lambda>_ _. False)"
  proof (rule wp_each, goal_cases)
    case 1
    show ?case using assms(3,4) by (simp add: I_def)
  next
    case (2 dn i todo s)
    from 2(1) have i: "length dn = i" "i < length rows"
      by (metis add.left_neutral diff_zero length_append length_upt list.size(4) nth_append_length nth_upt
          less_add_Suc1 add_Suc_right)+
    obtain pm en where s: "s = (pm, en)" by (cases s)
    with 2(2) i have pm: "en_wf en" "length (pm_queries pm) = length rows"
      "\<forall>j < length rows. i \<le> j \<longrightarrow> pm_queries pm ! j = zero_plan" by (auto simp: I_def)
    have row: "row_ok (rows ! i)" "prepares sp (rows ! i)" "sint (qr_index (rows ! i)) = int i"
      using assms(1,2) i by (auto simp: rows_ok_def)
    have "sq_index (stored_of (rows ! i)) = Some (qr_index (rows ! i))" by (simp add: stored_of_def)
    with pm i row show ?case
      by (auto simp: s load_query_def not_null_def I_def grown_wf
          intro!: wp_mono[OF wp_init_compiled[OF pm(1) row(1,2), folded i(1)]])
  qed
  then show ?thesis by (rule wp_mono) simp_all
qed

lemma wp_create_ok:
  assumes "rows_ok rows" "loads db sp w name bin rows" "en_wf en"
  shows "wp (create_module_with_queries db sp name) en
    (\<lambda>pm en'. module_state en pm en' \<and> created db sp name pm) (\<lambda>_ _. False)"
proof -
  let ?rows = "map stored_of rows"
  have Inr: "md_queries db name = Inr ?rows" and sp: "\<forall>row \<in> set rows. prepares sp row" and "md_natts db = 11"
    using assms(2) by (auto simp: loads_def)
  define t where "t = en_next en"
  define en1 where "en1 = en\<lparr>en_next := Suc t, en_live := insert (Table t) (en_live en)\<rparr>"
  have g1: "grown {Table t} en en1"
    using grown_next[OF grown_refl[OF assms(3)], of "Table t"] by (simp add: en1_def t_def)
  define en2 where "en2 = en1\<lparr>en_next := Suc (en_next en1), en_live := insert (Block (en_next en1)) (en_live en1)\<rparr>"
  have "en_wf en2"
    using grown_next[OF grown_refl[OF grown_wf[OF g1]], of "Block (en_next en1)"] by (auto simp: en2_def dest: grown_wf)
  then have ok: "wp (act_each (load_query sp ?rows) [0..<length rows])
      (zero_module (en_next en1) (length rows)\<lparr>pm_name := name\<rparr>, en2) (\<lambda>_ _. True) (\<lambda>_ _. False)"
    by (intro wp_load_queries_ok[OF assms(1) sp]) (simp_all add: zero_module_def)
  let ?inner = "act_bind (acquire Block) (\<lambda>b. act_local (zero_module b (length ?rows))
      (pg_catch (act_then (act_modify (\<lambda>(pm, en). (pm\<lparr>pm_name := name\<rparr>, en)))
        (act_each (load_query sp ?rows) [0..<length ?rows])) free_local))"
  have "wp ?inner en1 (\<lambda>_ _. True) (\<lambda>_ _. False)"
    by (simp add: en2_def[symmetric] split_def, rule wp_mono[OF ok]) simp_all
  note both = wp_conj[OF wp_create_inner[OF grown_wf[OF g1] Inr, of sp] this]
  have "wp (pg_finally ?inner (release (Table t))) en1
    (\<lambda>pm en'. module_state en pm en' \<and> created db sp name pm) (\<lambda>_ _. False)"
    unfolding wp_finally
    by (rule wp_mono[OF both]) (auto simp: module_state_def dest!: grown_drop[OF g1])
  with \<open>md_natts db = 11\<close> show ?thesis
    by (simp add: create_module_with_queries_def Inr t_def[symmetric] en1_def[symmetric] del: wp_finally)
qed

lemma wp_all_checks:
  "\<forall>i \<in> set xs. f i \<Longrightarrow> Q () en \<Longrightarrow> wp (act_each (\<lambda>i. if f i then act_return () else act_lift (Inl err)) xs) en Q E"
  by (induction xs) auto

lemma wp_prepare_ok:
  assumes "rows_ok rows" "loads db sp w name bin rows" "en_wf en"
  shows "wp (rst_prepare_module db sp w name buffer) en (\<lambda>pm en'. pm_heap_types pm = [-1]) (\<lambda>_ _. False)"
proof -
  obtain n where n: "wr_load w bin = Wasm_Module_AoT n" "\<forall>i < n. wr_rtt_type_new w bin i"
    using assms(2) by (auto simp: loads_def)
  have aot: "wp (load_aot_module w name b bin) en (\<lambda>m en'. en' = en\<lparr>en_next := Suc (en_next en),
      en_live := insert (Module m) (en_live en), en_registry := (name, m, b) # en_registry en\<rparr> \<and> m = en_next en)
      (\<lambda>_ _. False)" for b en
    using n assms(2) by (auto simp: load_aot_module_def loads_def intro!: wp_all_checks)
  show ?thesis
    using assms(2)
    by (auto simp: rst_prepare_module_def loads_def prepare_body_def not_null_def load_heap_types_def
        set_pmod_def set_tuptable_def created_def split_def
        intro!: wp_mono[OF wp_create_ok[OF assms]] wp_mono[OF aot])
qed

lemma prepare_compiled:
  assumes "rows_ok rows" "loads db sp w name bin rows" "en_wf en"
  shows "\<exists>pm en'. rst_prepare_module db sp w name False en = (Inr pm, en') \<and>
    length (pm_queries pm) = length rows \<and> (\<forall>k < length rows. plan_for (rows ! k) (pm_queries pm ! k)) \<and>
    pm_heap_types pm = [-1]"
proof -
  note both = wp_conj[OF wp_prepare_module[OF assms(3), of db sp w name False] wp_prepare_ok[OF assms]]
  then obtain pm en' where p: "rst_prepare_module db sp w name False en = (Inr pm, en')"
    "loaded db sp name False en pm en'" "pm_heap_types pm = [-1]"
    by (auto simp: wp_def split: prod.splits sum.splits)
  moreover have "\<forall>k < length rows. plan_for (rows ! k) (pm_queries pm ! k)"
    using p(2) assms(1,2) by (auto simp: loaded_def loads_def rows_ok_def intro!: plan_ready_for)
  moreover have "length (pm_queries pm) = length rows"
    using p(2) assms(2) by (auto simp: loaded_def loads_def)
  ultimately show ?thesis by blast
qed

section \<open>A small application\<close>

definition demo_wamr :: wamr where
  "demo_wamr = \<lparr>wr_load = (\<lambda>_. Wasm_Module_AoT 1), wr_rtt_type_new = (\<lambda>_ _. True), wr_register = (\<lambda>_ _. True),
     wr_find = (\<lambda>reg name. find (\<lambda>e. fst e = name) reg)\<rparr>"

definition demo_db :: module_db where
  "demo_db = \<lparr>md_queries = (\<lambda>_. Inr [stored_of demo_row]), md_natts = 11,
     md_modules = (\<lambda>_. Inr [(Some [0], Some [-1])])\<rparr>"

definition demo_name :: "byte list" where "demo_name = [97, 112, 112]"

lemma demo_find_law: "find_law demo_wamr"
proof -
  have "(find (\<lambda>e. fst e = name) reg = None \<longleftrightarrow> name \<notin> fst ` set reg) \<and>
      (\<forall>e. find (\<lambda>e. fst e = name) reg = Some e \<longrightarrow> e \<in> set reg \<and> fst e = name)"
    for name and reg :: registry
    by (induction reg) auto
  then show ?thesis by (simp add: find_law_def demo_wamr_def)
qed

lemma demo_loads: "loads demo_db demo_spi demo_wamr demo_name [0] [demo_row]"
  by (auto simp: loads_def demo_db_def demo_wamr_def demo_name_def RST_MODULE_NAME_MAXLEN_def prepares_def
      demo_row_def demo_spi_def c_string_def)

lemma demo_rows_ok: "rows_ok [demo_row]"
  using compile_query_row_ok[OF demo_compiled] by (simp add: rows_ok_def) (simp add: demo_row_def)

lemma no_engine_wf: "en_wf no_engine" by (simp add: en_wf_def no_engine_def)

lemma demo_load:
  obtains pm en where "rst_prepare_module demo_db demo_spi demo_wamr demo_name False no_engine = (Inr pm, en)"
    "module_reachable demo_wamr (en, [pm])" "pm_name pm = demo_name"
proof -
  obtain pm en where p: "rst_prepare_module demo_db demo_spi demo_wamr demo_name False no_engine = (Inr pm, en)"
    using prepare_compiled[OF demo_rows_ok demo_loads no_engine_wf] by blast
  have "module_reachable demo_wamr (no_engine, [])"
    unfolding no_engine_def by (rule module_reachable.Start)
  moreover have "rst_lookup_module demo_wamr no_engine demo_name = None"
    by (simp add: rst_lookup_module_def demo_wamr_def no_engine_def)
  ultimately have "module_reachable demo_wamr (en, [pm])"
    using p by (metis module_reachable.Step module_step.Load)
  moreover have "pm_name pm = demo_name"
    using wp_prepare_module[OF no_engine_wf, of demo_db demo_spi demo_wamr demo_name False] p
    by (simp add: wp_def loaded_def)
  ultimately show thesis using p that by blast
qed

section \<open>Properties\<close>

text \<open>
  C7: loading a module leaves nothing behind when any of its steps raises an error, whichever
  query, conversion or WAMR call it was: the plans that were kept, the allocations and the
  tuple tables are all given back, once each, and nothing is registered. When it succeeds,
  freeing the module gives back all it holds and takes its name out of the registry. A load that
  does not return ends the process in one of five named ways, each a failed check on the rows or
  the statement; a double free is not possible, in the handlers of the failed load neither.
\<close>
lemma load_balanced:
  assumes "en_wf en" "\<forall>(n, m, b) \<in> set (en_registry en). Module m \<in> en_live en"
  shows "case rst_prepare_module db sp w name buffer en of
      (Inr pm, en') \<Rightarrow> \<exists>en''. rst_free_module pm en' = (Inr (), en'') \<and>
        en_live en'' = en_live en \<and> en_registry en'' = en_registry en
    | (Inl (PgError msg), en') \<Rightarrow> en_live en' = en_live en \<and> en_registry en' = en_registry en
    | (Inl e, en') \<Rightarrow> e \<in> load_ends"
proof -
  have "\<exists>en''. rst_free_module pm en' = (Inr (), en'') \<and> en_live en'' = en_live en \<and> en_registry en'' = en_registry en"
    if l: "loaded db sp name buffer en pm en'" for pm en'
  proof -
    let ?en = "en'\<lparr>en_registry := unregistered pm (en_registry en'), en_live := en_live en' - owned_module pm\<rparr>"
    have g: "en_live en' = en_live en \<union> owned_module pm" "owned_module pm \<inter> en_live en = {}" "module_wf pm"
      using l by (auto simp: loaded_def grown_def)
    then have "wp (rst_free_module pm) en' (\<lambda>_ en''. en'' = ?en) (\<lambda>_ _. False)"
      by (intro wp_free_module) auto
    then have "rst_free_module pm en' = (Inr (), ?en)" by (auto simp: wp_def split: prod.splits sum.splits)
    moreover have "unregistered pm (en_registry en) = en_registry en"
      using g(2) assms(2) unfolding unregistered_def
      by (intro filter_True) (auto simp: owned_module_def)
    ultimately show ?thesis using g l by (auto simp: loaded_def unregistered_def split: option.splits)
  qed
  with wp_prepare_module[OF assms(1), of db sp w name buffer] show ?thesis
    by (auto simp: wp_def grown_def split: prod.splits sum.splits failure.splits)
qed

lemma load_balanced_witness:
  "case rst_prepare_module demo_db demo_spi demo_wamr demo_name False no_engine of
      (Inr pm, en') \<Rightarrow> \<exists>en''. rst_free_module pm en' = (Inr (), en'') \<and>
        en_live en'' = en_live no_engine \<and> en_registry en'' = en_registry no_engine
    | (Inl (PgError msg), en') \<Rightarrow> en_live en' = en_live no_engine \<and> en_registry en' = en_registry no_engine
    | (Inl e, en') \<Rightarrow> e \<in> load_ends"
  by (rule load_balanced[OF no_engine_wf]) (simp add: no_engine_def)

text \<open>
  In a process that loads modules when their name is not found and frees some of them, a
  lookup only ever gives a module that is held, has that name, and whose memory, plans and code
  are live; a name that is not found is not held. Every module that is held can be freed
  without a double free.
\<close>
lemma lookup_gives_live_module:
  assumes "module_reachable w (en, held)" "find_law w"
  shows "(case rst_lookup_module w en name of
      Some b \<Rightarrow> \<exists>pm \<in> set held. pm_block pm = b \<and> pm_name pm = name \<and> pm_module pm \<noteq> None \<and>
        owned_module pm \<subseteq> en_live en
    | None \<Rightarrow> name \<notin> pm_name ` set held) \<and>
    (\<forall>pm \<in> set held. \<exists>en'. rst_free_module pm en = (Inr (), en'))"
proof -
  note inv = reachable_held_inv[OF assms]
  show ?thesis using lookup_held[OF inv assms(2)] held_inv_free[OF inv] by blast
qed

lemma lookup_gives_live_module_witness:
  "\<exists>en pm. module_reachable demo_wamr (en, [pm]) \<and> pm_name pm = demo_name \<and>
    rst_lookup_module demo_wamr en demo_name = Some (pm_block pm) \<and> owned_module pm \<subseteq> en_live en \<and>
    (\<exists>en'. rst_free_module pm en = (Inr (), en'))"
proof (rule demo_load)
  fix pm en
  assume "module_reachable demo_wamr (en, [pm])" "pm_name pm = demo_name"
  with lookup_gives_live_module[OF this(1) demo_find_law, of demo_name] show ?thesis
    by (auto split: option.splits)
qed

text \<open>
  A process that has freed every module it loaded holds nothing: no plan, no allocation, no
  tuple table, no code, and the registry is empty.
\<close>
lemma nothing_leaked:
  assumes "module_reachable w (en, [])" "find_law w"
  shows "en_live en = {} \<and> en_registry en = []"
  using reachable_held_inv[OF assms] by (auto simp: held_inv_def)

lemma nothing_leaked_witness:
  "\<exists>en. module_reachable demo_wamr (en, []) \<and> en_live en = {} \<and> en_registry en = []"
proof (rule demo_load)
  fix pm en
  assume r: "module_reachable demo_wamr (en, [pm])"
  obtain en' where "rst_free_module pm en = (Inr (), en')"
    using held_inv_free[OF reachable_held_inv[OF r demo_find_law], of pm] by auto
  then have "module_reachable demo_wamr (en', [])"
    using module_reachable.Step[OF r module_step.Free[of pm "[pm]"]] by simp
  with nothing_leaked[OF this demo_find_law] show ?thesis by blast
qed

text \<open>
  C9: what the compiler produced loads. With the rows it compiled stored under the module's name,
  and Postgres and WAMR accepting the statements and the binary code, the load succeeds; the
  plan at each place of the module is the one its row describes, with the converters the
  compiler chose.
\<close>
lemma compiled_queries_load:
  assumes "compile_queries ps oid_type m run func_type = (Inr rows, cl)"
    and "loads db sp w name bin rows" "en_wf en"
  shows "\<exists>pm en'. rst_prepare_module db sp w name False en = (Inr pm, en') \<and>
    length (pm_queries pm) = length rows \<and> (\<forall>k < length rows. plan_for (rows ! k) (pm_queries pm ! k)) \<and>
    pm_heap_types pm = [-1]"
proof -
  obtain params rt fields where f: "length fields \<le> 65535" "length rows = length (fields :: ref_type list)"
    "\<forall>k < length rows. row_ok (rows ! k) \<and> qr_index (rows ! k) = word_of_nat k"
    by (rule compile_queries_Inr[OF assms(1)])
  then have "rows_ok rows" by (simp add: rows_ok_def sint_of_nat32)
  then show ?thesis by (rule prepare_compiled[OF _ assms(2,3)])
qed

lemma compiled_queries_load_witness:
  "\<exists>pm en'. rst_prepare_module demo_db demo_spi demo_wamr demo_name False no_engine = (Inr pm, en') \<and>
    plan_for demo_row (pm_queries pm ! 0)"
  using compiled_queries_load[OF demo_compiles demo_loads no_engine_wf] by auto

end
