(* ===== verification/Cursor.thy ===== *)
theory Cursor
  imports QueryProps
begin

text \<open>
  Cursors, the tables of rows they give and the rows (\<open>query.c\<close>, lines 502 to 643, with the
  finalizer of \<open>datatypes.c\<close>): the application holds references to host objects, and the
  garbage collector finalizes an object that no reference leads to any more. SPI's answers are
  arguments.
\<close>

section \<open>State\<close>

text \<open>
  The host objects by address, the portals Postgres has open and the tuple tables it gave. An
  object's finalizer runs once, then the object is gone.
\<close>

record cursors =
  cs_next :: nat \<comment> \<open>the next address, portal or table\<close>
  cs_objs :: "nat \<Rightarrow> obj option"
  cs_open :: "nat set"
  cs_tables :: "nat \<Rightarrow> datum list list"

datatype app_ref = ANull | ANotExternref | AObj nat

definition deref :: "cursors \<Rightarrow> app_ref \<Rightarrow> wasm_ref" where
  "deref st r =
     (case r of
        ANull \<Rightarrow> NullRef
      | ANotExternref \<Rightarrow> GcObject
      | AObj a \<Rightarrow> (case cs_objs st a of None \<Rightarrow> Externref NullRef | Some ob \<Rightarrow> Externref (Anyref ob)))"

definition the_obj :: "cursors \<Rightarrow> app_ref \<Rightarrow> obj_type \<Rightarrow> (nat \<times> obj) res" where
  "the_obj st r ty =
     res_bind (wasm_externref_obj_get_obj (deref st r) ty) (\<lambda>ob.
       Inr ((case r of AObj a \<Rightarrow> a | _ \<Rightarrow> 0), ob))"

definition new_obj :: "obj \<Rightarrow> cursors \<Rightarrow> app_ref \<times> cursors" where
  "new_obj ob st = (AObj (cs_next st), st\<lparr>cs_next := Suc (cs_next st), cs_objs := (cs_objs st)(cs_next st \<mapsto> ob)\<rparr>)"

section \<open>Operations\<close>

text \<open>\<open>opened\<close>: \<open>SPI_cursor_open\<close> returned (it may raise).\<close>

definition env_cursor_open :: "bool \<Rightarrow> inst_context \<Rightarrow> i32 \<Rightarrow> cursors \<Rightarrow> (app_ref \<times> cursors) res" where
  "env_cursor_open opened cx idx st =
     res_bind (find_plan cx idx) (\<lambda>p.
     case qp_plan p of
       None \<Rightarrow> Inl (Undefined ''plan->plan'')
     | Some (_, pp) \<Rightarrow>
         if \<not> pp_cursor pp then Inl (PgError ''not a cursor plan'')
         else
           res_bind (read_args cx idx p) (\<lambda>values.
             if \<not> opened then Inl (PgError ''SPI_cursor_open'')
             else
               let portal = cs_next st;
                   st = st\<lparr>cs_next := Suc portal, cs_open := insert portal (cs_open st)\<rparr>
               in Inr (new_obj (rst_obj_new OBJ_PORTAL None {OBJ_OWNS_BODY} (OtherOid 0) idx
                         (BodyPortal (Some portal))) st)))"

definition INT_MAX :: nat where "INT_MAX = 2147483647"

text \<open>The object for the rows \<open>SPI_cursor_fetch\<close> left in \<open>SPI_tuptable\<close>.\<close>

definition new_table :: "i32 \<Rightarrow> datum list list \<Rightarrow> cursors \<Rightarrow> (app_ref \<times> cursors) res" where
  "new_table query_idx rows st =
     (if rows = [] then
        Inr (new_obj (rst_obj_new OBJ_TUPLE_TABLE None {} (OtherOid 0) query_idx (BodyTupleTable None)) st)
      else if INT_MAX < length rows then Inl (PgError ''too many rows'')
      else
        let t = cs_next st;
            st = st\<lparr>cs_next := Suc t, cs_tables := (cs_tables st)(t := rows)\<rparr>
        in Inr (new_obj (rst_obj_new OBJ_TUPLE_TABLE None {OBJ_OWNS_BODY} (OtherOid 0) query_idx
                  (BodyTupleTable (Some t))) st))"

text \<open>\<open>count\<close> only goes to SPI. Using a portal that is not open is undefined.\<close>

definition env_cursor_fetch :: "(i64 \<Rightarrow> datum list list) \<Rightarrow> app_ref \<Rightarrow> i64 \<Rightarrow> cursors \<Rightarrow> (app_ref \<times> cursors) res" where
  "env_cursor_fetch fetched r count st =
     res_bind (the_obj st r OBJ_PORTAL) (\<lambda>(a, ob).
       case ob_body ob of
         BodyPortal None \<Rightarrow> Inl (PgError ''portal already closed'')
       | BodyPortal (Some portal) \<Rightarrow>
           if portal \<notin> cs_open st then Inl (Undefined ''SPI_cursor_fetch'')
           else new_table (ob_query_idx ob) (fetched count) st
       | _ \<Rightarrow> Inl (Undefined ''obj->body.portal''))"

definition FETCH_ALL :: i64 where "FETCH_ALL = 0x7FFFFFFFFFFFFFFF"

definition env_cursor_fetch_all :: "(i64 \<Rightarrow> datum list list) \<Rightarrow> app_ref \<Rightarrow> cursors \<Rightarrow> (app_ref \<times> cursors) res" where
  "env_cursor_fetch_all fetched r st = env_cursor_fetch fetched r FETCH_ALL st"

fun with_body :: "obj \<Rightarrow> body \<Rightarrow> obj" where
  "with_body (Obj ty fl oid q _ ref) b = Obj ty fl oid q b ref"

definition close_portal :: "nat \<Rightarrow> cursors \<Rightarrow> cursors res" where
  "close_portal portal st =
     (if portal \<in> cs_open st then Inr (st\<lparr>cs_open := cs_open st - {portal}\<rparr>)
      else Inl (Undefined ''SPI_cursor_close''))"

definition env_cursor_close :: "app_ref \<Rightarrow> cursors \<Rightarrow> (i32 \<times> cursors) res" where
  "env_cursor_close r st =
     res_bind (the_obj st r OBJ_PORTAL) (\<lambda>(a, ob).
       case ob_body ob of
         BodyPortal None \<Rightarrow> Inr (1, st)
       | BodyPortal (Some portal) \<Rightarrow>
           res_bind (close_portal portal st) (\<lambda>st.
             Inr (1, st\<lparr>cs_objs := (cs_objs st)(a \<mapsto> with_body ob (BodyPortal None))\<rparr>))
       | _ \<Rightarrow> Inl (Undefined ''obj->body.portal''))"

definition table_rows :: "cursors \<Rightarrow> obj \<Rightarrow> datum list list option res" where
  "table_rows st ob =
     (case ob_body ob of
        BodyTupleTable t \<Rightarrow> Inr (map_option (cs_tables st) t)
      | _ \<Rightarrow> Inl (Undefined ''obj->body.tuptable''))"

definition env_tuple_table_len :: "app_ref \<Rightarrow> cursors \<Rightarrow> i32 res" where
  "env_tuple_table_len r st =
     res_bind (the_obj st r OBJ_TUPLE_TABLE) (\<lambda>(_, ob). res_bind (table_rows st ob) (\<lambda>rows.
       case rows of None \<Rightarrow> Inr 0 | Some rows \<Rightarrow> Inr (word_of_nat (length rows))))"

definition env_tuple_table_get :: "app_ref \<Rightarrow> i32 \<Rightarrow> cursors \<Rightarrow> (app_ref \<times> cursors) res" where
  "env_tuple_table_get r idx st =
     res_bind (the_obj st r OBJ_TUPLE_TABLE) (\<lambda>(_, ob). res_bind (table_rows st ob) (\<lambda>rows.
       case rows of
         None \<Rightarrow> Inl (PgError ''index out of range'')
       | Some rows \<Rightarrow>
           let idx = (if sint idx < 0 then idx + word_of_nat (length rows) else idx) in
           if sint idx < 0 \<or> int (length rows) \<le> sint idx then Inl (PgError ''index out of range'')
           else Inr (new_obj (rst_obj_new OBJ_HEAP_TUPLE (Some ob) {OBJ_OWNS_BODY} (OtherOid 0) 0
                  (BodyHeapTuple (nat (sint idx)))) st)))"

text \<open>The row behind a reference, and \<open>env_tuple_lower\<close> on it.\<close>

definition lower_ref :: "inst_context \<Rightarrow> app_ref \<Rightarrow> cursors \<Rightarrow> inst_context res" where
  "lower_ref cx r st =
     res_bind (the_obj st r OBJ_HEAP_TUPLE) (\<lambda>(_, tuple).
     case (ob_ref tuple, ob_body tuple) of
       (Some table, BodyHeapTuple i) \<Rightarrow>
         if ob_type table \<noteq> OBJ_TUPLE_TABLE then Inl (PgError ''expected object type %d, got %d'')
         else
           res_bind (table_rows st table) (\<lambda>rows. case rows of
             None \<Rightarrow> Inl (Undefined ''tuptable->tupdesc'')
           | Some rows \<Rightarrow>
               if length rows \<le> i then Inl (Undefined ''tuptable->vals'')
               else env_tuple_lower cx (ob_query_idx table) tuple (rows ! i))
     | _ \<Rightarrow> Inl (Undefined ''obj->ref[0].val''))"

text \<open>
  What \<open>CLOSE ALL\<close> does, if the application declared it as a query and executes it: Postgres closes the
  portals, the objects keep their pointers.
\<close>

definition close_all :: "cursors \<Rightarrow> cursors" where
  "close_all st = st\<lparr>cs_open := {}\<rparr>"

text \<open>The acts of a finalizer that matter to cursors; then the object is freed.\<close>

fun run_releases :: "release list \<Rightarrow> cursors \<Rightarrow> cursors res" where
  "run_releases [] st = Inr st"
| "run_releases (CloseCursor portal # rs) st = res_bind (close_portal portal st) (run_releases rs)"
| "run_releases (_ # rs) st = run_releases rs st"

definition finalize :: "nat \<Rightarrow> cursors \<Rightarrow> cursors res" where
  "finalize a st =
     (case cs_objs st a of
        None \<Rightarrow> Inl (Undefined ''finalizer'')
      | Some ob \<Rightarrow>
          res_bind (run_releases (obj_finalizer ob) st) (\<lambda>st.
            Inr (st\<lparr>cs_objs := (cs_objs st)(a := None)\<rparr>)))"

end
