(* ===== verification/CursorProps.thy ===== *)
theory CursorProps
  imports Cursor
begin

text \<open>
  The properties of cursors: an open portal belongs to one live object, closing and finalizing
  never close a portal twice, indexes into a table of rows, and rows are lowered by the plan of
  the query they came from.
\<close>

section \<open>Reachable states\<close>

inductive cursor_step :: "inst_context \<Rightarrow> cursors \<Rightarrow> cursors \<Rightarrow> bool" for cx where
  Open: "env_cursor_open opened cx idx st = Inr (r, st') \<Longrightarrow> cursor_step cx st st'"
| Fetch: "env_cursor_fetch fetched r count st = Inr (r', st') \<Longrightarrow> cursor_step cx st st'"
| Close: "env_cursor_close r st = Inr (x, st') \<Longrightarrow> cursor_step cx st st'"
| Get: "env_tuple_table_get r idx st = Inr (r', st') \<Longrightarrow> cursor_step cx st st'"
| Finalize: "finalize a st = Inr st' \<Longrightarrow> cursor_step cx st st'"

definition no_cursors :: cursors where
  "no_cursors = \<lparr>cs_next = 0, cs_objs = (\<lambda>_. None), cs_open = {}, cs_tables = (\<lambda>_. [])\<rparr>"

inductive cursor_reachable :: "inst_context \<Rightarrow> cursors \<Rightarrow> bool" for cx where
  Start: "cursor_reachable cx no_cursors"
| Step: "cursor_reachable cx st \<Longrightarrow> cursor_step cx st st' \<Longrightarrow> cursor_reachable cx st'"

fun body_portal :: "body \<Rightarrow> nat option" where
  "body_portal (BodyPortal p) = p"
| "body_portal _ = None"

definition portal_of :: "cursors \<Rightarrow> nat \<Rightarrow> nat option" where
  "portal_of st a = Option.bind (cs_objs st a) (body_portal \<circ> ob_body)"

definition table_ok :: "cursors \<Rightarrow> obj \<Rightarrow> bool" where
  "table_ok st ob \<longleftrightarrow> (\<forall>t. ob_body ob = BodyTupleTable (Some t) \<longrightarrow> t < cs_next st \<and> length (cs_tables st t) \<le> INT_MAX)"

definition obj_ok :: "cursors \<Rightarrow> obj \<Rightarrow> bool" where
  "obj_ok st ob \<longleftrightarrow> ob_type ob = body_type (ob_body ob) \<and> table_ok st ob"

definition cursors_inv :: "cursors \<Rightarrow> bool" where
  "cursors_inv st \<longleftrightarrow>
     (\<forall>a ob. cs_objs st a = Some ob \<longrightarrow> a < cs_next st \<and> obj_ok st ob) \<and>
     (\<forall>p \<in> cs_open st. p < cs_next st) \<and>
     cs_open st = ran (portal_of st) \<and>
     (\<forall>a b p. portal_of st a = Some p \<longrightarrow> portal_of st b = Some p \<longrightarrow> a = b)"

lemma body_of_type:
  "ob_type ob = body_type (ob_body ob) \<Longrightarrow> ob_type ob = OBJ_PORTAL \<Longrightarrow> \<exists>p. ob_body ob = BodyPortal p"
  "ob_type ob = body_type (ob_body ob) \<Longrightarrow> ob_type ob = OBJ_TUPLE_TABLE \<Longrightarrow> \<exists>t. ob_body ob = BodyTupleTable t"
  by (cases "ob_body ob"; simp)+

lemma the_obj_Inr:
  "the_obj st r ty = Inr (a, ob) \<Longrightarrow> r = AObj a \<and> cs_objs st a = Some ob \<and> ob_type ob = ty"
  by (auto simp: the_obj_def deref_def res_bind_eq_Inr wasm_externref_obj_get_obj_def
      split: app_ref.splits option.splits if_splits)

lemma cursors_invD:
  assumes "cursors_inv st" "cs_objs st a = Some ob"
  shows "a < cs_next st" "obj_ok st ob"
  using assms by (auto simp: cursors_inv_def)

lemma portal_of_Some: "cs_objs st a = Some ob \<Longrightarrow> ob_body ob = BodyPortal p \<Longrightarrow> portal_of st a = p"
  by (simp add: portal_of_def)

lemma portal_of_upd: "portal_of (st\<lparr>cs_objs := f\<rparr>) a = Option.bind (f a) (body_portal \<circ> ob_body)"
  by (simp add: portal_of_def)

lemma fresh_portal_of: "cursors_inv st \<Longrightarrow> cs_next st \<le> n \<Longrightarrow> cs_objs st n = None"
  by (auto simp: cursors_inv_def dest!: spec[of _ n] split: option.splits)

lemma new_obj_inv:
  assumes "cursors_inv st" "obj_ok st ob" "body_portal (ob_body ob) = None"
  shows "cursors_inv (snd (new_obj ob st))"
proof -
  let ?st = "st\<lparr>cs_next := Suc (cs_next st), cs_objs := (cs_objs st)(cs_next st \<mapsto> ob)\<rparr>"
  have "portal_of ?st = portal_of st"
    using assms(3) fresh_portal_of[OF assms(1) order.refl] by (auto simp: portal_of_def)
  then show ?thesis
    using assms(1,2) unfolding cursors_inv_def
    by (auto simp: new_obj_def obj_ok_def table_ok_def less_Suc_eq)
qed

definition opened_cursor :: "nat \<Rightarrow> i32 \<Rightarrow> obj" where
  "opened_cursor portal idx = rst_obj_new OBJ_PORTAL None {OBJ_OWNS_BODY} (OtherOid 0) idx (BodyPortal (Some portal))"

lemma open_Inr:
  assumes "env_cursor_open opened cx idx st = Inr (r, st')"
  shows "r = AObj (Suc (cs_next st))"
    "st' = st\<lparr>cs_open := insert (cs_next st) (cs_open st), cs_next := Suc (Suc (cs_next st)),
       cs_objs := (cs_objs st)(Suc (cs_next st) \<mapsto> opened_cursor (cs_next st) idx)\<rparr>"
  using assms
  by (auto simp: env_cursor_open_def res_bind_eq_Inr Let_def new_obj_def opened_cursor_def
      split: option.split_asm if_split_asm)

lemma open_inv:
  assumes "cursors_inv st" "env_cursor_open opened cx idx st = Inr (r, st')"
  shows "cursors_inv st'"
proof -
  let ?n = "cs_next st"
  let ?ob = "opened_cursor ?n idx"
  note st' = open_Inr(2)[OF assms(2)]
  have ob: "obj_ok st' ?ob" "body_portal (ob_body ?ob) = Some ?n"
    by (simp_all add: opened_cursor_def rst_obj_new_def obj_ok_def table_ok_def)
  have po: "portal_of st' = (portal_of st)(Suc ?n \<mapsto> ?n)"
    using ob(2) by (auto simp: st' portal_of_def)
  have no: "portal_of st (Suc ?n) = None" using fresh_portal_of[OF assms(1), of "Suc ?n"] by (simp add: portal_of_def)
  have "cs_open st' = ran (portal_of st')"
    using assms(1) unfolding po ran_map_upd[of "portal_of st" "Suc ?n" ?n, OF no] by (simp add: cursors_inv_def st')
  moreover have "portal_of st a \<noteq> Some ?n" for a using assms(1) by (auto simp: cursors_inv_def ran_def)
  then have "\<forall>a b p. portal_of st' a = Some p \<longrightarrow> portal_of st' b = Some p \<longrightarrow> a = b"
    using assms(1) unfolding po by (auto simp: cursors_inv_def)
  moreover have "(\<forall>a ob. cs_objs st' a = Some ob \<longrightarrow> a < cs_next st' \<and> obj_ok st' ob) \<and> (\<forall>p \<in> cs_open st'. p < cs_next st')"
    using assms(1) ob(1) by (auto simp: cursors_inv_def st' obj_ok_def table_ok_def less_Suc_eq)
  ultimately show ?thesis by (simp add: cursors_inv_def)
qed

definition cursor_errors :: "failure set" where
  "cursor_errors = {PgError ''portal already closed'', PgError ''too many rows'', PgError ''index out of range'',
     PgError ''expected object type %d, got %d'', PgError ''not an externref object''}"

text \<open>A reference the application can have: to an object that is live, or to one of its own.\<close>

definition app_ref_ok :: "cursors \<Rightarrow> app_ref \<Rightarrow> bool" where
  "app_ref_ok st r \<longleftrightarrow> r = ANotExternref \<or> (\<exists>a. r = AObj a \<and> cs_objs st a \<noteq> None)"

lemma the_obj_sat:
  assumes "cursors_inv st" "app_ref_ok st r"
  shows "res_sat cursor_errors (\<lambda>(a, ob). r = AObj a \<and> cs_objs st a = Some ob \<and> ob_type ob = ty \<and> obj_ok st ob) (the_obj st r ty)"
  using assms cursors_invD(2)[OF assms(1)]
  by (auto simp: app_ref_ok_def the_obj_def deref_def wasm_externref_obj_get_obj_def cursor_errors_def)

lemma new_table_sat:
  assumes "cursors_inv st"
  shows "res_sat cursor_errors (\<lambda>(r', st'). cursors_inv st') (new_table q rows st)"
proof -
  let ?st = "st\<lparr>cs_next := Suc (cs_next st), cs_tables := (cs_tables st)(cs_next st := rows)\<rparr>"
  have "portal_of ?st = portal_of st" by (auto simp: portal_of_def)
  then have "cursors_inv ?st"
    using assms by (auto simp: cursors_inv_def obj_ok_def table_ok_def less_Suc_eq)
  then show ?thesis
    using assms
    by (auto simp: new_table_def Let_def cursor_errors_def case_prod_beta obj_ok_def table_ok_def rst_obj_new_def
        intro!: new_obj_inv)
qed

lemma ran_remove:
  assumes "m a = Some p" "\<And>b. m b = Some p \<Longrightarrow> b = a"
  shows "ran (m(a := None)) = ran m - {p}"
proof -
  have "x \<in> ran (m(a := None)) \<longleftrightarrow> (\<exists>b. b \<noteq> a \<and> m b = Some x)" for x
    by (auto simp: ran_def split: if_splits)
  moreover have "x \<in> ran m \<longleftrightarrow> (\<exists>b. m b = Some x)" for x by (simp add: ran_def)
  ultimately show ?thesis
    unfolding set_eq_iff Diff_iff singleton_iff using assms by (metis option.inject)
qed

lemma portal_open:
  "cursors_inv st \<Longrightarrow> cs_objs st a = Some ob \<Longrightarrow> ob_body ob = BodyPortal (Some p) \<Longrightarrow> p \<in> cs_open st"
  using portal_of_Some[of st a ob] by (auto simp: cursors_inv_def intro: ranI)

lemma fetch_sat:
  assumes "cursors_inv st" "app_ref_ok st r"
  shows "res_sat cursor_errors (\<lambda>(r', st'). cursors_inv st') (env_cursor_fetch fetched r count st)"
  unfolding env_cursor_fetch_def
proof (rule res_sat_bind[OF the_obj_sat[OF assms]], clarsimp)
  fix a ob
  assume ob: "cs_objs st a = Some ob" "ob_type ob = OBJ_PORTAL" "obj_ok st ob"
  then obtain p where p: "ob_body ob = BodyPortal p" using body_of_type(1) by (auto simp: obj_ok_def)
  then show "res_sat cursor_errors (\<lambda>(r', st'). cursors_inv st')
     (case ob_body ob of BodyPortal None \<Rightarrow> Inl (PgError ''portal already closed'')
      | BodyPortal (Some portal) \<Rightarrow> if portal \<notin> cs_open st then Inl (Undefined ''SPI_cursor_fetch'')
          else new_table (ob_query_idx ob) (fetched count) st
      | _ \<Rightarrow> Inl (Undefined ''obj->body.portal''))"
    using new_table_sat[OF assms(1)] portal_open[OF assms(1) ob(1)]
    by (auto simp: cursor_errors_def split: option.splits)
qed

lemma remove_portal_inv:
  assumes "cursors_inv st" "cs_objs st a = Some ob" "ob_body ob = BodyPortal (Some p)"
    and "\<And>ob'. x = Some ob' \<Longrightarrow> obj_ok st ob' \<and> body_portal (ob_body ob') = None"
  shows "cursors_inv (st\<lparr>cs_open := cs_open st - {p}, cs_objs := (cs_objs st)(a := x)\<rparr>)"
proof -
  let ?st = "st\<lparr>cs_open := cs_open st - {p}, cs_objs := (cs_objs st)(a := x)\<rparr>"
  have p: "portal_of st a = Some p" using portal_of_Some[OF assms(2,3)] .
  have po: "portal_of ?st = (portal_of st)(a := None)"
    using assms(4) by (cases x) (auto simp: portal_of_def)
  have "ran ((portal_of st)(a := None)) = ran (portal_of st) - {p}"
    using assms(1) p by (intro ran_remove) (auto simp: cursors_inv_def)
  then have "cs_open ?st = ran (portal_of ?st)" using assms(1) unfolding po by (simp add: cursors_inv_def)
  moreover have "\<forall>a b p. portal_of ?st a = Some p \<longrightarrow> portal_of ?st b = Some p \<longrightarrow> a = b"
    using assms(1) unfolding po by (auto simp: cursors_inv_def)
  moreover have "(\<forall>b ob. cs_objs ?st b = Some ob \<longrightarrow> b < cs_next ?st \<and> obj_ok ?st ob) \<and> (\<forall>p \<in> cs_open ?st. p < cs_next ?st)"
    using assms(1,4) cursors_invD[OF assms(1,2)] by (auto simp: cursors_inv_def obj_ok_def table_ok_def)
  ultimately show ?thesis unfolding cursors_inv_def by blast
qed

lemma close_sat:
  assumes "cursors_inv st" "app_ref_ok st r"
  shows "res_sat cursor_errors (\<lambda>(x, st'). cursors_inv st' \<and> x = 1) (env_cursor_close r st)"
  unfolding env_cursor_close_def
proof (rule res_sat_bind[OF the_obj_sat[OF assms]], clarsimp)
  fix a ob
  assume ob: "cs_objs st a = Some ob" "ob_type ob = OBJ_PORTAL" "obj_ok st ob"
  then obtain p where p: "ob_body ob = BodyPortal p" using body_of_type(1) by (auto simp: obj_ok_def)
  show "res_sat cursor_errors (\<lambda>(x, st'). cursors_inv st' \<and> x = 1)
     (case ob_body ob of BodyPortal None \<Rightarrow> Inr (1, st)
      | BodyPortal (Some portal) \<Rightarrow> res_bind (close_portal portal st)
          (\<lambda>st. Inr (1, st\<lparr>cs_objs := (cs_objs st)(a \<mapsto> with_body ob (BodyPortal None))\<rparr>))
      | _ \<Rightarrow> Inl (Undefined ''obj->body.portal''))"
  proof (cases p)
    case (Some portal)
    with ob p show ?thesis
      using portal_open[OF assms(1) ob(1)] assms(1)
      by (cases ob) (auto simp: close_portal_def obj_ok_def table_ok_def intro!: remove_portal_inv)
  qed (simp add: p assms(1))
qed

lemma table_rows_sat:
  assumes "obj_ok st ob" "ob_type ob = OBJ_TUPLE_TABLE"
  shows "\<exists>rows. table_rows st ob = Inr rows \<and> (\<forall>rs. rows = Some rs \<longrightarrow> length rs \<le> INT_MAX)"
proof -
  obtain t where "ob_body ob = BodyTupleTable t"
    using assms body_of_type(2) by (auto simp: obj_ok_def)
  with assms(1) show ?thesis by (auto simp: table_rows_def obj_ok_def table_ok_def)
qed

text \<open>The index the application gave, with negative ones counted from the end.\<close>

definition row_index :: "i32 \<Rightarrow> nat \<Rightarrow> int" where
  "row_index idx n = (if sint idx < 0 then sint idx + int n else sint idx)"

lemma row_index_word:
  assumes "n \<le> INT_MAX"
  shows "sint (if sint idx < 0 then idx + word_of_nat n else idx) = row_index idx n"
proof (cases "sint idx < 0")
  case True
  have "idx + word_of_nat n = (word_of_int (sint idx + int n) :: i32)" by simp
  moreover have "- (2 ^ 31) \<le> sint idx" using sint_ge[of idx] by simp
  ultimately show ?thesis using True assms
    by (simp only: if_True row_index_def) (rule sint_of_int32; simp add: INT_MAX_def)
qed (simp add: row_index_def)

lemma get_sat:
  assumes "cursors_inv st" "app_ref_ok st r"
  shows "res_sat cursor_errors (\<lambda>(r', st'). cursors_inv st') (env_tuple_table_get r idx st)"
  unfolding env_tuple_table_get_def
proof (rule res_sat_bind[OF the_obj_sat[OF assms]], clarsimp)
  fix a ob
  assume "ob_type ob = OBJ_TUPLE_TABLE" "obj_ok st ob"
  from table_rows_sat[OF this(2,1)] obtain rows where "table_rows st ob = Inr rows" by blast
  moreover have "cursors_inv (snd (new_obj (rst_obj_new OBJ_HEAP_TUPLE (Some ob) {OBJ_OWNS_BODY} (OtherOid 0) 0 (BodyHeapTuple i)) st))" for i
    by (rule new_obj_inv[OF assms(1)]) (simp_all add: obj_ok_def table_ok_def rst_obj_new_def)
  ultimately show "res_sat cursor_errors (\<lambda>(r', st'). cursors_inv st') (res_bind (table_rows st ob) (\<lambda>rows.
       case rows of
         None \<Rightarrow> Inl (PgError ''index out of range'')
       | Some rows \<Rightarrow>
           let idx = (if sint idx < 0 then idx + word_of_nat (length rows) else idx) in
           if sint idx < 0 \<or> int (length rows) \<le> sint idx then Inl (PgError ''index out of range'')
           else Inr (new_obj (rst_obj_new OBJ_HEAP_TUPLE (Some ob) {OBJ_OWNS_BODY} (OtherOid 0) 0
                  (BodyHeapTuple (nat (sint idx)))) st)))"
    by (simp add: Let_def cursor_errors_def case_prod_beta split: option.splits)
qed

lemma len_sat:
  assumes "cursors_inv st" "app_ref_ok st r"
  shows "res_sat cursor_errors (\<lambda>n. 0 \<le> sint n) (env_tuple_table_len r st)"
  unfolding env_tuple_table_len_def
proof (rule res_sat_bind[OF the_obj_sat[OF assms]], clarsimp)
  fix a ob
  assume "ob_type ob = OBJ_TUPLE_TABLE" "obj_ok st ob"
  from table_rows_sat[OF this(2,1)]
  show "res_sat cursor_errors (\<lambda>n. 0 \<le> sint n) (res_bind (table_rows st ob) (\<lambda>rows.
       case rows of None \<Rightarrow> Inr (0 :: i32) | Some rows \<Rightarrow> Inr (word_of_nat (length rows))))"
    by (auto simp: sint_of_nat32 INT_MAX_def split: option.splits)
qed

lemma run_releases_other:
  "(\<And>p. CloseCursor p \<notin> set rs) \<Longrightarrow> run_releases rs st = Inr st"
proof (induction rs)
  case (Cons r rs)
  have "CloseCursor p \<notin> set rs" for p using Cons.prems by (meson list.set_intros(2))
  moreover have "r \<noteq> CloseCursor p" for p using Cons.prems by auto
  ultimately show ?case using Cons.IH by (cases r) auto
qed simp

lemma remove_plain_inv:
  assumes "cursors_inv st" "cs_objs st a = Some ob" "portal_of st a = None"
  shows "cursors_inv (st\<lparr>cs_objs := (cs_objs st)(a := None)\<rparr>)"
proof -
  have "portal_of (st\<lparr>cs_objs := (cs_objs st)(a := None)\<rparr>) = portal_of st"
    using assms(3) by (auto simp: portal_of_def)
  with assms(1) show ?thesis by (auto simp: cursors_inv_def obj_ok_def table_ok_def)
qed

lemma finalize_ok:
  assumes "cursors_inv st" "cs_objs st a = Some ob"
  shows "\<exists>st'. finalize a st = Inr st' \<and> cursors_inv st'"
proof (cases "portal_of st a")
  case None
  have "CloseCursor p \<notin> set (obj_finalizer ob)" for p
    using None assms(2)
    by (auto simp: obj_finalizer_def portal_of_def split: body.splits option.splits jbv_type.splits)
  with assms None show ?thesis
    by (simp add: finalize_def run_releases_other remove_plain_inv)
next
  case (Some p)
  then have b: "ob_body ob = BodyPortal (Some p)"
    using assms(2) by (cases "ob_body ob") (auto simp: portal_of_def)
  then have "run_releases (obj_finalizer ob) st = Inr (st\<lparr>cs_open := cs_open st - {p}\<rparr>)"
    using portal_open[OF assms b] by (auto simp: obj_finalizer_def close_portal_def)
  with assms remove_portal_inv[OF assms b, of None] show ?thesis
    by (simp add: finalize_def)
qed

lemma reachable_cursors_inv:
  assumes "cursor_reachable cx st"
  shows "cursors_inv st"
  using assms
proof (induction rule: cursor_reachable.induct)
  case Start
  show ?case by (simp add: cursors_inv_def no_cursors_def portal_of_def ran_def)
next
  case (Step st st')
  have "app_ref_ok st r" if "the_obj st r ty = Inr x" for r ty x
    using that the_obj_Inr[of st r ty "fst x" "snd x"] by (auto simp: app_ref_ok_def)
  note ok = this
  from Step.hyps(2) Step.IH show ?case
  proof (cases rule: cursor_step.cases)
    case (Open opened idx r)
    with Step.IH show ?thesis using open_inv by blast
  next
    case (Fetch fetched r count r')
    then have "app_ref_ok st r" using ok by (auto simp: env_cursor_fetch_def res_bind_eq_Inr)
    with fetch_sat[OF Step.IH this, of fetched count] Fetch show ?thesis by simp
  next
    case (Close r x)
    then have "app_ref_ok st r" using ok by (auto simp: env_cursor_close_def res_bind_eq_Inr)
    with close_sat[OF Step.IH this] Close show ?thesis by simp
  next
    case (Get r idx r')
    then have "app_ref_ok st r" using ok by (auto simp: env_tuple_table_get_def res_bind_eq_Inr)
    with get_sat[OF Step.IH this, of idx] Get show ?thesis by simp
  next
    case (Finalize a)
    then obtain ob where "cs_objs st a = Some ob" by (auto simp: finalize_def split: option.splits)
    from finalize_ok[OF Step.IH this] Finalize show ?thesis by auto
  qed
qed

text \<open>
  The steps above are without statements that close portals behind the objects. After one, the test
  for a null pointer finds nothing, and fetching, closing and finalizing use a portal that is gone.
\<close>

lemma closed_behind:
  assumes "cs_objs st a = Some ob" "ob_type ob = OBJ_PORTAL" "ob_body ob = BodyPortal (Some portal)"
  shows "env_cursor_fetch fetched (AObj a) count (close_all st) = Inl (Undefined ''SPI_cursor_fetch'')"
    "env_cursor_close (AObj a) (close_all st) = Inl (Undefined ''SPI_cursor_close'')"
    "run_releases [CloseCursor portal] (close_all st) = Inl (Undefined ''SPI_cursor_close'')"
  using assms
  by (simp_all add: env_cursor_fetch_def env_cursor_close_def the_obj_def deref_def wasm_externref_obj_get_obj_def
      close_all_def close_portal_def)

section \<open>Properties\<close>

text \<open>
  C16: in every state an application can reach by opening, fetching from, closing and indexing
  cursors in any order, with the collector finalizing objects at any time, each portal that is
  open belongs to exactly one live cursor object. So none is left open once the objects are
  gone, and none is closed twice: closing again is harmless, a fetch after closing is an error,
  and the only failures are those errors.
\<close>
lemma cursors_safe:
  assumes "cursor_reachable cx st" "app_ref_ok st r"
  shows "(\<forall>p \<in> cs_open st. \<exists>!a. portal_of st a = Some p) \<and>
    ((\<forall>a. cs_objs st a = None) \<longrightarrow> cs_open st = {}) \<and>
    (\<forall>f c e. env_cursor_fetch f r c st = Inl e \<longrightarrow> e \<in> cursor_errors) \<and>
    (\<forall>e. env_cursor_close r st = Inl e \<longrightarrow> e \<in> cursor_errors) \<and>
    (\<forall>i e. env_tuple_table_get r i st = Inl e \<longrightarrow> e \<in> cursor_errors) \<and>
    (\<forall>e. env_tuple_table_len r st = Inl e \<longrightarrow> e \<in> cursor_errors) \<and>
    (\<forall>a. cs_objs st a \<noteq> None \<longrightarrow> (\<exists>st'. finalize a st = Inr st'))"
proof -
  note inv = reachable_cursors_inv[OF assms(1)]
  have "\<exists>!a. portal_of st a = Some p" if "p \<in> cs_open st" for p
    using that inv by (auto simp: cursors_inv_def ran_def)
  moreover have "cs_open st = {}" if "\<forall>a. cs_objs st a = None"
    using that inv by (auto simp: cursors_inv_def ran_def portal_of_def)
  moreover have "\<forall>f c e. env_cursor_fetch f r c st = Inl e \<longrightarrow> e \<in> cursor_errors"
    using fetch_sat[OF inv assms(2)] by (metis res_sat_simps(1))
  moreover have "\<forall>e. env_cursor_close r st = Inl e \<longrightarrow> e \<in> cursor_errors"
    using close_sat[OF inv assms(2)] by (metis res_sat_simps(1))
  moreover have "\<forall>i e. env_tuple_table_get r i st = Inl e \<longrightarrow> e \<in> cursor_errors"
    using get_sat[OF inv assms(2)] by (metis res_sat_simps(1))
  moreover have "\<forall>e. env_tuple_table_len r st = Inl e \<longrightarrow> e \<in> cursor_errors"
    using len_sat[OF inv assms(2)] by (metis res_sat_simps(1))
  moreover have "\<forall>a. cs_objs st a \<noteq> None \<longrightarrow> (\<exists>st'. finalize a st = Inr st')"
    using finalize_ok[OF inv] by blast
  ultimately show ?thesis by blast
qed

lemma find_plan_at: "query_at cx idx p query \<Longrightarrow> find_plan cx idx = Inr p"
  by (auto simp: query_at_def find_plan_def)

lemma demo_open:
  obtains p r st where "env_cursor_open True (demo_context p) 0 no_cursors = Inr (r, st)"
proof -
  obtain p en' where i: "rst_init_query_plan demo_spi (stored_of demo_row) (zero_plan, no_engine) = (Inr (), (p, en'))"
    "en_wf no_engine" "query_at (demo_context p) 0 p demo_query" by (rule demo_prepared)
  have pf: "plan_for demo_row p" by (rule initialised_plan_for[OF i(1,2) compile_query_row_ok[OF demo_compiled]])
  obtain n pp where pp: "qp_plan p = Some (n, pp)" "pp_cursor pp"
    using wp_init_query_plan[OF i(2), of demo_spi "stored_of demo_row"] i(1)
    by (auto simp: wp_def plan_ready_def statement_ready_def demo_spi_def)
  have "moonbit_array (demo_array [10, 20]) [10, 20]"
    by (simp add: moonbit_array_def demo_array_def MaxAllocSize_def)
  from read_moonbit_array_ok[OF this]
  have "convert_args p (V_Obj (WStruct (HEAP_TYPE_INDEX 2) [V_I32 5, demo_array [10, 20]])) 0 (qp_nargs p) =
      Inr [DWord 5, DArray INT4OID [10, 20]]"
    using pf by (simp add: plan_for_def demo_row_def get_field_def wasm_to_pg_funcs_def to_pg_defs get_i32_def)
  then have "read_args (demo_context p) 0 p = Inr [DWord 5, DArray INT4OID [10, 20]]"
    using i(3) by (simp add: read_args_def query_at_def demo_query_def get_field_def demo_args_def)
  with pp find_plan_at[OF i(3)] have "\<exists>r st. env_cursor_open True (demo_context p) 0 no_cursors = Inr (r, st)"
    by (simp add: env_cursor_open_def Let_def new_obj_def)
  with that show thesis by blast
qed

lemma cursors_safe_witness:
  "\<exists>p st r. env_cursor_open True (demo_context p) 0 no_cursors = Inr (r, st) \<and>
    (\<forall>q \<in> cs_open st. \<exists>!a. portal_of st a = Some q) \<and>
    (\<forall>e. env_cursor_close r st = Inl e \<longrightarrow> e \<in> cursor_errors)"
proof (rule demo_open)
  fix p r st
  assume o: "env_cursor_open True (demo_context p) 0 no_cursors = Inr (r, st)"
  have "cursor_reachable (demo_context p) st"
    by (rule cursor_reachable.Step[OF cursor_reachable.Start cursor_step.Open[OF o]])
  moreover have "app_ref_ok st r" using open_Inr[OF o] by (simp add: app_ref_ok_def)
  ultimately show ?thesis using cursors_safe[of "demo_context p" st r] o by blast
qed

text \<open>A cursor of a query, the rows fetched from it, and one of the rows.\<close>

definition cursor_of :: "i32 \<Rightarrow> app_ref \<Rightarrow> cursors \<Rightarrow> bool" where
  "cursor_of idx r st \<longleftrightarrow> (\<exists>a ob p. r = AObj a \<and> cs_objs st a = Some ob \<and> ob_type ob = OBJ_PORTAL \<and>
     ob_body ob = BodyPortal (Some p) \<and> p \<in> cs_open st \<and> ob_query_idx ob = idx)"

definition table_of :: "i32 \<Rightarrow> datum list list \<Rightarrow> app_ref \<Rightarrow> cursors \<Rightarrow> bool" where
  "table_of idx rows r st \<longleftrightarrow> (\<exists>a ob. r = AObj a \<and> cs_objs st a = Some ob \<and> ob_type ob = OBJ_TUPLE_TABLE \<and>
     ob_query_idx ob = idx \<and> length rows \<le> INT_MAX \<and>
     (\<exists>t. ob_body ob = BodyTupleTable t \<and> rows = (case t of None \<Rightarrow> [] | Some t \<Rightarrow> cs_tables st t)))"

lemma cursor_of_open:
  "env_cursor_open opened cx idx st = Inr (r, st') \<Longrightarrow> cursor_of idx r st'"
  by (frule open_Inr(1), drule open_Inr(2)) (simp add: cursor_of_def opened_cursor_def rst_obj_new_def)

lemma table_of_fetch:
  "cursor_of idx r st \<Longrightarrow> length (fetched count) \<le> INT_MAX \<Longrightarrow>
    \<exists>r' st'. env_cursor_fetch fetched r count st = Inr (r', st') \<and> table_of idx (fetched count) r' st'"
  by (auto simp: cursor_of_def env_cursor_fetch_def the_obj_def deref_def wasm_externref_obj_get_obj_def
      new_table_def new_obj_def Let_def table_of_def rst_obj_new_def)

text \<open>
  C27: the rows an application fetches are the rows Postgres gave, at the index it asks for,
  negative ones counted from the end; any other index is an error. Lowering a row uses the plan
  and the box of the query the cursor was opened for.
\<close>
lemma fetched_rows:
  assumes "cursor_of idx r st" "length (fetched count) \<le> INT_MAX"
  shows "\<exists>tbl st'. env_cursor_fetch fetched r count st = Inr (tbl, st') \<and>
    env_tuple_table_len tbl st' = Inr (word_of_nat (length (fetched count))) \<and>
    (\<forall>i. let k = row_index i (length (fetched count)) in
       if 0 \<le> k \<and> k < int (length (fetched count)) then
         \<exists>row st'' tuple. env_tuple_table_get tbl i st' = Inr (row, st'') \<and>
           (\<forall>cx. lower_ref cx row st'' = env_tuple_lower cx idx tuple (fetched count ! nat k))
       else env_tuple_table_get tbl i st' = Inl (PgError ''index out of range''))"
proof -
  obtain tbl st' where f: "env_cursor_fetch fetched r count st = Inr (tbl, st')" "table_of idx (fetched count) tbl st'"
    using table_of_fetch[of idx r st fetched count] assms by blast
  then obtain a ob t where ob: "tbl = AObj a" "cs_objs st' a = Some ob" "ob_type ob = OBJ_TUPLE_TABLE"
    "ob_query_idx ob = idx" "ob_body ob = BodyTupleTable t"
    "fetched count = (case t of None \<Rightarrow> [] | Some t \<Rightarrow> cs_tables st' t)" by (auto simp: table_of_def)
  then have the: "the_obj st' tbl OBJ_TUPLE_TABLE = Inr (a, ob)"
    by (simp add: the_obj_def deref_def wasm_externref_obj_get_obj_def)
  have rows: "table_rows st' ob = Inr (map_option (cs_tables st') t)" using ob(5) by (simp add: table_rows_def)
  let ?n = "length (fetched count)"
  have len: "env_tuple_table_len tbl st' = Inr (word_of_nat ?n)"
    using ob(6) by (cases t) (simp_all add: env_tuple_table_len_def the rows)
  have get: "env_tuple_table_get tbl i st' = (let k = row_index i ?n in
      if 0 \<le> k \<and> k < int ?n then
        Inr (new_obj (rst_obj_new OBJ_HEAP_TUPLE (Some ob) {OBJ_OWNS_BODY} (OtherOid 0) 0 (BodyHeapTuple (nat k))) st')
      else Inl (PgError ''index out of range''))" for i
    using ob(6) row_index_word[OF assms(2), of i]
    by (cases t) (auto simp: env_tuple_table_get_def the rows Let_def row_index_def)
  have lower: "lower_ref cx (fst (new_obj (rst_obj_new OBJ_HEAP_TUPLE (Some ob) {OBJ_OWNS_BODY} (OtherOid 0) 0 (BodyHeapTuple (nat k))) st'))
      (snd (new_obj (rst_obj_new OBJ_HEAP_TUPLE (Some ob) {OBJ_OWNS_BODY} (OtherOid 0) 0 (BodyHeapTuple (nat k))) st')) =
      env_tuple_lower cx idx (rst_obj_new OBJ_HEAP_TUPLE (Some ob) {OBJ_OWNS_BODY} (OtherOid 0) 0 (BodyHeapTuple (nat k))) (fetched count ! nat k)"
    if "0 \<le> k" "k < int ?n" for k cx
    using that ob by (cases t) (auto simp: lower_ref_def the_obj_def deref_def wasm_externref_obj_get_obj_def
        new_obj_def rst_obj_new_def table_rows_def)
  have "let k = row_index i ?n in if 0 \<le> k \<and> k < int ?n then
         \<exists>row st'' tuple. env_tuple_table_get tbl i st' = Inr (row, st'') \<and>
           (\<forall>cx. lower_ref cx row st'' = env_tuple_lower cx idx tuple (fetched count ! nat k))
       else env_tuple_table_get tbl i st' = Inl (PgError ''index out of range'')" for i
    unfolding Let_def get using lower[of "row_index i ?n"] by (auto simp: prod_eq_iff)
  with f(1) len show ?thesis by blast
qed

lemma fetched_rows_witness:
  "\<exists>p st r tbl st'. env_cursor_open True (demo_context p) 0 no_cursors = Inr (r, st) \<and>
    env_cursor_fetch (\<lambda>_. [[DWord 1], [DWord 2]]) r 5 st = Inr (tbl, st') \<and>
    (\<exists>row st'' tuple. env_tuple_table_get tbl (-1) st' = Inr (row, st'') \<and>
      (\<forall>cx. lower_ref cx row st'' = env_tuple_lower cx 0 tuple [DWord 2]))"
proof (rule demo_open)
  fix p r st
  assume o: "env_cursor_open True (demo_context p) 0 no_cursors = Inr (r, st)"
  obtain tbl st' where "env_cursor_fetch (\<lambda>_. [[DWord 1], [DWord 2]]) r 5 st = Inr (tbl, st')"
    "\<forall>i. let k = row_index i (Suc (Suc 0)) in
       if 0 \<le> k \<and> k < 2 then
         \<exists>row st'' tuple. env_tuple_table_get tbl i st' = Inr (row, st'') \<and>
           (\<forall>cx. lower_ref cx row st'' = env_tuple_lower cx 0 tuple ([[DWord 1], [DWord 2]] ! nat k))
       else env_tuple_table_get tbl i st' = Inl (PgError ''index out of range'')"
    using fetched_rows[OF cursor_of_open[OF o], of "\<lambda>_. [[DWord 1], [DWord 2]]" 5]
    by (auto simp: INT_MAX_def)
  with o show ?thesis
    by (intro exI[of _ p] exI[of _ st] exI[of _ r] exI[of _ tbl] exI[of _ st'])
      (auto simp: Let_def row_index_def dest!: spec[of _ "-1"])
qed

end
