(* ===== verification/TextOps.thy ===== *)
theory TextOps
  imports ObjSys
begin

unbundle bit_operations_syntax

text \<open>
  Texts of the application (\<open>adt/text.c\<close>): the functions on Postgres' texts, and the
  JavaScript-like view of a text as a sequence of UTF-16 code units, which is computed from the
  bytes on every access. The multi-byte functions of Postgres are parameters.
\<close>

section \<open>Postgres' multi-byte functions\<close>

text \<open>
  Functions of a pointer are given the bytes from there to the end of the buffer.
  \<open>mb2wchar bytes\<close>: the characters \<open>pg_mb2wchar_with_len\<close> stores for that many bytes, without
  the terminating 0 it adds. \<open>si_enlarge len needed\<close>: \<open>enlargeStringInfo\<close> does not raise.
\<close>

record pg_wchar_lib =
  mb_max :: nat \<comment> \<open>\<open>pg_database_encoding_max_length\<close>\<close>
  mb_len :: "byte list \<Rightarrow> int" \<comment> \<open>\<open>pg_mblen\<close>\<close>
  mb_strlen :: "byte list \<Rightarrow> int" \<comment> \<open>\<open>pg_mbstrlen_with_len\<close>\<close>
  mb_cliplen :: "byte list \<Rightarrow> int \<Rightarrow> nat" \<comment> \<open>\<open>pg_mbcharcliplen\<close>\<close>
  mb2wchar :: "byte list \<Rightarrow> u32 list"
  unicode_to_utf8 :: "u32 \<Rightarrow> byte list"
  unicode_utf8len :: "u32 \<Rightarrow> nat"
  unicode_to_server :: "u32 \<Rightarrow> byte list res" \<comment> \<open>\<open>pg_unicode_to_server\<close>, before the NUL\<close>
  surrogate_first :: "u32 \<Rightarrow> bool"
  surrogate_second :: "u32 \<Rightarrow> bool"
  surrogate_pair :: "u32 \<Rightarrow> u32 \<Rightarrow> u32"
  si_enlarge :: "nat \<Rightarrow> nat \<Rightarrow> bool"

text \<open>The functions of Postgres on whole texts, called through the function manager.\<close>

record pg_text_lib =
  pg_texteq :: "byte list \<Rightarrow> byte list \<Rightarrow> bool res"
  pg_textcat :: "byte list \<Rightarrow> byte list \<Rightarrow> byte list res"
  pg_text_substr :: "byte list \<Rightarrow> i32 \<Rightarrow> i32 \<Rightarrow> byte list res"
  pg_text_substr_no_len :: "byte list \<Rightarrow> i32 \<Rightarrow> byte list res"

text \<open>\<open>DatumGetTextPP\<close>, \<open>VARDATA_ANY\<close> and \<open>VARSIZE_ANY_EXHDR\<close>: the bytes of a datum.\<close>

definition var_bytes :: "wasm_ref \<Rightarrow> pg_type \<Rightarrow> byte list res" where
  "var_bytes r oid =
     res_bind (wasm_externref_obj_get_datum r oid) (\<lambda>d.
       case d of DPointer _ bs \<Rightarrow> Inr bs | _ \<Rightarrow> Inl (Undefined ''VARDATA_ANY''))"

definition owned_text :: "byte list \<Rightarrow> wasm_ref" where
  "owned_text bs = rst_externref_of_owned_datum (DPointer TEXTOID bs) TEXTOID"

definition index_error :: failure where "index_error = PgError ''index out of range''"

text \<open>\<open>rv[0]\<close> after \<open>pg_mb2wchar_with_len\<close> into an array of two.\<close>

definition first_wchar :: "u32 list \<Rightarrow> u32 res" where
  "first_wchar ws = (case ws of [] \<Rightarrow> Inr 0 | [w] \<Rightarrow> Inr w | _ \<Rightarrow> Inl (Undefined ''pg_wchar rv[2]''))"

section \<open>Characters\<close>

definition rst_textlen :: "pg_wchar_lib \<Rightarrow> wasm_ref \<Rightarrow> i32 res" where
  "rst_textlen P r =
     res_bind (var_bytes r TEXTOID) (\<lambda>bs.
       Inr (if mb_max P = 1 then word_of_nat (length bs) else word_of_int (mb_strlen P bs)))"

text \<open>
  Sizes are below \<open>2 ^ 30\<close>, so a negative index plus a size stays in range and the index can be
  an integer. \<open>pg_mb2wchar_with_len\<close> is given one byte.
\<close>

definition rst_textget :: "pg_wchar_lib \<Rightarrow> wasm_ref \<Rightarrow> i32 \<Rightarrow> u32 res" where
  "rst_textget P r index =
     res_bind (var_bytes r TEXTOID) (\<lambda>data.
       let size = int (length data); index = sint index in
       res_bind
         (if mb_max P = 1 then
            let offset = (if index < 0 then index + size else index) in
            if offset < 0 \<or> size \<le> offset then Inl index_error else Inr (nat offset)
          else if index \<noteq> 0 then
            let index = (if index < 0 then index + mb_strlen P data else index) in
            if index < 0 then Inl index_error
            else
              let offset = mb_cliplen P data index in
              if size \<le> int offset then Inl index_error else Inr offset
          else Inr 0)
         (\<lambda>offset.
           if length data \<le> offset then Inl (Undefined ''data + offset'')
           else first_wchar (mb2wchar P (take 1 (drop offset data)))))"

definition rst_texteq :: "pg_text_lib \<Rightarrow> wasm_ref \<Rightarrow> wasm_ref \<Rightarrow> i32 res" where
  "rst_texteq T x y =
     res_bind (var_bytes x TEXTOID) (\<lambda>t1. res_bind (var_bytes y TEXTOID) (\<lambda>t2.
     res_bind (pg_texteq T t1 t2) (\<lambda>b. Inr (if b then 1 else 0))))"

definition rst_textcat :: "pg_text_lib \<Rightarrow> wasm_ref \<Rightarrow> wasm_ref \<Rightarrow> wasm_ref res" where
  "rst_textcat T x y =
     res_bind (var_bytes x TEXTOID) (\<lambda>t1. res_bind (var_bytes y TEXTOID) (\<lambda>t2.
     res_bind (pg_textcat T t1 t2) (\<lambda>t. Inr (owned_text t))))"

definition rst_text_substr :: "pg_text_lib \<Rightarrow> wasm_ref \<Rightarrow> i32 \<Rightarrow> i32 \<Rightarrow> wasm_ref res" where
  "rst_text_substr T r start len =
     res_bind (var_bytes r TEXTOID) (\<lambda>str.
     res_bind (if len = -1 then pg_text_substr_no_len T str start else pg_text_substr T str start len)
       (\<lambda>t. Inr (owned_text t)))"

section \<open>UTF-16 code units\<close>

text \<open>The length of the character at a place, and the number of its code units.\<close>

definition char_len :: "pg_wchar_lib \<Rightarrow> byte list \<Rightarrow> nat" where
  "char_len P bs = (if mb_len P bs \<le> 0 then 1 else nat (mb_len P bs))"

lemma char_len_pos [simp]: "0 < char_len P bs"
  by (simp add: char_len_def)

definition unit_count :: "nat \<Rightarrow> nat" where "unit_count ch = (if ch < 4 then 1 else 2)"

text \<open>The loop of \<open>utf16_count_code_units\<close> over what is left of the string.\<close>

function utf16_count_code_units :: "pg_wchar_lib \<Rightarrow> byte list \<Rightarrow> nat" where
  "utf16_count_code_units P bs =
     (if bs = [] then 0
      else let ch = char_len P bs in
        if length bs < ch then 0 else unit_count ch + utf16_count_code_units P (drop ch bs))"
  by pat_completeness auto
termination
  by (relation "measure (\<lambda>(P, bs). length bs)") (auto simp: neq_Nil_conv intro: diff_less)

declare utf16_count_code_units.simps [simp del]

definition utf16_length :: "pg_wchar_lib \<Rightarrow> wasm_ref \<Rightarrow> i32 res" where
  "utf16_length P r =
     res_bind (var_bytes r TEXTOID) (\<lambda>data.
       Inr (word_of_nat (if mb_max P = 1 then length data else utf16_count_code_units P data)))"

text \<open>The code unit at a character whose code units end at \<open>utf16_index\<close>.\<close>

definition unit_of_char :: "nat \<Rightarrow> int \<Rightarrow> int \<Rightarrow> u32 \<Rightarrow> u32" where
  "unit_of_char ch utf16_index index w =
     (if 4 \<le> ch then
        if utf16_index - 1 = index then 0xDC00 + (w AND 0x3FF)
        else 0xD800 + drop_bit 10 (w - 0x10000)
      else w)"

text \<open>
  The endless loop of \<open>utf16_char_code_at\<close>; \<open>n\<close> is \<open>utf16_index\<close>, and reading at or past the
  end of the data is undefined.
\<close>

function code_unit_at :: "pg_wchar_lib \<Rightarrow> byte list \<Rightarrow> int \<Rightarrow> int \<Rightarrow> u32 res" where
  "code_unit_at P bs n index =
     (if bs = [] then Inl (Undefined ''data + mb_offset'')
      else let ch = char_len P bs; n = n + int (unit_count ch) in
        if index < n then
          if length bs < ch then Inl (Undefined ''data + mb_offset'')
          else res_bind (first_wchar (mb2wchar P (take ch bs))) (\<lambda>w. Inr (unit_of_char ch n index w))
        else code_unit_at P (drop ch bs) n index)"
  by pat_completeness auto
termination
  by (relation "measure (\<lambda>(P, bs, n, index). length bs)") (auto simp: neq_Nil_conv intro: diff_less)

declare code_unit_at.simps [simp del]

definition utf16_char_code_at :: "pg_wchar_lib \<Rightarrow> wasm_ref \<Rightarrow> i32 \<Rightarrow> u32 res" where
  "utf16_char_code_at P r index =
     res_bind (var_bytes r TEXTOID) (\<lambda>data.
       let size = (if mb_max P = 1 then length data else utf16_count_code_units P data);
           i = (if sint index < 0 then sint index + int size else sint index)
       in if i < 0 \<or> int size \<le> i then Inl index_error
          else if mb_max P = 1 then Inr (ucast (data ! nat i))
          else code_unit_at P data 0 i)"

section \<open>Making texts\<close>

definition append_info :: "pg_wchar_lib \<Rightarrow> byte list \<Rightarrow> byte list \<Rightarrow> byte list res" where
  "append_info P buf new =
     (if si_enlarge P (length buf) (length new) then Inr (buf @ new)
      else Inl (PgError ''string buffer exceeds maximum allowed length''))"

text \<open>
  The loop over the code units, as \<open>wasm_array_obj_get_elem\<close> gives them. \<open>Some\<close>: the text of the
  exception at the label \<open>error\<close>.
\<close>

fun append_units :: "pg_wchar_lib \<Rightarrow> i32 list \<Rightarrow> byte list \<Rightarrow> (string option \<times> byte list) res" where
  "append_units P [] buf = Inr (None, buf)"
| "append_units P (cu # us) buf =
     (if sint cu < 0 \<or> 0xFFFF < sint cu then Inr (Some ''Invalid UTF-16 code unit'', buf)
      else if surrogate_first P cu then
        (case us of
           [] \<Rightarrow> Inr (Some ''Incomplete surrogate pair'', buf)
         | v # us' \<Rightarrow>
             if \<not> surrogate_second P v then Inr (Some ''Invalid surrogate pair'', buf)
             else
               let ch = surrogate_pair P cu v in
               res_bind (append_info P buf (take (unicode_utf8len P ch) (unicode_to_utf8 P ch)))
                 (append_units P us'))
      else if surrogate_second P cu then Inr (Some ''Unmatched low surrogate'', buf)
      else
        res_bind (append_info P buf (take (unicode_utf8len P cu) (unicode_to_utf8 P cu)))
          (append_units P us))"

text \<open>
  A function that can set a WebAssembly exception on the instance: \<open>Some\<close> is its text, and the
  reference is then \<open>NULL\<close>. The loop runs to \<open>size\<close>, \<open>length\<close> only decides whether it runs.
\<close>

definition utf16_from_char_code_array ::
  "pg_wchar_lib \<Rightarrow> i32 list \<Rightarrow> i32 \<Rightarrow> i32 \<Rightarrow> (string option \<times> wasm_ref) res" where
  "utf16_from_char_code_array P arr start len =
     (let size = word_of_nat (length arr) :: u32;
          len = (if sint len < 0 then size else len);
          start = (if sint start < 0 then start + size else start)
      in if sint start < 0 \<or> size < start then Inl (PgError ''start index out of range'')
         else
           let len = (if size < start + len then size - start else len) in
           if len = 0 then Inr (None, owned_text [])
           else
             res_bind (append_units P (drop (unat start) arr) []) (\<lambda>(err, buf).
               case err of
                 Some e \<Rightarrow> Inr (Some e, NullRef)
               | None \<Rightarrow> res_bind (cstring_into_varatt_obj buf TEXTOID) (\<lambda>rv. Inr (None, rv))))"

definition utf16_from_code_point :: "pg_wchar_lib \<Rightarrow> u32 \<Rightarrow> wasm_ref res" where
  "utf16_from_code_point P code_point =
     (if code_point = 0 then
        Inr (rst_externref_of_obj (rst_obj_new OBJ_DATUM None {} TEXTOID 0 (BodyDatum (DPointer TEXTOID [0]))))
      else
        res_bind (unicode_to_server P code_point) (\<lambda>buf.
          if 5 \<le> length buf then Inl (Undefined ''unsigned char buf[5]'')
          else cstring_into_varatt_obj (takeWhile (\<lambda>b. b \<noteq> 0) buf) TEXTOID))"

text \<open>A global of type text: \<open>is_utf8\<close> says that the server's encoding is UTF-8.\<close>

definition global_text_resolver :: "bool \<Rightarrow> byte list \<Rightarrow> wasm_ref res" where
  "global_text_resolver is_utf8 str =
     (if VARATT_MAX - VARHDRSZ < length str then Inl (PgError ''global text too long'')
      else if \<not> is_utf8 then Inl (PgError ''TODO'')
      else Inr (rst_externref_of_obj (rst_obj_new OBJ_DATUM None {} TEXTOID 0 (BodyDatum (DPointer TEXTOID str)))))"

text \<open>What \<open>printf\<close> writes; a C string ends at the first NUL.\<close>

definition console_log :: "wasm_ref \<Rightarrow> byte list res" where
  "console_log r = res_bind (var_bytes r TEXTOID) (\<lambda>bs. Inr (takeWhile (\<lambda>b. b \<noteq> 0) bs @ [10]))"

end
