(* ===== verification/Builder.thy ===== *)
theory Builder
  imports TextOps
begin

text \<open>
  String builders and readers (\<open>adt/stringbuilder.c\<close>): an object with a \<open>StringInfo\<close> that is
  either written at its end or, when its \<open>maxlen\<close> is 0, read character by character.
\<close>

section \<open>State\<close>

text \<open>
  \<open>si_data\<close> are the bytes before \<open>len\<close>. A reader's \<open>data\<close> points at the header of the text, so its
  first bytes are the header and \<open>cursor\<close> begins behind it. Of \<open>maxlen\<close> only whether it is 0
  matters: growing the buffer keeps it positive, and it stays at its first value here.
\<close>

record string_info =
  si_data :: "byte list"
  si_cursor :: nat
  si_maxlen :: nat

text \<open>\<open>palloc\<close> raises for more than \<open>MaxAllocSize\<close> bytes.\<close>

definition sb_new :: "i32 \<Rightarrow> (wasm_ref \<times> string_info) res" where
  "sb_new size_hint =
     (let size_hint = (if sint size_hint < 1 then 1 else size_hint) in
      if 0x3FFFFFFF < unat size_hint then Inl (PgError ''invalid memory alloc request size'')
      else Inr (rst_externref_of_obj (rst_obj_new OBJ_STRING_INFO None {OBJ_OWNS_BODY_MEMBERS} (OtherOid 0) 0 BodyStringInfo),
        \<lparr>si_data = [], si_cursor = 0, si_maxlen = unat size_hint\<rparr>))"

text \<open>
  \<open>hdr\<close>: the header in front of the text's bytes; \<open>copied\<close>: \<open>DatumGetTextPP\<close> had to make a copy.
  The object \<open>kept\<close> is the text's, which the reader keeps alive.
\<close>

definition sb_read_text :: "byte list \<Rightarrow> bool \<Rightarrow> obj \<Rightarrow> wasm_ref \<Rightarrow> (wasm_ref \<times> string_info) res" where
  "sb_read_text hdr copied kept r =
     res_bind (var_bytes r TEXTOID) (\<lambda>bs.
       Inr (rst_externref_of_obj (rst_obj_new OBJ_STRING_INFO (Some kept)
              (if copied then {OBJ_OWNS_BODY_MEMBERS} else {}) (OtherOid 0) 0 BodyStringInfo),
            \<lparr>si_data = hdr @ bs, si_cursor = length hdr, si_maxlen = 0\<rparr>))"

text \<open>\<open>sb\<close>: the \<open>StringInfo\<close> of the object \<open>r\<close> refers to.\<close>

definition sb_ensure_string_info :: "wasm_ref \<Rightarrow> string_info \<Rightarrow> bool \<Rightarrow> string_info res" where
  "sb_ensure_string_info r sb readonly =
     res_bind (wasm_externref_obj_get_obj r OBJ_STRING_INFO) (\<lambda>_.
       if \<not> readonly \<and> si_maxlen sb = 0 then Inl (PgError ''StringInfo is read-only'')
       else if readonly \<and> si_maxlen sb \<noteq> 0 then Inl (PgError ''StringInfo is read-write'')
       else Inr sb)"

definition sb_mblength :: "wasm_ref \<Rightarrow> string_info \<Rightarrow> i32 res" where
  "sb_mblength r sb = res_bind (sb_ensure_string_info r sb False) (\<lambda>sb. Inr (word_of_nat (length (si_data sb))))"

section \<open>Writing\<close>

definition appendBinaryStringInfoNT :: "pg_wchar_lib \<Rightarrow> string_info \<Rightarrow> byte list \<Rightarrow> string_info res" where
  "appendBinaryStringInfoNT P sb new =
     res_bind (append_info P (si_data sb) new) (\<lambda>data. Inr (sb\<lparr>si_data := data\<rparr>))"

definition sb_write_string :: "pg_wchar_lib \<Rightarrow> wasm_ref \<Rightarrow> string_info \<Rightarrow> wasm_ref \<Rightarrow> string_info res" where
  "sb_write_string P r sb str =
     res_bind (sb_ensure_string_info r sb False) (\<lambda>sb.
     res_bind (var_bytes str TEXTOID) (\<lambda>bs.
       appendBinaryStringInfoNT P sb bs))"

definition sb_write_substring ::
  "pg_wchar_lib \<Rightarrow> wasm_ref \<Rightarrow> string_info \<Rightarrow> wasm_ref \<Rightarrow> i32 \<Rightarrow> i32 \<Rightarrow> string_info res" where
  "sb_write_substring P r sb str start len =
     res_bind (sb_ensure_string_info r sb False) (\<lambda>sb.
     res_bind (var_bytes str TEXTOID) (\<lambda>data.
       let mb_start = mb_cliplen P data (sint start) in
       if length data < mb_start then Inl (Undefined ''data + mb_start'')
       else
         let clip = drop mb_start data; mb_len = mb_cliplen P clip (sint len) in
         if length clip < mb_len then Inl (Undefined ''clip'')
         else appendBinaryStringInfoNT P sb (take mb_len clip)))"

definition MAX_UNICODE_EQUIVALENT_STRING :: nat where "MAX_UNICODE_EQUIVALENT_STRING = 16"

text \<open>
  The bytes are stored with a NUL behind them in the room \<open>enlargeStringInfo\<close> made; \<open>strlen\<close>
  finds their number.
\<close>

definition sb_write_char :: "pg_wchar_lib \<Rightarrow> wasm_ref \<Rightarrow> string_info \<Rightarrow> u32 \<Rightarrow> string_info res" where
  "sb_write_char P r sb ch =
     res_bind (sb_ensure_string_info r sb False) (\<lambda>sb.
       if \<not> si_enlarge P (length (si_data sb)) MAX_UNICODE_EQUIVALENT_STRING then
         Inl (PgError ''string buffer exceeds maximum allowed length'')
       else
         res_bind (unicode_to_server P ch) (\<lambda>bs.
           if MAX_UNICODE_EQUIVALENT_STRING < length bs then Inl (Undefined ''sb->data + sb->len'')
           else Inr (sb\<lparr>si_data := si_data sb @ takeWhile (\<lambda>b. b \<noteq> 0) bs\<rparr>)))"

text \<open>
  The sum wraps around, and it is compared without a sign: a negative one is too large. A negative
  \<open>len\<close> is refused by \<open>enlargeStringInfo\<close>.
\<close>

definition sb_write_bytes ::
  "pg_wchar_lib \<Rightarrow> wasm_ref \<Rightarrow> string_info \<Rightarrow> wasm_ref \<Rightarrow> i32 \<Rightarrow> i32 \<Rightarrow> string_info res" where
  "sb_write_bytes P r sb bytes start len =
     res_bind (sb_ensure_string_info r sb False) (\<lambda>sb.
     res_bind (var_bytes bytes BYTEAOID) (\<lambda>b.
       if sint start < 0 \<or> word_of_nat (length b) < start + len then
         Inl (PgError ''sb_write_bytes: index out of bound'')
       else if sint len < 0 then Inl (PgError ''invalid string enlargement request size'')
       else if length b < unat start + unat len then Inl (Undefined ''VARDATA_ANY(b) + start'')
       else appendBinaryStringInfoNT P sb (take (unat len) (drop (unat start) b))))"

definition sb_write_byte :: "pg_wchar_lib \<Rightarrow> wasm_ref \<Rightarrow> string_info \<Rightarrow> i32 \<Rightarrow> string_info res" where
  "sb_write_byte P r sb byte =
     res_bind (sb_ensure_string_info r sb False) (\<lambda>sb. appendBinaryStringInfoNT P sb [ucast byte])"

section \<open>Taking the result\<close>

definition sb_to_string :: "wasm_ref \<Rightarrow> string_info \<Rightarrow> wasm_ref res" where
  "sb_to_string r sb =
     res_bind (sb_ensure_string_info r sb False) (\<lambda>sb. cstring_into_varatt_obj (si_data sb) TEXTOID)"

definition sb_to_bytes :: "wasm_ref \<Rightarrow> string_info \<Rightarrow> wasm_ref res" where
  "sb_to_bytes r sb =
     res_bind (sb_ensure_string_info r sb False) (\<lambda>sb. cstring_into_varatt_obj (si_data sb) BYTEAOID)"

section \<open>Reading\<close>

text \<open>\<open>rv\<close> is \<open>{'?', 0}\<close>; a byte that begins no character gives \<open>'?'\<close>; -1 at the end.\<close>

definition sb_read_char :: "pg_wchar_lib \<Rightarrow> wasm_ref \<Rightarrow> string_info \<Rightarrow> (u32 \<times> string_info) res" where
  "sb_read_char P r sb =
     res_bind (sb_ensure_string_info r sb True) (\<lambda>sb.
       if length (si_data sb) \<le> si_cursor sb then Inr (-1, sb)
       else
         let rest = drop (si_cursor sb) (si_data sb); ch = mb_len P rest in
         if 0 < ch \<and> int (si_cursor sb) + ch \<le> int (length (si_data sb)) then
           res_bind (first_wchar (mb2wchar P (take (nat ch) rest))) (\<lambda>w.
             Inr (w, sb\<lparr>si_cursor := si_cursor sb + nat ch\<rparr>))
         else Inr (0x3F, sb\<lparr>si_cursor := si_cursor sb + 1\<rparr>))"

end
