(* ===== verification/TextProps.thy ===== *)
theory TextProps
  imports TextOps
begin

text \<open>
  The UTF-16 view of a text: its code units make the text again, malformed sequences are refused,
  reading stays inside the text whatever its bytes are; which characters \<open>rst_textget\<close> finds.
\<close>

section \<open>Specification\<close>

text \<open>Unicode scalar values, their code units in UTF-16, the sizes of their encodings in UTF-8.\<close>

definition scalar :: "u32 \<Rightarrow> bool" where
  "scalar c \<longleftrightarrow> unat c < 0x110000 \<and> \<not> (0xD800 \<le> unat c \<and> unat c < 0xE000)"

definition utf16 :: "u32 \<Rightarrow> u32 list" where
  "utf16 c =
     (if unat c < 0x10000 then [c]
      else [word_of_nat (0xD800 + (unat c - 0x10000) div 0x400), word_of_nat (0xDC00 + (unat c - 0x10000) mod 0x400)])"

abbreviation utf16s :: "u32 list \<Rightarrow> u32 list" where
  "utf16s cs \<equiv> concat (map utf16 cs)"

definition utf8_size :: "u32 \<Rightarrow> nat" where
  "utf8_size c = (if unat c < 0x80 then 1 else if unat c < 0x800 then 2 else if unat c < 0x10000 then 3 else 4)"

abbreviation utf8s :: "pg_wchar_lib \<Rightarrow> u32 list \<Rightarrow> byte list" where
  "utf8s P cs \<equiv> concat (map (unicode_to_utf8 P) cs)"

text \<open>
  What Postgres documents for a server whose encoding is UTF-8: the functions encode and decode
  it; \<open>pg_mb2wchar_with_len\<close> drops an incomplete character and stops at a NUL; a string buffer
  may grow to less than \<open>MaxAllocSize\<close>.
\<close>

definition utf8_char_law :: "pg_wchar_lib \<Rightarrow> u32 \<Rightarrow> bool" where
  "utf8_char_law P c \<longleftrightarrow>
     length (unicode_to_utf8 P c) = utf8_size c \<and> unicode_utf8len P c = utf8_size c \<and>
     (\<forall>rest. mb_len P (unicode_to_utf8 P c @ rest) = int (utf8_size c)) \<and>
     mb2wchar P (unicode_to_utf8 P c) = (if c = 0 then [] else [c]) \<and>
     (\<forall>n < utf8_size c. mb2wchar P (take n (unicode_to_utf8 P c)) = []) \<and>
     (c \<noteq> 0 \<longrightarrow> 0 \<notin> set (unicode_to_utf8 P c) \<and> unicode_to_server P c = Inr (unicode_to_utf8 P c))"

definition utf8_law :: "pg_wchar_lib \<Rightarrow> bool" where
  "utf8_law P \<longleftrightarrow>
     mb_max P = 4 \<and> (\<forall>c. scalar c \<longrightarrow> utf8_char_law P c) \<and> unicode_to_utf8 P 0 = [0] \<and>
     (\<forall>c. surrogate_first P c \<longleftrightarrow> 0xD800 \<le> unat c \<and> unat c < 0xDC00) \<and>
     (\<forall>c. surrogate_second P c \<longleftrightarrow> 0xDC00 \<le> unat c \<and> unat c < 0xE000) \<and>
     (\<forall>c hi lo. scalar c \<longrightarrow> utf16 c = [hi, lo] \<longrightarrow> surrogate_pair P hi lo = c) \<and>
     (\<forall>len needed. len + needed < 0x3FFFFFFF \<longrightarrow> si_enlarge P len needed)"

text \<open>Counting characters, for texts without NUL.\<close>

definition clip_law :: "pg_wchar_lib \<Rightarrow> bool" where
  "clip_law P \<longleftrightarrow>
     (\<forall>cs. (\<forall>c \<in> set cs. scalar c \<and> c \<noteq> 0) \<longrightarrow>
        mb_strlen P (utf8s P cs) = int (length cs) \<and>
        (\<forall>n. mb_cliplen P (utf8s P cs) (int n) = length (utf8s P (take n cs))))"

section \<open>One character\<close>

lemma scalar_0 [simp]: "scalar 0" by (simp add: scalar_def)

lemma utf16_length_char: "length (utf16 c) = unit_count (utf8_size c)"
  by (simp add: utf16_def unit_count_def utf8_size_def)

lemma utf8_size_pos [simp]: "0 < utf8_size c"
  by (simp add: utf8_size_def)

lemma utf8_size_bounds: "0 < utf8_size c" "Suc 0 \<le> utf8_size c" "utf8_size c \<le> 4"
  by (simp_all add: utf8_size_def)

lemma unat_surrogate_offset: "0x10000 \<le> unat (c :: u32) \<Longrightarrow> unat (c - 0x10000) = unat c - 0x10000"
  by (simp add: unat_sub word_le_nat_alt)

lemma low_unit:
  assumes "0x10000 \<le> unat (c :: u32)"
  shows "0xDC00 + (c AND 0x3FF) = word_of_nat (0xDC00 + (unat c - 0x10000) mod 0x400)"
proof -
  have "c AND 0x3FF = take_bit 10 c"
    by (simp add: take_bit_eq_mask mask_eq_exp_minus_1)
  then have "unat (c AND 0x3FF) = unat c mod 0x400"
    by (simp add: unsigned_take_bit_eq take_bit_eq_mod unat_mod)
  moreover have "unat c mod 0x400 = (unat c - 0x10000) mod 0x400"
    using mod_mult_self2[of "unat c - 0x10000" "0x400" 64] assms by simp
  ultimately have "word_of_nat (unat (c AND 0x3FF)) = (word_of_nat ((unat c - 0x10000) mod 0x400) :: u32)"
    by simp
  then show ?thesis by simp
qed

lemma high_unit:
  assumes "0x10000 \<le> unat (c :: u32)"
  shows "0xD800 + drop_bit 10 (c - 0x10000) = word_of_nat (0xD800 + (unat c - 0x10000) div 0x400)"
proof -
  have "unat (drop_bit 10 (c - 0x10000)) = (unat c - 0x10000) div 0x400"
    using assms by (simp add: unat_drop_bit_eq drop_bit_eq_div unat_surrogate_offset unat_div)
  then have "word_of_nat (unat (drop_bit 10 (c - 0x10000))) = (word_of_nat ((unat c - 0x10000) div 0x400) :: u32)"
    by (simp only:)
  then show ?thesis by simp
qed

text \<open>The code unit the loop computes for a character that ends at \<open>n\<close>.\<close>

lemma unit_of_char_utf16:
  assumes "i < length (utf16 c)"
  shows "unit_of_char (utf8_size c) (n + int (length (utf16 c))) (n + int i) c = utf16 c ! i"
proof (cases "unat c < 0x10000")
  case True
  then show ?thesis using assms by (simp add: unit_of_char_def utf16_def utf8_size_def)
next
  case False
  then have "utf8_size c = 4" "i = 0 \<or> i = 1" "length (utf16 c) = 2"
    using assms by (auto simp: utf8_size_def utf16_def)
  then show ?thesis
    using False by (auto simp: unit_of_char_def utf16_def low_unit high_unit)
qed

section \<open>Reading\<close>

lemma utf8_law_char: "utf8_law P \<Longrightarrow> scalar c \<Longrightarrow> utf8_char_law P c"
  by (simp add: utf8_law_def)

lemma char_len_utf8 [simp]:
  "utf8_char_law P c \<Longrightarrow> char_len P (unicode_to_utf8 P c @ rest) = utf8_size c"
  by (simp add: char_len_def utf8_char_law_def)

lemma length_utf8 [simp]: "utf8_char_law P c \<Longrightarrow> length (unicode_to_utf8 P c) = utf8_size c"
  by (simp add: utf8_char_law_def)

lemma utf8_not_Nil [simp]: "utf8_char_law P c \<Longrightarrow> unicode_to_utf8 P c \<noteq> []"
  by (metis length_utf8 list.size(3) not_less_zero utf8_size_bounds(1))

lemma mb2wchar_utf8: "utf8_char_law P c \<Longrightarrow> mb2wchar P (unicode_to_utf8 P c) = (if c = 0 then [] else [c])"
  unfolding utf8_char_law_def by (elim conjE)

lemma first_wchar_utf8 [simp]:
  "utf8_char_law P c \<Longrightarrow> first_wchar (mb2wchar P (unicode_to_utf8 P c)) = Inr c"
  by (simp add: mb2wchar_utf8 first_wchar_def)

lemma count_utf8s:
  "\<forall>c \<in> set cs. utf8_char_law P c \<Longrightarrow> utf16_count_code_units P (utf8s P cs) = length (utf16s cs)"
proof (induction cs)
  case Nil
  then show ?case by (simp add: utf16_count_code_units.simps)
next
  case (Cons c cs)
  then show ?case
    by (subst utf16_count_code_units.simps) (simp add: Let_def utf16_length_char)
qed

lemma code_unit_at_utf8s:
  "\<forall>c \<in> set cs. utf8_char_law P c \<Longrightarrow> i < length (utf16s cs) \<Longrightarrow>
    code_unit_at P (utf8s P cs) n (n + int i) = Inr (utf16s cs ! i)"
proof (induction cs arbitrary: n i)
  case (Cons c cs)
  show ?case
  proof (cases "i < length (utf16 c)")
    case True
    then show ?thesis
      using Cons.prems unit_of_char_utf16[OF True, of n]
      by (subst code_unit_at.simps) (simp add: Let_def utf16_length_char nth_append)
  next
    case False
    then obtain j where j: "i = length (utf16 c) + j" using nat_le_iff_add by (auto simp: not_less)
    then have "code_unit_at P (utf8s P cs) (n + int (length (utf16 c))) (n + int (length (utf16 c)) + int j) =
        Inr (utf16s cs ! j)"
      using Cons.prems by (intro Cons.IH) auto
    then show ?thesis
      using Cons.prems j
      by (subst code_unit_at.simps) (simp add: Let_def utf16_length_char nth_append add.assoc)
  qed
qed simp

section \<open>Making\<close>

lemma sint_small: "unat (c :: u32) < 2 ^ 31 \<Longrightarrow> sint c = int (unat c)"
  using sint_of_nat32[of "unat c"] by simp

lemma unit_in_range:
  "unat (c :: u32) < 0x10000 \<Longrightarrow> \<not> (sint c < 0 \<or> 0xFFFF < sint c)"
  "\<not> (sint c < 0 \<or> 0xFFFF < sint c) \<Longrightarrow> unat c < 0x10000"
proof -
  show "\<not> (sint c < 0 \<or> 0xFFFF < sint c)" if "unat c < 0x10000"
  proof -
    have "sint c = int (unat c)" using that by (intro sint_small) simp
    then show ?thesis using that by linarith
  qed
  assume c: "\<not> (sint c < 0 \<or> 0xFFFF < sint c)"
  then have "word_of_int (sint c) = (word_of_nat (nat (sint c)) :: u32)" by simp
  then have "c = word_of_nat (nat (sint c))" by simp
  moreover have "nat (sint c) < 0x10000" using c by linarith
  moreover from this have "unat (word_of_nat (nat (sint c)) :: u32) = nat (sint c)"
    by (intro unat_word_of_nat32) simp
  ultimately show "unat c < 0x10000" by metis
qed

lemma utf16_cases:
  assumes "scalar c"
  obtains (bmp) "utf16 c = [c]" "unat c < 0x10000" "\<not> (0xD800 \<le> unat c \<and> unat c < 0xE000)"
  | (pair) hi lo where "utf16 c = [hi, lo]" "0xD800 \<le> unat hi" "unat hi < 0xDC00" "0xDC00 \<le> unat lo" "unat lo < 0xE000"
proof (cases "unat c < 0x10000")
  case True
  then show ?thesis using bmp assms by (simp add: utf16_def scalar_def)
next
  case False
  then have "(unat c - 0x10000) div 0x400 < 0x400" "(unat c - 0x10000) mod 0x400 < 0x400"
    using assms by (auto simp: scalar_def intro: less_mult_imp_div_less)
  moreover define hi lo where "hi = 0xD800 + (unat c - 0x10000) div 0x400"
    and "lo = 0xDC00 + (unat c - 0x10000) mod 0x400"
  ultimately have "0xD800 \<le> hi" "hi < 0xDC00" "0xDC00 \<le> lo" "lo < 0xE000" by simp_all
  moreover from this have "unat (word_of_nat hi :: u32) = hi" "unat (word_of_nat lo :: u32) = lo"
    by (simp_all add: unat_word_of_nat32)
  ultimately show ?thesis
    using False by (intro pair[of "word_of_nat hi" "word_of_nat lo"]) (simp_all add: utf16_def hi_def lo_def)
qed

lemma append_utf8:
  assumes "utf8_law P" "scalar c" "length buf + utf8_size c < 0x3FFFFFFF"
  shows "append_info P buf (take (unicode_utf8len P c) (unicode_to_utf8 P c)) = Inr (buf @ unicode_to_utf8 P c)"
proof -
  have c: "utf8_char_law P c" by (rule utf8_law_char[OF assms(1,2)])
  then have "unicode_utf8len P c = utf8_size c" unfolding utf8_char_law_def by (elim conjE)
  moreover have "si_enlarge P (length buf) (utf8_size c)"
    using assms(1,3) unfolding utf8_law_def by blast
  ultimately show ?thesis using c by (simp add: append_info_def)
qed

lemma append_units_utf16s:
  assumes "utf8_law P"
  shows "\<forall>c \<in> set cs. scalar c \<Longrightarrow> length buf + length (utf8s P cs) < 0x3FFFFFFF \<Longrightarrow>
    append_units P (utf16s cs) buf = Inr (None, buf @ utf8s P cs)"
proof (induction cs arbitrary: buf)
  case (Cons c cs)
  have c: "scalar c" "utf8_char_law P c" using Cons.prems(1) utf8_law_char[OF assms] by auto
  have step: "append_info P buf (take (unicode_utf8len P c) (unicode_to_utf8 P c)) = Inr (buf @ unicode_to_utf8 P c)"
    using append_utf8[OF assms c(1)] Cons.prems(2) c(2) by simp
  have rest: "append_units P (utf16s cs) (buf @ unicode_to_utf8 P c) = Inr (None, buf @ utf8s P (c # cs))"
    using Cons.IH[of "buf @ unicode_to_utf8 P c"] Cons.prems by simp
  have surr: "surrogate_first P w \<longleftrightarrow> 0xD800 \<le> unat w \<and> unat w < 0xDC00"
    "surrogate_second P w \<longleftrightarrow> 0xDC00 \<le> unat w \<and> unat w < 0xE000" for w
    using assms unfolding utf8_law_def by blast+
  from c(1) show ?case
  proof (cases c rule: utf16_cases)
    case bmp
    then have "\<not> surrogate_first P c" "\<not> surrogate_second P c" by (auto simp: surr)
    with bmp unit_in_range(1)[OF bmp(2)] step rest show ?thesis by simp
  next
    case (pair hi lo)
    then have "surrogate_first P hi" "surrogate_second P lo" "surrogate_pair P hi lo = c"
      using assms c(1) by (auto simp: surr utf8_law_def)
    moreover have "\<not> (sint hi < 0 \<or> 0xFFFF < sint hi)" using pair by (intro unit_in_range(1)) simp
    ultimately show ?thesis using pair(1) step rest by simp
  qed
qed simp

text \<open>A surrogate pair comes from a scalar value.\<close>

lemma pair_utf16:
  assumes "0xD800 \<le> unat hi" "unat hi < 0xDC00" "0xDC00 \<le> unat lo" "unat (lo :: u32) < 0xE000"
  shows "\<exists>c. scalar c \<and> utf16 c = [hi, lo]"
proof -
  let ?n = "0x10000 + (unat hi - 0xD800) * 0x400 + (unat lo - 0xDC00)"
  let ?c = "word_of_nat ?n :: u32"
  have n: "?n < 0x110000" using assms by auto
  then have c: "unat ?c = ?n" by (intro unat_word_of_nat32) simp
  moreover define a b where "a = unat hi - 0xD800" and "b = unat lo - 0xDC00"
  moreover have "b < 0x400" using assms by (simp add: b_def)
  ultimately have "(?n - 0x10000) div 0x400 = unat hi - 0xD800" "(?n - 0x10000) mod 0x400 = unat lo - 0xDC00"
    by simp_all
  then have "utf16 ?c = [hi, lo]" unfolding utf16_def c using assms by simp
  moreover have "scalar ?c" unfolding scalar_def c using n by simp
  ultimately show ?thesis by blast
qed

lemma append_units_ConsE:
  assumes "append_units P (cu # us) buf = Inr (None, buf')"
  obtains
    (unit) buf1 where "\<not> (sint cu < 0 \<or> 0xFFFF < sint cu)" "\<not> surrogate_first P cu" "\<not> surrogate_second P cu"
      "append_units P us buf1 = Inr (None, buf')"
  | (pair) v us' buf1 where "surrogate_first P cu" "us = v # us'" "surrogate_second P v"
      "append_units P us' buf1 = Inr (None, buf')"
  using assms by (auto simp: Let_def res_bind_eq_Inr split: if_splits list.splits)

lemma append_units_well_formed:
  assumes "utf8_law P"
  shows "append_units P us buf = Inr (None, buf') \<Longrightarrow> \<exists>cs. (\<forall>c \<in> set cs. scalar c) \<and> us = utf16s cs"
proof (induction us arbitrary: buf rule: length_induct)
  case (1 us)
  have surr: "surrogate_first P w \<longleftrightarrow> 0xD800 \<le> unat w \<and> unat w < 0xDC00"
    "surrogate_second P w \<longleftrightarrow> 0xDC00 \<le> unat w \<and> unat w < 0xE000" for w
    using assms unfolding utf8_law_def by blast+
  have cons: "\<exists>cs'. (\<forall>c \<in> set cs'. scalar c) \<and> us = utf16s cs'"
    if c: "scalar c" "us = utf16 c @ us'" and rest: "append_units P us' buf1 = Inr (None, buf')" for c us' buf1
  proof -
    have "length us' < length us" using c(2) by (simp add: utf16_def)
    then obtain cs where "\<forall>c \<in> set cs. scalar c" "us' = utf16s cs" using 1 rest by blast
    then show ?thesis using c by (intro exI[of _ "c # cs"]) simp
  qed
  show ?case
  proof (cases us)
    case Nil
    then show ?thesis by (intro exI[of _ "[]"]) simp
  next
    case (Cons cu us0)
    from 1(2)[unfolded Cons] show ?thesis
    proof (cases rule: append_units_ConsE)
      case (unit buf1)
      have "unat cu < 0x10000" by (rule unit_in_range(2)[OF unit(1)])
      then have "scalar cu" "utf16 cu = [cu]" using unit(2,3) by (auto simp: scalar_def utf16_def surr)
      then show ?thesis using cons[of cu us0, OF _ _ unit(4)] Cons by simp
    next
      case (pair v us' buf1)
      then obtain c where "scalar c" "utf16 c = [cu, v]" using pair_utf16[of cu v] by (auto simp: surr)
      then show ?thesis using cons[of c us', OF _ _ pair(4)] Cons pair(2) by simp
    qed
  qed
qed

lemma append_units_total:
  assumes "utf8_law P"
  shows "length buf + 4 * length us < 0x3FFFFFFF \<Longrightarrow> \<exists>err buf'. append_units P us buf = Inr (err, buf')"
proof (induction us arbitrary: buf rule: length_induct)
  case (1 us)
  have surr: "surrogate_first P w \<longleftrightarrow> 0xD800 \<le> unat w \<and> unat w < 0xDC00"
    "surrogate_second P w \<longleftrightarrow> 0xDC00 \<le> unat w \<and> unat w < 0xE000" for w
    using assms unfolding utf8_law_def by blast+
  have go: "\<exists>err buf'. res_bind (append_info P buf (take (unicode_utf8len P c) (unicode_to_utf8 P c)))
      (append_units P us') = Inr (err, buf')"
    if "scalar c" "length us' < length us" for c us'
  proof -
    have len: "length buf + utf8_size c + 4 * length us' < 0x3FFFFFFF"
      using that(2) 1(2) utf8_size_bounds(3)[of c] by linarith
    then have "append_info P buf (take (unicode_utf8len P c) (unicode_to_utf8 P c)) = Inr (buf @ unicode_to_utf8 P c)"
      using that(1) by (intro append_utf8[OF assms]) auto
    moreover have "\<exists>err buf'. append_units P us' (buf @ unicode_to_utf8 P c) = Inr (err, buf')"
      using that(2) 1(1) len utf8_law_char[OF assms that(1)] by simp
    ultimately show ?thesis by simp
  qed
  show ?case
  proof (cases us)
    case (Cons cu us0)
    show ?thesis
    proof (cases "sint cu < 0 \<or> 0xFFFF < sint cu")
      case False
      show ?thesis
      proof (cases "surrogate_first P cu")
        case True
        have "scalar (surrogate_pair P cu v)" if "surrogate_second P v" for v
          using pair_utf16[of cu v] True that assms unfolding surr utf8_law_def by auto
        then show ?thesis using True False go Cons by (auto simp: Let_def split: list.splits)
      next
        case 2: False
        have "scalar cu" if "\<not> surrogate_second P cu"
          using unit_in_range(2)[OF False] 2 that unfolding scalar_def surr by auto
        then show ?thesis using False 2 go Cons by auto
      qed
    qed (simp add: Cons)
  qed simp
qed

section \<open>Whole texts\<close>

lemma var_bytes_new [simp]:
  "var_bytes (rst_externref_of_obj (rst_obj_new OBJ_DATUM ref flags oid q (BodyDatum (DPointer oid' bs)))) oid'' =
    (if oid = oid'' then Inr bs else Inl (PgError ''expected OID %d, got %d''))"
  by (simp add: var_bytes_def)

lemma var_bytes_cstring:
  "cstring_into_varatt_obj bs oid = Inr r \<Longrightarrow> var_bytes r oid = Inr bs"
  by (auto simp: cstring_into_varatt_obj_def varatt_new_def Let_def split: if_splits)

lemma cstring_into_varatt_obj_ok:
  "length bs \<le> VARATT_MAX - VARHDRSZ \<Longrightarrow> \<exists>r. cstring_into_varatt_obj bs oid = Inr r"
  by (simp add: cstring_into_varatt_obj_def varatt_new_def Let_def)

text \<open>\<open>reads P r units\<close>: the application reads the code units \<open>units\<close> from \<open>r\<close>, from both ends.\<close>

definition reads :: "pg_wchar_lib \<Rightarrow> wasm_ref \<Rightarrow> u32 list \<Rightarrow> bool" where
  "reads P r units \<longleftrightarrow>
     utf16_length P r = Inr (word_of_nat (length units)) \<and>
     (\<forall>i < length units. utf16_char_code_at P r (word_of_nat i) = Inr (units ! i) \<and>
        utf16_char_code_at P r (word_of_int (int i - int (length units))) = Inr (units ! i))"

lemma length_utf16s: "\<forall>c \<in> set cs. utf8_char_law P c \<Longrightarrow> length (utf16s cs) \<le> length (utf8s P cs)"
proof (induction cs)
  case (Cons c cs)
  then show ?case by (simp add: utf16_length_char unit_count_def) (simp add: utf8_size_def)
qed simp

lemma length_utf8s: "\<forall>c \<in> set cs. utf8_char_law P c \<Longrightarrow> length (utf8s P cs) \<le> 4 * length (utf16s cs)"
proof (induction cs)
  case (Cons c cs)
  moreover have "utf8_size c \<le> 4 * length (utf16 c)" by (simp add: utf16_def utf8_size_def)
  ultimately show ?case by simp
qed simp

lemma length_le_utf8s: "\<forall>c \<in> set cs. utf8_char_law P c \<Longrightarrow> length cs \<le> length (utf8s P cs)"
proof (induction cs)
  case (Cons c cs)
  then show ?case using utf8_size_bounds(2)[of c] by simp
qed simp

lemma reads_utf8s:
  assumes "utf8_law P" "\<forall>c \<in> set cs. scalar c" "var_bytes r TEXTOID = Inr (utf8s P cs)"
    and "length (utf8s P cs) < 2 ^ 31"
  shows "reads P r (utf16s cs)"
proof -
  have cs: "\<forall>c \<in> set cs. utf8_char_law P c" and max: "mb_max P = 4"
    using assms(1,2) unfolding utf8_law_def by blast+
  have len: "length (utf16s cs) < 2 ^ 31" using length_utf16s[OF cs] assms(4) by simp
  have "utf16_char_code_at P r (word_of_nat i) = Inr (utf16s cs ! i)"
    "utf16_char_code_at P r (word_of_int (int i - int (length (utf16s cs)))) = Inr (utf16s cs ! i)"
    if "i < length (utf16s cs)" for i
    using that len code_unit_at_utf8s[OF cs that, of 0]
    by (simp_all add: utf16_char_code_at_def assms(3) max count_utf8s[OF cs] sint_of_nat32 sint_of_int32
        Let_def del: of_int_diff)
  then show ?thesis by (simp add: reads_def utf16_length_def assms(3) max count_utf8s[OF cs])
qed

section \<open>Any bytes\<close>

text \<open>
  For bytes that are not UTF-8, what Postgres promises: the bytes of one character give at most
  one wide character.
\<close>

definition wchar_law :: "pg_wchar_lib \<Rightarrow> bool" where
  "wchar_law P \<longleftrightarrow> (\<forall>bs. length (mb2wchar P (take (char_len P bs) bs)) \<le> 1)"

lemma first_wchar_one: "length ws \<le> 1 \<Longrightarrow> \<exists>w. first_wchar ws = Inr w"
  by (auto simp: first_wchar_def split: list.splits)

lemma code_unit_at_inside:
  assumes "\<And>bs. \<exists>w. first_wchar (mb2wchar P (take (char_len P bs) bs)) = Inr w"
  shows "n \<le> i \<Longrightarrow> i < n + int (utf16_count_code_units P bs) \<Longrightarrow> \<exists>w. code_unit_at P bs n i = Inr w"
proof (induction "length bs" arbitrary: bs n rule: less_induct)
  case less
  let ?ch = "char_len P bs" and ?n = "n + int (unit_count (char_len P bs))"
  have bs: "bs \<noteq> []" "\<not> length bs < ?ch" and
    i: "i < ?n + int (utf16_count_code_units P (drop ?ch bs))"
    using less.prems by (auto simp: utf16_count_code_units.simps[of P bs] Let_def split: if_splits)
  obtain w where w: "first_wchar (mb2wchar P (take ?ch bs)) = Inr w" using assms by blast
  show ?case
  proof (cases "i < ?n")
    case True
    then show ?thesis using bs w by (subst code_unit_at.simps) (simp add: Let_def)
  next
    case False
    have "\<exists>w. code_unit_at P (drop ?ch bs) ?n i = Inr w"
      using False i bs by (intro less.hyps) (auto intro: diff_less)
    then show ?thesis using False bs by (subst code_unit_at.simps) (simp add: Let_def)
  qed
qed

lemma utf16_count_le: "utf16_count_code_units P bs \<le> 2 * length bs"
proof (induction "length bs" arbitrary: bs rule: less_induct)
  case less
  let ?ch = "char_len P bs"
  show ?case
  proof (cases "bs = [] \<or> length bs < ?ch")
    case True
    then show ?thesis by (subst utf16_count_code_units.simps) (auto simp: Let_def)
  next
    case False
    then have "utf16_count_code_units P (drop ?ch bs) \<le> 2 * length (drop ?ch bs)"
      by (intro less) (auto intro: diff_less)
    moreover have "unit_count ?ch \<le> 2 * ?ch" using char_len_pos[of P bs] by (simp add: unit_count_def Suc_le_eq)
    moreover have "bs \<noteq> []" "?ch \<le> length bs" using False by auto
    ultimately show ?thesis by (subst utf16_count_code_units.simps) (simp add: Let_def)
  qed
qed

section \<open>A server that encodes in UTF-8\<close>

definition demo_encode :: "u32 \<Rightarrow> byte list" where
  "demo_encode c =
     (let n = unat c in
      if n < 0x80 then [word_of_nat n]
      else if n < 0x800 then [word_of_nat (0xC0 + n div 64), word_of_nat (0x80 + n mod 64)]
      else if n < 0x10000 then
        [word_of_nat (0xE0 + n div 4096), word_of_nat (0x80 + n div 64 mod 64), word_of_nat (0x80 + n mod 64)]
      else
        [word_of_nat (0xF0 + n div 262144), word_of_nat (0x80 + n div 4096 mod 64),
         word_of_nat (0x80 + n div 64 mod 64), word_of_nat (0x80 + n mod 64)])"

definition demo_len :: "byte list \<Rightarrow> nat" where
  "demo_len bs =
     (let b = unat (hd bs) in if b < 0xC0 then 1 else if b < 0xE0 then 2 else if b < 0xF0 then 3 else 4)"

fun demo_decode :: "nat list \<Rightarrow> nat" where
  "demo_decode [a, b] = (a - 0xC0) * 64 + (b - 0x80)"
| "demo_decode [a, b, c] = (a - 0xE0) * 4096 + (b - 0x80) * 64 + (c - 0x80)"
| "demo_decode [a, b, c, d] = (a - 0xF0) * 262144 + (b - 0x80) * 4096 + (c - 0x80) * 64 + (d - 0x80)"
| "demo_decode as = hd as"

definition demo_mb2wchar :: "byte list \<Rightarrow> u32 list" where
  "demo_mb2wchar bs =
     (if bs = [] \<or> hd bs = 0 \<or> length bs < demo_len bs then []
      else [word_of_nat (demo_decode (map unat (take (demo_len bs) bs)))])"

fun demo_clip :: "nat \<Rightarrow> byte list \<Rightarrow> nat" where
  "demo_clip 0 bs = 0"
| "demo_clip (Suc n) bs =
     (if bs = [] \<or> hd bs = 0 then 0 else demo_len bs + demo_clip n (drop (demo_len bs) bs))"

fun demo_count :: "nat \<Rightarrow> byte list \<Rightarrow> nat" where
  "demo_count 0 bs = 0"
| "demo_count (Suc n) bs =
     (if bs = [] \<or> hd bs = 0 then 0 else Suc (demo_count n (drop (demo_len bs) bs)))"

definition demo_server :: pg_wchar_lib where
  "demo_server =
     \<lparr>mb_max = 4, mb_len = \<lambda>bs. int (demo_len bs), mb_strlen = \<lambda>bs. int (demo_count (length bs) bs),
      mb_cliplen = \<lambda>bs n. min (length bs) (demo_clip (nat n) bs), mb2wchar = demo_mb2wchar, unicode_to_utf8 = demo_encode,
      unicode_utf8len = utf8_size, unicode_to_server = \<lambda>c. Inr (demo_encode c),
      surrogate_first = \<lambda>c. 0xD800 \<le> unat c \<and> unat c < 0xDC00,
      surrogate_second = \<lambda>c. 0xDC00 \<le> unat c \<and> unat c < 0xE000,
      surrogate_pair = \<lambda>hi lo. word_of_nat (0x10000 + (unat hi - 0xD800) * 0x400 + (unat lo - 0xDC00)),
      si_enlarge = \<lambda>len needed. len + needed < 0x3FFFFFFF\<rparr>"

lemma demo_server_simps [simp]:
  "mb_max demo_server = 4" "mb_len demo_server bs = int (demo_len bs)"
  "mb_strlen demo_server bs = int (demo_count (length bs) bs)"
  "mb_cliplen demo_server bs n = min (length bs) (demo_clip (nat n) bs)" "mb2wchar demo_server = demo_mb2wchar"
  "unicode_to_utf8 demo_server = demo_encode" "unicode_utf8len demo_server = utf8_size"
  "unicode_to_server demo_server c = Inr (demo_encode c)"
  "surrogate_first demo_server c \<longleftrightarrow> 0xD800 \<le> unat c \<and> unat c < 0xDC00"
  "surrogate_second demo_server c \<longleftrightarrow> 0xDC00 \<le> unat c \<and> unat c < 0xE000"
  "si_enlarge demo_server len needed \<longleftrightarrow> len + needed < 0x3FFFFFFF"
  by (simp_all add: demo_server_def)

lemma unat_byte: "n < 256 \<Longrightarrow> unat (word_of_nat n :: byte) = n"
  by (rule of_nat_inverse[OF refl]) simp

lemma digits:
  "(n :: nat) = n div 4096 * 4096 + n div 64 mod 64 * 64 + n mod 64"
  "(n :: nat) = n div 262144 * 262144 + n div 4096 mod 64 * 4096 + n div 64 mod 64 * 64 + n mod 64"
proof -
  have d: "n div 4096 = n div 64 div 64" "n div 262144 = n div 64 div 64 div 64"
    by (simp_all add: div_mult2_eq[symmetric])
  have m: "k = k div 64 * 64 + k mod 64" for k :: nat by simp
  show 3: "n = n div 4096 * 4096 + n div 64 mod 64 * 64 + n mod 64"
    using m[of n] m[of "n div 64"] unfolding d by linarith
  show "n = n div 262144 * 262144 + n div 4096 mod 64 * 4096 + n div 64 mod 64 * 64 + n mod 64"
    using 3 m[of "n div 64 div 64"] unfolding d by linarith
qed

lemma demo_encode_cases:
  assumes "unat c < 0x110000"
  obtains a where "demo_encode c = map word_of_nat [a]" "utf8_size c = 1" "unat c = a" "a < 0x80"
  | a b where "demo_encode c = map word_of_nat [0xC0 + a, 0x80 + b]" "utf8_size c = 2" "unat c = a * 64 + b"
      "a < 32" "b < 64" "0 < unat c"
  | a b d where "demo_encode c = map word_of_nat [0xE0 + a, 0x80 + b, 0x80 + d]" "utf8_size c = 3"
      "unat c = a * 4096 + b * 64 + d" "a < 16" "b < 64" "d < 64" "0 < unat c"
  | a b d e where "demo_encode c = map word_of_nat [0xF0 + a, 0x80 + b, 0x80 + d, 0x80 + e]" "utf8_size c = 4"
      "unat c = a * 262144 + b * 4096 + d * 64 + e" "a < 8" "b < 64" "d < 64" "e < 64" "0 < unat c"
proof -
  let ?n = "unat c"
  consider "?n < 0x80" | "0x80 \<le> ?n" "?n < 0x800" | "0x800 \<le> ?n" "?n < 0x10000" | "0x10000 \<le> ?n" by linarith
  then show thesis
  proof cases
    case 1
    then show ?thesis by (intro that(1)[of ?n]) (simp_all add: demo_encode_def utf8_size_def Let_def)
  next
    case 2
    then show ?thesis
      by (intro that(2)[of "?n div 64" "?n mod 64"]) (simp_all add: demo_encode_def utf8_size_def Let_def)
  next
    case 3
    then show ?thesis
      by (intro that(3)[OF _ _ digits(1)]) (simp_all add: demo_encode_def utf8_size_def Let_def)
  next
    case 4
    have "?n div 262144 < 8" by (rule less_mult_imp_div_less) (use assms in simp)
    moreover have "\<not> ?n < 0x80" "\<not> ?n < 0x800" "\<not> ?n < 0x10000" "0 < ?n" using 4 by simp_all
    ultimately show ?thesis
      using that(4)[OF _ _ digits(2)[of ?n]]
      by (simp only: demo_encode_def utf8_size_def Let_def if_False list.map mod_less_divisor zero_less_numeral)
  qed
qed

lemma byte_eq_0: "n < 256 \<Longrightarrow> (word_of_nat n :: byte) = 0 \<longleftrightarrow> n = 0"
  by (simp only: word_unat_eq_iff unat_byte unat_0)

lemma demo_encode_append:
  assumes "unat c < 0x110000"
  shows "length (demo_encode c) = utf8_size c" "demo_len (demo_encode c @ rest) = utf8_size c"
    "0 \<in> set (demo_encode c) \<longleftrightarrow> c = 0" "hd (demo_encode c) = 0 \<longleftrightarrow> c = 0"
    "demo_decode (map unat (demo_encode c)) = unat c"
proof -
  have 0: "c = 0 \<longleftrightarrow> unat c = 0" by (simp add: unat_eq_zero)
  show "length (demo_encode c) = utf8_size c"
    by (rule demo_encode_cases[OF assms]) simp_all
  show "demo_len (demo_encode c @ rest) = utf8_size c"
    by (rule demo_encode_cases[OF assms]) (simp_all add: demo_len_def Let_def unat_byte del: of_nat_add)
  show "0 \<in> set (demo_encode c) \<longleftrightarrow> c = 0"
    unfolding 0 by (rule demo_encode_cases[OF assms]) (simp_all add: eq_commute[of 0] byte_eq_0 del: of_nat_add)
  show "hd (demo_encode c) = 0 \<longleftrightarrow> c = 0"
    unfolding 0 by (rule demo_encode_cases[OF assms]) (simp_all add: byte_eq_0 del: of_nat_add)
  show "demo_decode (map unat (demo_encode c)) = unat c"
    by (rule demo_encode_cases[OF assms]) (simp_all add: unat_byte del: of_nat_add)
qed

lemma scalar_range: "scalar c \<Longrightarrow> unat c < 0x110000"
  by (simp add: scalar_def)

lemma demo_char_law:
  assumes "scalar c"
  shows "utf8_char_law demo_server c"
proof -
  note e = demo_encode_append[OF scalar_range[OF assms]]
  have ne: "demo_encode c \<noteq> []" using e(1) utf8_size_bounds(1)[of c] by fastforce
  have len: "demo_len (take n (demo_encode c)) = utf8_size c" if "take n (demo_encode c) \<noteq> []" for n
    using that e(2)[of "[]"] by (simp add: demo_len_def hd_take)
  have "mb2wchar demo_server (demo_encode c) = (if c = 0 then [] else [c])"
    using e(1,4,5) e(2)[of "[]"] ne by (simp add: demo_mb2wchar_def)
  moreover have "\<forall>n < utf8_size c. mb2wchar demo_server (take n (demo_encode c)) = []"
    using len e(1) by (auto simp: demo_mb2wchar_def)
  ultimately show ?thesis using e(1-3) by (simp add: utf8_char_law_def)
qed

lemma demo_utf8_law: "utf8_law demo_server"
proof -
  have "surrogate_pair demo_server hi lo = c" if "scalar c" "utf16 c = [hi, lo]" for c hi lo
  proof -
    have c: "0x10000 \<le> unat c" "unat c < 0x110000"
      using that by (auto simp: utf16_def scalar_range split: if_splits)
    define k where "k = unat c - 0x10000"
    then have k: "k div 0x400 < 0x400" "unat c = 0x10000 + k" using c by (auto intro: less_mult_imp_div_less)
    have "hi = word_of_nat (0xD800 + k div 0x400)" "lo = word_of_nat (0xDC00 + k mod 0x400)"
      using that(2) c(1) by (simp_all add: utf16_def k_def)
    then have "unat hi = 0xD800 + k div 0x400" "unat lo = 0xDC00 + k mod 0x400"
      using k(1) by (simp_all only:) (intro unat_word_of_nat32; simp)+
    then have "0x10000 + (unat hi - 0xD800) * 0x400 + (unat lo - 0xDC00) = unat c"
      using k(2) by simp
    then have "surrogate_pair demo_server hi lo = word_of_nat (unat c)"
      by (simp only: demo_server_def pg_wchar_lib.simps)
    then show ?thesis by simp
  qed
  then show ?thesis
    by (simp add: utf8_law_def demo_char_law) (simp add: demo_server_def demo_encode_def)
qed

lemma demo_clip_law: "clip_law demo_server"
proof -
  have clip: "demo_clip n (utf8s demo_server cs) = length (utf8s demo_server (take n cs))"
    if "\<forall>c \<in> set cs. scalar c \<and> c \<noteq> 0" for cs n
    using that
  proof (induction cs arbitrary: n)
    case (Cons c cs)
    then show ?case
      using demo_encode_append[OF scalar_range, of c] utf8_not_Nil[OF demo_char_law, of c] by (cases n) auto
  qed (case_tac n; simp)
  have count: "demo_count n (utf8s demo_server cs) = length cs"
    if "\<forall>c \<in> set cs. scalar c \<and> c \<noteq> 0" "length cs \<le> n" for cs n
    using that
  proof (induction cs arbitrary: n)
    case (Cons c cs)
    then obtain k where "n = Suc k" "length cs \<le> k" by (cases n) auto
    then show ?case
      using Cons demo_encode_append[OF scalar_range, of c] utf8_not_Nil[OF demo_char_law, of c] by auto
  qed (case_tac n; simp)
  have "length cs \<le> length (utf8s demo_server cs)" if "\<forall>c \<in> set cs. scalar c" for cs
    using that demo_char_law by (intro length_le_utf8s) blast
  then have "demo_count (length (utf8s demo_server cs)) (utf8s demo_server cs) = length cs"
    if "\<forall>c \<in> set cs. scalar c \<and> c \<noteq> 0" for cs
    using that by (intro count) auto
  moreover have "length (utf8s demo_server (take n cs)) \<le> length (utf8s demo_server cs)" for n cs
    by (metis append_take_drop_id concat_append le_add1 length_append map_append)
  ultimately show ?thesis using clip by (simp add: clip_law_def min_absorb2)
qed

section \<open>The range of the array\<close>

text \<open>The length \<open>utf16_from_char_code_array\<close> computes is 0 only if nothing is left.\<close>

lemma clipped_length_0:
  assumes "a \<le> n" "n < 2 ^ 31" "len \<noteq> 0"
    and "l = (if sint len < 0 then word_of_nat n else len)"
    and "(if word_of_nat n < word_of_nat a + l then word_of_nat n - word_of_nat a else l) = (0 :: u32)"
  shows "a = n"
proof -
  have n: "unat (word_of_nat n :: u32) = n" "unat (word_of_nat a :: u32) = a"
    using assms(1,2) by (simp_all add: unat_word_of_nat32)
  show ?thesis
  proof (cases "(word_of_nat n :: u32) < word_of_nat a + l")
    case True
    then have "(word_of_nat n :: u32) = word_of_nat a" using assms(5) by simp
    then show ?thesis using n by metis
  next
    case False
    then have "l = 0" using assms(5) by simp
    then have "(word_of_nat n :: u32) = 0" using assms(3,4) by (simp split: if_splits)
    then show ?thesis using n(1) assms(1) by simp
  qed
qed

lemma from_units:
  assumes "\<not> sint start < 0" "\<not> word_of_nat (length arr) < start"
  shows "utf16_from_char_code_array P arr start len =
    (let l = (if sint len < 0 then word_of_nat (length arr) else len) in
     if (if word_of_nat (length arr) < start + l then word_of_nat (length arr) - start else l) = 0
     then Inr (None, owned_text [])
     else res_bind (append_units P (drop (unat start) arr) []) (\<lambda>(err, buf). case err of
         Some e \<Rightarrow> Inr (Some e, NullRef)
       | None \<Rightarrow> res_bind (cstring_into_varatt_obj buf TEXTOID) (\<lambda>rv. Inr (None, rv))))"
  using assms by (simp only: utf16_from_char_code_array_def Let_def if_False simp_thms)

text \<open>
  The code units of characters make the text of those characters. The units are taken from
  \<open>start\<close> to the end of the array, whatever non-zero \<open>length\<close> is asked for.
\<close>

lemma units_make_text:
  assumes "utf8_law P" "\<forall>c \<in> set cs. scalar c"
    and "length (utf8s P cs) \<le> VARATT_MAX - VARHDRSZ" "length (pre @ utf16s cs) < 2 ^ 31" "len \<noteq> 0"
  shows "\<exists>r. utf16_from_char_code_array P (pre @ utf16s cs) (word_of_nat (length pre)) len = Inr (None, r) \<and>
    var_bytes r TEXTOID = Inr (utf8s P cs)"
proof -
  let ?n = "length (pre @ utf16s cs)" and ?start = "word_of_nat (length pre) :: u32"
  let ?l = "if sint len < 0 then word_of_nat ?n else len"
  let ?final = "if word_of_nat ?n < ?start + ?l then word_of_nat ?n - ?start else ?l"
  have small: "length (utf8s P cs) < 2 ^ 31" "length (utf8s P cs) < 0x3FFFFFFF"
    using assms(3) by (simp_all add: VARATT_MAX_def VARHDRSZ_def)
  have start: "\<not> sint ?start < 0" "unat ?start = length pre" "\<not> word_of_nat ?n < ?start"
    using assms(4) by (simp_all add: sint_of_nat32 unat_word_of_nat32 word_less_nat_alt del: of_nat_add)
  have empty: "utf8s P cs = []" if "?final = 0"
  proof -
    have "length pre = ?n" using that assms(4,5) by (intro clipped_length_0[OF _ _ _ refl]) auto
    then have "cs = []" by (cases cs) (auto simp: utf16_def split: if_splits)
    then show ?thesis by simp
  qed
  obtain r where r: "cstring_into_varatt_obj (utf8s P cs) TEXTOID = Inr r"
    using cstring_into_varatt_obj_ok[OF assms(3)] by blast
  have units: "append_units P (utf16s cs) [] = Inr (None, utf8s P cs)"
    using append_units_utf16s[OF assms(1,2), of "[]"] small(2) by simp
  have "drop (unat ?start) (pre @ utf16s cs) = utf16s cs" using start(2) by simp
  then have "utf16_from_char_code_array P (pre @ utf16s cs) ?start len =
      (if ?final = 0 then Inr (None, owned_text []) else Inr (None, r))"
    by (simp only: from_units[OF start(1,3)] units r res_bind_simps prod.case option.case Let_def)
  moreover have "var_bytes (owned_text []) TEXTOID = Inr []"
    by (simp add: owned_text_def rst_externref_of_owned_datum_def)
  ultimately show ?thesis
    using var_bytes_cstring[OF r] empty by (auto split: if_splits)
qed

section \<open>Properties\<close>

text \<open>
  C17: the code units of a text make the text again. On a server that encodes in UTF-8, a text reads
  as the UTF-16 code units of its characters, at indexes from the front and from the back; an array
  that ends in these units, taken from their start and with any length but 0, makes a text of the
  same bytes, which reads as the same units.
\<close>
lemma code_units_roundtrip:
  assumes "utf8_law P" "\<forall>c \<in> set cs. scalar c" "var_bytes t TEXTOID = Inr (utf8s P cs)"
    and "length (utf8s P cs) \<le> VARATT_MAX - VARHDRSZ" "length pre < 2 ^ 30" "len \<noteq> 0"
  shows "reads P t (utf16s cs) \<and>
    (\<exists>r. utf16_from_char_code_array P (pre @ utf16s cs) (word_of_nat (length pre)) len = Inr (None, r) \<and>
       var_bytes r TEXTOID = Inr (utf8s P cs) \<and> reads P r (utf16s cs))"
proof -
  have small: "length (utf8s P cs) < 2 ^ 30" using assms(4) by (simp add: VARATT_MAX_def VARHDRSZ_def)
  have "length (utf16s cs) \<le> length (utf8s P cs)" using assms(1,2) utf8_law_char by (intro length_utf16s) blast
  then have "length (pre @ utf16s cs) < 2 ^ 31" using small assms(5) by simp
  from units_make_text[OF assms(1,2,4) this assms(6)] show ?thesis
    using reads_utf8s[OF assms(1,2)] assms(3) small by fastforce
qed

text \<open>A is U+0041, U+00E9 is two bytes, U+1F600 a surrogate pair; the array has one unit in front.\<close>

lemma code_units_roundtrip_witness:
  "reads demo_server (owned_text [0x41, 0xC3, 0xA9, 0xF0, 0x9F, 0x98, 0x80]) [0x41, 0xE9, 0xD83D, 0xDE00] \<and>
   (\<exists>r. utf16_from_char_code_array demo_server [0x20, 0x41, 0xE9, 0xD83D, 0xDE00] 1 1 = Inr (None, r) \<and>
      var_bytes r TEXTOID = Inr [0x41, 0xC3, 0xA9, 0xF0, 0x9F, 0x98, 0x80])"
  using code_units_roundtrip[OF demo_utf8_law, of "[0x41, 0xE9, 0x1F600]"
    "owned_text [0x41, 0xC3, 0xA9, 0xF0, 0x9F, 0x98, 0x80]" "[0x20]" 1]
  by (auto simp: scalar_def demo_encode_def utf16_def VARATT_MAX_def VARHDRSZ_def owned_text_def
      rst_externref_of_owned_datum_def)

text \<open>
  An array that is not well-formed UTF-16 (an unpaired surrogate, or an element beyond 16 bits)
  is refused with an exception of WebAssembly and no text is made of it.
\<close>
lemma malformed_units_refused:
  assumes "utf8_law P" "4 * length units < 0x3FFFFFFF" "\<nexists>cs. (\<forall>c \<in> set cs. scalar c) \<and> units = utf16s cs"
  shows "\<exists>e. utf16_from_char_code_array P units 0 (-1) = Inr (Some e, NullRef)"
proof -
  obtain err buf where a: "append_units P units [] = Inr (err, buf)"
    using append_units_total[OF assms(1), of "[]" units] assms(2) by auto
  then obtain e where e: "err = Some e"
    using append_units_well_formed[OF assms(1)] assms(3) by (cases err) blast+
  have "units \<noteq> []" using assms(3) by (metis concat.simps(1) empty_iff list.set(1) list.simps(8))
  moreover have "unat (word_of_nat (length units) :: u32) = length units"
    by (rule unat_word_of_nat32) (use assms(2) in simp)
  ultimately have "(word_of_nat (length units) :: u32) \<noteq> 0" by (auto simp: unat_eq_zero[symmetric])
  then show ?thesis by (subst from_units) (simp_all add: a e Let_def)
qed

lemma malformed_units_refused_witness:
  "\<exists>e. utf16_from_char_code_array demo_server [0x41, 0xD83D] 0 (-1) = Inr (Some e, NullRef)"
proof (rule malformed_units_refused[OF demo_utf8_law])
  show "\<nexists>cs. (\<forall>c \<in> set cs. scalar c) \<and> [0x41, 0xD83D] = utf16s cs"
  proof
    assume "\<exists>cs. (\<forall>c \<in> set cs. scalar c) \<and> [0x41, 0xD83D] = utf16s cs"
    then obtain cs where cs: "\<forall>c \<in> set cs. scalar c" "utf16s cs = [0x41, 0xD83D]" by metis
    then have "append_units demo_server [0x41, 0xD83D] [] = Inr (None, utf8s demo_server cs)"
      using append_units_utf16s[OF demo_utf8_law cs(1), of "[]"] length_utf8s[of cs demo_server] demo_char_law
      by simp
    then show False by (simp add: append_info_def demo_encode_def utf8_size_def)
  qed
qed simp

text \<open>
  C38: a code unit is read at exactly the indexes from minus the length to the length, whatever the
  bytes of the text are; every other index raises an error, and no byte outside the text is read.
\<close>
lemma code_unit_in_bounds:
  assumes "wchar_law P" "var_bytes r TEXTOID = Inr data" "length data < 2 ^ 30"
    and "n = (if mb_max P = 1 then length data else utf16_count_code_units P data)"
  shows "case utf16_char_code_at P r index of
      Inr w \<Rightarrow> - int n \<le> sint index \<and> sint index < int n
    | Inl e \<Rightarrow> e = index_error \<and> \<not> (- int n \<le> sint index \<and> sint index < int n)"
proof -
  let ?i = "if sint index < 0 then sint index + int n else sint index"
  have "\<exists>w. first_wchar (mb2wchar P (take (char_len P bs) bs)) = Inr w" for bs
    using assms(1) first_wchar_one unfolding wchar_law_def by blast
  from code_unit_at_inside[OF this, of 0 ?i data]
  have "\<exists>w. code_unit_at P data 0 ?i = Inr w" if "mb_max P \<noteq> 1" "0 \<le> ?i" "?i < int n"
    using that assms(4) by simp
  then show ?thesis
    by (cases "mb_max P = 1"; cases "sint index < 0")
      (auto simp: utf16_char_code_at_def assms(2,4) Let_def split: if_splits)
qed

text \<open>
  C30: on a server that encodes in UTF-8, \<open>rst_textget\<close> at any index in range, from the front or
  from the back, gives the character there only if it is ASCII. It hands \<open>pg_mb2wchar_with_len\<close> a
  single byte, so for every other character it gives 0.
\<close>
lemma textget_ascii_only:
  assumes "utf8_law P" "clip_law P" "\<forall>c \<in> set cs. scalar c \<and> c \<noteq> 0" "i < length cs"
    and "var_bytes r TEXTOID = Inr (utf8s P cs)" "length (utf8s P cs) < 2 ^ 30"
    and "index = word_of_nat i \<or> index = word_of_int (int i - int (length cs))"
  shows "rst_textget P r index = Inr (if unat (cs ! i) < 0x80 then cs ! i else 0)"
proof -
  let ?c = "cs ! i" and ?offset = "length (utf8s P (take i cs))"
  have c: "utf8_char_law P ?c" using assms(1,3,4) utf8_law_char by simp
  have len: "mb_strlen P (utf8s P cs) = int (length cs)" and clip: "mb_cliplen P (utf8s P cs) (int i) = ?offset"
    using assms(2,3) unfolding clip_law_def by blast+
  have split: "utf8s P cs = utf8s P (take i cs) @ unicode_to_utf8 P ?c @ utf8s P (drop (Suc i) cs)"
    using assms(4) by (metis concat_append id_take_nth_drop list.simps(9) map_append concat.simps(2))
  have offset: "?offset < length (utf8s P cs)"
    using c utf8_size_bounds(1)[of ?c] by (subst split) (simp del: length_greater_0_conv)
  have "length cs \<le> length (utf8s P cs)"
    using assms(1,3) utf8_law_char by (intro length_le_utf8s) blast
  then have small: "length cs < 2 ^ 30" using assms(6) by simp
  have first: "first_wchar (mb2wchar P (take 1 (drop ?offset (utf8s P cs)))) =
      Inr (if unat ?c < 0x80 then ?c else 0)"
  proof -
    have "take 1 (drop ?offset (utf8s P cs)) = take 1 (unicode_to_utf8 P ?c)"
      using c utf8_size_bounds(2)[of ?c] by (subst split) simp
    moreover have "mb2wchar P (take 1 (unicode_to_utf8 P ?c)) = []" if "\<not> unat ?c < 0x80"
      using c that unfolding utf8_char_law_def by (auto simp: utf8_size_def)
    moreover have "take 1 (unicode_to_utf8 P ?c) = unicode_to_utf8 P ?c" if "unat ?c < 0x80"
      using c that by (simp add: utf8_size_def)
    ultimately show ?thesis using first_wchar_utf8[OF c] by (auto simp: first_wchar_def[of "[]"])
  qed
  have index: "sint index = int i \<or> sint index = int i - int (length cs)"
    using assms(4,7) small by (auto simp: sint_of_nat32 sint_of_int32 simp del: of_int_diff)
  have i0: "?offset = 0" if "i = 0" using that by simp
  have max: "mb_max P \<noteq> 1" using assms(1) by (simp add: utf8_law_def)
  from index show ?thesis
  proof
    assume "sint index = int i"
    then show ?thesis
      using max clip offset first i0 by (cases "i = 0") (simp_all add: rst_textget_def assms(5))
  next
    assume "sint index = int i - int (length cs)"
    moreover from this have "sint index < 0" "sint index + int (length cs) = int i" using assms(4) by simp_all
    ultimately show ?thesis
      using max clip offset first len by (simp add: rst_textget_def assms(5) Let_def)
  qed
qed

lemma textget_ascii_only_witness:
  "rst_textget demo_server (owned_text [0x41, 0xC3, 0xA9]) 1 = Inr 0"
  using textget_ascii_only[OF demo_utf8_law demo_clip_law, of "[0x41, 0xE9]" 1 "owned_text [0x41, 0xC3, 0xA9]" 1]
  by (simp add: scalar_def demo_encode_def owned_text_def rst_externref_of_owned_datum_def)

lemma code_unit_in_bounds_witness:
  "utf16_char_code_at demo_server (owned_text [0xFF, 0x41]) 5 = Inl index_error"
proof -
  have "wchar_law demo_server" by (simp add: wchar_law_def demo_mb2wchar_def)
  moreover have "utf16_count_code_units demo_server [0xFF, 0x41] = 0"
    by (simp add: utf16_count_code_units.simps[of demo_server] char_len_def demo_len_def Let_def)
  moreover have "var_bytes (owned_text [0xFF, 0x41]) TEXTOID = Inr [0xFF, 0x41]"
    by (simp add: owned_text_def rst_externref_of_owned_datum_def)
  ultimately show ?thesis
    using code_unit_in_bounds[of demo_server "owned_text [0xFF, 0x41]" "[0xFF, 0x41]" 0 5]
    by (auto split: sum.splits)
qed

end
