(* ===== verification/BuilderProps.thy ===== *)
theory BuilderProps
  imports Builder TextProps
begin

text \<open>
  A builder is a sequence of bytes written at its end; what was written as characters is read
  back as those characters; reading any text comes to its end.
\<close>

section \<open>Sequences of operations\<close>

text \<open>The writes an application can do on one builder.\<close>

datatype sb_write =
    WriteString wasm_ref | WriteSubstring wasm_ref i32 i32 | WriteChar u32
  | WriteBytes wasm_ref i32 i32 | WriteByte i32

fun run_write :: "pg_wchar_lib \<Rightarrow> wasm_ref \<Rightarrow> string_info \<Rightarrow> sb_write \<Rightarrow> string_info res" where
  "run_write P r sb (WriteString s) = sb_write_string P r sb s"
| "run_write P r sb (WriteSubstring s start len) = sb_write_substring P r sb s start len"
| "run_write P r sb (WriteChar c) = sb_write_char P r sb c"
| "run_write P r sb (WriteBytes b start len) = sb_write_bytes P r sb b start len"
| "run_write P r sb (WriteByte b) = sb_write_byte P r sb b"

fun run_writes :: "pg_wchar_lib \<Rightarrow> wasm_ref \<Rightarrow> string_info \<Rightarrow> sb_write list \<Rightarrow> string_info res" where
  "run_writes P r sb [] = Inr sb"
| "run_writes P r sb (w # ws) = res_bind (run_write P r sb w) (\<lambda>sb. run_writes P r sb ws)"

text \<open>
  The specification: what a write adds, as a function of its arguments alone, or the error it
  raises. Character ranges are the ones \<open>pg_mbcharcliplen\<close> measures.
\<close>

fun piece :: "pg_wchar_lib \<Rightarrow> sb_write \<Rightarrow> byte list res" where
  "piece P (WriteString s) = var_bytes s TEXTOID"
| "piece P (WriteSubstring s start len) =
     res_bind (var_bytes s TEXTOID) (\<lambda>data.
       let clip = drop (mb_cliplen P data (sint start)) data in Inr (take (mb_cliplen P clip (sint len)) clip))"
| "piece P (WriteChar c) = res_bind (unicode_to_server P c) (\<lambda>bs. Inr (takeWhile (\<lambda>b. b \<noteq> 0) bs))"
| "piece P (WriteBytes b start len) =
     res_bind (var_bytes b BYTEAOID) (\<lambda>bs.
       if 0 \<le> sint start \<and> 0 \<le> sint len \<and> sint start + sint len \<le> int (length bs) then
         Inr (take (unat len) (drop (unat start) bs))
       else Inl (PgError ''range''))"
| "piece P (WriteByte b) = Inr [ucast b]"

fun pieces :: "pg_wchar_lib \<Rightarrow> sb_write list \<Rightarrow> byte list res" where
  "pieces P [] = Inr []"
| "pieces P (w # ws) = res_bind (piece P w) (\<lambda>bs. res_bind (pieces P ws) (\<lambda>rest. Inr (bs @ rest)))"

text \<open>
  What Postgres documents: a measured prefix is a prefix, a character takes at most
  \<open>MAX_UNICODE_EQUIVALENT_STRING\<close> bytes, a buffer may grow to less than \<open>MaxAllocSize\<close>. A
  \<open>bytea\<close> is shorter than \<open>2 ^ 30\<close>.
\<close>

definition builder_law :: "pg_wchar_lib \<Rightarrow> bool" where
  "builder_law P \<longleftrightarrow>
     (\<forall>data n. mb_cliplen P data n \<le> length data) \<and>
     (\<forall>c bs. unicode_to_server P c = Inr bs \<longrightarrow> length bs \<le> MAX_UNICODE_EQUIVALENT_STRING) \<and>
     (\<forall>len needed. len + needed < 0x3FFFFFFF \<longrightarrow> si_enlarge P len needed)"

fun write_ok :: "sb_write \<Rightarrow> bool" where
  "write_ok (WriteBytes b _ _) \<longleftrightarrow> (\<forall>bs. var_bytes b BYTEAOID = Inr bs \<longrightarrow> length bs < 2 ^ 30)"
| "write_ok _ \<longleftrightarrow> True"

definition writable :: "wasm_ref \<Rightarrow> string_info \<Rightarrow> bool" where
  "writable r sb \<longleftrightarrow> sb_ensure_string_info r sb False = Inr sb"

lemma writable_update [simp]: "writable r sb \<Longrightarrow> writable r (sb\<lparr>si_data := bs\<rparr>)"
  by (auto simp: writable_def sb_ensure_string_info_def res_bind_eq_Inr split: if_splits)

lemma writable_new: "sb_new hint = Inr (r, sb) \<Longrightarrow> writable r sb \<and> si_data sb = []"
proof -
  have "unat hint \<noteq> 0" if "\<not> sint hint < 1" using that by (auto simp: unat_eq_zero)
  then show "sb_new hint = Inr (r, sb) \<Longrightarrow> writable r sb \<and> si_data sb = []"
    by (auto simp: writable_def sb_ensure_string_info_def sb_new_def Let_def rst_externref_of_obj_def
        rst_obj_new_def wasm_externref_obj_get_obj_def split: if_splits)
qed

lemma sb_new_refused: "sb_new hint = Inl e \<Longrightarrow> 0x3FFFFFFF < sint hint \<and> e = PgError ''invalid memory alloc request size''"
proof -
  assume new: "sb_new hint = Inl e"
  have 1: "1 \<le> sint hint" using new by (rule contrapos_pp) (simp add: sb_new_def)
  then have "sint hint = int (unat hint)" by (intro sint_nonneg32(1)) simp
  then have "0x3FFFFFFF < sint hint \<longleftrightarrow> 0x3FFFFFFF < unat hint" by linarith
  with 1 show ?thesis using new by (auto simp: sb_new_def Let_def split: if_splits)
qed

lemma append_Inr:
  "appendBinaryStringInfoNT P sb bs = Inr sb' \<longleftrightarrow>
    si_enlarge P (length (si_data sb)) (length bs) \<and> sb' = sb\<lparr>si_data := si_data sb @ bs\<rparr>"
  by (auto simp: appendBinaryStringInfoNT_def append_info_def)

text \<open>The range check of \<open>sb_write_bytes\<close>, wrap-around included, admits the ranges inside.\<close>

lemma write_bytes_range:
  fixes start len :: i32
  assumes "n < 2 ^ 30"
  shows "\<not> (sint start < 0 \<or> word_of_nat n < start + len) \<and> \<not> sint len < 0 \<longleftrightarrow>
    0 \<le> sint start \<and> 0 \<le> sint len \<and> sint start + sint len \<le> int n"
    and "0 \<le> sint start \<Longrightarrow> 0 \<le> sint len \<Longrightarrow> sint start + sint len \<le> int n \<Longrightarrow> unat start + unat len \<le> n"
proof -
  note u = sint_nonneg32
  show "unat start + unat len \<le> n" if "0 \<le> sint start" "0 \<le> sint len" "sint start + sint len \<le> int n"
    using u[OF that(1)] u[OF that(2)] that(3) by linarith
  show "\<not> (sint start < 0 \<or> word_of_nat n < start + len) \<and> \<not> sint len < 0 \<longleftrightarrow>
    0 \<le> sint start \<and> 0 \<le> sint len \<and> sint start + sint len \<le> int n"
  proof (cases "0 \<le> sint start \<and> 0 \<le> sint len")
    case True
    have "unat start + unat len < 2 ^ LENGTH(32)" using u(2)[of start] u(2)[of len] True by simp
    then have "unat (start + len) = unat start + unat len" by (subst (asm) unat_add_lem)
    moreover have sums: "sint start + sint len \<le> int n \<longleftrightarrow> unat start + unat len \<le> n"
      using u(1)[of start] u(1)[of len] True by linarith
    ultimately show ?thesis
      using True sums assms by (simp add: word_less_nat_alt unat_word_of_nat32 not_less)
  qed auto
qed

lemma run_write_sound:
  assumes "builder_law P" "writable r sb" "write_ok w" "run_write P r sb w = Inr sb'"
  shows "\<exists>bs. piece P w = Inr bs \<and> sb' = sb\<lparr>si_data := si_data sb @ bs\<rparr>"
proof (cases w)
  case (WriteBytes b start len)
  then obtain bs where bs: "var_bytes b BYTEAOID = Inr bs" using assms(2,4)
    by (auto simp: sb_write_bytes_def writable_def res_bind_eq_Inr)
  with WriteBytes assms write_bytes_range(1)[of "length bs" start len] show ?thesis
    by (auto simp: sb_write_bytes_def writable_def append_Inr res_bind_eq_Inr split: if_splits)
qed (use assms in \<open>auto simp: sb_write_string_def sb_write_substring_def sb_write_char_def sb_write_byte_def
    writable_def append_Inr res_bind_eq_Inr Let_def split: if_splits\<close>)

lemma run_write_complete:
  assumes "builder_law P" "writable r sb" "write_ok w" "piece P w = Inr bs"
    and "length (si_data sb) + length bs + MAX_UNICODE_EQUIVALENT_STRING < 0x3FFFFFFF"
  shows "run_write P r sb w = Inr (sb\<lparr>si_data := si_data sb @ bs\<rparr>)"
proof -
  have grow: "si_enlarge P (length (si_data sb)) (length bs)"
      "si_enlarge P (length (si_data sb)) MAX_UNICODE_EQUIVALENT_STRING"
    and clip: "\<And>data n. \<not> length data < mb_cliplen P data n"
    and char: "\<And>c bs. unicode_to_server P c = Inr bs \<Longrightarrow> \<not> MAX_UNICODE_EQUIVALENT_STRING < length bs"
    using assms(1,5) unfolding builder_law_def not_less by (blast | simp)+
  show ?thesis
  proof (cases w)
    case (WriteBytes b start len)
    then obtain data where data: "var_bytes b BYTEAOID = Inr data" "length data < 2 ^ 30"
      using assms(3,4) by (auto simp: res_bind_eq_Inr)
    with WriteBytes assms(2,4) grow(1) write_bytes_range[of "length data" start len] show ?thesis
      by (auto simp: sb_write_bytes_def writable_def append_Inr not_less split: if_splits)
  next
    case (WriteSubstring s start len)
    with assms(2,4) grow clip show ?thesis
      by (auto simp: sb_write_substring_def writable_def append_Inr res_bind_eq_Inr Let_def)
  next
    case (WriteChar c)
    with assms(2,4) grow char show ?thesis
      by (auto simp: sb_write_char_def writable_def res_bind_eq_Inr)
  qed (use assms(2,4) grow in \<open>auto simp: sb_write_string_def sb_write_byte_def writable_def append_Inr\<close>)
qed

lemma run_writes_sound:
  assumes "builder_law P"
  shows "writable r sb \<Longrightarrow> \<forall>w \<in> set ws. write_ok w \<Longrightarrow> run_writes P r sb ws = Inr sb' \<Longrightarrow>
    \<exists>bs. pieces P ws = Inr bs \<and> sb' = sb\<lparr>si_data := si_data sb @ bs\<rparr>"
proof (induction ws arbitrary: sb)
  case (Cons w ws)
  then obtain bs where bs: "piece P w = Inr bs" "run_write P r sb w = Inr (sb\<lparr>si_data := si_data sb @ bs\<rparr>)"
    and "run_writes P r (sb\<lparr>si_data := si_data sb @ bs\<rparr>) ws = Inr sb'"
    using run_write_sound[OF assms, of r sb w] by (auto simp: res_bind_eq_Inr)
  moreover from this obtain bs' where "pieces P ws = Inr bs'" "sb' = sb\<lparr>si_data := si_data sb @ bs @ bs'\<rparr>"
    using Cons.IH[OF writable_update[OF Cons.prems(1)]] Cons.prems(2) by fastforce
  ultimately show ?case by simp
qed simp

lemma run_writes_complete:
  assumes "builder_law P"
  shows "writable r sb \<Longrightarrow> \<forall>w \<in> set ws. write_ok w \<Longrightarrow> pieces P ws = Inr bs \<Longrightarrow>
    length (si_data sb) + length bs + MAX_UNICODE_EQUIVALENT_STRING < 0x3FFFFFFF \<Longrightarrow>
    run_writes P r sb ws = Inr (sb\<lparr>si_data := si_data sb @ bs\<rparr>)"
proof (induction ws arbitrary: sb bs)
  case (Cons w ws)
  then obtain b bs' where b: "piece P w = Inr b" "pieces P ws = Inr bs'" "bs = b @ bs'"
    by (auto simp: res_bind_eq_Inr)
  then have "run_write P r sb w = Inr (sb\<lparr>si_data := si_data sb @ b\<rparr>)"
    using Cons.prems by (intro run_write_complete[OF assms]) auto
  with Cons.IH[OF writable_update[OF Cons.prems(1)] _ b(2)] Cons.prems b(3) show ?case by simp
qed simp

section \<open>Reading\<close>

definition readable :: "wasm_ref \<Rightarrow> string_info \<Rightarrow> bool" where
  "readable r sb \<longleftrightarrow> sb_ensure_string_info r sb True = Inr sb"

lemma readable_update [simp]: "readable r sb \<Longrightarrow> readable r (sb\<lparr>si_cursor := n\<rparr>)"
  by (auto simp: readable_def sb_ensure_string_info_def res_bind_eq_Inr split: if_splits)

lemma sb_read_text_Inr:
  assumes "var_bytes t TEXTOID = Inr bs"
  shows "\<exists>r. sb_read_text hdr copied kept t =
      Inr (r, \<lparr>si_data = hdr @ bs, si_cursor = length hdr, si_maxlen = 0\<rparr>) \<and>
    readable r \<lparr>si_data = hdr @ bs, si_cursor = length hdr, si_maxlen = 0\<rparr>"
  using assms by (simp add: sb_read_text_def readable_def sb_ensure_string_info_def rst_externref_of_obj_def
      rst_obj_new_def wasm_externref_obj_get_obj_def)

text \<open>\<open>n\<close> calls of \<open>sb_read_char\<close>.\<close>

fun read_times :: "pg_wchar_lib \<Rightarrow> wasm_ref \<Rightarrow> string_info \<Rightarrow> nat \<Rightarrow> (u32 list \<times> string_info) res" where
  "read_times P r sb 0 = Inr ([], sb)"
| "read_times P r sb (Suc n) =
     res_bind (sb_read_char P r sb) (\<lambda>(c, sb). res_bind (read_times P r sb n) (\<lambda>(cs, sb). Inr (c # cs, sb)))"

lemma read_at_end:
  "readable r sb \<Longrightarrow> length (si_data sb) \<le> si_cursor sb \<Longrightarrow> sb_read_char P r sb = Inr (-1, sb)"
  by (simp add: sb_read_char_def readable_def)

lemma read_times_at_end:
  "readable r sb \<Longrightarrow> length (si_data sb) \<le> si_cursor sb \<Longrightarrow> read_times P r sb n = Inr (replicate n (-1), sb)"
  by (induction n) (simp_all add: read_at_end)

text \<open>A call stays inside and gets on.\<close>

lemma read_char_steps:
  assumes "wchar_law P" "readable r sb" "si_cursor sb \<le> length (si_data sb)"
  shows "\<exists>c k. sb_read_char P r sb = Inr (c, sb\<lparr>si_cursor := k\<rparr>) \<and> k \<le> length (si_data sb) \<and>
    (k = length (si_data sb) \<or> si_cursor sb < k)"
proof (cases "length (si_data sb) \<le> si_cursor sb")
  case True
  then show ?thesis
    using read_at_end[OF assms(2) True] assms(3) by (intro exI[of _ "-1"] exI[of _ "si_cursor sb"]) simp
next
  case False
  let ?rest = "drop (si_cursor sb) (si_data sb)"
  show ?thesis
  proof (cases "0 < mb_len P ?rest \<and> int (si_cursor sb) + mb_len P ?rest \<le> int (length (si_data sb))")
    case True
    then obtain w where "first_wchar (mb2wchar P (take (nat (mb_len P ?rest)) ?rest)) = Inr w"
      using assms(1) first_wchar_one unfolding wchar_law_def by (metis char_len_def not_le)
    with True False assms(2) show ?thesis
      by (intro exI[of _ w] exI[of _ "si_cursor sb + nat (mb_len P ?rest)"])
        (auto simp: sb_read_char_def readable_def Let_def)
  next
    case 2: False
    with False assms(2) show ?thesis
      by (intro exI[of _ "0x3F :: u32"] exI[of _ "si_cursor sb + 1"])
        (auto simp: sb_read_char_def readable_def Let_def)
  qed
qed

lemma read_times_steps:
  assumes "wchar_law P"
  shows "readable r sb \<Longrightarrow> si_cursor sb \<le> length (si_data sb) \<Longrightarrow>
    \<exists>cs k. read_times P r sb n = Inr (cs, sb\<lparr>si_cursor := k\<rparr>) \<and> k \<le> length (si_data sb) \<and>
      (k = length (si_data sb) \<or> si_cursor sb + n \<le> k)"
proof (induction n arbitrary: sb)
  case 0
  then show ?case by (intro exI[of _ "[]"] exI[of _ "si_cursor sb"]) simp
next
  case (Suc n)
  obtain c k where k: "sb_read_char P r sb = Inr (c, sb\<lparr>si_cursor := k\<rparr>)" "k \<le> length (si_data sb)"
    "k = length (si_data sb) \<or> si_cursor sb < k"
    using read_char_steps[OF assms Suc.prems] by blast
  moreover obtain cs k' where "read_times P r (sb\<lparr>si_cursor := k\<rparr>) n = Inr (cs, sb\<lparr>si_cursor := k'\<rparr>)"
    "k' \<le> length (si_data sb)" "k' = length (si_data sb) \<or> k + n \<le> k'"
    using Suc.IH[of "sb\<lparr>si_cursor := k\<rparr>"] Suc.prems(1) k(2) by auto
  ultimately show ?case by (intro exI[of _ "c # cs"] exI[of _ k']) auto
qed

text \<open>Characters in UTF-8.\<close>

lemma read_times_utf8s:
  assumes "\<forall>c \<in> set cs. utf8_char_law P c"
  shows "readable r sb \<Longrightarrow> drop (si_cursor sb) (si_data sb) = utf8s P cs \<Longrightarrow> si_cursor sb \<le> length (si_data sb) \<Longrightarrow>
    read_times P r sb (length cs + k) = Inr (cs @ replicate k (-1), sb\<lparr>si_cursor := length (si_data sb)\<rparr>)"
  using assms
proof (induction cs arbitrary: sb)
  case Nil
  then have "si_cursor sb = length (si_data sb)" by simp
  then show ?case using read_times_at_end[OF Nil.prems(1)] by simp
next
  case (Cons c cs)
  let ?sb = "sb\<lparr>si_cursor := si_cursor sb + utf8_size c\<rparr>"
  have c: "utf8_char_law P c" using Cons.prems(4) by simp
  then have len: "mb_len P (unicode_to_utf8 P c @ rest) = int (utf8_size c)" for rest
    unfolding utf8_char_law_def by blast
  have "length (unicode_to_utf8 P c @ utf8s P cs) = length (si_data sb) - si_cursor sb"
    using Cons.prems(2) by (metis length_drop list.simps(9) concat.simps(2))
  then have more: "si_cursor sb + utf8_size c \<le> length (si_data sb)" "si_cursor sb < length (si_data sb)"
    using c utf8_size_bounds(2)[of c] Cons.prems(3) by auto
  then have "sb_read_char P r sb = Inr (c, ?sb)"
    using Cons.prems(1,2) c len[of "utf8s P cs"] by (simp add: sb_read_char_def readable_def Let_def)
  moreover have "drop (si_cursor ?sb) (si_data ?sb) = utf8s P cs"
  proof -
    have "drop (utf8_size c) (drop (si_cursor sb) (si_data sb)) = utf8s P cs"
      using Cons.prems(2) c by (simp del: drop_drop)
    then show ?thesis by (simp add: add.commute)
  qed
  ultimately show ?case
    using Cons.IH[of ?sb] Cons.prems more by simp
qed

section \<open>Properties\<close>

text \<open>
  C28: a builder refines a sequence of bytes. Whatever writes are done on a new builder, what comes
  out is the concatenation of the pieces, each a function of its own write alone; the writes fail
  only if one of the pieces is an error by itself or the buffer would become too large. A new builder
  is refused only for a hint of a gigabyte or more, with an error.
\<close>
lemma builder_concatenates:
  assumes "builder_law P" "\<forall>w \<in> set ws. write_ok w"
  shows "case sb_new hint of
      Inl e \<Rightarrow> 0x3FFFFFFF < sint hint \<and> e = PgError ''invalid memory alloc request size''
    | Inr (r, sb) \<Rightarrow> (case run_writes P r sb ws of
        Inr sb' \<Rightarrow> \<exists>bs. pieces P ws = Inr bs \<and> sb_to_string r sb' = cstring_into_varatt_obj bs TEXTOID \<and>
          sb_to_bytes r sb' = cstring_into_varatt_obj bs BYTEAOID \<and> sb_mblength r sb' = Inr (word_of_nat (length bs))
      | Inl _ \<Rightarrow> (case pieces P ws of
          Inr bs \<Rightarrow> 0x3FFFFFFF \<le> length bs + MAX_UNICODE_EQUIVALENT_STRING | Inl _ \<Rightarrow> True))"
proof -
  have "case run_writes P r sb ws of
      Inr sb' \<Rightarrow> \<exists>bs. pieces P ws = Inr bs \<and> sb_to_string r sb' = cstring_into_varatt_obj bs TEXTOID \<and>
        sb_to_bytes r sb' = cstring_into_varatt_obj bs BYTEAOID \<and> sb_mblength r sb' = Inr (word_of_nat (length bs))
    | Inl _ \<Rightarrow> case pieces P ws of
        Inr bs \<Rightarrow> 0x3FFFFFFF \<le> length bs + MAX_UNICODE_EQUIVALENT_STRING | Inl _ \<Rightarrow> True"
    if "sb_new hint = Inr (r, sb)" for r sb
  proof -
    have new: "writable r sb" "si_data sb = []" using writable_new[OF that] by simp_all
    show ?thesis
    proof (cases "run_writes P r sb ws")
      case (Inr sb')
      then obtain bs where "pieces P ws = Inr bs" "sb' = sb\<lparr>si_data := bs\<rparr>" "writable r sb'"
        using run_writes_sound[OF assms(1) new(1) assms(2)] new by fastforce
      then show ?thesis
        using Inr by (simp add: sb_to_string_def sb_to_bytes_def sb_mblength_def writable_def)
    next
      case (Inl e)
      have "0x3FFFFFFF \<le> length bs + MAX_UNICODE_EQUIVALENT_STRING" if "pieces P ws = Inr bs" for bs
        using run_writes_complete[OF assms(1) new(1) assms(2) that] Inl new(2) by (intro leI notI) simp
      with Inl show ?thesis by (simp split: sum.splits)
    qed
  qed
  then show ?thesis using sb_new_refused[of hint] by (auto split: sum.splits prod.splits)
qed

lemma demo_builder_law: "builder_law demo_server"
  by (auto simp: builder_law_def demo_encode_def Let_def MAX_UNICODE_EQUIVALENT_STRING_def)

text \<open>A builder that was made without a hint.\<close>

definition demo_builder :: "wasm_ref \<times> string_info" where
  "demo_builder = (case sb_new 0 of Inr b \<Rightarrow> b)"

lemma demo_builder_new: "sb_new 0 = Inr (fst demo_builder, snd demo_builder)"
  by (simp add: demo_builder_def sb_new_def)

lemma builder_concatenates_witness:
  "case run_writes demo_server (fst demo_builder) (snd demo_builder) [WriteByte 0x41, WriteString (owned_text [0x42])] of
      Inr sb' \<Rightarrow> sb_mblength (fst demo_builder) sb' = Inr 2 | Inl _ \<Rightarrow> False"
proof -
  have "pieces demo_server [WriteByte 0x41, WriteString (owned_text [0x42])] = Inr [0x41, 0x42]"
    by (simp add: owned_text_def rst_externref_of_owned_datum_def)
  moreover obtain r sb where "demo_builder = (r, sb)" by (cases demo_builder)
  ultimately show ?thesis
    using builder_concatenates[OF demo_builder_law, of "[WriteByte 0x41, WriteString (owned_text [0x42])]" 0]
    unfolding demo_builder_new
    by (simp only: sum.case prod.case fst_conv snd_conv)
      (auto simp: MAX_UNICODE_EQUIVALENT_STRING_def split: sum.splits)
qed

text \<open>
  What an application writes character by character it reads back character by character, then
  -1 for ever, on a server that encodes in UTF-8 and for any characters but NUL.
\<close>
lemma chars_roundtrip:
  assumes "utf8_law P" "builder_law P" "\<forall>c \<in> set cs. scalar c \<and> c \<noteq> 0"
    and "length (utf8s P cs) + MAX_UNICODE_EQUIVALENT_STRING < 0x3FFFFFFF" "sb_new hint = Inr (r, sb)"
  shows "\<exists>sb' t r' rd rd'. run_writes P r sb (map WriteChar cs) = Inr sb' \<and> sb_to_string r sb' = Inr t \<and>
    sb_read_text hdr copied kept t = Inr (r', rd) \<and>
    read_times P r' rd (length cs + k) = Inr (cs @ replicate k (-1), rd')"
proof -
  have new: "writable r sb" "si_data sb = []" using writable_new[OF assms(5)] by simp_all
  have cs: "\<forall>c \<in> set cs. utf8_char_law P c" using assms(1,3) utf8_law_char by blast
  have "pieces P (map WriteChar cs) = Inr (utf8s P cs)" using cs assms(3)
  proof (induction cs)
    case (Cons c cs)
    then have "unicode_to_server P c = Inr (unicode_to_utf8 P c)" "0 \<notin> set (unicode_to_utf8 P c)"
      unfolding utf8_char_law_def by auto
    moreover from this(2) have "takeWhile (\<lambda>b. b \<noteq> 0) (unicode_to_utf8 P c) = unicode_to_utf8 P c"
      by (auto simp: takeWhile_eq_all_conv)
    ultimately show ?case using Cons by simp
  qed simp
  then have w: "run_writes P r sb (map WriteChar cs) = Inr (sb\<lparr>si_data := utf8s P cs\<rparr>)"
    using run_writes_complete[OF assms(2) new(1)] new(2) assms(4) by simp
  have "length (utf8s P cs) \<le> VARATT_MAX - VARHDRSZ"
    using assms(4) by (simp add: VARATT_MAX_def VARHDRSZ_def MAX_UNICODE_EQUIVALENT_STRING_def)
  then obtain t where t: "cstring_into_varatt_obj (utf8s P cs) TEXTOID = Inr t"
    using cstring_into_varatt_obj_ok by blast
  then have out: "sb_to_string r (sb\<lparr>si_data := utf8s P cs\<rparr>) = Inr t"
    using writable_update[OF new(1)] by (simp add: sb_to_string_def writable_def)
  let ?rd = "\<lparr>si_data = hdr @ utf8s P cs, si_cursor = length hdr, si_maxlen = 0\<rparr>"
  obtain r' where rd: "sb_read_text hdr copied kept t = Inr (r', ?rd)" "readable r' ?rd"
    using sb_read_text_Inr[OF var_bytes_cstring[OF t]] by blast
  have "read_times P r' ?rd (length cs + k) =
      Inr (cs @ replicate k (-1), ?rd\<lparr>si_cursor := length (hdr @ utf8s P cs)\<rparr>)"
    using read_times_utf8s[OF cs rd(2), of k] by simp
  with w out rd(1) show ?thesis by blast
qed

lemma chars_roundtrip_witness:
  "\<forall>kept. \<exists>sb' t r' rd rd'. run_writes demo_server (fst demo_builder) (snd demo_builder) [WriteChar 0x41, WriteChar 0x1F600] = Inr sb' \<and>
    sb_to_string (fst demo_builder) sb' = Inr t \<and> sb_read_text [0] False kept t = Inr (r', rd) \<and>
    read_times demo_server r' rd (Suc (Suc (Suc 0))) = Inr ([0x41, 0x1F600, -1], rd')"
  using chars_roundtrip[OF demo_utf8_law demo_builder_law _ _ demo_builder_new, of "[0x41, 0x1F600]" "[0]" False _ 1]
  by (simp add: scalar_def demo_encode_def MAX_UNICODE_EQUIVALENT_STRING_def)

text \<open>
  C40: reading a text ends, whatever its bytes are. No call fails or goes past the end, and after as
  many calls as there are bytes every further one gives -1.
\<close>
lemma reading_ends:
  assumes "wchar_law P" "var_bytes t TEXTOID = Inr bs"
  shows "\<exists>r rd cs rd'. sb_read_text hdr copied kept t = Inr (r, rd) \<and> read_times P r rd n = Inr (cs, rd') \<and>
    si_cursor rd' \<le> length (si_data rd) \<and> (length bs \<le> n \<longrightarrow> sb_read_char P r rd' = Inr (-1, rd'))"
proof -
  let ?rd = "\<lparr>si_data = hdr @ bs, si_cursor = length hdr, si_maxlen = 0\<rparr>"
  obtain r where r: "sb_read_text hdr copied kept t = Inr (r, ?rd)" "readable r ?rd"
    using sb_read_text_Inr[OF assms(2)] by blast
  from read_times_steps[OF assms(1) r(2), of n] obtain cs k where
    k: "read_times P r ?rd n = Inr (cs, ?rd\<lparr>si_cursor := k\<rparr>)" "k \<le> length (hdr @ bs)"
      "k = length (hdr @ bs) \<or> length hdr + n \<le> k" by auto
  moreover have "sb_read_char P r (?rd\<lparr>si_cursor := k\<rparr>) = Inr (-1, ?rd\<lparr>si_cursor := k\<rparr>)" if "length bs \<le> n"
    using k that by (intro read_at_end readable_update r(2)) auto
  ultimately show ?thesis using r(1) by fastforce
qed

lemma reading_ends_witness:
  "\<forall>kept. \<exists>r rd cs rd'. sb_read_text [0] False kept (owned_text [0xFF, 0x41]) = Inr (r, rd) \<and>
    read_times demo_server r rd 2 = Inr (cs, rd') \<and> sb_read_char demo_server r rd' = Inr (-1, rd')"
proof -
  have "wchar_law demo_server" by (simp add: wchar_law_def demo_mb2wchar_def)
  moreover have "var_bytes (owned_text [0xFF, 0x41]) TEXTOID = Inr [0xFF, 0x41]"
    by (simp add: owned_text_def rst_externref_of_owned_datum_def)
  ultimately show ?thesis
    using reading_ends[of demo_server "owned_text [0xFF, 0x41]" "[0xFF, 0x41]" "[0]" False _ 2] by fastforce
qed

end
