(* ===== verification/Json.thy ===== *)
theory Json
  imports Prelude
begin

text \<open>
  JSON values and the order in which Postgres' parser calls its semantic actions, shared by the
  test driver and by the application's JSON functions. Only the callbacks the engine sets are
  events. How the text is parsed is Postgres' affair: a parser is a parameter that gives the
  events of a text.
\<close>

datatype json =
    JNull | JBool bool
  | JNumber "byte list" \<comment> \<open>the token\<close>
  | JString "byte list"
  | JArray "json list"
  | JObject "(byte list \<times> json) list"

datatype json_token = JSON_TOKEN_STRING | JSON_TOKEN_NUMBER | JSON_TOKEN_TRUE | JSON_TOKEN_FALSE | JSON_TOKEN_NULL

datatype json_event =
    ObjectStart | ObjectEnd | ArrayStart | ArrayEnd
  | FieldStart "byte list" bool \<comment> \<open>\<open>fname\<close>, \<open>isnull\<close>\<close>
  | Scalar "byte list" json_token

definition ascii :: "string \<Rightarrow> byte list" where
  "ascii s = map (\<lambda>c. of_char c) s"

text \<open>The tokens of the three literals are their names.\<close>

fun json_events :: "json \<Rightarrow> json_event list" where
  "json_events JNull = [Scalar (ascii ''null'') JSON_TOKEN_NULL]"
| "json_events (JBool b) =
     [if b then Scalar (ascii ''true'') JSON_TOKEN_TRUE else Scalar (ascii ''false'') JSON_TOKEN_FALSE]"
| "json_events (JNumber tok) = [Scalar tok JSON_TOKEN_NUMBER]"
| "json_events (JString s) = [Scalar s JSON_TOKEN_STRING]"
| "json_events (JArray vs) = [ArrayStart] @ concat (map json_events vs) @ [ArrayEnd]"
| "json_events (JObject fs) =
     [ObjectStart] @ concat (map (\<lambda>(k, v). FieldStart k (v = JNull) # json_events v) fs) @ [ObjectEnd]"

text \<open>A function of the state that ends by returning \<open>JSON_SUCCESS\<close> or \<open>JSON_SEM_ACTION_FAILED\<close>.\<close>

datatype json_result = JSON_SUCCESS | JSON_SEM_ACTION_FAILED

text \<open>\<open>pg_parse_json\<close> stops at the first callback that fails or raises.\<close>

fun run_events :: "(json_event \<Rightarrow> 's \<Rightarrow> (json_result \<times> 's) res) \<Rightarrow> json_event list \<Rightarrow> 's \<Rightarrow> (json_result \<times> 's) res" where
  "run_events f [] s = Inr (JSON_SUCCESS, s)"
| "run_events f (e # es) s =
     res_bind (f e s) (\<lambda>(r, s). if r = JSON_SUCCESS then run_events f es s else Inr (r, s))"

lemma run_events_append:
  "run_events f (es @ es') s =
    res_bind (run_events f es s) (\<lambda>(r, s). if r = JSON_SUCCESS then run_events f es' s else Inr (r, s))"
proof (induction es arbitrary: s)
  case (Cons e es)
  show ?case by (cases "f e s") (auto simp: Cons.IH split: prod.splits)
qed simp

text \<open>An invariant of the callbacks holds until the parser stops.\<close>

lemma run_events_invariant:
  assumes "\<And>e s. I s \<Longrightarrow> res_sat F (\<lambda>(_, s'). I s') (f e s)" "I s"
  shows "res_sat F (\<lambda>(_, s'). I s') (run_events f es s)"
  using assms(2)
proof (induction es arbitrary: s)
  case (Cons e es)
  have "res_sat F (\<lambda>(_, s'). I s') (if r = JSON_SUCCESS then run_events f es s' else Inr (r, s'))"
    if "f e s = Inr (r, s')" for r s'
    using Cons.IH that res_satD[OF assms(1)[OF Cons.prems] that] by simp
  then show ?case
    using assms(1)[OF Cons.prems, of e] by (cases "f e s") (auto split: prod.splits)
qed simp

end
