(* ===== verification/Jsonb.thy ===== *)
theory Jsonb
  imports Json TextOps
begin

text \<open>
  JSON for the application (\<open>adt/jsonb.c\<close>): a text or a stored value is walked through by calls of
  functions the application exports, and a value is built of host objects. Postgres' parser, the
  iterator over a \<open>jsonb\<close> and its conversions are parameters.
\<close>

section \<open>The application's functions\<close>

datatype json_export =
    json_parse_push_string | json_parse_push_number | json_parse_push_bool | json_parse_push_null
  | json_parse_object_start | json_parse_object_field_start | json_parse_object_end
  | json_parse_array_start | json_parse_array_end

text \<open>The name each member of the context is looked up by.\<close>

fun export_name :: "json_export \<Rightarrow> string" where
  "export_name json_parse_push_string = ''json_parse_push_string''"
| "export_name json_parse_push_number = ''json_parse_push_number''"
| "export_name json_parse_push_bool = ''json_parse_push_bool''"
| "export_name json_parse_push_null = ''json_parse_push_null''"
| "export_name json_parse_object_start = ''json_parse_object_start''"
| "export_name json_parse_object_field_start = ''json_parse_object_field_start''"
| "export_name json_parse_object_end = ''json_parse_object_end''"
| "export_name json_parse_array_start = ''json_parse_array_start''"
| "export_name json_parse_array_end = ''json_parse_array_end''"

type_synonym json_context = "json_export \<Rightarrow> string option" \<comment> \<open>\<open>None\<close>: a null pointer\<close>

definition rst_init_context_for_jsonb :: "(string \<Rightarrow> bool) \<Rightarrow> json_context \<Rightarrow> json_context" where
  "rst_init_context_for_jsonb exported ctx =
     (\<lambda>x. if exported (export_name x) then Some (export_name x) else ctx x)"

text \<open>A call of an exported function, with its argument; the log is the state.\<close>

datatype json_arg = NoArg | ArgText wasm_ref | ArgF64 "64 word" | ArgI32 i32

type_synonym json_log = "(string \<times> json_arg) list"

text \<open>
  \<open>je_call\<close>: the call returns, with or without an exception of WebAssembly, or a host function
  raises an error of Postgres out of it; \<open>je_float8in\<close> and \<open>je_numeric_float8\<close> give the double of a
  number.
\<close>

record json_env =
  je_call :: "json_log \<Rightarrow> string \<Rightarrow> json_arg \<Rightarrow> bool answer"
  je_float8in :: "byte list \<Rightarrow> 64 word res"
  je_numeric_float8 :: "byte list \<Rightarrow> 64 word res"

section \<open>Parsing a text\<close>

definition call_back :: "json_env \<Rightarrow> string option \<Rightarrow> json_arg \<Rightarrow> json_log \<Rightarrow> (json_result \<times> json_log) res" where
  "call_back e func arg log =
     (case func of
        None \<Rightarrow> Inr (JSON_SEM_ACTION_FAILED, log)
      | Some f \<Rightarrow>
          res_bind (raised (je_call e log f arg)) (\<lambda>rv.
            Inr (if rv then JSON_SUCCESS else JSON_SEM_ACTION_FAILED, log @ [(f, arg)])))"

definition object_start :: "json_env \<Rightarrow> json_context \<Rightarrow> json_log \<Rightarrow> (json_result \<times> json_log) res" where
  "object_start e ctx log = call_back e (ctx json_parse_object_start) NoArg log"

definition object_end :: "json_env \<Rightarrow> json_context \<Rightarrow> json_log \<Rightarrow> (json_result \<times> json_log) res" where
  "object_end e ctx log = call_back e (ctx json_parse_object_end) NoArg log"

definition array_start :: "json_env \<Rightarrow> json_context \<Rightarrow> json_log \<Rightarrow> (json_result \<times> json_log) res" where
  "array_start e ctx log = call_back e (ctx json_parse_array_start) NoArg log"

definition array_end :: "json_env \<Rightarrow> json_context \<Rightarrow> json_log \<Rightarrow> (json_result \<times> json_log) res" where
  "array_end e ctx log = call_back e (ctx json_parse_array_end) NoArg log"

definition object_field_start ::
  "json_env \<Rightarrow> json_context \<Rightarrow> byte list \<Rightarrow> json_log \<Rightarrow> (json_result \<times> json_log) res" where
  "object_field_start e ctx fname log =
     res_bind (cstring_into_varatt_obj fname TEXTOID) (\<lambda>key.
       call_back e (ctx json_parse_object_field_start) (ArgText key) log)"

definition push_scalar ::
  "json_env \<Rightarrow> json_context \<Rightarrow> byte list \<Rightarrow> json_token \<Rightarrow> json_log \<Rightarrow> (json_result \<times> json_log) res" where
  "push_scalar e ctx token tokentype log =
     (case tokentype of
        JSON_TOKEN_STRING \<Rightarrow>
          res_bind (cstring_into_varatt_obj token TEXTOID) (\<lambda>str.
            call_back e (ctx json_parse_push_string) (ArgText str) log)
      | JSON_TOKEN_NUMBER \<Rightarrow>
          res_bind (je_float8in e token) (\<lambda>num. call_back e (ctx json_parse_push_number) (ArgF64 num) log)
      | JSON_TOKEN_TRUE \<Rightarrow> call_back e (ctx json_parse_push_bool) (ArgI32 1) log
      | JSON_TOKEN_FALSE \<Rightarrow> call_back e (ctx json_parse_push_bool) (ArgI32 0) log
      | JSON_TOKEN_NULL \<Rightarrow> call_back e (ctx json_parse_push_null) NoArg log)"

fun json_callback :: "json_env \<Rightarrow> json_context \<Rightarrow> json_event \<Rightarrow> json_log \<Rightarrow> (json_result \<times> json_log) res" where
  "json_callback e ctx ObjectStart = object_start e ctx"
| "json_callback e ctx ObjectEnd = object_end e ctx"
| "json_callback e ctx ArrayStart = array_start e ctx"
| "json_callback e ctx ArrayEnd = array_end e ctx"
| "json_callback e ctx (FieldStart fname isnull) = object_field_start e ctx fname"
| "json_callback e ctx (Scalar token tokentype) = push_scalar e ctx token tokentype"

text \<open>
  \<open>pg_parse\<close>: the callbacks Postgres makes for the bytes, and whether they are JSON to the end.
  The range is not checked.
\<close>

definition rst_json_parse ::
  "json_env \<Rightarrow> json_context \<Rightarrow> (byte list \<Rightarrow> json_event list \<times> bool) \<Rightarrow> wasm_ref \<Rightarrow> i32 \<Rightarrow> i32 \<Rightarrow>
    (i32 \<times> json_log) res" where
  "rst_json_parse e ctx pg_parse buf start len =
     res_bind (var_bytes buf BYTEAOID) (\<lambda>bs.
       if sint start < 0 \<or> sint len < 0 \<or> int (length bs) < sint start + sint len then
         Inl (Undefined ''ptr + start'')
       else
         case pg_parse (take (unat len) (drop (unat start) bs)) of (evs, ok) \<Rightarrow>
           res_bind (run_events (json_callback e ctx) evs []) (\<lambda>(r, log).
             Inr (if r = JSON_SUCCESS \<and> ok then 1 else 0, log)))"

section \<open>Walking through a stored value\<close>

datatype jsonb_scalar =
    JbvNull | JbvString "byte list" | JbvNumeric "byte list" | JbvBool bool | JbvOther

text \<open>What \<open>JsonbIteratorNext\<close> gives, with the value it leaves; \<open>WJB_DONE\<close> is the end of the list.\<close>

datatype jsonb_token =
    WJB_BEGIN_ARRAY bool \<comment> \<open>\<open>rawScalar\<close>\<close>
  | WJB_END_ARRAY | WJB_BEGIN_OBJECT | WJB_END_OBJECT
  | WJB_KEY "byte list" | WJB_VALUE jsonb_scalar | WJB_ELEM jsonb_scalar

text \<open>A call while \<open>success\<close>: a function that is not exported is passed over.\<close>

definition call_if :: "json_env \<Rightarrow> string option \<Rightarrow> json_arg res \<Rightarrow> bool \<times> json_log \<Rightarrow> (bool \<times> json_log) res" where
  "call_if e func arg st =
     (case (st, func) of
        ((True, log), Some f) \<Rightarrow>
          res_bind arg (\<lambda>arg. res_bind (raised (je_call e log f arg)) (\<lambda>rv. Inr (rv, log @ [(f, arg)])))
      | _ \<Rightarrow> Inr st)"

definition text_arg :: "byte list \<Rightarrow> json_arg res" where
  "text_arg bs = res_bind (cstring_into_varatt_obj bs TEXTOID) (\<lambda>str. Inr (ArgText str))"

definition iterate_scalar :: "json_env \<Rightarrow> json_context \<Rightarrow> jsonb_scalar \<Rightarrow> bool \<times> json_log \<Rightarrow> (bool \<times> json_log) res" where
  "iterate_scalar e ctx v st =
     (if \<not> fst st then Inr st
      else case v of
        JbvString s \<Rightarrow> call_if e (ctx json_parse_push_string) (text_arg s) st
      | JbvNumeric n \<Rightarrow>
          call_if e (ctx json_parse_push_number) (res_bind (je_numeric_float8 e n) (\<lambda>d. Inr (ArgF64 d))) st
      | JbvBool b \<Rightarrow> call_if e (ctx json_parse_push_bool) (Inr (ArgI32 (if b then 1 else 0))) st
      | JbvNull \<Rightarrow> call_if e (ctx json_parse_push_null) (Inr NoArg) st
      | JbvOther \<Rightarrow> Inl (PgError ''rst_jsonb_iterate: invalid type''))"

text \<open>The loop: \<open>raw_scalar\<close>, then \<open>success\<close> and the calls made.\<close>

fun iterate_loop ::
  "json_env \<Rightarrow> json_context \<Rightarrow> jsonb_token list \<Rightarrow> bool \<Rightarrow> bool \<times> json_log \<Rightarrow> (bool \<times> json_log) res" where
  "iterate_loop e ctx [] raw st = Inr st"
| "iterate_loop e ctx (WJB_BEGIN_ARRAY raw_scalar # toks) raw st =
     (if raw then Inl (Trap ''!raw_scalar'')
      else if raw_scalar then iterate_loop e ctx toks True st
      else res_bind (call_if e (ctx json_parse_array_start) (Inr NoArg) st) (iterate_loop e ctx toks raw))"
| "iterate_loop e ctx (WJB_END_ARRAY # toks) raw st =
     (if raw then iterate_loop e ctx toks raw st
      else res_bind (call_if e (ctx json_parse_array_end) (Inr NoArg) st) (iterate_loop e ctx toks raw))"
| "iterate_loop e ctx (WJB_BEGIN_OBJECT # toks) raw st =
     res_bind (call_if e (ctx json_parse_object_start) (Inr NoArg) st) (iterate_loop e ctx toks raw)"
| "iterate_loop e ctx (WJB_END_OBJECT # toks) raw st =
     res_bind (call_if e (ctx json_parse_object_end) (Inr NoArg) st) (iterate_loop e ctx toks raw)"
| "iterate_loop e ctx (WJB_KEY k # toks) raw st =
     res_bind (call_if e (ctx json_parse_object_field_start) (text_arg k) st) (iterate_loop e ctx toks raw)"
| "iterate_loop e ctx (WJB_VALUE v # toks) raw st =
     res_bind (iterate_scalar e ctx v st) (iterate_loop e ctx toks raw)"
| "iterate_loop e ctx (WJB_ELEM v # toks) raw st =
     res_bind (iterate_scalar e ctx v st) (iterate_loop e ctx toks raw)"

text \<open>\<open>jsonb_tokens\<close>: Postgres' iterator over the bytes of a \<open>jsonb\<close>.\<close>

definition rst_jsonb_iterate ::
  "json_env \<Rightarrow> json_context \<Rightarrow> (byte list \<Rightarrow> jsonb_token list) \<Rightarrow> wasm_ref \<Rightarrow> (i32 \<times> json_log) res" where
  "rst_jsonb_iterate e ctx jsonb_tokens jsonb =
     res_bind (var_bytes jsonb JSONBOID) (\<lambda>bs.
     res_bind (iterate_loop e ctx (jsonb_tokens bs) False (True, [])) (\<lambda>(success, log).
       Inr (if success then 1 else 0, log)))"

section \<open>Text in and out\<close>

definition rsl_jsonb_in :: "(byte list \<Rightarrow> byte list res) \<Rightarrow> wasm_ref \<Rightarrow> wasm_ref res" where
  "rsl_jsonb_in jsonb_in r =
     res_bind (var_bytes r TEXTOID) (\<lambda>str.
     res_bind (jsonb_in (takeWhile (\<lambda>b. b \<noteq> 0) str)) (\<lambda>jb.
       Inr (rst_externref_of_owned_datum (DPointer JSONBOID jb) JSONBOID)))"

definition rsl_jsonb_out :: "(byte list \<Rightarrow> byte list res) \<Rightarrow> wasm_ref \<Rightarrow> wasm_ref res" where
  "rsl_jsonb_out jsonb_out r =
     res_bind (var_bytes r JSONBOID) (\<lambda>jb.
     res_bind (jsonb_out jb) (\<lambda>str. cstring_into_varatt_obj (takeWhile (\<lambda>b. b \<noteq> 0) str) TEXTOID))"

end
