(* ===== verification/JsonbProps.thy ===== *)
theory JsonbProps
  imports Jsonb
begin

text \<open>
  The two ways through a JSON value: parsing its text and walking through its stored form make the
  same calls of the application.
\<close>

section \<open>The stored form\<close>

text \<open>
  The order of Postgres' iterator: containers open and close, keys come before their values, and a
  value that is no container is wrapped in an array marked \<open>rawScalar\<close>.
\<close>

fun tokens_of :: "(jsonb_scalar \<Rightarrow> jsonb_token) \<Rightarrow> json \<Rightarrow> jsonb_token list" where
  "tokens_of w JNull = [w JbvNull]"
| "tokens_of w (JBool b) = [w (JbvBool b)]"
| "tokens_of w (JNumber n) = [w (JbvNumeric n)]"
| "tokens_of w (JString s) = [w (JbvString s)]"
| "tokens_of w (JArray vs) = [WJB_BEGIN_ARRAY False] @ concat (map (tokens_of WJB_ELEM) vs) @ [WJB_END_ARRAY]"
| "tokens_of w (JObject fs) =
     [WJB_BEGIN_OBJECT] @ concat (map (\<lambda>(k, v). WJB_KEY k # tokens_of WJB_VALUE v) fs) @ [WJB_END_OBJECT]"

fun is_container :: "json \<Rightarrow> bool" where
  "is_container (JArray _) \<longleftrightarrow> True" | "is_container (JObject _) \<longleftrightarrow> True" | "is_container _ \<longleftrightarrow> False"

definition stored_tokens :: "json \<Rightarrow> jsonb_token list" where
  "stored_tokens v =
     (if is_container v then tokens_of WJB_ELEM v
      else [WJB_BEGIN_ARRAY True] @ tokens_of WJB_ELEM v @ [WJB_END_ARRAY])"

section \<open>One step behind the other\<close>

lemma res_bind_assoc: "res_bind (res_bind r f) g = res_bind r (\<lambda>x. res_bind (f x) g)"
  by (cases r) simp_all

text \<open>The iterator goes on with \<open>toks\<close> where the parser's callbacks have ended.\<close>

definition go_on ::
  "json_env \<Rightarrow> json_context \<Rightarrow> jsonb_token list \<Rightarrow> bool \<Rightarrow> (json_result \<times> json_log) res \<Rightarrow> (bool \<times> json_log) res" where
  "go_on e ctx toks raw r = res_bind r (\<lambda>(r, log). iterate_loop e ctx toks raw (r = JSON_SUCCESS, log))"

lemma go_on_simps [simp]:
  "go_on e ctx toks raw (Inl f) = Inl f"
  "go_on e ctx toks raw (Inr (r, log)) = iterate_loop e ctx toks raw (r = JSON_SUCCESS, log)"
  by (simp_all add: go_on_def)

lemma go_on_if [simp]:
  "go_on e ctx toks raw (if b then x else y) = (if b then go_on e ctx toks raw x else go_on e ctx toks raw y)"
  by simp

lemma call_if_False [simp]: "call_if e f arg (False, log) = Inr (False, log)"
  by (simp add: call_if_def)

lemma iterate_scalar_False [simp]: "iterate_scalar e ctx v (False, log) = Inr (False, log)"
  by (simp add: iterate_scalar_def)

text \<open>
  The tokens \<open>T\<close> do what the events \<open>evs\<close> do, whatever follows: the same calls, and after a failure
  nothing any more. It composes along lists.
\<close>

definition same :: "json_env \<Rightarrow> json_context \<Rightarrow> jsonb_token list \<Rightarrow> json_event list \<Rightarrow> bool" where
  "same e ctx T evs \<longleftrightarrow>
     (\<forall>toks log. iterate_loop e ctx (T @ toks) False (True, log) =
        go_on e ctx toks False (run_events (json_callback e ctx) evs log)) \<and>
     (\<forall>toks log. iterate_loop e ctx (T @ toks) False (False, log) = iterate_loop e ctx toks False (False, log))"

lemma same_Nil: "same e ctx [] []"
  by (simp add: same_def)

lemma same_append:
  assumes "same e ctx T evs" "same e ctx T' evs'"
  shows "same e ctx (T @ T') (evs @ evs')"
proof -
  have "go_on e ctx (T' @ toks) False (run_events (json_callback e ctx) evs log) =
      go_on e ctx toks False (run_events (json_callback e ctx) (evs @ evs') log)" for toks log
    using assms(2) by (cases "run_events (json_callback e ctx) evs log")
      (auto simp: run_events_append same_def split: prod.splits)
  with assms show ?thesis by (simp add: same_def)
qed

lemma same_concat:
  "(\<And>x. x \<in> set xs \<Longrightarrow> same e ctx (tok x) (ev x)) \<Longrightarrow> same e ctx (concat (map tok xs)) (concat (map ev xs))"
  by (induction xs) (auto intro: same_Nil same_append)

text \<open>All functions are exported, and the two conversions of a number agree.\<close>

definition same_calls :: "json_env \<Rightarrow> json_context \<Rightarrow> bool" where
  "same_calls e ctx \<longleftrightarrow> (\<forall>x. ctx x \<noteq> None) \<and> je_numeric_float8 e = je_float8in e"

lemma call_same:
  assumes "same_calls e ctx"
  shows "res_bind (call_if e (ctx x) arg (True, log)) (iterate_loop e ctx toks raw) =
    go_on e ctx toks raw (res_bind arg (\<lambda>arg. call_back e (ctx x) arg log))"
proof -
  obtain f where "ctx x = Some f" using assms by (auto simp: same_calls_def)
  then show ?thesis
    by (cases arg; cases "je_call e log f (projr arg)") (simp_all add: call_if_def call_back_def)
qed

lemma run_one: "run_events f [ev] s = f ev s"
  by (cases "f ev s") (auto split: prod.splits)

lemma same_single:
  assumes "same_calls e ctx"
  shows "same e ctx [WJB_BEGIN_ARRAY False] [ArrayStart]" "same e ctx [WJB_END_ARRAY] [ArrayEnd]"
    "same e ctx [WJB_BEGIN_OBJECT] [ObjectStart]" "same e ctx [WJB_END_OBJECT] [ObjectEnd]"
    "same e ctx [WJB_KEY k] [FieldStart k isnull]"
  using call_same[OF assms, of _ "Inr NoArg"] call_same[OF assms, of _ "text_arg k"]
  by (simp_all add: same_def run_one array_start_def array_end_def object_start_def object_end_def
      object_field_start_def text_arg_def res_bind_assoc del: run_events.simps)

text \<open>A value that is no container; after a raw scalar array began too.\<close>

lemma scalar_same:
  assumes "same_calls e ctx" "\<not> is_container v" "w = WJB_ELEM \<or> w = WJB_VALUE"
  shows "iterate_loop e ctx (tokens_of w v @ toks) raw (True, log) =
      go_on e ctx toks raw (run_events (json_callback e ctx) (json_events v) log)"
    and "iterate_loop e ctx (tokens_of w v @ toks) raw (False, log) = iterate_loop e ctx toks raw (False, log)"
proof -
  have loop: "iterate_loop e ctx (w u # toks) raw st = res_bind (iterate_scalar e ctx u st) (iterate_loop e ctx toks raw)"
    for u st using assms(3) by auto
  show "iterate_loop e ctx (tokens_of w v @ toks) raw (False, log) = iterate_loop e ctx toks raw (False, log)"
    using assms(2) by (cases v) (simp_all add: loop)
  show "iterate_loop e ctx (tokens_of w v @ toks) raw (True, log) =
      go_on e ctx toks raw (run_events (json_callback e ctx) (json_events v) log)"
    using assms(1,2) by (cases v) (simp_all add: run_one loop push_scalar_def iterate_scalar_def
        call_same text_arg_def res_bind_assoc same_calls_def[of e] del: run_events.simps)
qed

lemma same_value:
  assumes "same_calls e ctx"
  shows "w = WJB_ELEM \<or> w = WJB_VALUE \<Longrightarrow> same e ctx (tokens_of w v) (json_events v)"
proof (induction w v rule: tokens_of.induct)
  case (5 w vs)
  show ?case
    unfolding tokens_of.simps json_events.simps
    by (intro same_append same_concat same_single[OF assms] 5) auto
next
  case (6 w fs)
  have "same e ctx (case x of (k, v) \<Rightarrow> WJB_KEY k # tokens_of WJB_VALUE v)
      (case x of (k, v) \<Rightarrow> FieldStart k (v = JNull) # json_events v)" if x: "x \<in> set fs" for x
  proof -
    obtain k v where kv: "x = (k, v)" by (rule prod.exhaust)
    with x have x: "x = (k, v)" "(k, v) \<in> set fs" by simp_all
    have "same e ctx ([WJB_KEY k] @ tokens_of WJB_VALUE v) ([FieldStart k (v = JNull)] @ json_events v)"
      using x by (intro same_append same_single[OF assms] "6") auto
    with x show ?thesis by simp
  qed
  then show ?case
    unfolding tokens_of.simps json_events.simps
    by (intro same_append same_concat same_single[OF assms]) auto
qed (simp add: same_def scalar_same[OF assms] del: tokens_of.simps json_events.simps)+

section \<open>Properties\<close>

text \<open>
  C19: parsing a JSON text and walking through the stored form of the same value are the same, for an
  application that exports all nine functions, where the two conversions of numbers agree and the
  text has the keys of each object in the order they are stored in: the same calls in the same
  order with the same arguments, stopping at the same failure, with the same result or error.
\<close>
lemma parse_and_iterate_agree:
  assumes "exported \<circ> export_name = (\<lambda>_. True)" "je_numeric_float8 e = je_float8in e"
    and "ctx = rst_init_context_for_jsonb exported (\<lambda>_. None)"
    and "var_bytes buf BYTEAOID = Inr bs" "pg_parse bs = (json_events v, True)" "length bs < 2 ^ 31"
    and "var_bytes jb JSONBOID = Inr stored" "jsonb_tokens stored = stored_tokens v"
  shows "rst_json_parse e ctx pg_parse buf 0 (word_of_nat (length bs)) = rst_jsonb_iterate e ctx jsonb_tokens jb"
proof -
  have "exported (export_name x)" for x using fun_cong[OF assms(1), of x] by simp
  then have ctx: "same_calls e ctx" by (simp add: same_calls_def assms(2,3) rst_init_context_for_jsonb_def)
  have "iterate_loop e ctx (stored_tokens v) False (True, []) =
      go_on e ctx [] (\<not> is_container v) (run_events (json_callback e ctx) (json_events v) [])"
  proof (cases "is_container v")
    case True
    then show ?thesis
      using same_value[OF ctx, of WJB_ELEM v] by (simp add: stored_tokens_def same_def) (metis append_Nil2)
  next
    case False
    have "iterate_loop e ctx (tokens_of WJB_ELEM v @ [WJB_END_ARRAY]) True (True, []) =
        go_on e ctx [WJB_END_ARRAY] True (run_events (json_callback e ctx) (json_events v) [])"
      by (rule scalar_same(1)[OF ctx False]) simp
    then show ?thesis
      using False by (cases "run_events (json_callback e ctx) (json_events v) []") (auto simp: stored_tokens_def)
  qed
  moreover have "sint (word_of_nat (length bs) :: i32) = int (length bs)" "unat (word_of_nat (length bs) :: i32) = length bs"
    using assms(6) by (simp_all add: sint_of_nat32 unat_of_nat)
  ultimately show ?thesis
    using assms(4,5,7,8)
    by (cases "run_events (json_callback e ctx) (json_events v) []") (auto simp: rst_json_parse_def rst_jsonb_iterate_def)
qed

definition demo_json :: json_env where
  "demo_json = \<lparr>je_call = \<lambda>log f arg. Inr (length log < 2), je_float8in = \<lambda>tok. Inr (word_of_nat (length tok)),
     je_numeric_float8 = \<lambda>n. Inr (word_of_nat (length n))\<rparr>"

lemma parse_and_iterate_agree_witness:
  "rst_json_parse demo_json (rst_init_context_for_jsonb (\<lambda>_. True) (\<lambda>_. None)) (\<lambda>_. (json_events (JArray [JNumber [49], JNull]), True))
      (rst_externref_of_owned_datum (DPointer BYTEAOID [91, 49, 93]) BYTEAOID) 0 3 =
    rst_jsonb_iterate demo_json (rst_init_context_for_jsonb (\<lambda>_. True) (\<lambda>_. None)) (\<lambda>_. stored_tokens (JArray [JNumber [49], JNull]))
      (rst_externref_of_owned_datum (DPointer JSONBOID []) JSONBOID)"
  using parse_and_iterate_agree[of "\<lambda>_. True" demo_json "rst_init_context_for_jsonb (\<lambda>_. True) (\<lambda>_. None)"
      "rst_externref_of_owned_datum (DPointer BYTEAOID [91, 49, 93]) BYTEAOID" "[91, 49, 93]"
      "\<lambda>_. (json_events (JArray [JNumber [49], JNull]), True)" "JArray [JNumber [49], JNull]"
      "rst_externref_of_owned_datum (DPointer JSONBOID []) JSONBOID" "[]"
      "\<lambda>_. stored_tokens (JArray [JNumber [49], JNull])"]
  by (simp add: demo_json_def comp_def rst_externref_of_owned_datum_def var_bytes_def)

end
