(* ===== verification/JsonTree.thy ===== *)
theory JsonTree
  imports Json TextOps
begin

text \<open>
  JSON values the application builds of host objects (\<open>adt/jsonb.c\<close>, lines 32 to 157). A value is
  copied by its struct, so a copy in an array shares the memory of the object it came from; that
  object is kept alive through a set of references. The model has the host objects, the memory of
  \<open>palloc\<close> and the reference sets, and the finalizer frees.
\<close>

section \<open>State\<close>

text \<open>A \<open>JsonbValue\<close>; \<open>InText t\<close> points into the text of the host object \<open>t\<close>, the rest to memory.\<close>

datatype char_ptr = InText nat | Owned nat

datatype jsonb_value =
    JvNull | JvString nat char_ptr | JvNumeric "byte list" | JvBool bool
  | JvArray i32 nat | JvObject i32 nat

fun jv_type :: "jsonb_value \<Rightarrow> jbv_type" where
  "jv_type JvNull = jbvNull"
| "jv_type (JvString _ _) = jbvString"
| "jv_type (JvNumeric _) = jbvNumeric"
| "jv_type (JvBool _) = jbvBool"
| "jv_type (JvArray _ _) = jbvArray"
| "jv_type (JvObject _ _) = jbvObject"

text \<open>
  Allocated memory: a C string without its NUL, elements, or pairs as keys and values in turn;
  \<open>None\<close> is an element that was never set.
\<close>

datatype block =
    CString "byte list"
  | Elems "jsonb_value option list"
  | Pairs "jsonb_value option list"

text \<open>What an object keeps alive: another host object, or a set of references.\<close>

datatype kept = KeptObj nat | KeptSet nat

datatype host_obj = HostText "byte list" | HostJsonb jsonb_value "obj_flag set" "kept option"

record json_heap =
  jh_next :: nat \<comment> \<open>the next address\<close>
  jh_objs :: "nat \<Rightarrow> host_obj option"
  jh_mem :: "nat \<Rightarrow> block option"
  jh_sets :: "nat \<Rightarrow> nat option list"

datatype json_ref = JNullRef | JNotExternref | JRef nat

fun as_obj :: "host_obj \<Rightarrow> obj" where
  "as_obj (HostText bs) = rst_obj_new OBJ_DATUM None {} TEXTOID 0 (BodyDatum (DPointer TEXTOID bs))"
| "as_obj (HostJsonb v fl k) = Obj OBJ_JSONB_VALUE fl (OtherOid 0) 0 (BodyJsonb (jv_type v)) None"

definition to_ref :: "json_heap \<Rightarrow> json_ref \<Rightarrow> wasm_ref" where
  "to_ref st r =
     (case r of
        JNullRef \<Rightarrow> NullRef
      | JNotExternref \<Rightarrow> GcObject
      | JRef a \<Rightarrow> (case jh_objs st a of None \<Rightarrow> Externref NullRef | Some h \<Rightarrow> Externref (Anyref (as_obj h))))"

definition get_jsonb :: "json_heap \<Rightarrow> json_ref \<Rightarrow> (nat \<times> jsonb_value \<times> obj_flag set \<times> kept option) res" where
  "get_jsonb st r =
     res_bind (wasm_externref_obj_get_obj (to_ref st r) OBJ_JSONB_VALUE) (\<lambda>_.
       case r of
         JRef a \<Rightarrow>
           (case jh_objs st a of
              Some (HostJsonb v fl k) \<Rightarrow> Inr (a, v, fl, k)
            | _ \<Rightarrow> Inl (Undefined ''obj->body.jbv''))
       | _ \<Rightarrow> Inl (Undefined ''obj->body.jbv''))"

section \<open>Allocation\<close>

definition new_host :: "host_obj \<Rightarrow> json_heap \<Rightarrow> json_ref \<times> json_heap" where
  "new_host h st = (JRef (jh_next st), st\<lparr>jh_next := Suc (jh_next st), jh_objs := (jh_objs st)(jh_next st \<mapsto> h)\<rparr>)"

definition new_mem :: "block \<Rightarrow> json_heap \<Rightarrow> nat \<times> json_heap" where
  "new_mem b st = (jh_next st, st\<lparr>jh_next := Suc (jh_next st), jh_mem := (jh_mem st)(jh_next st \<mapsto> b)\<rparr>)"

text \<open>\<open>wasm_array_obj_new\<close>, which gives a null pointer when there is no room (\<open>ok\<close> is false).\<close>

definition new_set :: "bool \<Rightarrow> nat \<Rightarrow> json_heap \<Rightarrow> kept option \<times> json_heap" where
  "new_set ok n st =
     (if ok then
        (Some (KeptSet (jh_next st)),
         st\<lparr>jh_next := Suc (jh_next st), jh_sets := (jh_sets st)(jh_next st := replicate n None)\<rparr>)
      else (None, st))"

definition sizeof_JsonbValue :: nat where "sizeof_JsonbValue = 32"
definition sizeof_JsonbPair :: nat where "sizeof_JsonbPair = 72"
definition MaxAllocSize :: nat where "MaxAllocSize = 0x3fffffff"

text \<open>\<open>palloc(size * n)\<close> with an \<open>int\<close> that is converted to \<open>size_t\<close>.\<close>

definition palloc_array :: "nat \<Rightarrow> i32 \<Rightarrow> block \<Rightarrow> json_heap \<Rightarrow> (nat \<times> json_heap) res" where
  "palloc_array item n b st =
     (if sint n < 0 \<or> MaxAllocSize < item * unat n then Inl (PgError ''invalid memory alloc request size'')
      else Inr (new_mem b st))"

section \<open>Operations\<close>

definition jsonb_value_obj_new :: "jsonb_value \<Rightarrow> kept option \<Rightarrow> bool \<Rightarrow> json_heap \<Rightarrow> json_ref \<times> json_heap" where
  "jsonb_value_obj_new v ref owns_body_members st =
     new_host (HostJsonb v
       ((if ref = None then {} else {OBJ_REFERENCING}) \<union> (if owns_body_members then {OBJ_OWNS_BODY_MEMBERS} else {}))
       ref) st"

definition jsonb_value_new_null :: "json_heap \<Rightarrow> json_ref \<times> json_heap" where
  "jsonb_value_new_null st = jsonb_value_obj_new JvNull None False st"

text \<open>\<open>copied\<close>: \<open>DatumGetTextPP\<close> made a copy; the C string made of it ends at the first NUL.\<close>

definition jsonb_value_new_string :: "bool \<Rightarrow> json_ref \<Rightarrow> json_heap \<Rightarrow> (json_ref \<times> json_heap) res" where
  "jsonb_value_new_string copied str st =
     res_bind (var_bytes (to_ref st str) TEXTOID) (\<lambda>txt.
       case str of
         JRef t \<Rightarrow>
           if \<not> copied then Inr (jsonb_value_obj_new (JvString (length txt) (InText t)) (Some (KeptObj t)) False st)
           else
             let pgstr = takeWhile (\<lambda>b. b \<noteq> 0) txt; (p, st) = new_mem (CString pgstr) st
             in Inr (jsonb_value_obj_new (JvString (length pgstr) (Owned p)) None True st)
       | _ \<Rightarrow> Inl (Undefined ''VARDATA_ANY(txt)''))"

definition jsonb_value_new_numeric :: "(64 word \<Rightarrow> byte list res) \<Rightarrow> 64 word \<Rightarrow> json_heap \<Rightarrow> (json_ref \<times> json_heap) res" where
  "jsonb_value_new_numeric float8_numeric val st =
     res_bind (float8_numeric val) (\<lambda>n. Inr (jsonb_value_obj_new (JvNumeric n) None False st))"

definition jsonb_value_new_bool :: "i32 \<Rightarrow> json_heap \<Rightarrow> json_ref \<times> json_heap" where
  "jsonb_value_new_bool val st = jsonb_value_obj_new (JvBool (val \<noteq> 0)) None False st"

definition jsonb_value_new_array :: "bool \<Rightarrow> i32 \<Rightarrow> json_heap \<Rightarrow> (json_ref \<times> json_heap) res" where
  "jsonb_value_new_array set_ok len st =
     (let (ref_set, st) = new_set set_ok (unat len) st in
      res_bind (palloc_array sizeof_JsonbValue len (Elems (replicate (unat len) None)) st) (\<lambda>(elems, st).
        Inr (jsonb_value_obj_new (JvArray len elems) ref_set True st)))"

definition jsonb_value_new_object :: "bool \<Rightarrow> i32 \<Rightarrow> json_heap \<Rightarrow> (json_ref \<times> json_heap) res" where
  "jsonb_value_new_object set_ok len st =
     (let (ref_set, st) = new_set set_ok (unat (len * 2)) st in
      res_bind (palloc_array sizeof_JsonbPair len (Pairs (replicate (2 * unat len) None)) st) (\<lambda>(pairs, st).
        Inr (jsonb_value_obj_new (JvObject len pairs) ref_set True st)))"

text \<open>\<open>wasm_array_obj_set_elem\<close> on what the object keeps; neither it nor the store is checked.\<close>

definition set_elem :: "kept option \<Rightarrow> u32 \<Rightarrow> nat \<Rightarrow> json_heap \<Rightarrow> json_heap res" where
  "set_elem k i a st =
     (case k of
        Some (KeptSet r) \<Rightarrow>
          if length (jh_sets st r) \<le> unat i then Inl (Undefined ''wasm_array_obj_set_elem'')
          else Inr (st\<lparr>jh_sets := (jh_sets st)(r := (jh_sets st r)[unat i := Some a])\<rparr>)
      | _ \<Rightarrow> Inl (Undefined ''wasm_array_obj_set_elem''))"

definition put_elem :: "jsonb_value \<Rightarrow> i32 \<Rightarrow> jsonb_value \<Rightarrow> json_heap \<Rightarrow> json_heap res" where
  "put_elem arr i v st =
     (case arr of
        JvArray n p \<Rightarrow>
          (case jh_mem st p of
             Some (Elems es) \<Rightarrow>
               if sint i < 0 \<or> int (length es) \<le> sint i then Inl (Undefined ''elems[idx]'')
               else Inr (st\<lparr>jh_mem := (jh_mem st)(p \<mapsto> Elems (es[nat (sint i) := Some v]))\<rparr>)
           | _ \<Rightarrow> Inl (Undefined ''elems''))
      | _ \<Rightarrow> Inl (Undefined ''val.array''))"

definition put_pair :: "jsonb_value \<Rightarrow> i32 \<Rightarrow> nat \<Rightarrow> jsonb_value \<Rightarrow> json_heap \<Rightarrow> json_heap res" where
  "put_pair obj i member v st =
     (case obj of
        JvObject n p \<Rightarrow>
          (case jh_mem st p of
             Some (Pairs ps) \<Rightarrow>
               if sint i < 0 \<or> int (length ps) \<le> 2 * sint i + int member then Inl (Undefined ''pairs[idx]'')
               else Inr (st\<lparr>jh_mem := (jh_mem st)(p \<mapsto> Pairs (ps[2 * nat (sint i) + member := Some v]))\<rparr>)
           | _ \<Rightarrow> Inl (Undefined ''pairs''))
      | _ \<Rightarrow> Inl (Undefined ''val.object''))"

definition jsonb_value_array_set :: "json_ref \<Rightarrow> i32 \<Rightarrow> json_ref \<Rightarrow> json_heap \<Rightarrow> json_heap res" where
  "jsonb_value_array_set array idx member st =
     res_bind (get_jsonb st array) (\<lambda>(_, arr, flags, ref).
     res_bind (get_jsonb st member) (\<lambda>(m, v, _).
       if OBJ_REFERENCING \<notin> flags then Inl (PgError ''jsonb_value_array_set: array is not referencing'')
       else
         res_bind (set_elem ref idx m st) (put_elem arr idx v)))"

definition jsonb_value_object_set :: "json_ref \<Rightarrow> i32 \<Rightarrow> json_ref \<Rightarrow> json_ref \<Rightarrow> json_heap \<Rightarrow> json_heap res" where
  "jsonb_value_object_set object idx key val st =
     res_bind (get_jsonb st object) (\<lambda>(_, obj, flags, ref).
     res_bind (get_jsonb st key) (\<lambda>(k, kv, _).
     res_bind (get_jsonb st val) (\<lambda>(m, v, _).
       if OBJ_REFERENCING \<notin> flags then Inl (PgError ''jsonb_value_object_set: object is not referencing'')
       else if jv_type kv \<noteq> jbvString then Inl (PgError ''jsonb_value_object_set: key is not a string'')
       else
         res_bind (set_elem ref (idx * 2) k st) (\<lambda>st.
         res_bind (put_pair obj idx 0 kv st) (\<lambda>st.
         res_bind (set_elem ref (idx * 2 + 1) m st) (put_pair obj idx 1 v))))))"

section \<open>Reading a value\<close>

text \<open>
  What \<open>JsonbValueToJsonb\<close> finds when it walks through a value. It descends to a depth the server
  limits, and there it raises.
\<close>

definition dangling :: failure where "dangling = Undefined ''use after free''"
definition never_set :: failure where "never_set = Undefined ''uninitialised JsonbValue''"
definition too_deep :: failure where "too_deep = PgError ''stack depth limit exceeded''"

definition read_chars :: "json_heap \<Rightarrow> nat \<Rightarrow> char_ptr \<Rightarrow> byte list res" where
  "read_chars st len p =
     (case p of
        InText t \<Rightarrow>
          (case jh_objs st t of
             Some (HostText bs) \<Rightarrow> if length bs < len then Inl dangling else Inr (take len bs)
           | _ \<Rightarrow> Inl dangling)
      | Owned m \<Rightarrow>
          (case jh_mem st m of
             Some (CString bs) \<Rightarrow> if length bs < len then Inl dangling else Inr (take len bs)
           | _ \<Rightarrow> Inl dangling))"

text \<open>A key is read as a string.\<close>

definition read_key :: "json_heap \<Rightarrow> jsonb_value option \<Rightarrow> byte list res" where
  "read_key st x =
     (case x of
        None \<Rightarrow> Inl never_set
      | Some (JvString len p) \<Rightarrow> read_chars st len p
      | Some _ \<Rightarrow> Inl (Undefined ''key.val.string''))"

definition read_cell :: "(jsonb_value \<Rightarrow> json res) \<Rightarrow> jsonb_value option \<Rightarrow> json res" where
  "read_cell f x = (case x of None \<Rightarrow> Inl never_set | Some v \<Rightarrow> f v)"

fun read_json_elems :: "(jsonb_value \<Rightarrow> json res) \<Rightarrow> jsonb_value option list \<Rightarrow> json list res" where
  "read_json_elems f [] = Inr []"
| "read_json_elems f (x # xs) = res_bind (read_cell f x) (\<lambda>j. res_bind (read_json_elems f xs) (\<lambda>js. Inr (j # js)))"

fun read_json_pairs ::
  "json_heap \<Rightarrow> (jsonb_value \<Rightarrow> json res) \<Rightarrow> jsonb_value option list \<Rightarrow> (byte list \<times> json) list res" where
  "read_json_pairs st f (k # v # xs) =
     res_bind (read_key st k) (\<lambda>key. res_bind (read_cell f v) (\<lambda>j.
     res_bind (read_json_pairs st f xs) (\<lambda>ps. Inr ((key, j) # ps))))"
| "read_json_pairs st f _ = Inr []"

fun read_value :: "nat \<Rightarrow> json_heap \<Rightarrow> jsonb_value \<Rightarrow> json res" where
  "read_value 0 st v = Inl too_deep"
| "read_value (Suc n) st v =
     (case v of
        JvNull \<Rightarrow> Inr JNull
      | JvString len p \<Rightarrow> res_bind (read_chars st len p) (\<lambda>s. Inr (JString s))
      | JvNumeric num \<Rightarrow> Inr (JNumber num)
      | JvBool b \<Rightarrow> Inr (JBool b)
      | JvArray len p \<Rightarrow>
          (case jh_mem st p of
             Some (Elems es) \<Rightarrow>
               if length es < unat len then Inl dangling
               else res_bind (read_json_elems (read_value n st) (take (unat len) es)) (\<lambda>js. Inr (JArray js))
           | _ \<Rightarrow> Inl dangling)
      | JvObject len p \<Rightarrow>
          (case jh_mem st p of
             Some (Pairs ps) \<Rightarrow>
               if length ps < 2 * unat len then Inl dangling
               else res_bind (read_json_pairs st (read_value n st) (take (2 * unat len) ps)) (\<lambda>ps. Inr (JObject ps))
           | _ \<Rightarrow> Inl dangling))"

text \<open>\<open>max_depth\<close> is the server's limit, \<open>value_to_jsonb\<close> the encoding of what was found.\<close>

definition jsonb_value_to_jsonb :: "nat \<Rightarrow> (json \<Rightarrow> byte list res) \<Rightarrow> json_ref \<Rightarrow> json_heap \<Rightarrow> wasm_ref res" where
  "jsonb_value_to_jsonb max_depth value_to_jsonb r st =
     res_bind (get_jsonb st r) (\<lambda>(_, v, _).
     res_bind (read_value max_depth st v) (\<lambda>j.
     res_bind (value_to_jsonb j) (\<lambda>jb.
       Inr (rst_externref_of_owned_datum (DPointer JSONBOID jb) JSONBOID))))"

section \<open>Finalizer\<close>

definition free_mem :: "nat option \<Rightarrow> json_heap \<Rightarrow> json_heap res" where
  "free_mem p st =
     (case p of
        None \<Rightarrow> Inl (Undefined ''pfree'')
      | Some p \<Rightarrow>
          if jh_mem st p = None then Inl (Undefined ''double free'') else Inr (st\<lparr>jh_mem := (jh_mem st)(p := None)\<rparr>))"

definition members_of :: "jsonb_value \<Rightarrow> nat option" where
  "members_of v =
     (case v of JvString _ (Owned p) \<Rightarrow> Some p | JvArray _ p \<Rightarrow> Some p | JvObject _ p \<Rightarrow> Some p | _ \<Rightarrow> None)"

text \<open>The releases of \<open>obj_finalizer\<close> that matter here.\<close>

fun json_releases :: "release list \<Rightarrow> jsonb_value \<Rightarrow> json_heap \<Rightarrow> json_heap res" where
  "json_releases [] v st = Inr st"
| "json_releases (FreeJsonbString # rs) v st = res_bind (free_mem (members_of v) st) (json_releases rs v)"
| "json_releases (FreeJsonbElems # rs) v st = res_bind (free_mem (members_of v) st) (json_releases rs v)"
| "json_releases (FreeJsonbPairs # rs) v st = res_bind (free_mem (members_of v) st) (json_releases rs v)"
| "json_releases (_ # rs) v st = json_releases rs v st"

definition json_finalize :: "nat \<Rightarrow> json_heap \<Rightarrow> json_heap res" where
  "json_finalize a st =
     (case jh_objs st a of
        None \<Rightarrow> Inl (Undefined ''finalizer'')
      | Some h \<Rightarrow>
          res_bind (json_releases (obj_finalizer (as_obj h))
              (case h of HostJsonb v _ _ \<Rightarrow> v | HostText _ \<Rightarrow> JvNull) st) (\<lambda>st.
            Inr (st\<lparr>jh_objs := (jh_objs st)(a := None)\<rparr>)))"

end
