(* ===== verification/JsonTreeProps.thy ===== *)
theory JsonTreeProps
  imports JsonTree
begin

text \<open>
  JSON values built of host objects: no operation and no finalizer leaves a pointer to freed
  memory, although values are copied with their pointers; and a value built member by member is
  read as the value it stands for.
\<close>

section \<open>The invariant\<close>

definition value_of :: "json_heap \<Rightarrow> nat \<Rightarrow> jsonb_value option" where
  "value_of st a = (case jh_objs st a of Some (HostJsonb v _ _) \<Rightarrow> Some v | _ \<Rightarrow> None)"

fun host_mem :: "host_obj \<Rightarrow> nat option" where
  "host_mem (HostText _) = None"
| "host_mem (HostJsonb v _ _) = members_of v"

fun host_set :: "host_obj \<Rightarrow> nat option" where
  "host_set (HostJsonb _ _ (Some (KeptSet r))) = Some r"
| "host_set _ = None"

fun kept_by :: "json_heap \<Rightarrow> host_obj \<Rightarrow> nat set" where
  "kept_by st (HostJsonb _ _ (Some (KeptObj t))) = {t}"
| "kept_by st (HostJsonb _ _ (Some (KeptSet r))) = {b. Some b \<in> set (jh_sets st r)}"
| "kept_by st _ = {}"

text \<open>A copy in an element is the value of the object in the set of references.\<close>

definition cell_ok :: "json_heap \<Rightarrow> jsonb_value option \<Rightarrow> nat option \<Rightarrow> bool" where
  "cell_ok st x m \<longleftrightarrow> (\<forall>v. x = Some v \<longrightarrow> (\<exists>a. m = Some a \<and> value_of st a = Some v))"

fun cells_ok :: "json_heap \<Rightarrow> jsonb_value option list \<Rightarrow> kept option \<Rightarrow> bool" where
  "cells_ok st es None \<longleftrightarrow> (\<forall>x \<in> set es. x = None)"
| "cells_ok st es (Some (KeptSet r)) \<longleftrightarrow> list_all2 (cell_ok st) es (jh_sets st r)"
| "cells_ok st es (Some (KeptObj _)) \<longleftrightarrow> False"

definition keyed :: "jsonb_value option list \<Rightarrow> bool" where
  "keyed ps \<longleftrightarrow> (\<forall>i v. 2 * i < length ps \<longrightarrow> ps ! (2 * i) = Some v \<longrightarrow> jv_type v = jbvString)"

fun value_ok :: "json_heap \<Rightarrow> jsonb_value \<Rightarrow> kept option \<Rightarrow> bool" where
  "value_ok st (JvString len (InText t)) k \<longleftrightarrow>
     k = Some (KeptObj t) \<and> (\<exists>bs. jh_objs st t = Some (HostText bs) \<and> len = length bs)"
| "value_ok st (JvString len (Owned p)) k \<longleftrightarrow> k = None \<and> (\<exists>bs. jh_mem st p = Some (CString bs) \<and> len = length bs)"
| "value_ok st (JvArray n p) k \<longleftrightarrow> (\<exists>es. jh_mem st p = Some (Elems es) \<and> length es = unat n \<and> cells_ok st es k)"
| "value_ok st (JvObject n p) k \<longleftrightarrow>
     (\<exists>ps. jh_mem st p = Some (Pairs ps) \<and> length ps = 2 * unat n \<and> cells_ok st ps k \<and> keyed ps)"
| "value_ok st _ k \<longleftrightarrow> k = None"

fun host_ok :: "json_heap \<Rightarrow> host_obj \<Rightarrow> bool" where
  "host_ok st (HostText _) \<longleftrightarrow> True"
| "host_ok st (HostJsonb v fl k) \<longleftrightarrow>
     OBJ_OWNS_BODY \<notin> fl \<and> (OBJ_REFERENCING \<in> fl \<longleftrightarrow> k \<noteq> None) \<and>
     (OBJ_OWNS_BODY_MEMBERS \<in> fl \<longleftrightarrow> members_of v \<noteq> None) \<and> value_ok st v k"

definition apart :: "(nat \<Rightarrow> nat option) \<Rightarrow> bool" where
  "apart f \<longleftrightarrow> (\<forall>a b p. f a = Some p \<longrightarrow> f b = Some p \<longrightarrow> a = b)"

definition mem_of :: "json_heap \<Rightarrow> nat \<Rightarrow> nat option" where
  "mem_of st a = Option.bind (jh_objs st a) host_mem"

definition set_of :: "json_heap \<Rightarrow> nat \<Rightarrow> nat option" where
  "set_of st a = Option.bind (jh_objs st a) host_set"

definition json_inv :: "json_heap \<Rightarrow> bool" where
  "json_inv st \<longleftrightarrow>
     (\<forall>a h. jh_objs st a = Some h \<longrightarrow> a < jh_next st \<and> host_ok st h \<and> kept_by st h \<subseteq> dom (jh_objs st)) \<and>
     (\<forall>p. jh_mem st p \<noteq> None \<longrightarrow> p < jh_next st) \<and>
     (\<forall>a r. set_of st a = Some r \<longrightarrow> r < jh_next st) \<and>
     apart (mem_of st) \<and> apart (set_of st)"

lemma json_invD:
  assumes "json_inv st"
  shows "jh_objs st a = Some h \<Longrightarrow> a < jh_next st" "jh_objs st a = Some h \<Longrightarrow> host_ok st h"
    "jh_objs st a = Some h \<Longrightarrow> kept_by st h \<subseteq> dom (jh_objs st)"
    "jh_mem st p \<noteq> None \<Longrightarrow> p < jh_next st" "set_of st a = Some r \<Longrightarrow> r < jh_next st"
    "apart (mem_of st)" "apart (set_of st)"
  using assms by (auto simp: json_inv_def)

lemma apartD: "apart f \<Longrightarrow> f a = Some p \<Longrightarrow> f b = Some p \<Longrightarrow> a = b"
  by (simp add: apart_def)

lemma apart_upd: "apart f \<Longrightarrow> (\<And>b p. x = Some p \<Longrightarrow> f b = Some p \<Longrightarrow> b = a) \<Longrightarrow> apart (f(a := x))"
  by (auto simp: apart_def)

text \<open>An object stays well-formed while what it keeps, its memory and its set stay.\<close>

lemma cells_ok_stable:
  assumes "cells_ok st es k" "\<And>r. k = Some (KeptSet r) \<Longrightarrow> jh_sets st' r = jh_sets st r"
    and "\<And>r b. k = Some (KeptSet r) \<Longrightarrow> Some b \<in> set (jh_sets st r) \<Longrightarrow> jh_objs st' b = jh_objs st b"
  shows "cells_ok st' es k"
proof (cases k)
  case (Some x)
  then obtain r where k: "k = Some (KeptSet r)" using assms(1) by (cases x) auto
  have "list_all2 (cell_ok st) es (jh_sets st r)" using assms(1) k by simp
  then have "list_all2 (cell_ok st') es (jh_sets st r)"
    using assms(3)[OF k] by (auto simp: list_all2_conv_all_nth cell_ok_def value_of_def) (metis nth_mem)
  then show ?thesis using k assms(2)[OF k] by simp
qed (use assms(1) in auto)

lemma host_ok_stable:
  assumes "host_ok st h" "\<And>b. b \<in> kept_by st h \<Longrightarrow> jh_objs st' b = jh_objs st b"
    and "\<And>p. host_mem h = Some p \<Longrightarrow> jh_mem st' p = jh_mem st p"
    and "\<And>r. host_set h = Some r \<Longrightarrow> jh_sets st' r = jh_sets st r"
  shows "host_ok st' h"
proof (cases h)
  case (HostJsonb v fl k)
  have cells: "cells_ok st es k \<Longrightarrow> cells_ok st' es k" for es
    using assms(2,4) HostJsonb by (intro cells_ok_stable[of st es k st']) auto
  show ?thesis
    using assms(1-3) cells unfolding HostJsonb
    by (cases "(st, v, k)" rule: value_ok.cases) (auto simp: members_of_def)
qed simp

section \<open>Every operation keeps it\<close>

lemma fresh_obj: "json_inv st \<Longrightarrow> jh_next st \<le> a \<Longrightarrow> jh_objs st a = None"
  using json_invD(1)[of st a] by (cases "jh_objs st a") auto

lemma kept_by_upd [simp]:
  "kept_by (st\<lparr>jh_next := n\<rparr>) h = kept_by st h" "kept_by (st\<lparr>jh_objs := f\<rparr>) h = kept_by st h"
  "kept_by (st\<lparr>jh_mem := g\<rparr>) h = kept_by st h"
  by (cases "(st, h)" rule: kept_by.cases; simp)+

lemma kept_by_sets: "(\<And>r. host_set h = Some r \<Longrightarrow> s r = jh_sets st r) \<Longrightarrow> kept_by (st\<lparr>jh_sets := s\<rparr>) h = kept_by st h"
  by (cases "(st, h)" rule: kept_by.cases) auto

lemma new_host_inv:
  assumes "json_inv st" "host_ok st h" "kept_by st h \<subseteq> dom (jh_objs st)"
    and "\<And>p. host_mem h = Some p \<Longrightarrow> p \<notin> ran (mem_of st)"
    and "\<And>r. host_set h = Some r \<Longrightarrow> r \<notin> ran (set_of st) \<and> r < jh_next st"
  shows "json_inv (snd (new_host h st))"
proof -
  let ?a = "jh_next st" let ?st = "st\<lparr>jh_next := Suc (jh_next st), jh_objs := (jh_objs st)(jh_next st \<mapsto> h)\<rparr>"
  note fresh = fresh_obj[OF assms(1) order.refl]
  have ok: "host_ok ?st x \<and> kept_by ?st x \<subseteq> dom (jh_objs ?st)" if "host_ok st x" "kept_by st x \<subseteq> dom (jh_objs st)" for x
    using that fresh by (auto intro!: host_ok_stable[OF that(1)])
  have "mem_of ?st = (mem_of st)(?a := host_mem h)" "set_of ?st = (set_of st)(?a := host_set h)"
    by (auto simp: mem_of_def set_of_def)
  then have "apart (mem_of ?st)" "apart (set_of ?st)" "\<forall>a r. set_of ?st a = Some r \<longrightarrow> r < Suc ?a"
    using json_invD[OF assms(1)] assms(4,5) by (auto intro!: apart_upd simp: ran_def less_Suc_eq)
  then show ?thesis
    using json_invD(1,2,3,4)[OF assms(1)] ok assms(2,3)
    by (auto simp: json_inv_def new_host_def less_Suc_eq)
qed

lemma mem_of_live:
  assumes "json_inv st" "mem_of st a = Some p"
  shows "jh_mem st p \<noteq> None"
proof -
  obtain v fl k where h: "jh_objs st a = Some (HostJsonb v fl k)" "members_of v = Some p"
    using assms(2) by (cases "jh_objs st a") (auto simp: mem_of_def elim!: host_mem.elims)
  then have "value_ok st v k" using json_invD(2)[OF assms(1)] by fastforce
  then show ?thesis
    using h(2) by (cases "(st, v, k)" rule: value_ok.cases) (auto simp: members_of_def)
qed

lemma new_mem_inv:
  assumes "json_inv st" "new_mem b st = (p, st')"
  shows "json_inv st'" "jh_mem st' p = Some b" "p \<notin> ran (mem_of st')" "set_of st' = set_of st" "jh_objs st' = jh_objs st"
    "jh_sets st' = jh_sets st" "p < jh_next st'" "jh_next st \<le> jh_next st'"
proof -
  let ?p = "jh_next st"
  have st': "p = ?p" "st' = st\<lparr>jh_next := Suc ?p, jh_mem := (jh_mem st)(?p \<mapsto> b)\<rparr>"
    using assms(2) by (auto simp: new_mem_def)
  have fresh: "jh_mem st ?p = None" using json_invD(4)[OF assms(1), of ?p] by (cases "jh_mem st ?p") auto
  have eq: "mem_of st' = mem_of st" "set_of st' = set_of st" by (auto simp: st' mem_of_def set_of_def)
  have no: "?p \<notin> ran (mem_of st)" using fresh by (auto simp: ran_def dest: mem_of_live[OF assms(1)])
  have ok: "host_ok st' x" if "jh_objs st a = Some x" for a x
    using json_invD(2)[OF assms(1) that] no that
    by (intro host_ok_stable[of st x st']) (auto simp: st' mem_of_def ran_def dest!: spec[of _ a])
  show "json_inv st'"
    using json_invD[OF assms(1)] ok unfolding json_inv_def eq by (auto simp: st' less_Suc_eq)
  show "jh_mem st' p = Some b" "p \<notin> ran (mem_of st')" "set_of st' = set_of st" "jh_objs st' = jh_objs st"
    "jh_sets st' = jh_sets st" "p < jh_next st'" "jh_next st \<le> jh_next st'"
    using no eq by (auto simp: st')
qed

lemma new_set_inv:
  assumes "json_inv st" "new_set ok n st = (k, st')"
  shows "json_inv st'" "jh_objs st' = jh_objs st" "jh_mem st' = jh_mem st" "jh_next st \<le> jh_next st'"
    "case k of None \<Rightarrow> True
      | Some k \<Rightarrow> \<exists>r. k = KeptSet r \<and> jh_sets st' r = replicate n None \<and> r < jh_next st' \<and> r \<notin> ran (set_of st')"
proof -
  let ?r = "jh_next st" let ?st = "st\<lparr>jh_next := Suc ?r, jh_sets := (jh_sets st)(?r := replicate n None)\<rparr>"
  have eq: "mem_of ?st = mem_of st" "set_of ?st = set_of st" by (auto simp: mem_of_def set_of_def)
  have no: "?r \<notin> ran (set_of st)" using json_invD(5)[OF assms(1)] by (auto simp: ran_def)
  then have old: "host_set x \<noteq> Some ?r" if "jh_objs st a = Some x" for a x
    using that by (auto simp: set_of_def ran_def dest!: spec[of _ a])
  have ok: "host_ok ?st x" if "jh_objs st a = Some x" for a x
    using json_invD(2)[OF assms(1) that] old[OF that] by (intro host_ok_stable[of st x ?st]) auto
  have "kept_by ?st x = kept_by st x" if "jh_objs st a = Some x" for a x
    using old[OF that] by (cases "(st, x)" rule: kept_by.cases) auto
  then have "json_inv ?st"
    using json_invD[OF assms(1)] ok unfolding json_inv_def eq by (auto simp: less_Suc_eq)
  then show "json_inv st'" "jh_objs st' = jh_objs st" "jh_mem st' = jh_mem st" "jh_next st \<le> jh_next st'"
    "case k of None \<Rightarrow> True
      | Some k \<Rightarrow> \<exists>r. k = KeptSet r \<and> jh_sets st' r = replicate n None \<and> r < jh_next st' \<and> r \<notin> ran (set_of st')"
    using assms no eq by (auto simp: new_set_def split: if_splits)
qed

text \<open>A new object.\<close>

lemma obj_new_inv:
  assumes "json_inv st" "value_ok st v k" "owns \<longleftrightarrow> members_of v \<noteq> None"
    and "\<And>fl. kept_by st (HostJsonb v fl k) \<subseteq> dom (jh_objs st)"
    and "\<And>p. members_of v = Some p \<Longrightarrow> p \<notin> ran (mem_of st)"
    and "\<And>r. k = Some (KeptSet r) \<Longrightarrow> r \<notin> ran (set_of st) \<and> r < jh_next st"
  shows "json_inv (snd (jsonb_value_obj_new v k owns st))"
  unfolding jsonb_value_obj_new_def
  using assms(4-6) by (intro new_host_inv[OF assms(1)]) (auto simp: assms(2,3) elim!: host_set.elims)

lemma new_scalar_inv:
  assumes "json_inv st"
  shows "json_inv (snd (jsonb_value_new_null st))" "json_inv (snd (jsonb_value_new_bool i st))"
    "jsonb_value_new_numeric num d st = Inr (r, st') \<Longrightarrow> json_inv st'"
  using obj_new_inv[OF assms, of JvNull None False] obj_new_inv[OF assms, of "JvBool (i \<noteq> 0)" None False]
    obj_new_inv[OF assms, of "JvNumeric n" None False for n]
  by (auto simp: jsonb_value_new_null_def jsonb_value_new_bool_def jsonb_value_new_numeric_def members_of_def
      res_bind_eq_Inr) (metis snd_conv)

lemma text_of_ref:
  "var_bytes (to_ref st (JRef t)) TEXTOID = Inr txt \<Longrightarrow> jh_objs st t = Some (HostText txt)"
  by (cases "jh_objs st t"; cases "the (jh_objs st t)")
    (auto simp: var_bytes_def to_ref_def wasm_externref_obj_get_datum_def wasm_externref_obj_get_obj_def
      res_bind_eq_Inr rst_obj_new_def)

lemma new_string_inv:
  assumes "json_inv st" "jsonb_value_new_string copied str st = Inr (r, st')"
  shows "json_inv st'"
proof -
  obtain t bs where t: "str = JRef t" "var_bytes (to_ref st str) TEXTOID = Inr bs"
    using assms(2) by (cases str) (auto simp: jsonb_value_new_string_def res_bind_eq_Inr)
  note bs = text_of_ref[OF t(2)[unfolded t(1)]]
  show ?thesis
  proof (cases copied)
    case True
    let ?s = "takeWhile (\<lambda>b. b \<noteq> 0) bs"
    obtain p st1 where p: "new_mem (CString ?s) st = (p, st1)" by fastforce
    note inv1 = new_mem_inv[OF assms(1) p]
    have "json_inv (snd (jsonb_value_obj_new (JvString (length ?s) (Owned p)) None True st1))"
      using inv1(2,3) by (intro obj_new_inv[OF inv1(1)]) (auto simp: members_of_def)
    then show ?thesis
      using assms(2) t True p by (auto simp: jsonb_value_new_string_def Let_def)
  next
    case False
    have "json_inv (snd (jsonb_value_obj_new (JvString (length bs) (InText t)) (Some (KeptObj t)) False st))"
      using bs by (intro obj_new_inv[OF assms(1)]) (auto simp: members_of_def)
    then show ?thesis using assms(2) t False by (auto simp: jsonb_value_new_string_def)
  qed
qed

text \<open>Arrays and objects: the set, the memory, the object.\<close>

lemma cells_ok_replicate:
  "case k of None \<Rightarrow> True | Some k \<Rightarrow> \<exists>r. k = KeptSet r \<and> jh_sets st r = replicate n None \<Longrightarrow>
    cells_ok st (replicate n None) k"
  by (cases k) (auto simp: list_all2_conv_all_nth cell_ok_def)

lemma new_container_inv:
  assumes "json_inv st" "new_set set_ok n st = (k, st1)" "new_mem b st1 = (p, st2)"
    and "value_ok st2 v k" "members_of v = Some p"
  shows "json_inv (snd (jsonb_value_obj_new v k True st2))"
proof -
  note inv1 = new_set_inv[OF assms(1,2)]
  note inv2 = new_mem_inv[OF inv1(1) assms(3)]
  have "kept_by st2 (HostJsonb v fl k) \<subseteq> dom (jh_objs st2)" for fl
    using inv1(5) inv2(6) by (auto split: option.splits)
  then show ?thesis
    using inv1(5) inv2(3,4,7,8) assms(5) by (intro obj_new_inv[OF inv2(1) assms(4)]) (auto split: option.splits)
qed

lemma new_array_inv:
  assumes "json_inv st" "jsonb_value_new_array set_ok len st = Inr (r, st')"
  shows "json_inv st'"
proof -
  obtain k st1 p st2 where st: "new_set set_ok (unat len) st = (k, st1)"
      "new_mem (Elems (replicate (unat len) None)) st1 = (p, st2)"
      "(r, st') = jsonb_value_obj_new (JvArray len p) k True st2"
    using assms(2) by (auto simp: jsonb_value_new_array_def palloc_array_def res_bind_eq_Inr split: prod.splits if_splits)
  note inv1 = new_set_inv[OF assms(1) st(1)]
  note inv2 = new_mem_inv[OF inv1(1) st(2)]
  have "value_ok st2 (JvArray len p) k"
    using inv1(5) inv2(2,6) by (auto intro!: cells_ok_replicate split: option.splits)
  from new_container_inv[OF assms(1) st(1,2) this] st(3) show ?thesis by (simp add: members_of_def) (metis snd_conv)
qed

lemma new_object_inv:
  assumes "json_inv st" "jsonb_value_new_object set_ok len st = Inr (r, st')"
  shows "json_inv st'"
proof -
  obtain k st1 p st2 where st: "new_set set_ok (unat (len * 2)) st = (k, st1)"
      "new_mem (Pairs (replicate (2 * unat len) None)) st1 = (p, st2)"
      "(r, st') = jsonb_value_obj_new (JvObject len p) k True st2" "72 * unat len \<le> MaxAllocSize"
    using assms(2)
    by (auto simp: jsonb_value_new_object_def palloc_array_def sizeof_JsonbPair_def res_bind_eq_Inr split: prod.splits if_splits)
  note inv1 = new_set_inv[OF assms(1) st(1)]
  note inv2 = new_mem_inv[OF inv1(1) st(2)]
  have "unat (len * 2) = 2 * unat len"
    using st(4) by (simp add: unat_mult_lem[THEN iffD1] MaxAllocSize_def mult.commute)
  then have "value_ok st2 (JvObject len p) k"
    using inv1(5) inv2(2,6) by (auto intro!: cells_ok_replicate simp: keyed_def split: option.splits)
  from new_container_inv[OF assms(1) st(1,2) this] st(3) show ?thesis by (simp add: members_of_def) (metis snd_conv)
qed

text \<open>Storing a member: the set and the memory of one container change at the same place.\<close>

definition store :: "nat \<Rightarrow> nat \<Rightarrow> block \<Rightarrow> nat \<Rightarrow> nat \<Rightarrow> json_heap \<Rightarrow> json_heap" where
  "store r i b p m st =
     st\<lparr>jh_sets := (jh_sets st)(r := (jh_sets st r)[i := Some m]), jh_mem := (jh_mem st)(p \<mapsto> b)\<rparr>"

lemma store_simps [simp]:
  "jh_objs (store r i b p m st) = jh_objs st" "jh_next (store r i b p m st) = jh_next st"
  "jh_mem (store r i b p m st) = (jh_mem st)(p \<mapsto> b)"
  "jh_sets (store r i b p m st) = (jh_sets st)(r := (jh_sets st r)[i := Some m])"
  "value_of (store r i b p m st) = value_of st"
  by (auto simp: store_def value_of_def)

lemma cells_ok_store:
  assumes "cells_ok st es (Some (KeptSet r))" "value_of st m = Some v"
  shows "cells_ok (store r i b p m st) (es[i := Some v]) (Some (KeptSet r))"
proof -
  have "cell_ok (store r i b p m st) = cell_ok st" by (auto simp: cell_ok_def fun_eq_iff)
  moreover have "cell_ok st (Some v) (Some m)" using assms(2) by (simp add: cell_ok_def)
  ultimately show ?thesis using assms(1) by (simp add: list_all2_update_cong)
qed

lemma store_inv:
  assumes "json_inv st" "jh_objs st a = Some (HostJsonb c fl (Some (KeptSet r)))" "members_of c = Some p"
    and "value_of st m = Some v" "value_ok (store r i b p m st) c (Some (KeptSet r))"
  shows "json_inv (store r i b p m st)" (is "json_inv ?st")
proof -
  have a: "mem_of st a = Some p" "set_of st a = Some r" using assms(2,3) by (auto simp: mem_of_def set_of_def)
  have same: "mem_of ?st = mem_of st" "set_of ?st = set_of st" by (auto simp: mem_of_def set_of_def)
  have other: "host_mem h \<noteq> Some p" "host_set h \<noteq> Some r" if "jh_objs st b = Some h" "b \<noteq> a" for b h
    using apartD[OF json_invD(6)[OF assms(1)], of b p a] apartD[OF json_invD(7)[OF assms(1)], of b r a] a that
    by (auto simp: mem_of_def set_of_def)
  have live: "m \<in> dom (jh_objs st)" using assms(4) by (auto simp: value_of_def split: option.splits)
  have ok: "host_ok ?st h" if h: "jh_objs st b = Some h" for b h
  proof (cases "b = a")
    case True
    then have "h = HostJsonb c fl (Some (KeptSet r))" using h assms(2) by simp
    then show ?thesis using assms(5) json_invD(2)[OF assms(1,2)] by simp
  next
    case False
    note no = other[OF h False]
    show ?thesis
    proof (rule host_ok_stable[OF json_invD(2)[OF assms(1) h]])
      show "jh_mem ?st q = jh_mem st q" if "host_mem h = Some q" for q using that no(1) by (cases "q = p") auto
      show "jh_sets ?st q = jh_sets st q" if "host_set h = Some q" for q using that no(2) by (cases "q = r") auto
    qed simp
  qed
  have kept: "kept_by ?st h \<subseteq> dom (jh_objs st)" if h: "jh_objs st b = Some h" for b h
  proof (cases "b = a")
    case True
    have "kept_by ?st h \<subseteq> insert m (kept_by st h)"
      using True h assms(2) by (auto dest: set_update_subset_insert[THEN subsetD])
    then show ?thesis using live json_invD(3)[OF assms(1) h] by blast
  next
    case False
    then have "kept_by ?st h = kept_by st h" using other(2)[OF h False] by (cases "(st, h)" rule: kept_by.cases) auto
    then show ?thesis using json_invD(3)[OF assms(1) h] by simp
  qed
  have "jh_mem st p \<noteq> None" by (rule mem_of_live[OF assms(1) a(1)])
  then have "jh_mem ?st q \<noteq> None \<Longrightarrow> jh_mem st q \<noteq> None" for q by (cases "q = p") auto
  then show ?thesis
    using json_invD[OF assms(1)] ok kept unfolding json_inv_def same by simp
qed

lemma get_jsonb_Inr:
  "get_jsonb st r = Inr (a, v, fl, k) \<Longrightarrow> r = JRef a \<and> jh_objs st a = Some (HostJsonb v fl k)"
  by (auto simp: get_jsonb_def res_bind_eq_Inr split: json_ref.split_asm option.split_asm host_obj.split_asm)

lemma get_jsonb_JRef: "jh_objs st a = Some (HostJsonb v fl k) \<Longrightarrow> get_jsonb st (JRef a) = Inr (a, v, fl, k)"
  by (simp add: get_jsonb_def to_ref_def wasm_externref_obj_get_obj_def)

lemma value_of_Some: "jh_objs st a = Some (HostJsonb v fl k) \<Longrightarrow> value_of st a = Some v"
  by (simp add: value_of_def)

lemma nat_sint: "0 \<le> sint (i :: i32) \<Longrightarrow> nat (sint i) = unat i"
  using sint_nonneg32(1)[of i] by simp

lemma array_set_Inr:
  assumes "jsonb_value_array_set array idx member st = Inr st'"
  obtains a n p fl r es m v fl' k' where "array = JRef a" "jh_objs st a = Some (HostJsonb (JvArray n p) fl (Some (KeptSet r)))"
    "jh_objs st m = Some (HostJsonb v fl' k')" "jh_mem st p = Some (Elems es)" "unat idx < length es"
    "st' = store r (unat idx) (Elems (es[unat idx := Some v])) p m st"
proof -
  obtain a arr fl k m v fl' k' st1 where 1: "get_jsonb st array = Inr (a, arr, fl, k)" "get_jsonb st member = Inr (m, v, fl', k')"
      "set_elem k idx m st = Inr st1" "put_elem arr idx v st1 = Inr st'"
    using assms by (auto simp: jsonb_value_array_set_def res_bind_eq_Inr split: if_splits)
  obtain r where r: "k = Some (KeptSet r)" "st1 = st\<lparr>jh_sets := (jh_sets st)(r := (jh_sets st r)[unat idx := Some m])\<rparr>"
    using 1(3) by (auto simp: set_elem_def split: option.split_asm kept.split_asm if_splits)
  obtain n p es where e: "arr = JvArray n p" "jh_mem st p = Some (Elems es)" "0 \<le> sint idx" "sint idx < int (length es)"
      "st' = st1\<lparr>jh_mem := (jh_mem st1)(p \<mapsto> Elems (es[nat (sint idx) := Some v]))\<rparr>"
    using 1(4) by (auto simp: put_elem_def r(2) split: jsonb_value.split_asm option.split_asm block.split_asm if_splits)
  show ?thesis
    using that get_jsonb_Inr[OF 1(1)] get_jsonb_Inr[OF 1(2)] e r nat_sint[OF e(3)] by (auto simp: store_def)
qed

lemma array_set_inv:
  assumes "json_inv st" "jsonb_value_array_set array idx member st = Inr st'"
  shows "json_inv st'"
proof -
  from array_set_Inr[OF assms(2)] obtain a n p fl r es m v fl' k' where *:
    "jh_objs st a = Some (HostJsonb (JvArray n p) fl (Some (KeptSet r)))" "jh_objs st m = Some (HostJsonb v fl' k')"
    "jh_mem st p = Some (Elems es)" "st' = store r (unat idx) (Elems (es[unat idx := Some v])) p m st" by metis
  have "value_ok st (JvArray n p) (Some (KeptSet r))" using json_invD(2)[OF assms(1) *(1)] by simp
  then show ?thesis
    using cells_ok_store[OF _ value_of_Some[OF *(2)]] *(3) unfolding *(4)
    by (intro store_inv[OF assms(1) *(1) _ value_of_Some[OF *(2)]]) (auto simp: members_of_def simp del: cells_ok.simps)
qed

lemma double_index:
  assumes "0 \<le> sint (i :: i32)"
  shows "unat (i * 2) = 2 * unat i" "unat (i * 2 + 1) = 2 * unat i + 1"
proof -
  have "unat i < 2 ^ 31" by (rule sint_nonneg32(2)[OF assms])
  then have "unat i * unat (2 :: i32) < 2 ^ LENGTH(32)" by simp
  then have d: "unat (i * 2) = unat i * unat (2 :: i32)" by (subst (asm) unat_mult_lem)
  then show 2: "unat (i * 2) = 2 * unat i" by simp
  have "unat (i * 2) + unat (1 :: i32) < 2 ^ LENGTH(32)" using \<open>unat i < 2 ^ 31\<close> 2 by simp
  then show "unat (i * 2 + 1) = 2 * unat i + 1" using 2 by (subst (asm) unat_add_lem) simp
qed

lemma keyed_upd:
  "keyed ps \<Longrightarrow> jv_type v = jbvString \<Longrightarrow> keyed (ps[2 * i := Some v])"
  "keyed ps \<Longrightarrow> keyed (ps[Suc (2 * i) := Some v])"
proof -
  assume k: "keyed ps"
  show "keyed (ps[2 * i := Some v])" if "jv_type v = jbvString"
    unfolding keyed_def
  proof (intro allI impI)
    show "jv_type w = jbvString" if "2 * j < length (ps[2 * i := Some v])" "ps[2 * i := Some v] ! (2 * j) = Some w" for j w
      using k that \<open>jv_type v = jbvString\<close> by (cases "j = i") (auto simp: keyed_def)
  qed
  have "Suc (2 * i) \<noteq> 2 * j" for j :: nat by presburger
  then show "keyed (ps[Suc (2 * i) := Some v])" using k by (simp add: keyed_def)
qed

lemma put_pair_Inr:
  assumes "put_pair c idx j v st = Inr st'"
  obtains n p ps where "c = JvObject n p" "jh_mem st p = Some (Pairs ps)" "0 \<le> sint idx" "2 * unat idx + j < length ps"
    "st' = st\<lparr>jh_mem := (jh_mem st)(p \<mapsto> Pairs (ps[2 * unat idx + j := Some v]))\<rparr>"
proof -
  obtain n p ps where *: "c = JvObject n p" "jh_mem st p = Some (Pairs ps)" "0 \<le> sint idx" "2 * sint idx + int j < int (length ps)"
      "st' = st\<lparr>jh_mem := (jh_mem st)(p \<mapsto> Pairs (ps[2 * nat (sint idx) + j := Some v]))\<rparr>"
    using assms by (auto simp: put_pair_def split: jsonb_value.split_asm option.split_asm block.split_asm if_splits)
  have "2 * unat idx + j < length ps" using *(4) sint_nonneg32(1)[OF *(3)] by linarith
  with * nat_sint[OF *(3)] show ?thesis by (intro that) auto
qed

lemma set_elem_Inr:
  assumes "set_elem k i m st = Inr st'"
  obtains r where "k = Some (KeptSet r)" "st' = st\<lparr>jh_sets := (jh_sets st)(r := (jh_sets st r)[unat i := Some m])\<rparr>"
  using assms that by (auto simp: set_elem_def split: option.split_asm kept.split_asm if_splits)

lemma object_set_Inr:
  assumes "jsonb_value_object_set object idx key val st = Inr st'"
  obtains a n p fl r ps ka kv kfl kk m v fl' k' where "object = JRef a"
    "jh_objs st a = Some (HostJsonb (JvObject n p) fl (Some (KeptSet r)))"
    "jh_objs st ka = Some (HostJsonb kv kfl kk)" "jv_type kv = jbvString"
    "jh_objs st m = Some (HostJsonb v fl' k')" "jh_mem st p = Some (Pairs ps)" "2 * unat idx + 1 < length ps"
    "st' = store r (2 * unat idx + 1) (Pairs (ps[2 * unat idx := Some kv, 2 * unat idx + 1 := Some v])) p m
             (store r (2 * unat idx) (Pairs (ps[2 * unat idx := Some kv])) p ka st)"
proof -
  obtain a c fl k ka kv kfl kk m v fl' k' st1 st2 st3 where 1:
      "get_jsonb st object = Inr (a, c, fl, k)" "get_jsonb st key = Inr (ka, kv, kfl, kk)" "get_jsonb st val = Inr (m, v, fl', k')"
      "jv_type kv = jbvString" "set_elem k (idx * 2) ka st = Inr st1" "put_pair c idx 0 kv st1 = Inr st2"
      "set_elem k (idx * 2 + 1) m st2 = Inr st3" "put_pair c idx 1 v st3 = Inr st'"
    using assms by (auto simp: jsonb_value_object_set_def res_bind_eq_Inr split: if_splits)
  obtain r where r: "k = Some (KeptSet r)" "st1 = st\<lparr>jh_sets := (jh_sets st)(r := (jh_sets st r)[unat (idx * 2) := Some ka])\<rparr>"
    by (rule set_elem_Inr[OF 1(5)])
  obtain n p ps where 2: "c = JvObject n p" "jh_mem st1 p = Some (Pairs ps)" "0 \<le> sint idx"
      "st2 = st1\<lparr>jh_mem := (jh_mem st1)(p \<mapsto> Pairs (ps[2 * unat idx + 0 := Some kv]))\<rparr>"
    by (rule put_pair_Inr[OF 1(6)])
  obtain r' where 3: "k = Some (KeptSet r')"
      "st3 = st2\<lparr>jh_sets := (jh_sets st2)(r' := (jh_sets st2 r')[unat (idx * 2 + 1) := Some m])\<rparr>"
    by (rule set_elem_Inr[OF 1(7)])
  obtain n' p' ps' where 4: "c = JvObject n' p'" "jh_mem st3 p' = Some (Pairs ps')" "2 * unat idx + 1 < length ps'"
      "st' = st3\<lparr>jh_mem := (jh_mem st3)(p' \<mapsto> Pairs (ps'[2 * unat idx + 1 := Some v]))\<rparr>"
    by (rule put_pair_Inr[OF 1(8)])
  have ps': "p' = p" "r' = r" "ps' = ps[2 * unat idx := Some kv]" using r 2 3 4 by auto
  show ?thesis
    using r 2 3(2) 4(3,4) ps' get_jsonb_Inr[OF 1(1)] get_jsonb_Inr[OF 1(2)] get_jsonb_Inr[OF 1(3)] 1(4) double_index[OF 2(3)]
    by (intro that[of a n p fl r ka kv kfl kk m v fl' k' ps]) (simp_all add: store_def)
qed

lemma pairs_store_ok:
  assumes "value_ok st (JvObject n p) (Some (KeptSet r))" "jh_mem st p = Some (Pairs ps)" "value_of st m = Some v"
    and "keyed (ps[i := Some v])"
  shows "value_ok (store r i (Pairs (ps[i := Some v])) p m st) (JvObject n p) (Some (KeptSet r))"
  using assms cells_ok_store[OF _ assms(3), of ps r i "Pairs (ps[i := Some v])" p] by (simp del: cells_ok.simps)

lemma object_set_inv:
  assumes "json_inv st" "jsonb_value_object_set object idx key val st = Inr st'"
  shows "json_inv st'"
proof -
  from object_set_Inr[OF assms(2)] obtain a n p fl r ps ka kv kfl kk m v fl' k' where *:
    "jh_objs st a = Some (HostJsonb (JvObject n p) fl (Some (KeptSet r)))"
    "jh_objs st ka = Some (HostJsonb kv kfl kk)" "jv_type kv = jbvString"
    "jh_objs st m = Some (HostJsonb v fl' k')" "jh_mem st p = Some (Pairs ps)"
    "st' = store r (2 * unat idx + 1) (Pairs (ps[2 * unat idx := Some kv, 2 * unat idx + 1 := Some v])) p m
             (store r (2 * unat idx) (Pairs (ps[2 * unat idx := Some kv])) p ka st)" by metis
  let ?st = "store r (2 * unat idx) (Pairs (ps[2 * unat idx := Some kv])) p ka st"
  have ok: "value_ok st (JvObject n p) (Some (KeptSet r))" using json_invD(2)[OF assms(1) *(1)] by simp
  then have keyed: "keyed (ps[2 * unat idx := Some kv])" "keyed (ps[2 * unat idx := Some kv, 2 * unat idx + 1 := Some v])"
    using *(3,5) by (auto intro!: keyed_upd)
  have ok1: "value_ok ?st (JvObject n p) (Some (KeptSet r))"
    by (rule pairs_store_ok[OF ok *(5) value_of_Some[OF *(2)] keyed(1)])
  have inv: "json_inv ?st"
    by (rule store_inv[OF assms(1) *(1) _ value_of_Some[OF *(2)] ok1]) (simp add: members_of_def)
  show ?thesis
    unfolding *(6)
    by (rule store_inv[OF inv _ _ _ pairs_store_ok[OF ok1]]) (use *(1,4) keyed(2) in \<open>auto simp: members_of_def value_of_def\<close>)
qed

text \<open>A finalizer frees exactly what its object owns.\<close>

lemma finalize_eq:
  assumes "json_inv st" "jh_objs st a = Some h"
  shows "json_finalize a st = Inr (st\<lparr>
      jh_mem := (case host_mem h of None \<Rightarrow> jh_mem st | Some p \<Rightarrow> (jh_mem st)(p := None)),
      jh_objs := (jh_objs st)(a := None)\<rparr>)"
proof (cases h)
  case (HostText bs)
  then show ?thesis using assms(2) by (simp add: json_finalize_def obj_finalizer_def rst_obj_new_def)
next
  case (HostJsonb v fl k)
  have ok: "host_ok st h" by (rule json_invD(2)[OF assms])
  have "mem_of st a = members_of v" using assms(2) HostJsonb by (simp add: mem_of_def)
  then have live: "jh_mem st p \<noteq> None" if "members_of v = Some p" for p
    using that mem_of_live[OF assms(1)] by simp
  show ?thesis
  proof (cases "members_of v")
    case None
    then show ?thesis using ok assms(2) HostJsonb
      by (cases "jv_type v") (auto simp: json_finalize_def obj_finalizer_def)
  next
    case (Some p)
    have free: "free_mem (Some p) st = Inr (st\<lparr>jh_mem := (jh_mem st)(p := None)\<rparr>)"
      using live[OF Some] by (simp add: free_mem_def)
    have "jv_type v \<in> {jbvString, jbvArray, jbvObject}" using Some by (cases v) (auto simp: members_of_def)
    then show ?thesis using ok assms(2) HostJsonb Some free
      by (auto simp: json_finalize_def obj_finalizer_def)
  qed
qed

lemma finalize_inv:
  assumes "json_inv st" "\<forall>b h. jh_objs st b = Some h \<longrightarrow> a \<notin> kept_by st h" "json_finalize a st = Inr st'"
  shows "json_inv st'"
proof -
  obtain h where h: "jh_objs st a = Some h" using assms(3) by (cases "jh_objs st a") (auto simp: json_finalize_def)
  let ?mem = "case host_mem h of None \<Rightarrow> jh_mem st | Some p \<Rightarrow> (jh_mem st)(p := None)"
  have st': "st' = st\<lparr>jh_mem := ?mem, jh_objs := (jh_objs st)(a := None)\<rparr>"
    using finalize_eq[OF assms(1) h] assms(3) by simp
  have le: "?mem p = None \<or> ?mem p = jh_mem st p" for p by (auto split: option.splits)
  have eq: "mem_of st' = (mem_of st)(a := None)" "set_of st' = (set_of st)(a := None)"
    by (auto simp: st' mem_of_def set_of_def)
  have ok: "host_ok st' x" if x: "jh_objs st b = Some x" "b \<noteq> a" for b x
  proof (rule host_ok_stable[OF json_invD(2)[OF assms(1) x(1)]])
    show "jh_objs st' c = jh_objs st c" if "c \<in> kept_by st x" for c
      using that assms(2) x(1) by (auto simp: st')
    show "jh_mem st' q = jh_mem st q" if "host_mem x = Some q" for q
      using apartD[OF json_invD(6)[OF assms(1)], of b q a] that x h by (auto simp: st' mem_of_def split: option.splits)
  qed (simp add: st')
  have "kept_by st' x \<subseteq> dom (jh_objs st')" if x: "jh_objs st b = Some x" for b x
    using json_invD(3)[OF assms(1) x] assms(2) x by (auto simp: st')
  then show ?thesis
    using json_invD[OF assms(1)] ok le unfolding json_inv_def eq
    by (auto simp: st' apart_def split: if_splits) (metis option.distinct(1))+
qed

section \<open>Reachable states\<close>

inductive json_step :: "(64 word \<Rightarrow> byte list res) \<Rightarrow> json_heap \<Rightarrow> json_heap \<Rightarrow> bool" for num where
  Text: "new_host (HostText bs) st = (r, st') \<Longrightarrow> json_step num st st'"
| Null: "jsonb_value_new_null st = (r, st') \<Longrightarrow> json_step num st st'"
| String: "jsonb_value_new_string copied str st = Inr (r, st') \<Longrightarrow> json_step num st st'"
| Numeric: "jsonb_value_new_numeric num d st = Inr (r, st') \<Longrightarrow> json_step num st st'"
| Bool: "jsonb_value_new_bool i st = (r, st') \<Longrightarrow> json_step num st st'"
| Array: "jsonb_value_new_array set_ok len st = Inr (r, st') \<Longrightarrow> json_step num st st'"
| ArraySet: "jsonb_value_array_set array idx member st = Inr st' \<Longrightarrow> json_step num st st'"
| Object: "jsonb_value_new_object set_ok len st = Inr (r, st') \<Longrightarrow> json_step num st st'"
| ObjectSet: "jsonb_value_object_set object idx key val st = Inr st' \<Longrightarrow> json_step num st st'"
| Finalize: "\<forall>b h. jh_objs st b = Some h \<longrightarrow> a \<notin> kept_by st h \<Longrightarrow> json_finalize a st = Inr st' \<Longrightarrow> json_step num st st'"

definition no_values :: json_heap where
  "no_values = \<lparr>jh_next = 0, jh_objs = (\<lambda>_. None), jh_mem = (\<lambda>_. None), jh_sets = (\<lambda>_. [])\<rparr>"

inductive json_reachable :: "(64 word \<Rightarrow> byte list res) \<Rightarrow> json_heap \<Rightarrow> bool" for num where
  Start: "json_reachable num no_values"
| Step: "json_reachable num st \<Longrightarrow> json_step num st st' \<Longrightarrow> json_reachable num st'"

lemma new_text_inv: "json_inv st \<Longrightarrow> json_inv (snd (new_host (HostText bs) st))"
  by (rule new_host_inv) auto

lemma json_step_inv: "json_step num st st' \<Longrightarrow> json_inv st \<Longrightarrow> json_inv st'"
proof (induction rule: json_step.induct)
  case (Text bs st r st')
  then show ?case using new_text_inv[of st bs] by simp
next
  case (Null st r st')
  then show ?case using new_scalar_inv(1)[of st] by simp
next
  case (Bool i st r st')
  then show ?case using new_scalar_inv(2)[of st i] by simp
qed (auto intro: new_string_inv new_scalar_inv(3) new_array_inv array_set_inv new_object_inv object_set_inv finalize_inv)

lemma json_reachable_inv: "json_reachable num st \<Longrightarrow> json_inv st"
proof (induction rule: json_reachable.induct)
  case Start
  show ?case by (simp add: no_values_def json_inv_def apart_def mem_of_def set_of_def)
qed (rule json_step_inv)

section \<open>Reading is safe\<close>

definition read_failures :: "failure set" where "read_failures = {never_set, too_deep}"

lemma value_of_ok:
  assumes "json_inv st" "value_of st a = Some v"
  obtains k where "value_ok st v k"
  using assms json_invD(2)[OF assms(1), of a]
  by (auto simp: value_of_def split: option.split_asm host_obj.split_asm)

lemma cells_in:
  assumes "cells_ok st es k" "Some w \<in> set es"
  shows "\<exists>b. value_of st b = Some w"
proof (cases k)
  case (Some x)
  then obtain r where "list_all2 (cell_ok st) es (jh_sets st r)" using assms(1) by (cases x) auto
  then show ?thesis using assms(2) by (simp add: list_all2_conv_all_nth in_set_conv_nth cell_ok_def) metis
qed (use assms in auto)

lemma read_chars_ok: "value_ok st (JvString len c) k \<Longrightarrow> \<exists>bs. read_chars st len c = Inr bs"
  by (cases c) (auto simp: read_chars_def)

lemma read_elems_sat:
  "(\<And>v. Some v \<in> set es \<Longrightarrow> res_sat F (\<lambda>_. True) (f v)) \<Longrightarrow> never_set \<in> F \<Longrightarrow> res_sat F (\<lambda>_. True) (read_json_elems f es)"
proof (induction es)
  case (Cons x es)
  have "res_sat F (\<lambda>_. True) (read_cell f x)" using Cons.prems by (auto simp: read_cell_def split: option.split)
  then show ?case using Cons by (auto intro!: res_sat_bind)
qed simp

lemma keyed_Cons: "keyed (k # v # xs) \<longleftrightarrow> (\<forall>w. k = Some w \<longrightarrow> jv_type w = jbvString) \<and> keyed xs"
proof
  assume key: "keyed (k # v # xs)"
  have "jv_type w = jbvString" if "k = Some w" for w
    using key[unfolded keyed_def, rule_format, of 0 w] that by simp
  moreover have "jv_type w = jbvString" if "2 * i < length xs" "xs ! (2 * i) = Some w" for i w
    using key[unfolded keyed_def, rule_format, of "Suc i" w] that by simp
  ultimately show "(\<forall>w. k = Some w \<longrightarrow> jv_type w = jbvString) \<and> keyed xs" by (simp add: keyed_def)
next
  assume r: "(\<forall>w. k = Some w \<longrightarrow> jv_type w = jbvString) \<and> keyed xs"
  show "keyed (k # v # xs)" unfolding keyed_def
  proof (intro allI impI)
    show "jv_type w = jbvString" if "2 * i < length (k # v # xs)" "(k # v # xs) ! (2 * i) = Some w" for i w
      using r that by (cases i) (auto simp: keyed_def)
  qed
qed

lemma read_pairs_sat:
  "json_inv st \<Longrightarrow> never_set \<in> F \<Longrightarrow> (\<And>v. Some v \<in> set ps \<Longrightarrow> res_sat F (\<lambda>_. True) (f v) \<and> (\<exists>b. value_of st b = Some v)) \<Longrightarrow>
    keyed ps \<Longrightarrow> res_sat F (\<lambda>_. True) (read_json_pairs st f ps)"
proof (induction st f ps rule: read_json_pairs.induct)
  case (1 st f k v xs)
  note prems = "1.prems"
  have "res_sat F (\<lambda>_. True) (read_key st k)"
  proof (cases k)
    case (Some w)
    then obtain b where "value_of st b = Some w" using prems(3)[of w] by auto
    then obtain kk where ok: "value_ok st w kk" by (rule value_of_ok[OF prems(1)])
    have "jv_type w = jbvString" using prems(4) Some by (simp add: keyed_Cons)
    then show ?thesis using Some ok read_chars_ok by (cases w) (fastforce simp: read_key_def)+
  qed (simp add: read_key_def prems(2))
  moreover have "res_sat F (\<lambda>_. True) (read_cell f v)" using prems(2,3) by (auto simp: read_cell_def split: option.split)
  ultimately show ?case using 1 by (auto intro!: res_sat_bind simp: keyed_Cons)
qed auto

lemma read_value_safe:
  "json_inv st \<Longrightarrow> value_of st a = Some v \<Longrightarrow> res_sat read_failures (\<lambda>_. True) (read_value n st v)"
proof (induction n arbitrary: a v)
  case (Suc n)
  note F = read_failures_def
  obtain k where ok: "value_ok st v k" using value_of_ok[OF Suc.prems] .
  show ?case
  proof (cases v)
    case (JvString len c)
    then show ?thesis using read_chars_ok ok by fastforce
  next
    case (JvArray len p)
    then obtain es where es: "jh_mem st p = Some (Elems es)" "length es = unat len" "cells_ok st es k" using ok by auto
    have "res_sat read_failures (\<lambda>_. True) (read_json_elems (read_value n st) es)"
      using cells_in[OF es(3)] Suc.IH[OF Suc.prems(1)] by (intro read_elems_sat) (auto simp: F)
    then show ?thesis using JvArray es(1,2) by (auto intro!: res_sat_bind)
  next
    case (JvObject len p)
    then obtain ps where ps: "jh_mem st p = Some (Pairs ps)" "length ps = 2 * unat len" "cells_ok st ps k" "keyed ps"
      using ok by auto
    have "res_sat read_failures (\<lambda>_. True) (read_json_pairs st (read_value n st) ps)"
      using cells_in[OF ps(3)] Suc.IH[OF Suc.prems(1)] ps(4) by (intro read_pairs_sat[OF Suc.prems(1)]) (auto simp: F)
    then show ?thesis using JvObject ps(1,2) by (auto intro!: res_sat_bind)
  qed auto
qed (simp add: read_failures_def)

section \<open>Building a value\<close>

text \<open>
  An application that builds a value from the inside out: members first, then the array or the
  object with a place for each, then one call for each member. \<open>num\<close> gives the double of a number.
\<close>

definition build_string :: "byte list \<Rightarrow> json_heap \<Rightarrow> (json_ref \<times> json_heap) res" where
  "build_string s st = (case new_host (HostText s) st of (t, st) \<Rightarrow> jsonb_value_new_string False t st)"

fun set_all :: "json_ref \<Rightarrow> nat \<Rightarrow> json_ref list \<Rightarrow> json_heap \<Rightarrow> json_heap res" where
  "set_all r i [] st = Inr st"
| "set_all r i (m # ms) st = res_bind (jsonb_value_array_set r (word_of_nat i) m st) (set_all r (Suc i) ms)"

fun set_pairs :: "json_ref \<Rightarrow> nat \<Rightarrow> (json_ref \<times> json_ref) list \<Rightarrow> json_heap \<Rightarrow> json_heap res" where
  "set_pairs r i [] st = Inr st"
| "set_pairs r i ((k, m) # ms) st = res_bind (jsonb_value_object_set r (word_of_nat i) k m st) (set_pairs r (Suc i) ms)"

fun build :: "(byte list \<Rightarrow> 64 word) \<Rightarrow> (64 word \<Rightarrow> byte list res) \<Rightarrow> json \<Rightarrow> json_heap \<Rightarrow> (json_ref \<times> json_heap) res"
  and build_all :: "(byte list \<Rightarrow> 64 word) \<Rightarrow> (64 word \<Rightarrow> byte list res) \<Rightarrow> json list \<Rightarrow> json_heap \<Rightarrow>
    (json_ref list \<times> json_heap) res"
  and build_pairs :: "(byte list \<Rightarrow> 64 word) \<Rightarrow> (64 word \<Rightarrow> byte list res) \<Rightarrow> (byte list \<times> json) list \<Rightarrow> json_heap \<Rightarrow>
    ((json_ref \<times> json_ref) list \<times> json_heap) res"
  where
  "build num f JNull st = Inr (jsonb_value_new_null st)"
| "build num f (JBool b) st = Inr (jsonb_value_new_bool (if b then 1 else 0) st)"
| "build num f (JNumber n) st = jsonb_value_new_numeric f (num n) st"
| "build num f (JString s) st = build_string s st"
| "build num f (JArray vs) st =
     res_bind (build_all num f vs st) (\<lambda>(ms, st).
     res_bind (jsonb_value_new_array True (word_of_nat (length vs)) st) (\<lambda>(r, st).
     res_bind (set_all r 0 ms st) (\<lambda>st. Inr (r, st))))"
| "build num f (JObject ps) st =
     res_bind (build_pairs num f ps st) (\<lambda>(ms, st).
     res_bind (jsonb_value_new_object True (word_of_nat (length ps)) st) (\<lambda>(r, st).
     res_bind (set_pairs r 0 ms st) (\<lambda>st. Inr (r, st))))"
| "build_all num f [] st = Inr ([], st)"
| "build_all num f (v # vs) st =
     res_bind (build num f v st) (\<lambda>(r, st). res_bind (build_all num f vs st) (\<lambda>(rs, st). Inr (r # rs, st)))"
| "build_pairs num f [] st = Inr ([], st)"
| "build_pairs num f ((k, v) # ps) st =
     res_bind (build_string k st) (\<lambda>(rk, st). res_bind (build num f v st) (\<lambda>(r, st).
     res_bind (build_pairs num f ps st) (\<lambda>(rs, st). Inr ((rk, r) # rs, st))))"

text \<open>How deep Postgres descends, and the values that fit into memory and come back from doubles.\<close>

fun depth :: "json \<Rightarrow> nat" where
  "depth (JArray vs) = Suc (foldr max (map depth vs) 0)"
| "depth (JObject ps) = Suc (foldr max (map (depth \<circ> snd) ps) 0)"
| "depth _ = 0"

fun buildable :: "(byte list \<Rightarrow> 64 word) \<Rightarrow> (64 word \<Rightarrow> byte list res) \<Rightarrow> json \<Rightarrow> bool" where
  "buildable num f (JNumber n) \<longleftrightarrow> f (num n) = Inr n"
| "buildable num f (JArray vs) \<longleftrightarrow> sizeof_JsonbValue * length vs \<le> MaxAllocSize \<and> (\<forall>v \<in> set vs. buildable num f v)"
| "buildable num f (JObject ps) \<longleftrightarrow>
     sizeof_JsonbPair * length ps \<le> MaxAllocSize \<and> (\<forall>p \<in> set ps. buildable num f (snd p))"
| "buildable num f _ \<longleftrightarrow> True"

text \<open>A later state has all that an earlier one has.\<close>

definition extends :: "json_heap \<Rightarrow> json_heap \<Rightarrow> bool" where
  "extends st st' \<longleftrightarrow>
     (\<forall>a. jh_objs st a \<noteq> None \<longrightarrow> jh_objs st' a = jh_objs st a) \<and> (\<forall>p. jh_mem st p \<noteq> None \<longrightarrow> jh_mem st' p = jh_mem st p)"

lemma extends_refl [simp]: "extends st st" by (simp add: extends_def)

lemma extends_trans: "extends st st' \<Longrightarrow> extends st' st'' \<Longrightarrow> extends st st''"
  by (fastforce simp: extends_def)

lemma extendsD:
  "extends st st' \<Longrightarrow> jh_objs st a = Some h \<Longrightarrow> jh_objs st' a = Some h"
  "extends st st' \<Longrightarrow> jh_mem st p = Some b \<Longrightarrow> jh_mem st' p = Some b"
  "extends st st' \<Longrightarrow> value_of st a = Some v \<Longrightarrow> value_of st' a = Some v"
  by (auto simp: extends_def value_of_def split: option.splits)

lemma read_chars_extends: "extends st st' \<Longrightarrow> read_chars st len c = Inr s \<Longrightarrow> read_chars st' len c = Inr s"
  by (cases c) (auto simp: read_chars_def extendsD split: option.split_asm host_obj.split_asm block.split_asm if_splits)

lemma read_key_extends: "extends st st' \<Longrightarrow> read_key st x = Inr s \<Longrightarrow> read_key st' x = Inr s"
  by (auto simp: read_key_def read_chars_extends split: option.split_asm jsonb_value.split_asm)

lemma read_elems_mono:
  "(\<And>v j. f v = Inr j \<Longrightarrow> g v = Inr j) \<Longrightarrow> read_json_elems f es = Inr js \<Longrightarrow> read_json_elems g es = Inr js"
  by (induction es arbitrary: js) (auto simp: res_bind_eq_Inr read_cell_def split: option.split_asm)

lemma read_pairs_mono:
  assumes "extends st st'" "\<And>v j. f v = Inr j \<Longrightarrow> g v = Inr j"
  shows "read_json_pairs st f ps = Inr js \<Longrightarrow> read_json_pairs st' g ps = Inr js"
proof (induction ps arbitrary: js rule: induct_list012)
  case (3 k v ps)
  then show ?case using assms
    by (auto simp: res_bind_eq_Inr read_cell_def read_key_extends split: option.split_asm)
qed auto

lemma read_value_mono:
  "extends st st' \<Longrightarrow> read_value n st v = Inr j \<Longrightarrow> n \<le> m \<Longrightarrow> read_value m st' v = Inr j"
proof (induction n arbitrary: m v j)
  case (Suc n)
  then obtain m' where m: "m = Suc m'" "n \<le> m'" by (cases m) auto
  have IH: "read_value n st w = Inr i \<Longrightarrow> read_value m' st' w = Inr i" for w i
    using Suc.IH[OF Suc.prems(1)] m(2) by blast
  show ?case
  proof (cases v)
    case (JvArray len p)
    then obtain es js where es: "jh_mem st p = Some (Elems es)" "\<not> length es < unat len"
        "read_json_elems (read_value n st) (take (unat len) es) = Inr js" "j = JArray js"
      using Suc.prems(2) by (auto simp: res_bind_eq_Inr split: option.split_asm block.split_asm if_splits)
    then show ?thesis
      using JvArray m(1) extendsD(2)[OF Suc.prems(1) es(1)] read_elems_mono[OF IH es(3)] by simp
  next
    case (JvObject len p)
    then obtain ps js where ps: "jh_mem st p = Some (Pairs ps)" "\<not> length ps < 2 * unat len"
        "read_json_pairs st (read_value n st) (take (2 * unat len) ps) = Inr js" "j = JObject js"
      using Suc.prems(2) by (auto simp: res_bind_eq_Inr split: option.split_asm block.split_asm if_splits)
    then show ?thesis
      using JvObject m(1) extendsD(2)[OF Suc.prems(1) ps(1)] read_pairs_mono[OF Suc.prems(1) IH ps(3)] by simp
  qed (use Suc.prems m(1) in \<open>auto simp: res_bind_eq_Inr read_chars_extends\<close>)
qed simp

text \<open>A reference stands for a value: at every depth that is enough it is read as that value.\<close>

definition denotes :: "json_heap \<Rightarrow> json_ref \<Rightarrow> json \<Rightarrow> bool" where
  "denotes st r j \<longleftrightarrow> (\<exists>a v. r = JRef a \<and> value_of st a = Some v \<and> read_value (Suc (depth j)) st v = Inr j)"

lemma denotes_extends: "denotes st r j \<Longrightarrow> extends st st' \<Longrightarrow> denotes st' r j"
  unfolding denotes_def using extendsD(3) read_value_mono by (metis order.refl)

definition names_key :: "json_heap \<Rightarrow> json_ref \<Rightarrow> byte list \<Rightarrow> bool" where
  "names_key st r s \<longleftrightarrow> (\<exists>a len c. r = JRef a \<and> value_of st a = Some (JvString len c) \<and> read_chars st len c = Inr s)"

lemma names_key_extends: "names_key st r s \<Longrightarrow> extends st st' \<Longrightarrow> names_key st' r s"
  by (auto simp: names_key_def) (metis extendsD(3) read_chars_extends)

text \<open>The small values.\<close>

lemma obj_new_extends:
  assumes "json_inv st" "jsonb_value_obj_new v k owns st = (r, st')"
  shows "extends st st'" "r = JRef (jh_next st)" "value_of st' (jh_next st) = Some v"
  using assms(2) fresh_obj[OF assms(1), of "jh_next st"]
  by (auto simp: jsonb_value_obj_new_def new_host_def extends_def value_of_def)

lemma build_string_ok:
  assumes "json_inv st"
  shows "\<exists>r st'. build_string s st = Inr (r, st') \<and> json_inv st' \<and> extends st st' \<and> names_key st' r s \<and> denotes st' r (JString s)"
proof -
  let ?st = "snd (new_host (HostText s) st)" let ?t = "jh_next st"
  have inv: "json_inv ?st" by (rule new_text_inv[OF assms])
  have t: "jh_objs ?st ?t = Some (HostText s)" by (simp add: new_host_def)
  have "extends st ?st" using fresh_obj[OF assms, of ?t] by (auto simp: new_host_def extends_def)
  obtain r st' where new: "jsonb_value_obj_new (JvString (length s) (InText ?t)) (Some (KeptObj ?t)) False ?st = (r, st')" by fastforce
  note st' = obj_new_extends[OF inv new]
  have b: "build_string s st = Inr (r, st')"
    using t new by (simp add: build_string_def new_host_def jsonb_value_new_string_def to_ref_def var_bytes_def
        wasm_externref_obj_get_datum_def wasm_externref_obj_get_obj_def rst_obj_new_def)
  moreover have "jsonb_value_new_string False (JRef ?t) ?st = Inr (r, st')"
    using b by (simp add: build_string_def new_host_def)
  then have "json_inv st'" by (rule new_string_inv[OF inv])
  moreover have "read_chars st' (length s) (InText ?t) = Inr s"
    using extendsD(1)[OF st'(1) t] by (simp add: read_chars_def)
  ultimately show ?thesis
    using st' \<open>extends st ?st\<close> by (auto simp: names_key_def denotes_def intro: extends_trans)
qed

lemma build_scalar_ok:
  assumes "json_inv st" "buildable num f j" "\<And>vs. j \<noteq> JArray vs" "\<And>ps. j \<noteq> JObject ps"
  shows "\<exists>r st'. build num f j st = Inr (r, st') \<and> json_inv st' \<and> extends st st' \<and> denotes st' r j"
proof -
  have new: "\<exists>r st'. jsonb_value_obj_new v None False st = (r, st') \<and> extends st st' \<and> value_of st' (jh_next st) = Some v \<and>
      r = JRef (jh_next st)" for v
    using obj_new_extends[OF assms(1)] by (metis surj_pair)
  note inv = new_scalar_inv[OF assms(1)]
  show ?thesis
  proof (cases j)
    case JNull
    then show ?thesis using new[of JvNull] inv(1) by (auto simp: jsonb_value_new_null_def denotes_def)
  next
    case (JBool b)
    then show ?thesis
      using new[of "JvBool b"] inv(2)[of "if b then 1 else 0"] by (auto simp: jsonb_value_new_bool_def denotes_def)
  next
    case (JNumber n)
    then show ?thesis
      using new[of "JvNumeric n"] inv(3)[of f "num n"] assms(2) by (auto simp: jsonb_value_new_numeric_def denotes_def)
  next
    case (JString s)
    then show ?thesis using build_string_ok[OF assms(1), of s] by auto
  qed (use assms in auto)
qed

text \<open>Storing all members of a container.\<close>

definition stands_for :: "json_heap \<Rightarrow> json_ref \<Rightarrow> jsonb_value \<Rightarrow> bool" where
  "stands_for st r v \<longleftrightarrow> (\<exists>b. r = JRef b \<and> value_of st b = Some v)"

lemma get_stands_for:
  assumes "stands_for st r v"
  shows "\<exists>b fl k. get_jsonb st r = Inr (b, v, fl, k)"
proof -
  obtain b where b: "r = JRef b" "value_of st b = Some v" using assms by (auto simp: stands_for_def)
  then obtain fl k where "jh_objs st b = Some (HostJsonb v fl k)"
    by (auto simp: value_of_def split: option.split_asm host_obj.split_asm)
  then show ?thesis using b(1) get_jsonb_JRef by blast
qed

lemma take_Suc_update: "i < length xs \<Longrightarrow> take (Suc i) (xs[i := x]) = take i xs @ [x]"
  by (simp add: take_Suc_conv_app_nth)

lemma set_all_ok:
  assumes "jh_objs st a = Some (HostJsonb (JvArray n p) fl (Some (KeptSet q)))" "OBJ_REFERENCING \<in> fl"
    and "jh_mem st p = Some (Elems es)" "length (jh_sets st q) = length es" "length es = i + length ms" "length es < 2 ^ 31"
    and "list_all2 (stands_for st) ms vs"
  shows "\<exists>st'. set_all (JRef a) i ms st = Inr st' \<and> jh_objs st' = jh_objs st \<and>
    jh_mem st' = (jh_mem st)(p \<mapsto> Elems (take i es @ map Some vs))"
  using assms
proof (induction ms arbitrary: i st es vs)
  case Nil
  then show ?case by auto
next
  case (Cons m ms)
  then obtain v vs' where vs: "vs = v # vs'" "stands_for st m v" "list_all2 (stands_for st) ms vs'"
    by (auto simp: list_all2_Cons1)
  obtain b fl' k where b: "get_jsonb st m = Inr (b, v, fl', k)" using get_stands_for[OF vs(2)] by blast
  have i: "i < length es" "sint (word_of_nat i :: i32) = int i" "unat (word_of_nat i :: i32) = i"
    using Cons.prems(5,6) by (simp_all add: sint_of_nat32 unat_word_of_nat32)
  let ?st = "store q i (Elems (es[i := Some v])) p b st"
  have set: "jsonb_value_array_set (JRef a) (word_of_nat i) m st = Inr ?st"
    using Cons.prems(1-4) get_jsonb_JRef[OF Cons.prems(1)] b i
    by (simp add: jsonb_value_array_set_def set_elem_def put_elem_def store_def)
  have "stands_for ?st = stands_for st" by (auto simp: stands_for_def fun_eq_iff)
  then have "\<exists>st'. set_all (JRef a) (Suc i) ms ?st = Inr st' \<and> jh_objs st' = jh_objs ?st \<and>
      jh_mem st' = (jh_mem ?st)(p \<mapsto> Elems (take (Suc i) (es[i := Some v]) @ map Some vs'))"
    by (intro Cons.IH) (use Cons.prems vs(3) in simp_all)
  then obtain st' where "set_all (JRef a) (Suc i) ms ?st = Inr st'" "jh_objs st' = jh_objs st"
      "jh_mem st' = (jh_mem st)(p \<mapsto> Elems (take (Suc i) (es[i := Some v]) @ map Some vs'))" by (metis fun_upd_upd store_simps(1,3))
  then show ?case using set i(1) vs(1) by (auto simp: take_Suc_update)
qed

lemma set_pairs_ok:
  assumes "jh_objs st a = Some (HostJsonb (JvObject n p) fl (Some (KeptSet q)))" "OBJ_REFERENCING \<in> fl"
    and "jh_mem st p = Some (Pairs ps)" "length (jh_sets st q) = length ps" "length ps = 2 * (i + length ms)" "length ps < 2 ^ 31"
    and "list_all2 (\<lambda>(k, m) (kv, v). stands_for st k kv \<and> jv_type kv = jbvString \<and> stands_for st m v) ms vs"
  shows "\<exists>st'. set_pairs (JRef a) i ms st = Inr st' \<and> jh_objs st' = jh_objs st \<and>
    jh_mem st' = (jh_mem st)(p \<mapsto> Pairs (take (2 * i) ps @ concat (map (\<lambda>(kv, v). [Some kv, Some v]) vs)))"
  using assms
proof (induction ms arbitrary: i st ps vs)
  case Nil
  then show ?case by auto
next
  case (Cons km ms)
  obtain k m where km: "km = (k, m)" by fastforce
  obtain kv v vs' where vs: "vs = (kv, v) # vs'" "stands_for st k kv" "jv_type kv = jbvString" "stands_for st m v"
      "list_all2 (\<lambda>(k, m) (kv, v). stands_for st k kv \<and> jv_type kv = jbvString \<and> stands_for st m v) ms vs'"
    using Cons.prems(7) by (auto simp: list_all2_Cons1 km)
  obtain kb kfl kk where kb: "get_jsonb st k = Inr (kb, kv, kfl, kk)" using get_stands_for[OF vs(2)] by blast
  obtain b fl' k' where b: "get_jsonb st m = Inr (b, v, fl', k')" using get_stands_for[OF vs(4)] by blast
  have i: "2 * i + 1 < length ps" "sint (word_of_nat i :: i32) = int i" "unat (word_of_nat i :: i32) = i"
    using Cons.prems(5,6) by (simp_all add: sint_of_nat32 unat_word_of_nat32)
  have i2: "unat (word_of_nat i * 2 :: i32) = 2 * i" "unat (word_of_nat i * 2 + 1 :: i32) = 2 * i + 1"
    using double_index[of "word_of_nat i"] i(2,3) by simp_all
  let ?ps = "ps[2 * i := Some kv, Suc (2 * i) := Some v]"
  let ?st = "store q (Suc (2 * i)) (Pairs ?ps) p b (store q (2 * i) (Pairs (ps[2 * i := Some kv])) p kb st)"
  have set: "jsonb_value_object_set (JRef a) (word_of_nat i) k m st = Inr ?st"
    using Cons.prems(1-4) get_jsonb_JRef[OF Cons.prems(1)] kb b i i2 vs(3)
    by (simp add: jsonb_value_object_set_def set_elem_def put_pair_def store_def)
  have "stands_for ?st = stands_for st" by (auto simp: stands_for_def fun_eq_iff)
  then have "\<exists>st'. set_pairs (JRef a) (Suc i) ms ?st = Inr st' \<and> jh_objs st' = jh_objs ?st \<and>
      jh_mem st' = (jh_mem ?st)(p \<mapsto> Pairs (take (2 * Suc i) ?ps @ concat (map (\<lambda>(kv, v). [Some kv, Some v]) vs')))"
    by (intro Cons.IH) (use Cons.prems vs(5) in simp_all)
  then obtain st' where "set_pairs (JRef a) (Suc i) ms ?st = Inr st'" "jh_objs st' = jh_objs st"
      "jh_mem st' = (jh_mem st)(p \<mapsto> Pairs (take (2 * Suc i) ?ps @ concat (map (\<lambda>(kv, v). [Some kv, Some v]) vs')))"
    by (metis fun_upd_upd store_simps(1,3))
  moreover have "take (2 * Suc i) ?ps = take (2 * i) ps @ [Some kv, Some v]"
    using i(1) take_Suc_update[of "Suc (2 * i)" "ps[2 * i := Some kv]"] by (simp add: take_Suc_update)
  ultimately show ?case using set vs(1) by (auto simp: km)
qed

lemma set_all_inv: "set_all r i ms st = Inr st' \<Longrightarrow> json_inv st \<Longrightarrow> json_inv st'"
  by (induction r i ms st rule: set_all.induct) (auto simp: res_bind_eq_Inr dest: array_set_inv)

lemma set_pairs_inv: "set_pairs r i ms st = Inr st' \<Longrightarrow> json_inv st \<Longrightarrow> json_inv st'"
  by (induction r i ms st rule: set_pairs.induct) (auto simp: res_bind_eq_Inr dest: object_set_inv)

text \<open>A new container, and its members read back.\<close>

lemma fresh_mem: "json_inv st \<Longrightarrow> jh_next st \<le> p \<Longrightarrow> jh_mem st p = None"
  using json_invD(4)[of st p] by (cases "jh_mem st p") auto

definition made :: "json_heap \<Rightarrow> json_heap \<Rightarrow> nat \<Rightarrow> jsonb_value \<Rightarrow> nat \<Rightarrow> block \<Rightarrow> nat \<Rightarrow> nat \<Rightarrow> bool" where
  "made st st' a v p b q n \<longleftrightarrow>
     jh_objs st' = (jh_objs st)(a \<mapsto> HostJsonb v {OBJ_REFERENCING, OBJ_OWNS_BODY_MEMBERS} (Some (KeptSet q))) \<and>
     jh_mem st' = (jh_mem st)(p \<mapsto> b) \<and> jh_sets st' q = replicate n None \<and> jh_objs st a = None \<and> jh_mem st p = None"

lemma new_array_ok:
  assumes "json_inv st" "sizeof_JsonbValue * k \<le> MaxAllocSize"
  shows "\<exists>a n p q st'. jsonb_value_new_array True (word_of_nat k) st = Inr (JRef a, st') \<and> unat n = k \<and>
    made st st' a (JvArray n p) p (Elems (replicate k None)) q k"
proof -
  have k: "sint (word_of_nat k :: i32) = int k" "unat (word_of_nat k :: i32) = k" "32 * k \<le> MaxAllocSize"
    using assms(2) by (simp_all add: sizeof_JsonbValue_def MaxAllocSize_def sint_of_nat32 unat_word_of_nat32)
  show ?thesis
    using k fresh_obj[OF assms(1)] fresh_mem[OF assms(1)]
    by (intro exI[of _ "jh_next st + 2"] exI[of _ "word_of_nat k :: i32"] exI[of _ "jh_next st + 1"] exI[of _ "jh_next st"])
      (simp add: jsonb_value_new_array_def new_set_def palloc_array_def new_mem_def jsonb_value_obj_new_def new_host_def
        made_def sizeof_JsonbValue_def insert_commute)
qed

lemma new_object_ok:
  assumes "json_inv st" "sizeof_JsonbPair * k \<le> MaxAllocSize"
  shows "\<exists>a n p q st'. jsonb_value_new_object True (word_of_nat k) st = Inr (JRef a, st') \<and> unat n = k \<and>
    made st st' a (JvObject n p) p (Pairs (replicate (2 * k) None)) q (2 * k)"
proof -
  have k: "sint (word_of_nat k :: i32) = int k" "unat (word_of_nat k :: i32) = k" "72 * k \<le> MaxAllocSize"
    using assms(2) by (simp_all add: sizeof_JsonbPair_def MaxAllocSize_def sint_of_nat32 unat_word_of_nat32)
  have "unat (word_of_nat k * 2 :: i32) = 2 * k" using double_index(1)[of "word_of_nat k"] k by simp
  then show ?thesis
    using k fresh_obj[OF assms(1)] fresh_mem[OF assms(1)]
    by (intro exI[of _ "jh_next st + 2"] exI[of _ "word_of_nat k :: i32"] exI[of _ "jh_next st + 1"] exI[of _ "jh_next st"])
      (simp add: jsonb_value_new_object_def new_set_def palloc_array_def new_mem_def jsonb_value_obj_new_def new_host_def
        made_def sizeof_JsonbPair_def insert_commute)
qed

lemma made_extends0: "made st st' a v p b q n \<Longrightarrow> extends st st'"
  by (auto simp: made_def extends_def)

lemma made_extends:
  assumes "made st st' a v p b q n" "jh_objs st'' = jh_objs st'" "jh_mem st'' = (jh_mem st')(p \<mapsto> b')"
  shows "extends st st''" "value_of st'' a = Some v"
  using assms by (auto simp: made_def extends_def value_of_def)

lemma read_json_elems_map: "list_all2 (\<lambda>w j. f w = Inr j) ws js \<Longrightarrow> read_json_elems f (map Some ws) = Inr js"
  by (induction rule: list_all2_induct) (auto simp: read_cell_def)

lemma read_pairs_map:
  "list_all2 (\<lambda>(kw, w) (k, j). read_key st (Some kw) = Inr k \<and> f w = Inr j) ws js \<Longrightarrow>
    read_json_pairs st f (concat (map (\<lambda>(kw, w). [Some kw, Some w]) ws)) = Inr js"
  by (induction rule: list_all2_induct) (auto simp: read_cell_def)

lemma depth_le: "v \<in> set vs \<Longrightarrow> depth v \<le> foldr max (map depth vs) 0"
  by (induction vs) auto

lemma depth_snd_le: "p \<in> set ps \<Longrightarrow> depth (snd p) \<le> foldr max (map (depth \<circ> snd) ps) 0"
  by (induction ps) auto

lemma length_pairs: "length (concat (map (\<lambda>(k, v). [f k, g v]) vs)) = 2 * length vs"
  by (induction vs) auto

lemma denotesD:
  assumes "denotes st r j"
  obtains v where "stands_for st r v" "read_value (Suc (depth j)) st v = Inr j"
  using assms by (auto simp: denotes_def stands_for_def)

lemma build_array_ok:
  assumes "json_inv st" "list_all2 (denotes st) ms vs" "sizeof_JsonbValue * length vs \<le> MaxAllocSize"
  shows "\<exists>r st1 st2. jsonb_value_new_array True (word_of_nat (length vs)) st = Inr (r, st1) \<and> set_all r 0 ms st1 = Inr st2 \<and>
    json_inv st2 \<and> extends st st2 \<and> denotes st2 r (JArray vs)"
proof -
  obtain a n p q st1 where st1: "jsonb_value_new_array True (word_of_nat (length vs)) st = Inr (JRef a, st1)" "unat n = length vs"
      "made st st1 a (JvArray n p) p (Elems (replicate (length vs) None)) q (length vs)"
    using new_array_ok[OF assms(1,3)] by blast
  have "list_all2 (stands_for st OO (\<lambda>w j. read_value (Suc (depth j)) st w = Inr j)) ms vs"
    using assms(2) by (rule list_all2_mono) (auto elim!: denotesD simp del: read_value.simps)
  then obtain ws where ws: "list_all2 (stands_for st) ms ws" "list_all2 (\<lambda>w j. read_value (Suc (depth j)) st w = Inr j) ws vs"
    by (auto simp: list.rel_compp)
  note len = list_all2_lengthD[OF ws(1)] list_all2_lengthD[OF ws(2)]
  have ext1: "extends st st1" using made_extends0[OF st1(3)] .
  have "list_all2 (stands_for st1) ms ws"
    using ws(1) by (rule list_all2_mono) (auto simp: stands_for_def extendsD[OF ext1])
  then have "\<exists>st2. set_all (JRef a) 0 ms st1 = Inr st2 \<and> jh_objs st2 = jh_objs st1 \<and>
      jh_mem st2 = (jh_mem st1)(p \<mapsto> Elems (take 0 (replicate (length vs) None) @ map Some ws))"
    using st1(3) len assms(3) by (intro set_all_ok) (auto simp: made_def sizeof_JsonbValue_def MaxAllocSize_def)
  then obtain st2 where st2: "set_all (JRef a) 0 ms st1 = Inr st2" "jh_objs st2 = jh_objs st1"
      "jh_mem st2 = (jh_mem st1)(p \<mapsto> Elems (map Some ws))" by auto
  note ext = made_extends[OF st1(3) st2(2,3)]
  let ?d = "foldr max (map depth vs) 0"
  have "list_all2 (\<lambda>w j. read_value (Suc ?d) st2 w = Inr j) ws vs"
    using ws(2) read_value_mono[OF ext(1)] depth_le by (auto simp: list_all2_conv_all_nth simp del: read_value.simps)
  then have "read_json_elems (read_value (Suc ?d) st2) (map Some ws) = Inr vs" by (rule read_json_elems_map)
  then have "read_value (Suc (depth (JArray vs))) st2 (JvArray n p) = Inr (JArray vs)"
    using st1(2) st2(3) len by (simp del: read_value.simps(2) add: read_value.simps(2)[of "Suc ?d"])
  then have "denotes st2 (JRef a) (JArray vs)" using ext(2) unfolding denotes_def by blast
  moreover have "json_inv st2" using set_all_inv[OF st2(1) new_array_inv[OF assms(1) st1(1)]] .
  ultimately show ?thesis using st1(1) st2(1) ext(1) by blast
qed

lemma build_object_ok:
  assumes "json_inv st" "list_all2 (\<lambda>(k, m) (s, j). names_key st k s \<and> denotes st m j) ms ps"
    and "sizeof_JsonbPair * length ps \<le> MaxAllocSize"
  shows "\<exists>r st1 st2. jsonb_value_new_object True (word_of_nat (length ps)) st = Inr (r, st1) \<and> set_pairs r 0 ms st1 = Inr st2 \<and>
    json_inv st2 \<and> extends st st2 \<and> denotes st2 r (JObject ps)"
proof -
  obtain a n p q st1 where st1: "jsonb_value_new_object True (word_of_nat (length ps)) st = Inr (JRef a, st1)" "unat n = length ps"
      "made st st1 a (JvObject n p) p (Pairs (replicate (2 * length ps) None)) q (2 * length ps)"
    using new_object_ok[OF assms(1,3)] by blast
  let ?R = "\<lambda>st (k, m) (kv, v). stands_for st k kv \<and> jv_type kv = jbvString \<and> stands_for st m v"
  let ?S = "\<lambda>st (kw, w) (s, j). read_key st (Some kw) = Inr s \<and> read_value (Suc (depth j)) st w = Inr j"
  have "list_all2 (?R st OO ?S st) ms ps"
  proof (rule list_all2_mono[OF assms(2)], clarify)
    fix k m s j assume a: "names_key st k s" "denotes st m j"
    obtain kv where "stands_for st k kv" "jv_type kv = jbvString" "read_key st (Some kv) = Inr s"
      using a(1) by (auto simp: names_key_def stands_for_def read_key_def)
    moreover obtain v where "stands_for st m v" "read_value (Suc (depth j)) st v = Inr j" by (rule denotesD[OF a(2)])
    ultimately show "(?R st OO ?S st) (k, m) (s, j)" by (auto intro!: relcomppI[of _ _ "(kv, v)"] simp del: read_value.simps)
  qed
  then obtain ws where ws: "list_all2 (?R st) ms ws" "list_all2 (?S st) ws ps" unfolding list.rel_compp by blast
  note len = list_all2_lengthD[OF ws(1)] list_all2_lengthD[OF ws(2)]
  have ext1: "extends st st1" using made_extends0[OF st1(3)] .
  have "list_all2 (?R st1) ms ws"
    using ws(1) by (rule list_all2_mono) (auto simp: stands_for_def extendsD[OF ext1])
  then have "\<exists>st2. set_pairs (JRef a) 0 ms st1 = Inr st2 \<and> jh_objs st2 = jh_objs st1 \<and>
      jh_mem st2 = (jh_mem st1)(p \<mapsto> Pairs (take (2 * 0) (replicate (2 * length ps) None) @ concat (map (\<lambda>(kv, v). [Some kv, Some v]) ws)))"
    using st1(3) len assms(3) by (intro set_pairs_ok) (auto simp: made_def sizeof_JsonbPair_def MaxAllocSize_def)
  then obtain st2 where st2: "set_pairs (JRef a) 0 ms st1 = Inr st2" "jh_objs st2 = jh_objs st1"
      "jh_mem st2 = (jh_mem st1)(p \<mapsto> Pairs (concat (map (\<lambda>(kv, v). [Some kv, Some v]) ws)))" by auto
  note ext = made_extends[OF st1(3) st2(2,3)]
  let ?d = "foldr max (map (depth \<circ> snd) ps) 0"
  have mono: "read_value (Suc ?d) st2 w = Inr (snd (ps ! i))"
    if "read_value (Suc (depth (snd (ps ! i)))) st w = Inr (snd (ps ! i))" "i < length ps" for w i
    using read_value_mono[OF ext(1) that(1)] depth_snd_le[OF nth_mem[OF that(2)]] by (simp del: read_value.simps)
  have "list_all2 (\<lambda>(kw, w) (s, j). read_key st2 (Some kw) = Inr s \<and> read_value (Suc ?d) st2 w = Inr j) ws ps"
    using ws(2) mono read_key_extends[OF ext(1)] by (simp add: list_all2_conv_all_nth split_beta del: read_value.simps)
  then have "read_json_pairs st2 (read_value (Suc ?d) st2) (concat (map (\<lambda>(kv, v). [Some kv, Some v]) ws)) = Inr ps"
    by (rule read_pairs_map)
  then have "read_value (Suc (depth (JObject ps))) st2 (JvObject n p) = Inr (JObject ps)"
    using st1(2) st2(3) len length_pairs[of Some Some ws]
    by (simp del: read_value.simps(2) add: read_value.simps(2)[of "Suc ?d"])
  then have "denotes st2 (JRef a) (JObject ps)" using ext(2) unfolding denotes_def by blast
  moreover have "json_inv st2" using set_pairs_inv[OF st2(1) new_object_inv[OF assms(1) st1(1)]] .
  ultimately show ?thesis using st1(1) st2(1) ext(1) by blast
qed

lemma build_ok:
  "json_inv st \<Longrightarrow> buildable num f j \<Longrightarrow>
    \<exists>r st'. build num f j st = Inr (r, st') \<and> json_inv st' \<and> extends st st' \<and> denotes st' r j"
  "json_inv st \<Longrightarrow> \<forall>v \<in> set vs. buildable num f v \<Longrightarrow>
    \<exists>rs st'. build_all num f vs st = Inr (rs, st') \<and> json_inv st' \<and> extends st st' \<and> list_all2 (denotes st') rs vs"
  "json_inv st \<Longrightarrow> \<forall>p \<in> set ps. buildable num f (snd p) \<Longrightarrow>
    \<exists>rs st'. build_pairs num f ps st = Inr (rs, st') \<and> json_inv st' \<and> extends st st' \<and>
      list_all2 (\<lambda>(k, m) (s, j). names_key st' k s \<and> denotes st' m j) rs ps"
proof (induction num f j st and num f vs st and num f ps st rule: build_build_all_build_pairs.induct)
  case (5 num f vs st)
  then obtain rs st1 where 1: "build_all num f vs st = Inr (rs, st1)" "json_inv st1" "extends st st1" "list_all2 (denotes st1) rs vs"
    by auto
  from build_array_ok[OF 1(2,4)] "5.prems"(2) show ?case using 1(1,3) by (fastforce intro: extends_trans)
next
  case (6 num f ps st)
  then obtain rs st1 where 1: "build_pairs num f ps st = Inr (rs, st1)" "json_inv st1" "extends st st1"
      "list_all2 (\<lambda>(k, m) (s, j). names_key st1 k s \<and> denotes st1 m j) rs ps"
    by auto
  from build_object_ok[OF 1(2,4)] "6.prems"(2) show ?case using 1(1,3) by (fastforce intro: extends_trans)
next
  case (8 num f v vs st)
  then obtain r st1 where 1: "build num f v st = Inr (r, st1)" "json_inv st1" "extends st st1" "denotes st1 r v" by auto
  then obtain rs st2 where 2: "build_all num f vs st1 = Inr (rs, st2)" "json_inv st2" "extends st1 st2" "list_all2 (denotes st2) rs vs"
    using 8 by fastforce
  then show ?case using 1 denotes_extends[OF 1(4) 2(3)] extends_trans[OF 1(3) 2(3)] by auto
next
  case (10 num f k v ps st)
  obtain rk st1 where 1: "build_string k st = Inr (rk, st1)" "json_inv st1" "extends st st1" "names_key st1 rk k"
    using build_string_ok[OF "10.prems"(1), of k] by blast
  then obtain r st2 where 2: "build num f v st1 = Inr (r, st2)" "json_inv st2" "extends st1 st2" "denotes st2 r v"
    using 10 by fastforce
  then obtain rs st3 where 3: "build_pairs num f ps st2 = Inr (rs, st3)" "json_inv st3" "extends st2 st3"
      "list_all2 (\<lambda>(k, m) (s, j). names_key st3 k s \<and> denotes st3 m j) rs ps"
    using 10 1 by fastforce
  then show ?case
    using 1(1) 2(1) denotes_extends[OF 2(4) 3(3)] names_key_extends[OF 1(4) extends_trans[OF 2(3) 3(3)]]
      extends_trans[OF 1(3) extends_trans[OF 2(3) 3(3)]] by auto
qed (use build_scalar_ok in \<open>fastforce\<close>)+

section \<open>Properties\<close>

lemma array_set_in_range:
  assumes "json_inv st" "jh_objs st a = Some (HostJsonb (JvArray n p) fl k)" "value_of st m = Some v" "0 \<le> sint i" "sint i < sint n"
  shows "if k = None then jsonb_value_array_set (JRef a) i (JRef m) st = Inl (PgError ''jsonb_value_array_set: array is not referencing'')
    else \<exists>st'. jsonb_value_array_set (JRef a) i (JRef m) st = Inr st'"
proof -
  have "0 \<le> sint n" using assms(4,5) by simp
  then have i: "unat i < unat n" using sint_nonneg32(1)[OF assms(4)] sint_nonneg32(1)[of n] assms(5) by linarith
  have ok: "OBJ_REFERENCING \<in> fl \<longleftrightarrow> k \<noteq> None" "value_ok st (JvArray n p) k" using json_invD(2)[OF assms(1,2)] by auto
  then obtain es where es: "jh_mem st p = Some (Elems es)" "length es = unat n" "cells_ok st es k" by auto
  obtain m' fl' k' where m: "get_jsonb st (JRef m) = Inr (m', v, fl', k')"
    using get_stands_for[of st "JRef m" v] assms(3) by (auto simp: stands_for_def)
  show ?thesis
  proof (cases k)
    case (Some x)
    then obtain r where "k = Some (KeptSet r)" "length (jh_sets st r) = length es"
      using es(3) by (cases x) (auto dest: list_all2_lengthD)
    moreover have "\<not> length es \<le> unat i" "\<not> int (length es) \<le> sint i"
      using i es(2) sint_nonneg32(1)[OF assms(4)] by linarith+
    ultimately show ?thesis
      using ok(1) es(1) m assms(4)
      by (simp add: jsonb_value_array_set_def get_jsonb_JRef[OF assms(2)] set_elem_def put_elem_def)
  qed (use ok m in \<open>simp add: jsonb_value_array_set_def get_jsonb_JRef[OF assms(2)]\<close>)
qed

lemma object_set_in_range:
  assumes "json_inv st" "jh_objs st a = Some (HostJsonb (JvObject n p) fl k)" "value_of st m = Some v"
    and "value_of st mk = Some kv" "jv_type kv = jbvString" "0 \<le> sint i" "sint i < sint n"
  shows "if k = None then jsonb_value_object_set (JRef a) i (JRef mk) (JRef m) st = Inl (PgError ''jsonb_value_object_set: object is not referencing'')
    else \<exists>st'. jsonb_value_object_set (JRef a) i (JRef mk) (JRef m) st = Inr st'"
proof -
  have "0 \<le> sint n" using assms(6,7) by simp
  then have i: "unat i < unat n" using sint_nonneg32(1)[OF assms(6)] sint_nonneg32(1)[of n] assms(7) by linarith
  note d = double_index[OF assms(6)]
  have ok: "OBJ_REFERENCING \<in> fl \<longleftrightarrow> k \<noteq> None" "value_ok st (JvObject n p) k" using json_invD(2)[OF assms(1,2)] by auto
  then obtain ps where ps: "jh_mem st p = Some (Pairs ps)" "length ps = 2 * unat n" "cells_ok st ps k" by auto
  obtain m' fl' k' where m: "get_jsonb st (JRef m) = Inr (m', v, fl', k')"
    using get_stands_for[of st "JRef m" v] assms(3) by (auto simp: stands_for_def)
  obtain mk' kfl kk where mk: "get_jsonb st (JRef mk) = Inr (mk', kv, kfl, kk)"
    using get_stands_for[of st "JRef mk" kv] assms(4) by (auto simp: stands_for_def)
  show ?thesis
  proof (cases k)
    case (Some x)
    then obtain r where "k = Some (KeptSet r)" "length (jh_sets st r) = length ps"
      using ps(3) by (cases x) (auto dest: list_all2_lengthD)
    moreover have "\<not> length ps \<le> 2 * unat i" "\<not> length ps \<le> Suc (2 * unat i)" "\<not> int (length ps) \<le> 2 * sint i + 1"
      "\<not> int (length ps) \<le> 2 * sint i" "nat (sint i) = unat i"
      using i ps(2) sint_nonneg32(1)[OF assms(6)] by linarith+
    ultimately show ?thesis
      using ok(1) ps(1) m mk assms(5,6) d
      by (simp add: jsonb_value_object_set_def get_jsonb_JRef[OF assms(2)] set_elem_def put_pair_def)
  qed (use ok m mk in \<open>simp add: jsonb_value_object_set_def get_jsonb_JRef[OF assms(2)]\<close>)
qed

text \<open>
  C21: values of JSON share memory but never dangle. In every state the application can reach, with
  the garbage collector running at any time, a value is read without touching freed or foreign
  memory: it is read, or a member of it was never set, or it is nested too deep (an array can be put
  into itself). No finalizer frees twice. Setting an element of an array, or a pair of an object
  whose key is a string, at an index in range succeeds; only if there was no room for the set of
  references when the array or object was made, it raises an error that says so.
\<close>
lemma json_values_safe:
  assumes "json_reachable num st"
  shows "(\<forall>n a v. value_of st a = Some v \<longrightarrow> res_sat {never_set, too_deep} (\<lambda>_. True) (read_value n st v)) \<and>
    (\<forall>a. jh_objs st a \<noteq> None \<longrightarrow> (\<exists>st'. json_finalize a st = Inr st')) \<and>
    (\<forall>a n p fl k m v i. jh_objs st a = Some (HostJsonb (JvArray n p) fl k) \<longrightarrow> value_of st m = Some v \<longrightarrow>
      0 \<le> sint i \<longrightarrow> sint i < sint n \<longrightarrow>
      (if k = None
       then jsonb_value_array_set (JRef a) i (JRef m) st = Inl (PgError ''jsonb_value_array_set: array is not referencing'')
       else \<exists>st'. jsonb_value_array_set (JRef a) i (JRef m) st = Inr st')) \<and>
    (\<forall>a n p fl k m v mk kv i. jh_objs st a = Some (HostJsonb (JvObject n p) fl k) \<longrightarrow> value_of st m = Some v \<longrightarrow>
      value_of st mk = Some kv \<longrightarrow> jv_type kv = jbvString \<longrightarrow> 0 \<le> sint i \<longrightarrow> sint i < sint n \<longrightarrow>
      (if k = None
       then jsonb_value_object_set (JRef a) i (JRef mk) (JRef m) st = Inl (PgError ''jsonb_value_object_set: object is not referencing'')
       else \<exists>st'. jsonb_value_object_set (JRef a) i (JRef mk) (JRef m) st = Inr st'))"
proof (intro conjI, goal_cases)
  case 1
  then show ?case using read_value_safe[of st] json_reachable_inv[OF assms] unfolding read_failures_def by blast
next
  case 2
  then show ?case using finalize_eq[of st] json_reachable_inv[OF assms] by blast
next
  case 3
  show ?case by (intro allI impI) (rule array_set_in_range[OF json_reachable_inv[OF assms]])
next
  case 4
  show ?case by (intro allI impI) (rule object_set_in_range[OF json_reachable_inv[OF assms]])
qed

text \<open>An array of one element that holds itself; its object is at address 2.\<close>

definition knot :: json_heap where
  "knot = \<lparr>jh_next = 3,
     jh_objs = [2 \<mapsto> HostJsonb (JvArray 1 1) {OBJ_REFERENCING, OBJ_OWNS_BODY_MEMBERS} (Some (KeptSet 0))],
     jh_mem = [1 \<mapsto> Elems [Some (JvArray 1 1)]], jh_sets = (\<lambda>_. [])(0 := [Some 2])\<rparr>"

lemma knot_reachable: "json_reachable num knot"
proof -
  obtain r st where a: "jsonb_value_new_array True 1 no_values = Inr (r, st)" "r = JRef 2"
      "st = \<lparr>jh_next = 3, jh_objs = [2 \<mapsto> HostJsonb (JvArray 1 1) {OBJ_REFERENCING, OBJ_OWNS_BODY_MEMBERS} (Some (KeptSet 0))],
        jh_mem = [1 \<mapsto> Elems [None]], jh_sets = (\<lambda>_. [])(0 := [None])\<rparr>"
    by (simp add: jsonb_value_new_array_def new_set_def palloc_array_def new_mem_def jsonb_value_obj_new_def new_host_def
        no_values_def sizeof_JsonbValue_def MaxAllocSize_def insert_commute numeral_2_eq_2 numeral_3_eq_3)
  have "jsonb_value_array_set (JRef 2) 0 (JRef 2) st = Inr knot"
    by (simp add: a(3) knot_def jsonb_value_array_set_def get_jsonb_def to_ref_def wasm_externref_obj_get_obj_def
        set_elem_def put_elem_def)
  then show ?thesis using a(1) by (meson json_reachable.intros json_step.Array json_step.ArraySet)
qed

lemma json_values_safe_witness:
  "res_sat {never_set, too_deep} (\<lambda>_. True) (read_value 2 knot (JvArray 1 1)) \<and> read_value 2 knot (JvArray 1 1) = Inl too_deep \<and>
    (\<exists>st'. json_finalize 2 knot = Inr st') \<and> (\<exists>st'. jsonb_value_array_set (JRef 2) 0 (JRef 2) knot = Inr st')"
proof -
  have "value_of knot 2 = Some (JvArray 1 1)" "jh_objs knot 2 \<noteq> None" by (simp_all add: knot_def value_of_def)
  moreover have "read_value 2 knot (JvArray 1 1) = Inl too_deep"
    by (simp add: knot_def numeral_2_eq_2 read_cell_def)
  moreover note safe = json_values_safe[OF knot_reachable[of "\<lambda>_. Inr []"]]
  have "jh_objs knot 2 = Some (HostJsonb (JvArray 1 1) {OBJ_REFERENCING, OBJ_OWNS_BODY_MEMBERS} (Some (KeptSet 0)))"
    by (simp add: knot_def)
  with safe[THEN conjunct2, THEN conjunct2, THEN conjunct1, rule_format, OF _ calculation(1), of 2 1 1 _ "Some (KeptSet 0)" 0]
  have "\<exists>st'. jsonb_value_array_set (JRef 2) 0 (JRef 2) knot = Inr st'" by auto
  ultimately show ?thesis using safe[THEN conjunct1] safe[THEN conjunct2, THEN conjunct1] by blast
qed

text \<open>
  C20: a value the application builds member by member arrives as that value. Whatever was built
  before, building a value of any shape succeeds when it fits into memory, what
  \<open>JsonbValueToJsonb\<close> finds is that value, and all earlier values stay as they were.
\<close>
lemma json_value_built:
  assumes "json_reachable f st" "buildable num f j" "depth j < max_depth"
  shows "\<exists>r st'. build num f j st = Inr (r, st') \<and> extends st st' \<and>
    jsonb_value_to_jsonb max_depth enc r st' =
      res_bind (enc j) (\<lambda>jb. Inr (rst_externref_of_owned_datum (DPointer JSONBOID jb) JSONBOID))"
proof -
  obtain r st' where b: "build num f j st = Inr (r, st')" "extends st st'" "denotes st' r j"
    using build_ok(1)[OF json_reachable_inv[OF assms(1)] assms(2)] by blast
  from denotesD[OF b(3)] obtain v where v: "stands_for st' r v" "read_value (Suc (depth j)) st' v = Inr j" by blast
  have "read_value max_depth st' v = Inr j"
    by (rule read_value_mono[OF extends_refl v(2)]) (use assms(3) in simp)
  then show ?thesis
    using b get_stands_for[OF v(1)] by (auto simp: jsonb_value_to_jsonb_def)
qed

lemma json_value_built_witness:
  "\<exists>r st'. build (\<lambda>_. 0) (\<lambda>_. Inr [0x31]) (JObject [([0x61], JArray [JNumber [0x31], JNull])]) no_values = Inr (r, st') \<and>
    jsonb_value_to_jsonb 3 (\<lambda>_. Inr [1]) r st' = Inr (rst_externref_of_owned_datum (DPointer JSONBOID [1]) JSONBOID)"
  using json_value_built[OF json_reachable.Start, of "\<lambda>_. 0" "\<lambda>_. Inr [0x31]" "JObject [([0x61], JArray [JNumber [0x31], JNull])]" 3 "\<lambda>_. Inr [1]"]
  by (auto simp: sizeof_JsonbValue_def sizeof_JsonbPair_def MaxAllocSize_def)

end
