(* ===== verification/Adt.thy ===== *)
theory Adt
  imports TextOps
begin

text \<open>
  Values of single Postgres types (\<open>adt/bytea.c\<close>, \<open>adt/primitives.c\<close>, \<open>adt/date.c\<close>,
  \<open>adt/timestamp.c\<close>, \<open>adt/uuid.c\<close>, \<open>adt/json.c\<close>, \<open>adt/clock.c\<close>). The functions of Postgres they
  call are parameters, named as in the source.
\<close>

section \<open>C strings and texts\<close>

definition until_0 :: "byte list \<Rightarrow> byte list" where
  "until_0 bs = takeWhile (\<lambda>b. b \<noteq> 0) bs"

text \<open>What a C function reads of the copy \<open>TextDatumGetCString\<close> makes.\<close>

definition wasm_text_copy_cstring :: "wasm_ref \<Rightarrow> byte list res" where
  "wasm_text_copy_cstring r = res_bind (var_bytes r TEXTOID) (\<lambda>bs. Inr (until_0 bs))"

text \<open>The last three steps of every function that gives a text: \<open>out\<close> is what Postgres gave.\<close>

definition text_of_cstring :: "byte list res \<Rightarrow> wasm_ref res" where
  "text_of_cstring out = res_bind out (\<lambda>pgstr. cstring_into_varatt_obj (until_0 pgstr) TEXTOID)"

section \<open>Bytes\<close>

definition ensure_ascii :: "byte list \<Rightarrow> unit res" where
  "ensure_ascii bs = (if \<exists>b \<in> set bs. bit b 7 then Inl (PgError ''bytes_decode: input is not ASCII'') else Inr ())"

text \<open>
  \<open>cv_to_server bytes enc\<close> is \<open>pg_any_to_server\<close> on at least one byte: \<open>None\<close> when it gives its
  argument back, \<open>Some\<close> a new C string; \<open>cv_from_server\<close> is \<open>pg_server_to_any\<close>.
\<close>

record conversions =
  cv_is_ascii :: "byte list \<Rightarrow> bool" \<comment> \<open>\<open>pg_strcasecmp(encoding, "ascii") == 0\<close>\<close>
  cv_encoding :: "byte list \<Rightarrow> int" \<comment> \<open>\<open>pg_char_to_encoding\<close>\<close>
  cv_to_server :: "byte list \<Rightarrow> int \<Rightarrow> byte list option res"
  cv_from_server :: "byte list \<Rightarrow> int \<Rightarrow> byte list option res"

definition PG_UTF8 :: int where "PG_UTF8 = 6"

definition take_encoding :: "conversions \<Rightarrow> string \<Rightarrow> wasm_ref \<Rightarrow> (int \<times> bool) res" where
  "take_encoding C err encoding_ref =
     res_bind (wasm_text_copy_cstring encoding_ref) (\<lambda>encoding.
       let is_ascii = cv_is_ascii C encoding;
           enc = (if is_ascii then PG_UTF8 else cv_encoding C encoding)
       in if enc < 0 then Inl (PgError err) else Inr (enc, is_ascii))"

text \<open>
  The sum of \<open>start\<close> and \<open>len\<close> wraps around and is compared without a sign. A conversion of no
  bytes, or of a negative number of bytes, gives its argument back; the number is then a
  \<open>size_t\<close>: \<open>ensure_ascii\<close> reads on until it finds a byte that is not ASCII.
\<close>

definition bytes_decode :: "conversions \<Rightarrow> wasm_ref \<Rightarrow> i32 \<Rightarrow> i32 \<Rightarrow> wasm_ref \<Rightarrow> wasm_ref res" where
  "bytes_decode C r start len encoding_ref =
     res_bind (take_encoding C ''bytes_decode: invalid encoding name'' encoding_ref) (\<lambda>(enc, is_ascii).
     res_bind (var_bytes r BYTEAOID) (\<lambda>datum.
       if sint start < 0 \<or> word_of_nat (length datum) < start + len then
         Inl (PgError ''bytes_decode: index out of bound'')
       else if sint len < 0 then
         res_bind (if is_ascii then ensure_ascii (drop (unat start) datum) else Inr ()) (\<lambda>_.
           if is_ascii then Inl (Undefined ''ensure_ascii'') else Inl (PgError ''varlena_new: input too long''))
       else if length datum < unat start + unat len then Inl (Undefined ''VARDATA_ANY(bytes_datum) + start'')
       else
         let bytes = take (unat len) (drop (unat start) datum) in
         res_bind (if len = 0 then Inr None else cv_to_server C bytes enc) (\<lambda>converted.
           let str = (case converted of None \<Rightarrow> bytes | Some s \<Rightarrow> until_0 s) in
           res_bind (if is_ascii then ensure_ascii str else Inr ()) (\<lambda>_.
             cstring_into_varatt_obj str TEXTOID))))"

definition rst_text_encode :: "conversions \<Rightarrow> wasm_ref \<Rightarrow> wasm_ref \<Rightarrow> wasm_ref res" where
  "rst_text_encode C r encoding_ref =
     res_bind (take_encoding C ''text_encode: invalid encoding name'' encoding_ref) (\<lambda>(enc, is_ascii).
     res_bind (var_bytes r TEXTOID) (\<lambda>bytes.
     res_bind (if bytes = [] then Inr None else cv_from_server C bytes enc) (\<lambda>converted.
       let str = (case converted of None \<Rightarrow> bytes | Some s \<Rightarrow> until_0 s) in
       res_bind (if is_ascii then ensure_ascii str else Inr ()) (\<lambda>_.
         cstring_into_varatt_obj str BYTEAOID))))"

definition rst_bytea_out :: "(byte list \<Rightarrow> byte list res) \<Rightarrow> wasm_ref \<Rightarrow> wasm_ref res" where
  "rst_bytea_out byteaout r = res_bind (var_bytes r BYTEAOID) (\<lambda>b. text_of_cstring (byteaout b))"

text \<open>A negative count passes the first test and is the size of the object and of \<open>memset\<close>.\<close>

definition rst_bytea_repeat :: "i32 \<Rightarrow> i32 \<Rightarrow> wasm_ref res" where
  "rst_bytea_repeat byte count =
     (if sint count < 0 then Inl (Undefined ''memset'')
      else if VARATT_MAX - VARHDRSZ < unat count then Inl (PgError ''bytea_repeat: count too large'')
      else Inr (rst_externref_of_obj
             (rst_obj_new OBJ_DATUM None {} BYTEAOID 0 (BodyDatum (DPointer BYTEAOID (replicate (unat count) (ucast byte)))))))"

definition rst_byteaeq :: "(byte list \<Rightarrow> byte list \<Rightarrow> bool res) \<Rightarrow> wasm_ref \<Rightarrow> wasm_ref \<Rightarrow> i32 res" where
  "rst_byteaeq byteaeq x y =
     res_bind (var_bytes x BYTEAOID) (\<lambda>b1. res_bind (var_bytes y BYTEAOID) (\<lambda>b2.
     res_bind (byteaeq b1 b2) (\<lambda>b. Inr (if b then 1 else 0))))"

definition rst_byteaoctetlen :: "(byte list \<Rightarrow> i32 res) \<Rightarrow> wasm_ref \<Rightarrow> i32 res" where
  "rst_byteaoctetlen byteaoctetlen r = res_bind (var_bytes r BYTEAOID) byteaoctetlen"

definition rst_bytea_substr :: "(byte list \<Rightarrow> i32 \<Rightarrow> i32 \<Rightarrow> byte list res) \<Rightarrow> wasm_ref \<Rightarrow> i32 \<Rightarrow> i32 \<Rightarrow> wasm_ref res" where
  "rst_bytea_substr bytea_substr r start len =
     res_bind (var_bytes r BYTEAOID) (\<lambda>b.
     res_bind (bytea_substr b start len) (\<lambda>rv. Inr (rst_externref_of_owned_datum (DPointer BYTEAOID rv) BYTEAOID)))"

text \<open>A global of type bytes: the C string, so up to its first NUL.\<close>

definition global_bytes_resolver :: "byte list \<Rightarrow> wasm_ref res" where
  "global_bytes_resolver utf8str =
     (let str = until_0 utf8str in
      if VARATT_MAX - VARHDRSZ < length str then Inl (PgError ''global bytes too long'')
      else Inr (rst_externref_of_obj (rst_obj_new OBJ_DATUM None {} BYTEAOID 0 (BodyDatum (DPointer BYTEAOID str)))))"

section \<open>Numbers and Booleans\<close>

text \<open>The functions of Postgres on the text form of its types; floating point numbers as bits.\<close>

record pg_types =
  ty_int4in :: "byte list \<Rightarrow> i32 res"
  ty_int4out :: "i32 \<Rightarrow> byte list res"
  ty_int8in :: "byte list \<Rightarrow> i64 res"
  ty_int8out :: "i64 \<Rightarrow> byte list res"
  ty_float4in :: "byte list \<Rightarrow> 32 word res"
  ty_float4out :: "32 word \<Rightarrow> byte list res"
  ty_float8in :: "byte list \<Rightarrow> 64 word res"
  ty_float8out :: "64 word \<Rightarrow> byte list res"
  ty_boolout :: "bool \<Rightarrow> byte list res"
  ty_parse_bool :: "byte list \<Rightarrow> bool option" \<comment> \<open>\<open>parse_bool_with_len\<close>\<close>
  ty_date_in :: "byte list \<Rightarrow> i32 res"
  ty_date_out :: "i32 \<Rightarrow> byte list res"
  ty_time_in :: "byte list \<Rightarrow> i64 res"
  ty_time_out :: "i64 \<Rightarrow> byte list res"
  ty_timestamp_in :: "bool \<Rightarrow> byte list \<Rightarrow> i64 res" \<comment> \<open>with time zone\<close>
  ty_timestamp_out :: "bool \<Rightarrow> i64 \<Rightarrow> byte list res"
  ty_interval_in :: "byte list \<Rightarrow> byte list res"
  ty_interval_out :: "byte list \<Rightarrow> byte list res"
  ty_uuid_in :: "byte list \<Rightarrow> byte list res"
  ty_uuid_out :: "byte list \<Rightarrow> byte list res"
  ty_uuid_cmp :: "byte list \<Rightarrow> byte list \<Rightarrow> i32 res"

definition rsl_int4in :: "pg_types \<Rightarrow> wasm_ref \<Rightarrow> i32 res" where
  "rsl_int4in P r = res_bind (wasm_text_copy_cstring r) (ty_int4in P)"

definition rsl_int4out :: "pg_types \<Rightarrow> i32 \<Rightarrow> wasm_ref res" where
  "rsl_int4out P int4 = text_of_cstring (ty_int4out P int4)"

definition rsl_int8in :: "pg_types \<Rightarrow> wasm_ref \<Rightarrow> i64 res" where
  "rsl_int8in P r = res_bind (wasm_text_copy_cstring r) (ty_int8in P)"

definition rsl_int8out :: "pg_types \<Rightarrow> i64 \<Rightarrow> wasm_ref res" where
  "rsl_int8out P int8 = text_of_cstring (ty_int8out P int8)"

definition rst_float4in :: "pg_types \<Rightarrow> wasm_ref \<Rightarrow> 32 word res" where
  "rst_float4in P r = res_bind (wasm_text_copy_cstring r) (ty_float4in P)"

definition rst_float4out :: "pg_types \<Rightarrow> 32 word \<Rightarrow> wasm_ref res" where
  "rst_float4out P float4 = text_of_cstring (ty_float4out P float4)"

definition rst_float8in :: "pg_types \<Rightarrow> wasm_ref \<Rightarrow> 64 word res" where
  "rst_float8in P r = res_bind (wasm_text_copy_cstring r) (ty_float8in P)"

definition rst_float8out :: "pg_types \<Rightarrow> 64 word \<Rightarrow> wasm_ref res" where
  "rst_float8out P float8 = text_of_cstring (ty_float8out P float8)"

definition rst_boolout :: "pg_types \<Rightarrow> i32 \<Rightarrow> wasm_ref res" where
  "rst_boolout P boolean = text_of_cstring (ty_boolout P (boolean \<noteq> 0))"

text \<open>
  \<open>rst_parse_bool\<close> takes the C string for a text, so its first bytes are read as a header: an odd
  first byte is a short header with the size in its upper seven bits (1: a pointer to elsewhere), an
  even one the first of four, with the size in the upper thirty bits; of the lower two, 2 means
  compressed. What follows the C string in memory is unknown.
\<close>

definition cstring_as_text :: "byte list \<Rightarrow> byte list res" where
  "cstring_as_text str =
     (let mem = str @ [0]; b = unat (hd mem) in
      if b = 1 then Inl (Undefined ''VARATT_IS_1B_E'')
      else if odd b then
        if length mem < b div 2 then Inl (Undefined ''VARDATA_ANY(textpp)'') else Inr (take (b div 2 - 1) (tl mem))
      else if b mod 4 = 2 then Inl (Undefined ''compressed'')
      else if length mem < 4 then Inl (Undefined ''VARSIZE_4B(textpp)'')
      else
        let sz = (\<Sum>i<4. unat (mem ! i) * 256 ^ i) div 4 in
        if length mem < sz \<or> sz < 4 then Inl (Undefined ''VARDATA_ANY(textpp)'') else Inr (take (sz - 4) (drop 4 mem)))"

definition rst_parse_bool :: "pg_types \<Rightarrow> wasm_ref \<Rightarrow> i32 res" where
  "rst_parse_bool P r =
     res_bind (wasm_text_copy_cstring r) (\<lambda>str.
     res_bind (cstring_as_text str) (\<lambda>txt.
       case ty_parse_bool P txt of
         None \<Rightarrow> Inl (PgError ''parse_bool: invalid input'')
       | Some b \<Rightarrow> Inr (if b then 1 else 0)))"

section \<open>Dates and times\<close>

definition rst_date_in :: "pg_types \<Rightarrow> wasm_ref \<Rightarrow> i32 res" where
  "rst_date_in P r = res_bind (wasm_text_copy_cstring r) (ty_date_in P)"

definition rst_date_out :: "pg_types \<Rightarrow> i32 \<Rightarrow> wasm_ref res" where
  "rst_date_out P date = text_of_cstring (ty_date_out P date)"

definition rst_time_in :: "pg_types \<Rightarrow> wasm_ref \<Rightarrow> i64 res" where
  "rst_time_in P r = res_bind (wasm_text_copy_cstring r) (ty_time_in P)"

definition rst_time_out :: "pg_types \<Rightarrow> i64 \<Rightarrow> wasm_ref res" where
  "rst_time_out P time = text_of_cstring (ty_time_out P time)"

definition rsl_timestamp_in :: "pg_types \<Rightarrow> wasm_ref \<Rightarrow> i32 \<Rightarrow> i64 res" where
  "rsl_timestamp_in P r tz = res_bind (wasm_text_copy_cstring r) (ty_timestamp_in P (tz \<noteq> 0))"

definition rsl_timestamp_out :: "pg_types \<Rightarrow> i64 \<Rightarrow> i32 \<Rightarrow> wasm_ref res" where
  "rsl_timestamp_out P ts tz = text_of_cstring (ty_timestamp_out P (tz \<noteq> 0) ts)"

definition owned_interval :: "byte list res \<Rightarrow> wasm_ref res" where
  "owned_interval rv = res_bind rv (\<lambda>i. Inr (rst_externref_of_owned_datum (DPointer INTERVALOID i) INTERVALOID))"

definition rsl_timestamp_pl_interval :: "(i64 \<Rightarrow> byte list \<Rightarrow> i64 res) \<Rightarrow> i64 \<Rightarrow> wasm_ref \<Rightarrow> i64 res" where
  "rsl_timestamp_pl_interval timestamp_pl_interval timestamp r =
     res_bind (var_bytes r INTERVALOID) (timestamp_pl_interval timestamp)"

definition rsl_timestamp_mi_interval :: "(i64 \<Rightarrow> byte list \<Rightarrow> i64 res) \<Rightarrow> i64 \<Rightarrow> wasm_ref \<Rightarrow> i64 res" where
  "rsl_timestamp_mi_interval timestamp_mi_interval timestamp r =
     res_bind (var_bytes r INTERVALOID) (timestamp_mi_interval timestamp)"

definition rst_interval_in :: "pg_types \<Rightarrow> wasm_ref \<Rightarrow> wasm_ref res" where
  "rst_interval_in P r = res_bind (wasm_text_copy_cstring r) (\<lambda>s. owned_interval (ty_interval_in P s))"

definition rst_interval_make ::
  "(i32 \<Rightarrow> i32 \<Rightarrow> i32 \<Rightarrow> i32 \<Rightarrow> i32 \<Rightarrow> i32 \<Rightarrow> 64 word \<Rightarrow> byte list res) \<Rightarrow>
    i32 \<Rightarrow> i32 \<Rightarrow> i32 \<Rightarrow> i32 \<Rightarrow> i32 \<Rightarrow> i32 \<Rightarrow> 64 word \<Rightarrow> wasm_ref res" where
  "rst_interval_make make_interval years months weeks days hours minutes seconds =
     owned_interval (make_interval years months weeks days hours minutes seconds)"

definition rst_interval_out :: "pg_types \<Rightarrow> wasm_ref \<Rightarrow> wasm_ref res" where
  "rst_interval_out P r = res_bind (var_bytes r INTERVALOID) (\<lambda>i. text_of_cstring (ty_interval_out P i))"

definition rst_interval_pl :: "(byte list \<Rightarrow> byte list \<Rightarrow> byte list res) \<Rightarrow> wasm_ref \<Rightarrow> wasm_ref \<Rightarrow> wasm_ref res" where
  "rst_interval_pl interval_pl x y =
     res_bind (var_bytes x INTERVALOID) (\<lambda>i1. res_bind (var_bytes y INTERVALOID) (\<lambda>i2. owned_interval (interval_pl i1 i2)))"

definition rst_interval_mi :: "(byte list \<Rightarrow> byte list \<Rightarrow> byte list res) \<Rightarrow> wasm_ref \<Rightarrow> wasm_ref \<Rightarrow> wasm_ref res" where
  "rst_interval_mi interval_mi x y =
     res_bind (var_bytes x INTERVALOID) (\<lambda>i1. res_bind (var_bytes y INTERVALOID) (\<lambda>i2. owned_interval (interval_mi i1 i2)))"

definition rsl_interval_mul :: "(byte list \<Rightarrow> 64 word \<Rightarrow> byte list res) \<Rightarrow> wasm_ref \<Rightarrow> 64 word \<Rightarrow> wasm_ref res" where
  "rsl_interval_mul interval_mul r factor = res_bind (var_bytes r INTERVALOID) (\<lambda>i. owned_interval (interval_mul i factor))"

definition rsl_interval_div :: "(byte list \<Rightarrow> 64 word \<Rightarrow> byte list res) \<Rightarrow> wasm_ref \<Rightarrow> 64 word \<Rightarrow> wasm_ref res" where
  "rsl_interval_div interval_div r divisor = res_bind (var_bytes r INTERVALOID) (\<lambda>i. owned_interval (interval_div i divisor))"

section \<open>UUIDs and JSON texts\<close>

definition rsl_uuid_in :: "pg_types \<Rightarrow> wasm_ref \<Rightarrow> wasm_ref res" where
  "rsl_uuid_in P r =
     res_bind (wasm_text_copy_cstring r) (\<lambda>s. res_bind (ty_uuid_in P s) (\<lambda>u.
       Inr (rst_externref_of_owned_datum (DPointer UUIDOID u) UUIDOID)))"

definition rsl_uuid_out :: "pg_types \<Rightarrow> wasm_ref \<Rightarrow> wasm_ref res" where
  "rsl_uuid_out P r = res_bind (var_bytes r UUIDOID) (\<lambda>u. text_of_cstring (ty_uuid_out P u))"

definition rsl_uuid_cmp :: "pg_types \<Rightarrow> wasm_ref \<Rightarrow> wasm_ref \<Rightarrow> i32 res" where
  "rsl_uuid_cmp P x y =
     res_bind (var_bytes x UUIDOID) (\<lambda>u1. res_bind (var_bytes y UUIDOID) (\<lambda>u2. ty_uuid_cmp P u1 u2))"

text \<open>A new object of another type for the same datum, which keeps the object it came from.\<close>

definition retyped :: "wasm_ref \<Rightarrow> pg_type \<Rightarrow> pg_type \<Rightarrow> wasm_ref res" where
  "retyped r from_oid to_oid =
     res_bind (wasm_externref_obj_get_datum r from_oid) (\<lambda>d.
       case r of
         Externref (Anyref ob) \<Rightarrow> Inr (rst_externref_of_obj (rst_obj_new OBJ_DATUM (Some ob) {} to_oid 0 (BodyDatum d)))
       | _ \<Rightarrow> Inl (Undefined ''wasm_externref_obj_to_internal_obj''))"

definition rsl_json_in :: "wasm_ref \<Rightarrow> wasm_ref res" where "rsl_json_in r = retyped r TEXTOID JSONOID"

definition rsl_json_out :: "wasm_ref \<Rightarrow> wasm_ref res" where "rsl_json_out r = retyped r JSONOID TEXTOID"

section \<open>Clocks\<close>

text \<open>The seconds and nanoseconds of the real-time clock; the time of the monotonic clock in nanoseconds.\<close>

definition realtime_micros_since_unix_epoch :: "64 word \<Rightarrow> 64 word \<Rightarrow> 64 word" where
  "realtime_micros_since_unix_epoch tv_sec tv_nsec = tv_sec * 1000000 + word_of_int (sint tv_nsec div 1000)"

definition monotonic_now :: "64 word \<Rightarrow> wasm_ref \<times> 64 word" where
  "monotonic_now now = (rst_externref_of_obj (rst_obj_new OBJ_CLOCK_MONOTONIC None {} (OtherOid 0) 0 BodyInstrTime), now)"

text \<open>\<open>instr_time\<close>: the time in the object \<open>r\<close> refers to.\<close>

definition monotonic_nanos_since :: "64 word \<Rightarrow> wasm_ref \<Rightarrow> 64 word \<Rightarrow> 64 word res" where
  "monotonic_nanos_since now r instr_time =
     res_bind (wasm_externref_obj_get_obj r OBJ_CLOCK_MONOTONIC) (\<lambda>_. Inr (now - instr_time))"

end
