(* ===== verification/AdtProps.thy ===== *)
theory AdtProps
  imports Adt TextProps
begin

text \<open>
  The functions on single types: encoding and decoding against a specification, which ranges
  \<open>bytes_decode\<close> reads safely, and why Booleans cannot be read.
\<close>

section \<open>Ranges\<close>

lemma until_0_id [simp]: "0 \<notin> set bs \<Longrightarrow> until_0 bs = bs"
  by (auto simp: until_0_def takeWhile_eq_all_conv)

lemma var_bytes_owned: "var_bytes (rst_externref_of_owned_datum (DPointer oid bs) oid) oid = Inr bs"
  by (simp add: var_bytes_def rst_externref_of_owned_datum_def wasm_externref_obj_get_datum_def
      wasm_externref_obj_get_obj_def rst_obj_new_def rst_externref_of_obj_def)

text \<open>The test of \<open>bytes_decode\<close> when the length is negative.\<close>

lemma negative_range:
  fixes start len :: i32
  assumes "n < 2 ^ 30" "sint len < 0"
  shows "\<not> (sint start < 0 \<or> word_of_nat n < start + len) \<longleftrightarrow>
    0 \<le> sint start \<and> 0 \<le> sint start + sint len \<and> sint start + sint len \<le> int n"
proof (cases "0 \<le> sint start")
  case True
  have b: "- (2 ^ 31) \<le> sint len" "sint start < 2 ^ 31" using sint_ge[of len] sint_lt[of start] by simp_all
  have sum: "start + len = word_of_int (sint start + sint len)" by simp
  have s: "sint (start + len) = sint start + sint len"
    unfolding sum by (rule sint_of_int32) (use True assms(2) b in linarith)+
  have n: "unat (word_of_nat n :: i32) = n" "sint (word_of_nat n :: i32) = int n"
    using assms(1) by (simp_all add: unat_word_of_nat32 sint_of_nat32)
  show ?thesis
  proof (cases "0 \<le> sint (start + len)")
    case True
    have "unat (start + len) \<le> n \<longleftrightarrow> sint start + sint len \<le> int n"
      using s sint_nonneg32(1)[OF True] by linarith
    then show ?thesis
      using n(1) s True \<open>0 \<le> sint start\<close> by (simp only: word_less_nat_alt not_less de_Morgan_disj not_le) simp
  next
    case False
    then have "2 ^ 31 \<le> unat (start + len)" using sint_small[of "start + len"] by linarith
    then show ?thesis using False s n(1) assms(1) by (simp add: word_less_nat_alt)
  qed
qed simp

text \<open>Not to be undefined is a property of conversions.\<close>

definition conversions_defined :: "conversions \<Rightarrow> bool" where
  "conversions_defined C \<longleftrightarrow> (\<forall>bs enc m. cv_to_server C bs enc \<noteq> Inl (Undefined m))"

definition encoding_of :: "conversions \<Rightarrow> wasm_ref \<Rightarrow> int \<Rightarrow> bool \<Rightarrow> bool" where
  "encoding_of C e enc is_ascii \<longleftrightarrow>
     0 \<le> enc \<and> (\<exists>name. wasm_text_copy_cstring e = Inr name \<and> is_ascii = cv_is_ascii C name \<and>
       enc = (if is_ascii then PG_UTF8 else cv_encoding C name))"

lemma take_encoding_of: "encoding_of C e enc is_ascii \<Longrightarrow> take_encoding C err e = Inr (enc, is_ascii)"
  by (auto simp: encoding_of_def take_encoding_def Let_def)

lemma cstring_defined: "cstring_into_varatt_obj bs oid \<noteq> Inl (Undefined m)"
  by (simp add: cstring_into_varatt_obj_def varatt_new_def Let_def)

lemma ensure_ascii_defined: "ensure_ascii bs \<noteq> Inl (Undefined m)"
  by (simp add: ensure_ascii_def)

section \<open>Properties\<close>

text \<open>
  C32: what \<open>bytes_decode\<close> leaves undefined is exactly known. It reads outside the bytes if and only
  if the encoding is ASCII, the length is negative, the range would otherwise be one of the bytes,
  and all bytes from the start on are ASCII; every other call is defined.
\<close>
lemma decode_undefined_iff:
  assumes "conversions_defined C" "encoding_of C e enc is_ascii" "var_bytes r BYTEAOID = Inr bs" "length bs < 2 ^ 30"
  shows "(\<exists>m. bytes_decode C r start len e = Inl (Undefined m)) \<longleftrightarrow>
    is_ascii \<and> sint len < 0 \<and> 0 \<le> sint start \<and> 0 \<le> sint start + sint len \<and> sint start + sint len \<le> int (length bs) \<and>
    (\<forall>b \<in> set (drop (unat start) bs). \<not> bit b 7)"
proof (cases "sint len < 0")
  case True
  then show ?thesis
    using negative_range[OF assms(4) True, of start] take_encoding_of[OF assms(2)] assms(3)
    by (auto simp: bytes_decode_def ensure_ascii_def)
next
  case False
  let ?bad = "sint start < 0 \<or> word_of_nat (length bs) < start + len"
  have inside: "\<not> length bs < unat start + unat len" if "\<not> ?bad"
  proof -
    have n: "0 \<le> sint start" "0 \<le> sint len" using that False by auto
    have "unat start + unat len < 2 ^ LENGTH(32)" using sint_nonneg32(2)[OF n(1)] sint_nonneg32(2)[OF n(2)] by simp
    then have "unat (start + len) = unat start + unat len" by (subst (asm) unat_add_lem)
    then show ?thesis using that assms(4) by (simp add: word_less_nat_alt unat_word_of_nat32)
  qed
  have "bytes_decode C r start len e \<noteq> Inl (Undefined m)" for m
    using False inside assms(1,3) take_encoding_of[OF assms(2)] cstring_defined ensure_ascii_defined
    by (auto simp: bytes_decode_def Let_def conversions_defined_def res_bind_eq_Inl split: if_splits)
  then show ?thesis using False by simp
qed

definition demo_conversions :: conversions where
  "demo_conversions = \<lparr>cv_is_ascii = (\<lambda>n. n = [0x61]), cv_encoding = (\<lambda>n. if n = [0x75] then 6 else -1),
     cv_to_server = (\<lambda>bs _. Inr None), cv_from_server = (\<lambda>bs _. Inr None)\<rparr>"

lemma demo_encoding: "encoding_of demo_conversions (owned_text [0x61]) 6 True"
  by (simp add: encoding_of_def demo_conversions_def wasm_text_copy_cstring_def owned_text_def var_bytes_owned PG_UTF8_def)

lemma decode_undefined_iff_witness:
  "\<exists>m. bytes_decode demo_conversions (rst_externref_of_owned_datum (DPointer BYTEAOID [0x41, 0x42]) BYTEAOID) 1 (-1)
    (owned_text [0x61]) = Inl (Undefined m)"
  using decode_undefined_iff[OF _ demo_encoding var_bytes_owned[of BYTEAOID "[0x41, 0x42]"], of 1 "-1"]
  by (simp add: conversions_defined_def demo_conversions_def)

text \<open>
  The text that a range of some bytes is: the errors are, in this order, a range that is not one of
  the bytes, a range that is not a text of the server, and one that is not ASCII when it has to be.
\<close>
definition text_part :: "(byte list \<Rightarrow> bool) \<Rightarrow> failure \<Rightarrow> bool \<Rightarrow> byte list \<Rightarrow> int \<Rightarrow> int \<Rightarrow> byte list res" where
  "text_part valid invalid is_ascii bs start len =
     (if start < 0 \<or> int (length bs) < start + len then Inl (PgError ''bytes_decode: index out of bound'')
      else let part = take (nat len) (drop (nat start) bs) in
        if part \<noteq> [] \<and> \<not> valid part then Inl invalid
        else if is_ascii \<and> (\<exists>b \<in> set part. bit b 7) then Inl (PgError ''bytes_decode: input is not ASCII'')
        else Inr part)"

lemma range_of_bytes:
  fixes start len :: i32
  assumes "0 \<le> sint len" "n < 2 ^ 30"
  shows "sint start < 0 \<or> word_of_nat n < start + len \<longleftrightarrow> sint start < 0 \<or> int n < sint start + sint len"
proof (cases "0 \<le> sint start")
  case True
  have n: "sint start = int (unat start)" "sint len = int (unat len)"
    using sint_nonneg32(1)[OF True] sint_nonneg32(1)[OF assms(1)] by simp_all
  have "unat start + unat len < 2 ^ LENGTH(32)" using sint_nonneg32(2)[OF True] sint_nonneg32(2)[OF assms(1)] by simp
  then have sum: "unat (start + len) = unat start + unat len" by (subst (asm) unat_add_lem)
  have "word_of_nat n < start + len \<longleftrightarrow> n < unat start + unat len"
    using assms(2) by (simp add: word_less_nat_alt sum unat_word_of_nat32)
  also have "\<dots> \<longleftrightarrow> int n < int (unat start) + int (unat len)" by linarith
  finally show ?thesis using n True by simp
qed simp

lemma cstring_bytes:
  "length bs \<le> VARATT_MAX - VARHDRSZ \<Longrightarrow> res_bind (cstring_into_varatt_obj bs oid) (\<lambda>r. var_bytes r oid) = Inr bs"
  using cstring_into_varatt_obj_ok[of bs oid] var_bytes_cstring[of bs oid] by auto

text \<open>
  C31: a text encoded and decoded again is the text. On a server that encodes in UTF-8, with the
  encoding UTF-8 or ASCII, encoding a text gives its bytes unless it has to be ASCII and is not;
  decoding a range of any bytes (of a length that is not negative) gives exactly the bytes of the
  range, or the error for the first of the three things that can be wrong with it; so a text of the
  server that was encoded is decoded to itself.
\<close>
lemma encode_decode:
  assumes "encoding_of C e PG_UTF8 is_ascii" "\<And>bs. cv_from_server C bs PG_UTF8 = Inr None"
    and "\<And>bs. cv_to_server C bs PG_UTF8 = (if valid bs then Inr None else Inl invalid)"
    and "var_bytes t TEXTOID = Inr s" "length s \<le> VARATT_MAX - VARHDRSZ"
    and "var_bytes r BYTEAOID = Inr bs" "length bs \<le> VARATT_MAX - VARHDRSZ" "0 \<le> sint len"
  shows "res_bind (rst_text_encode C t e) (\<lambda>b. var_bytes b BYTEAOID) =
      (if is_ascii \<and> (\<exists>b \<in> set s. bit b 7) then Inl (PgError ''bytes_decode: input is not ASCII'') else Inr s) \<and>
    res_bind (bytes_decode C r start len e) (\<lambda>t'. var_bytes t' TEXTOID) =
      text_part valid invalid is_ascii bs (sint start) (sint len) \<and>
    (valid s \<and> \<not> (is_ascii \<and> (\<exists>b \<in> set s. bit b 7)) \<longrightarrow>
      res_bind (rst_text_encode C t e) (\<lambda>b. res_bind (bytes_decode C b 0 (word_of_nat (length s)) e)
        (\<lambda>t'. var_bytes t' TEXTOID)) = Inr s)"
proof -
  note enc = take_encoding_of[OF assms(1)]
  have encode: "rst_text_encode C t e = (if is_ascii \<and> (\<exists>b \<in> set s. bit b 7)
      then Inl (PgError ''bytes_decode: input is not ASCII'') else cstring_into_varatt_obj s BYTEAOID)"
    using enc assms(2,4) by (auto simp: rst_text_encode_def ensure_ascii_def)
  have decode: "res_bind (bytes_decode C q start len e) (\<lambda>t'. var_bytes t' TEXTOID) =
      text_part valid invalid is_ascii bytes (sint start) (sint len)"
    if q: "var_bytes q BYTEAOID = Inr bytes" "length bytes \<le> VARATT_MAX - VARHDRSZ" "0 \<le> sint len" for q bytes start len
  proof -
    obtain part where p: "part = take (unat len) (drop (unat start) bytes)" by simp
    have n: "length bytes < 2 ^ 30" using q(2) by (simp add: VARATT_MAX_def)
    note range = range_of_bytes[OF q(3) n, of start]
    show ?thesis
    proof (cases "sint start < 0 \<or> word_of_nat (length bytes) < start + len")
      case True
      then show ?thesis using enc q(1) range by (auto simp: bytes_decode_def text_part_def)
    next
      case False
      then have i: "0 \<le> sint start" "sint start + sint len \<le> int (length bytes)" using range by auto
      have nat: "nat (sint start) = unat start" "nat (sint len) = unat len"
        using sint_nonneg32(1)[OF i(1)] sint_nonneg32(1)[OF q(3)] by simp_all
      have inside: "unat start + unat len \<le> length bytes" using i(2) nat i(1) q(3) by linarith
      have zero: "len = 0 \<longleftrightarrow> part = []" using inside unfolding p by (auto simp flip: unat_eq_zero)
      have part: "length part \<le> VARATT_MAX - VARHDRSZ" using q(2) by (simp add: p)
      have "bytes_decode C q start len e =
          (if part \<noteq> [] \<and> \<not> valid part then Inl invalid
           else if is_ascii \<and> (\<exists>b \<in> set part. bit b 7) then Inl (PgError ''bytes_decode: input is not ASCII'')
           else cstring_into_varatt_obj part TEXTOID)"
        using enc q(1,3) False inside zero assms(3)[of part]
        by (simp add: bytes_decode_def ensure_ascii_def Let_def flip: p)
      then show ?thesis
        using cstring_bytes[OF part, of TEXTOID] i nat by (cases "part = []") (auto simp: text_part_def Let_def simp flip: p)
    qed
  qed
  have "length s < 2 ^ 30" using assms(5) by (simp add: VARATT_MAX_def)
  then have n: "sint (word_of_nat (length s) :: i32) = int (length s)" by (simp add: sint_of_nat32)
  have "res_bind (rst_text_encode C t e) (\<lambda>b. res_bind (bytes_decode C b 0 (word_of_nat (length s)) e)
      (\<lambda>t'. var_bytes t' TEXTOID)) = Inr s" if "valid s" "\<not> (is_ascii \<and> (\<exists>b \<in> set s. bit b 7))"
  proof -
    obtain b where b: "cstring_into_varatt_obj s BYTEAOID = Inr b" using cstring_into_varatt_obj_ok[OF assms(5)] by blast
    show ?thesis
      using that b encode decode[OF var_bytes_cstring[OF b] assms(5), of "word_of_nat (length s)" 0] n
      by (auto simp: text_part_def)
  qed
  then show ?thesis using encode decode[OF assms(6-8)] cstring_bytes[OF assms(5)] by auto
qed

text \<open>A server whose texts are ASCII: two bytes encoded and decoded, and one byte of two refused.\<close>

definition ascii_conversions :: conversions where
  "ascii_conversions = \<lparr>cv_is_ascii = (\<lambda>n. n = [0x61]), cv_encoding = (\<lambda>n. if n = [0x75] then 6 else -1),
     cv_to_server = (\<lambda>bs _. if \<exists>b \<in> set bs. bit b 7 then Inl (PgError ''invalid byte sequence'') else Inr None),
     cv_from_server = (\<lambda>bs _. Inr None)\<rparr>"

lemma encode_decode_witness:
  "res_bind (rst_text_encode ascii_conversions (owned_text [0x41, 0x42]) (owned_text [0x61]))
      (\<lambda>b. res_bind (bytes_decode ascii_conversions b 0 2 (owned_text [0x61])) (\<lambda>t'. var_bytes t' TEXTOID)) = Inr [0x41, 0x42] \<and>
    res_bind (bytes_decode ascii_conversions (rst_externref_of_owned_datum (DPointer BYTEAOID [0x41, 0xC3]) BYTEAOID) 1 1
      (owned_text [0x61])) (\<lambda>t'. var_bytes t' TEXTOID) = Inl (PgError ''invalid byte sequence'')"
proof -
  have e: "encoding_of ascii_conversions (owned_text [0x61]) PG_UTF8 True"
    by (simp add: encoding_of_def ascii_conversions_def wasm_text_copy_cstring_def owned_text_def var_bytes_owned PG_UTF8_def)
  have t: "var_bytes (owned_text [0x41, 0x42]) TEXTOID = Inr [0x41, 0x42]" by (simp add: owned_text_def var_bytes_owned)
  let ?valid = "\<lambda>bs. \<not> (\<exists>b \<in> set bs. bit (b :: byte) 7)"
  have laws: "cv_from_server ascii_conversions bs PG_UTF8 = Inr None"
    "cv_to_server ascii_conversions bs PG_UTF8 = (if ?valid bs then Inr None else Inl (PgError ''invalid byte sequence''))" for bs
    by (simp_all add: ascii_conversions_def)
  have bits: "?valid [0x41, 0x42]" "\<not> ?valid [0xC3]" by code_simp+
  have n: "(word_of_nat (length [0x41 :: byte, 0x42]) :: i32) = 2" by simp
  show ?thesis
    using encode_decode[where valid = ?valid and start = 1 and len = 1, OF e laws t _ var_bytes_owned[of BYTEAOID "[0x41, 0xC3]"]]
      bits unfolding n by (simp add: VARATT_MAX_def VARHDRSZ_def text_part_def)
qed

definition demo_types :: pg_types where
  "demo_types = \<lparr>ty_int4in = (\<lambda>_. Inr 7), ty_int4out = (\<lambda>_. Inr [0x37]), ty_int8in = (\<lambda>_. Inr 7), ty_int8out = (\<lambda>_. Inr [0x37]),
     ty_float4in = (\<lambda>_. Inr 0), ty_float4out = (\<lambda>_. Inr [0x30]), ty_float8in = (\<lambda>_. Inr 0), ty_float8out = (\<lambda>_. Inr [0x30]),
     ty_boolout = (\<lambda>b. Inr [if b then 0x74 else 0x66]),
     ty_parse_bool = (\<lambda>s. if s = [0x74] then Some True else if s = [0x66] then Some False else None),
     ty_date_in = (\<lambda>_. Inr 0), ty_date_out = (\<lambda>_. Inr [0x30]), ty_time_in = (\<lambda>_. Inr 0), ty_time_out = (\<lambda>_. Inr [0x30]),
     ty_timestamp_in = (\<lambda>tz _. Inr (if tz then 1 else 0)), ty_timestamp_out = (\<lambda>tz _. Inr [if tz then 0x31 else 0x30]),
     ty_interval_in = Inr, ty_interval_out = Inr, ty_uuid_in = Inr, ty_uuid_out = Inr, ty_uuid_cmp = (\<lambda>_ _. Inr 0)\<rparr>"

text \<open>
  \<open>rst_parse_bool\<close> reads no Boolean. For every text of less than 15 bytes without control
  characters, all ways to write a Boolean among them, the C string is taken for a text whose header
  claims more bytes than there are, and what is read is undefined.
\<close>
lemma parse_bool_undefined:
  assumes "var_bytes r TEXTOID = Inr str" "length str < 15" "\<forall>b \<in> set str. 0x20 \<le> unat b"
  shows "\<exists>m. rst_parse_bool P r = Inl (Undefined m)"
proof -
  have "0 \<notin> set str" using assms(3) by auto
  then have copy: "wasm_text_copy_cstring r = Inr str" using assms(1) by (simp add: wasm_text_copy_cstring_def)
  have "\<exists>m. cstring_as_text str = Inl (Undefined m)"
  proof (cases str)
    case Nil
    then show ?thesis by (simp add: cstring_as_text_def)
  next
    case (Cons c cs)
    have c: "0x20 \<le> unat c" using assms(3) Cons by simp
    show ?thesis
    proof (cases "odd (unat c)")
      case True
      then have "0x21 \<le> unat c" using c by presburger
      then have "length (str @ [0]) < unat c div 2" using assms(2) by simp
      then show ?thesis using True c Cons by (simp add: cstring_as_text_def)
    next
      case even: False
      show ?thesis
      proof (cases "unat c mod 4 = 2 \<or> length (str @ [0]) < 4")
        case True
        then show ?thesis using even c Cons by (auto simp: cstring_as_text_def Let_def)
      next
        case False
        then have "0x20 \<le> unat (str ! 2)" using assms(3) by simp
        moreover have "(\<Sum>i<4. unat ((str @ [0]) ! i) * 256 ^ i) \<ge> unat ((str @ [0]) ! 2) * 256 ^ 2"
          by (rule member_le_sum) auto
        ultimately have "0x20 * 256 ^ 2 \<le> (\<Sum>i<4. unat ((str @ [0]) ! i) * 256 ^ i)"
          using False by (simp add: nth_append)
        then have "length (str @ [0]) < (\<Sum>i<4. unat ((str @ [0]) ! i) * 256 ^ i) div 4" using assms(2) by simp
        then show ?thesis using even False c Cons by (auto simp: cstring_as_text_def Let_def)
      qed
    qed
  qed
  then show ?thesis using copy by (auto simp: rst_parse_bool_def)
qed

lemma parse_bool_undefined_witness:
  "\<exists>m. rst_parse_bool demo_types (owned_text [0x74, 0x72, 0x75, 0x65]) = Inl (Undefined m)"
  by (rule parse_bool_undefined[of _ "[0x74, 0x72, 0x75, 0x65]"]) (simp_all add: owned_text_def var_bytes_owned)

end
