(* ===== verification/MasterLive.thy ===== *)
theory MasterLive
  imports MasterProps "HOL-Library.Sublist"
begin

text \<open>
  Waiting connections are served: how the log of the dispatcher grows with each event, and how many
  greetings of workers it takes until a connection in the queue is handed out.
\<close>

section \<open>What an event adds to the log\<close>

text \<open>Calls that neither accept a connection of a client nor refuse one.\<close>

definition quiet :: "log \<Rightarrow> bool" where
  "quiet l \<longleftrightarrow> (\<forall>c \<in> set l. \<forall>fd. c \<noteq> AcceptFrontend fd \<and> c \<noteq> LogQueueFull fd)"

definition adds :: "master \<Rightarrow> master \<Rightarrow> bool" where
  "adds m m' \<longleftrightarrow> (\<exists>l. quiet l \<and> ms_log m' = l @ ms_log m)"

definition flows :: "master \<Rightarrow> master \<Rightarrow> bool" where
  "flows m m' \<longleftrightarrow> prefix (kept_jobs (ms_log m)) (kept_jobs (ms_log m')) \<and>
     prefix (sent_jobs (ms_log m)) (sent_jobs (ms_log m'))"

lemma quiet_simps [simp]:
  "quiet []" "quiet (l @ l') \<longleftrightarrow> quiet l \<and> quiet l'" "quiet (rev l) \<longleftrightarrow> quiet l"
  "quiet (c # l) \<longleftrightarrow> (\<forall>fd. c \<noteq> AcceptFrontend fd \<and> c \<noteq> LogQueueFull fd) \<and> quiet l"
  by (auto simp: quiet_def)

lemma kept_quiet: "quiet l \<Longrightarrow> kept_jobs (l @ log) = kept_jobs log"
proof (induction l)
  case (Cons c l)
  then show ?case by (cases c) auto
qed simp

lemma sent_append: "sent_jobs (l @ log) = sent_jobs log @ sent_jobs l"
proof (induction l)
  case (Cons c l)
  then show ?case by (cases c) auto
qed simp

lemma adds_refl [simp]: "adds m m"
  by (auto simp: adds_def intro: exI[of _ "[]"])

lemma adds_same_log: "ms_log m' = ms_log m \<Longrightarrow> adds m m'"
  by (auto simp: adds_def intro: exI[of _ "[]"])

lemma adds_trans: "adds m m1 \<Longrightarrow> adds m1 m2 \<Longrightarrow> adds m m2"
  unfolding adds_def by (metis append.assoc quiet_simps(2))

lemma adds_log: "quiet cs \<Longrightarrow> ms_log m = ms_log m0 \<Longrightarrow> adds m0 (add_log cs m)"
  by (auto simp: adds_def add_log_def intro: exI[of _ "rev cs"])

lemma adds_flows: "adds m m' \<Longrightarrow> flows m m'"
  by (auto simp: adds_def flows_def kept_quiet sent_append)

lemma flows_trans: "flows m m1 \<Longrightarrow> flows m1 m2 \<Longrightarrow> flows m m2"
  unfolding flows_def by (meson prefix_order.trans)

lemma close_socket_adds: "close_socket os i m = Inr m' \<Longrightarrow> adds m m'"
  by (auto simp: close_socket_def Let_def res_bind_eq_Inr adds_def intro: exI[of _ "[StreamClose _]"])

lemma connect_adds: "on_backend_connect os i evs m = Inr m' \<Longrightarrow> adds m m'"
  by (auto simp: on_backend_connect_def Let_def split_beta adds_def split: if_splits option.splits
      intro: exI[of _ "[_]"] exI[of _ "[_, _]"])

lemma dispatch_adds: "dispatch_to_idle os sock m = Inr (ok, m') \<Longrightarrow> adds m m'"
proof (induction os sock m rule: dispatch_to_idle.induct)
  case (1 os sock m)
  let ?b = "ring_first (ms_idle m)"
  let ?m = "m\<lparr>ms_idle := ring_pop (ms_idle m)\<rparr>"
  let ?s = "ms_sockets m ! nat ?b"
  note eq = dispatch_to_idle.simps[of os sock m]
  have step: "adds m m1" if "adds ?m m1" for m1 using that by (simp add: adds_def)
  show ?case
  proof (cases "rq_size (ms_idle m) = 0")
    case True
    then show ?thesis using "1.prems" by (simp add: eq)
  next
    case size: False
    then have b: "\<not> (?b < 0 \<or> int (length (ms_sockets m)) \<le> ?b)"
      using "1.prems" by (auto simp: eq Let_def)
    show ?thesis
    proof (cases "sk_type ?s = TYPE_BACKEND")
      case backend: True
      show ?thesis
      proof (cases "os_sendmsg os (ms_log ?m) (sk_fd ?s) sock")
        case True
        then have "m' = modify_wait os (sk_pos ?s) {WL_SOCKET_READABLE, WL_SOCKET_CLOSED}
            (add_log [SendFd (sk_fd ?s) sock, StreamClose sock] ?m)"
          using "1.prems" b backend size by (simp add: eq Let_def)
        then show ?thesis by (simp add: adds_def)
      next
        case False
        with "1.prems" b backend size obtain m2 where
          m2: "close_socket os (nat ?b) (add_log [SendFailed (sk_fd ?s) sock] ?m) = Inr m2"
          "dispatch_to_idle os sock m2 = Inr (ok, m')"
          by (auto simp: eq Let_def split: sum.splits)
        have "adds m2 m'" using "1.IH"(2) b backend size False m2 by simp
        moreover have "adds ?m (add_log [SendFailed (sk_fd ?s) sock] ?m)" by (rule adds_log) simp_all
        ultimately show ?thesis using close_socket_adds[OF m2(1)] adds_trans step by blast
      qed
    next
      case False
      then have "dispatch_to_idle os sock ?m = Inr (ok, m')"
        using "1.prems" b size by (simp add: eq Let_def)
      then show ?thesis using "1.IH"(1) b size False step by simp
    qed
  qed
qed

lemma spawn_adds: "spawn_worker os m = Inr m' \<Longrightarrow> adds m m'"
  by (auto simp: spawn_worker_def Let_def adds_def split: if_splits option.splits intro: exI[of _ "[_]"])

lemma resume_log [simp]: "ms_log (resume_frontend os m) = ms_log m"
  by (simp add: resume_frontend_def)

lemma idle_adds: "on_worker_idle os i m = Inr m' \<Longrightarrow> adds m m'"
  using close_socket_adds[of os i "add_log _ m" m'] adds_log[of "[_]" m m]
  by (auto simp: on_worker_idle_def Let_def intro: adds_same_log adds_trans split: if_splits)
    (auto simp: adds_def intro: exI[of _ "[_]"])

lemma bytes_adds: "on_backend_bytes os i received buf m = Inr m' \<Longrightarrow> adds m m'"
  using idle_adds[of os i "set_socket i _ m" m'] close_socket_adds[of os i m m']
  by (auto simp: on_backend_bytes_def Let_def res_bind_eq_Inr adds_def split: if_splits option.splits)

lemma backend_adds: "on_backend os i evs m = Inr m' \<Longrightarrow> adds m m'"
  by (auto simp: on_backend_def Let_def res_bind_eq_Inr split: if_splits option.splits
      intro: adds_same_log dest!: close_socket_adds bytes_adds)
    (auto simp: adds_def)

lemma latch_adds: "on_latch os m = Inr m' \<Longrightarrow> adds m m'"
  by (auto simp: on_latch_def on_worker_died_def split_beta Let_def intro: adds_same_log split: if_splits)

lemma enqueue_log:
  "ms_log (enqueue_job os sock m) \<in> {ms_log m, StreamClose sock # LogQueueFull sock # ms_log m}"
  by (cases "rq_size (ms_jobs m) < JOB_QLEN") (simp_all add: enqueue_job_def Let_def)

lemma frontend_flows:
  assumes "on_frontend os i evs m = Inr m'"
  shows "flows m m'"
proof (cases "WL_SOCKET_ACCEPT \<in> evs")
  case True
  show ?thesis
  proof (cases "os_accept os (ms_log m) (sk_fd (ms_sockets m ! i))")
    case None
    have "adds m (add_log [Usleep] m)" by (rule adds_log) simp_all
    with None True assms show ?thesis by (auto simp: on_frontend_def intro: adds_flows)
  next
    case (Some sock)
    obtain ok m1 where m1: "dispatch_to_idle os sock (add_log [AcceptFrontend sock] m) = Inr (ok, m1)"
      "if ok then m' = m1 else (\<exists>m2. spawn_worker os m1 = Inr m2 \<and> m' = enqueue_job os sock m2)"
      using assms True Some by (auto simp: on_frontend_def res_bind_eq_Inr split: if_splits)
    obtain m2 where m2: "adds m1 m2" "m' = m2 \<or> m' = enqueue_job os sock m2"
      using m1(2) spawn_adds by (metis adds_refl)
    have "adds (add_log [AcceptFrontend sock] m) m2" using dispatch_adds[OF m1(1)] m2(1) by (rule adds_trans)
    then obtain l where l: "quiet l" "ms_log m2 = l @ AcceptFrontend sock # ms_log m" by (auto simp: adds_def)
    have "ms_log m' = ms_log m2 \<or> ms_log m' = StreamClose sock # LogQueueFull sock # ms_log m2"
      using m2(2) enqueue_log by blast
    then show ?thesis
      using l by (auto simp: flows_def kept_quiet sent_append)
  qed
qed (use assms in \<open>simp add: on_frontend_def adds_flows\<close>)

lemma event_flows:
  assumes "process_events os [(i, evs)] m = Inr (stop, m')"
  shows "flows m m'"
proof (cases "WL_LATCH_SET \<in> evs \<and> ms_shutdown_requested m")
  case True
  with assms show ?thesis by (simp add: adds_flows)
next
  case False
  with assms obtain m1 where m1: "(if WL_LATCH_SET \<in> evs then on_latch os m else Inr m) = Inr m1"
    "on_socket_event os i evs m1 = Inr m'"
    by (auto simp: res_bind_eq_Inr)
  then obtain m2 m3 where
    "(if sk_type (ms_sockets m1 ! i) = TYPE_IPC then on_backend_connect os i evs m1 else Inr m1) = Inr m2"
    "(if sk_type (ms_sockets m2 ! i) = TYPE_FRONTEND then on_frontend os i evs m2 else Inr m2) = Inr m3"
    "(if sk_type (ms_sockets m3 ! i) = TYPE_BACKEND then on_backend os i evs m3 else Inr m3) = Inr m'"
    by (auto simp: on_socket_event_def res_bind_eq_Inr)
  then have "flows m1 m2" "flows m2 m3" "flows m3 m'"
    using connect_adds frontend_flows backend_adds adds_flows adds_refl by (metis sum.inject(2))+
  moreover have "flows m m1" using m1(1) latch_adds adds_flows adds_refl by (metis sum.inject(2))
  ultimately show ?thesis using flows_trans by blast
qed

lemma step_flows: "master_step os m m' \<Longrightarrow> flows m m'"
proof (induction rule: master_step.induct)
  case (event i m evs m')
  then show ?case by (blast intro: event_flows)
qed (simp_all add: master_on_sigterm_def master_on_sigusr1_def flows_def)

section \<open>A worker that greets\<close>

text \<open>The step in which the last bytes of a worker's greeting arrive, from a worker that can be sent
  the descriptor of the connection that is then its turn.\<close>

definition greets :: "os \<Rightarrow> master \<Rightarrow> master \<Rightarrow> bool" where
  "greets os m m' \<longleftrightarrow> (\<exists>i bs c wid. i < ms_total_sockets m \<and> type_at m i = TYPE_BACKEND \<and>
     greeted (ms_sockets m ! i) bs \<and> bs @ c = BACKEND_HELLO @ wid \<and> length wid = 4 \<and> c \<noteq> [] \<and>
     os_recv os (ms_log m) (sk_fd (ms_sockets m ! i)) (12 - length bs) = Some c \<and>
     (0 < rq_size (ms_jobs m) \<longrightarrow> os_sendmsg os (Recv (sk_fd (ms_sockets m ! i)) c # ms_log m)
       (sk_fd (ms_sockets m ! i)) (ring_first (ms_jobs m))) \<and>
     process_events os [(i, {WL_SOCKET_READABLE})] m = Inr (False, m'))"

lemma greets_sends:
  assumes "greets os m m'" "master_inv m" "0 < rq_size (ms_jobs m)"
  shows "length (sent_jobs (ms_log m')) = Suc (length (sent_jobs (ms_log m)))"
proof -
  obtain i bs c wid where g: "i < ms_total_sockets m" "type_at m i = TYPE_BACKEND" "greeted (ms_sockets m ! i) bs"
    "bs @ c = BACKEND_HELLO @ wid" "length wid = 4" "c \<noteq> []"
    "os_recv os (ms_log m) (sk_fd (ms_sockets m ! i)) (12 - length bs) = Some c"
    "os_sendmsg os (Recv (sk_fd (ms_sockets m ! i)) c # ms_log m) (sk_fd (ms_sockets m ! i)) (ring_first (ms_jobs m))"
    "process_events os [(i, {WL_SOCKET_READABLE})] m = Inr (False, m')"
    using assms(1,3) unfolding greets_def by blast
  let ?m = "add_log [Recv (sk_fd (ms_sockets m ! i)) c] m"
  have off: "unat (sk_read_offset (ms_sockets m ! i)) = length bs" "length bs < 12"
    using g(3) by (simp_all add: greeted_def)
  have "base_inv m" using assms(2) by (simp add: master_inv_def)
  then have i: "i < length (ms_sockets m)" using g(1) table_invD(3)[OF base_invD(1)] by simp
  have len: "length (bs @ c) = 12" using g(4,5) by simp
  have pre: "take 8 (bs @ c) = take (length (bs @ c)) BACKEND_HELLO" unfolding len g(4) by simp
  have "greeted (ms_sockets ?m ! i) bs" using g(3) by simp
  from greeting_step[OF this _ pre, of os] len g(6) obtain w where
    w: "on_backend_bytes os i (int (length c)) c ?m =
      on_worker_idle os i (set_socket i ((ms_sockets ?m ! i)\<lparr>sk_worker_id := w, sk_read_offset := 0\<rparr>) ?m)"
    by (metis le_refl)
  have "on_backend os i {WL_SOCKET_READABLE} m = Inr m'"
    using g(2,9) by (simp add: on_socket_event_def res_bind_eq_Inr)
  then have "on_worker_idle os i (set_socket i ((ms_sockets ?m ! i)\<lparr>sk_worker_id := w, sk_read_offset := 0\<rparr>) ?m) = Inr m'"
    using off g(7) w by (simp add: on_backend_def Let_def)
  then have "ms_log m' = SendFd (sk_fd (ms_sockets m ! i)) (ring_first (ms_jobs m)) # ms_log ?m"
    using assms(3) i g(8) by (auto simp: on_worker_idle_def)
  then show ?thesis by simp
qed

section \<open>Property\<close>

definition workers_greeted :: "os \<Rightarrow> (nat \<Rightarrow> master) \<Rightarrow> nat \<Rightarrow> nat" where
  "workers_greeted os run n = card {t. t < n \<and> greets os (run t) (run (Suc t))}"

lemma workers_greeted_Suc:
  "workers_greeted os run (Suc n) = workers_greeted os run n + (if greets os (run n) (run (Suc n)) then 1 else 0)"
proof -
  have "{t. t < Suc n \<and> greets os (run t) (run (Suc t))} =
    {t. t < n \<and> greets os (run t) (run (Suc t))} \<union> (if greets os (run n) (run (Suc n)) then {n} else {})"
    by (auto simp: less_Suc_eq)
  then show ?thesis by (simp add: workers_greeted_def card_insert_if)
qed

lemma run_reachable:
  "master_reachable os fds ipc k (run 0) \<Longrightarrow> \<forall>t < n. master_step os (run t) (run (Suc t)) \<Longrightarrow>
    master_reachable os fds ipc k (run n)"
  by (induction n) (auto intro: master_reachable.step)

lemma run_flows: "\<forall>t < n. master_step os (run t) (run (Suc t)) \<Longrightarrow> flows (run 0) (run n)"
  by (induction n) (auto intro: adds_flows flows_trans step_flows)

lemma workers_greeted_serve:
  assumes "master_config os fds k" "master_reachable os fds ipc k (run 0)"
    and "\<forall>t < n. master_step os (run t) (run (Suc t))" "s = length (sent_jobs (ms_log (run 0)))"
  shows "min (workers_greeted os run n) (length (ring_list (ms_jobs (run 0)))) + s \<le> length (sent_jobs (ms_log (run n)))"
  using assms(3)
proof (induction n)
  case 0
  then show ?case by (simp add: workers_greeted_def assms(4))
next
  case (Suc n)
  let ?sent = "\<lambda>t. sent_jobs (ms_log (run t))" and ?q = "\<lambda>t. ring_list (ms_jobs (run t))"
  have IH: "min (workers_greeted os run n) (length (?q 0)) + s \<le> length (?sent n)" using Suc by simp
  have inv: "master_inv (run t)" if "t \<le> n" for t
    using reachable_inv(1)[OF assms(1) run_reachable[where run = run, OF assms(2)]] Suc.prems that by simp
  have "flows (run n) (run (Suc n))" using Suc.prems step_flows by blast
  then have mono: "length (?sent n) \<le> length (?sent (Suc n))" by (auto simp: flows_def dest: prefix_length_le)
  show ?case
  proof (cases "greets os (run n) (run (Suc n)) \<and> ?q n \<noteq> []")
    case True
    then have "0 < rq_size (ms_jobs (run n))" by (metis length_greater_0_conv length_ring_list)
    with greets_sends[of os "run n" "run (Suc n)"] inv[of n] True IH show ?thesis by (simp add: workers_greeted_Suc)
  next
    case False
    have kept: "length (?sent t) + length (?q t) = length (kept_jobs (ms_log (run t)))" if "t \<le> n" for t
      using inv[OF that] by (simp add: master_inv_def fifo_inv_def)
    have "flows (run 0) (run n)" using Suc.prems by (intro run_flows[of _ os]) simp
    then have "length (?q 0) + s \<le> length (?sent n) + length (?q n)"
      using kept[of 0] kept[of n] assms(4) by (auto simp: flows_def dest!: prefix_length_le)
    with False IH mono show ?thesis by (auto simp: workers_greeted_Suc)
  qed
qed

text \<open>
  C4: a waiting connection is served after as many greetings as it has places in the queue.
  Whatever else happens, connections that come and are refused, workers that connect, die or send
  rubbish, signals: once one more worker has greeted than there are connections before it, each of
  them a worker to which the connection that is then first can be sent, the connection has been
  handed out, next after those. (A worker to which sendmsg fails does not count: it is dropped and
  the connection stays first.)
\<close>
lemma waiting_job_served:
  assumes "master_config os fds k" "master_reachable os fds ipc k (run 0)"
    and "\<forall>t < n. master_step os (run t) (run (Suc t))"
    and "j < length (ring_list (ms_jobs (run 0)))" "j < workers_greeted os run n"
  shows "\<exists>later. sent_jobs (ms_log (run n)) =
    sent_jobs (ms_log (run 0)) @ take (Suc j) (ring_list (ms_jobs (run 0))) @ later"
proof -
  let ?sent = "\<lambda>t. sent_jobs (ms_log (run t))" and ?q = "\<lambda>t. ring_list (ms_jobs (run t))"
  have many: "length (?sent 0) + Suc j \<le> length (?sent n)"
    using workers_greeted_serve[OF assms(1-3) refl] assms(4,5) by linarith
  have kept: "kept_jobs (ms_log (run t)) = ?sent t @ ?q t" if "t \<le> n" for t
    using reachable_inv(1)[OF assms(1) run_reachable[where run = run, OF assms(2)], of t] assms(3) that
    by (simp add: master_inv_def fifo_inv_def)
  have "prefix (?sent 0 @ ?q 0) (?sent n @ ?q n)"
    using run_flows[OF assms(3)] kept[of 0] kept[of n] by (simp add: flows_def)
  then obtain zs where zs: "?sent n @ ?q n = ?sent 0 @ ?q 0 @ zs" by (auto simp: prefix_def)
  have "take (length (?sent 0) + Suc j) (?sent n) = take (length (?sent 0) + Suc j) (?sent n @ ?q n)"
    using many by simp
  also have "\<dots> = ?sent 0 @ take (Suc j) (?q 0)" unfolding zs using assms(4) by simp
  finally show ?thesis by (metis append_take_drop_id append.assoc)
qed

text \<open>In the small environment, the worker that has connected greets while two connections wait.\<close>

definition demo_served :: "nat \<Rightarrow> master" where
  "demo_served t = (if t = 0 then demo_waiting
     else snd (projr (process_events (demo_os demo_greeting) [(3, {WL_SOCKET_READABLE})] demo_waiting)))"

lemma demo_greets: "greets (demo_os demo_greeting) (demo_served 0) (demo_served (Suc 0))"
proof -
  have "process_events (demo_os demo_greeting) [(3, {WL_SOCKET_READABLE})] demo_waiting =
      Inr (False, snd (projr (process_events (demo_os demo_greeting) [(3, {WL_SOCKET_READABLE})] demo_waiting)))"
  proof -
    have "\<not> isl (process_events (demo_os demo_greeting) [(3, {WL_SOCKET_READABLE})] demo_waiting)"
      "\<not> fst (projr (process_events (demo_os demo_greeting) [(3, {WL_SOCKET_READABLE})] demo_waiting))" by code_simp+
    then show ?thesis by (metis (full_types) prod.collapse sum.collapse(2))
  qed
  moreover have "3 < ms_total_sockets demo_waiting" "type_at demo_waiting 3 = TYPE_BACKEND"
    "greeted (ms_sockets demo_waiting ! 3) []" by code_simp+
  ultimately show ?thesis
    unfolding greets_def demo_served_def
    by (intro exI[of _ 3] exI[of _ "[]"] exI[of _ "BACKEND_HELLO @ [7, 0, 0, 0]"] exI[of _ "[7, 0, 0, 0]"])
      (simp add: demo_os_def demo_greeting_def)
qed

lemma waiting_job_served_witness:
  "\<exists>later. sent_jobs (ms_log (demo_served 1)) = sent_jobs (ms_log demo_waiting) @ [100] @ later"
proof -
  have 3: "3 < ms_total_sockets demo_waiting" by code_simp
  have "master_step (demo_os demo_greeting) (demo_served 0) (demo_served (Suc 0))"
    using demo_greets unfolding greets_def by (blast intro: master_step.event)
  moreover have "0 < workers_greeted (demo_os demo_greeting) demo_served 1"
    using demo_greets workers_greeted_Suc[of "demo_os demo_greeting" demo_served 0] by simp
  moreover have "ring_list (ms_jobs demo_waiting) = [100, 100]" by code_simp
  moreover have "master_reachable (demo_os demo_greeting) [5] 4 3 (demo_served 0)"
    using demo_reachable(2) by (simp add: demo_served_def)
  ultimately show ?thesis
    using waiting_job_served[OF demo_config, of 3 demo_greeting 4 demo_served 1 0] by (simp add: demo_served_def)
qed

end
