(* ===== verification/Talk.thy ===== *)
theory Talk
  imports MasterProps
begin

text \<open>
  The dispatcher's side of its conversations with the workers: how many greetings it has read on a
  connection, how many descriptors it has sent there, and how often the worker is among the idle ones.
\<close>

section \<open>A conversation in the log\<close>

fun received_from :: "int \<Rightarrow> log \<Rightarrow> byte list" where
  "received_from fd [] = []"
| "received_from fd (c # l) =
     received_from fd l @ (case c of Recv fd' bs \<Rightarrow> if fd' = fd then bs else [] | _ \<Rightarrow> [])"

fun jobs_to :: "int \<Rightarrow> log \<Rightarrow> int list" where
  "jobs_to fd [] = []"
| "jobs_to fd (c # l) =
     jobs_to fd l @ (case c of SendFd fd' job \<Rightarrow> if fd' = fd then [job] else [] | _ \<Rightarrow> [])"

fun connections :: "log \<Rightarrow> int list" where
  "connections [] = []"
| "connections (c # l) = connections l @ (case c of AcceptBackend fd \<Rightarrow> [fd] | _ \<Rightarrow> [])"

definition mute :: "call \<Rightarrow> bool" where
  "mute c \<longleftrightarrow> (case c of AcceptBackend _ \<Rightarrow> False | Recv _ _ \<Rightarrow> False | SendFd _ _ \<Rightarrow> False | _ \<Rightarrow> True)"

lemma mute_simps [simp]:
  "mute (AcceptFrontend fd)" "mute (SendFailed w job)" "mute (RecvFailed fd)" "mute (StreamClose fd)"
  "mute (RegisterWorker k)" "mute (LogQueueFull fd)" "mute Usleep"
  by (simp_all add: mute_def)

lemma mute_log:
  assumes "\<forall>c \<in> set l. mute c"
  shows "received_from fd (l @ log) = received_from fd log" "jobs_to fd (l @ log) = jobs_to fd log"
    "connections (l @ log) = connections log"
  using assms by (induction l) (auto simp: mute_def split: call.splits)

abbreviation fd_at :: "master \<Rightarrow> nat \<Rightarrow> int" where "fd_at m i \<equiv> sk_fd (ms_sockets m ! i)"

definition bytes_read :: "socket \<Rightarrow> nat" where
  "bytes_read s = (if sk_read_offset s = 255 then 0 else unat (sk_read_offset s))"

text \<open>
  Every greeting read on the connection was answered with a descriptor, or is a place among the idle
  workers; \<open>extra\<close> more greetings are being answered.
\<close>

definition answered :: "nat \<Rightarrow> master \<Rightarrow> nat \<Rightarrow> bool" where
  "answered extra m i \<longleftrightarrow> length (received_from (fd_at m i) (ms_log m)) =
     12 * (extra + length (jobs_to (fd_at m i) (ms_log m)) + count_list (ring_list (ms_idle m)) (int i))
     + bytes_read (ms_sockets m ! i)"

text \<open>All connections but those in \<open>X\<close>.\<close>

definition talk_inv :: "nat set \<Rightarrow> master \<Rightarrow> bool" where
  "talk_inv X m \<longleftrightarrow>
     (\<forall>i < ms_total_sockets m. type_at m i = TYPE_BACKEND \<longrightarrow>
        fd_at m i \<in> set (connections (ms_log m)) \<and> (i \<notin> X \<longrightarrow> answered 0 m i) \<and>
        (\<forall>j < ms_total_sockets m. type_at m j = TYPE_BACKEND \<longrightarrow> fd_at m j = fd_at m i \<longrightarrow> j = i)) \<and>
     (\<forall>i < ms_total_sockets m. type_at m i = TYPE_UNSET \<longrightarrow> sk_read_offset (ms_sockets m ! i) \<in> {0, 255}) \<and>
     (\<forall>fd. fd \<notin> set (connections (ms_log m)) \<longrightarrow> received_from fd (ms_log m) = [] \<and> jobs_to fd (ms_log m) = [])"

text \<open>No entry of the idle workers is of a connection that has gone.\<close>

definition idle_open :: "master \<Rightarrow> bool" where
  "idle_open m \<longleftrightarrow> (\<forall>x \<in> set (ring_list (ms_idle m)). type_at m (nat x) = TYPE_BACKEND)"

section \<open>Small changes of the state\<close>

lemma talk_frame:
  assumes "ms_sockets m' = ms_sockets m" "ms_total_sockets m' = ms_total_sockets m"
    "ms_idle m' = ms_idle m" "ms_log m' = l @ ms_log m" "\<forall>c \<in> set l. mute c"
  shows "talk_inv X m' = talk_inv X m" "answered k m' i = answered k m i"
  using assms mute_log[OF assms(5)] by (simp_all add: talk_inv_def answered_def)

lemma quiet_talk [simp]:
  "talk_inv X (modify_wait os pos evs m) = talk_inv X m" "talk_inv X (resume_frontend os m) = talk_inv X m"
  "talk_inv X (m\<lparr>ms_jobs := q\<rparr>) = talk_inv X m"
  by (rule talk_frame(1)[where l = "[]"]; simp add: resume_frontend_def)+

lemma quiet_answered [simp]: "answered k (modify_wait os pos evs m) i = answered k m i"
  by (rule talk_frame(2)[where l = "[]"]) simp_all

lemma talk_weaken: "talk_inv {} m \<Longrightarrow> talk_inv X m"
  by (auto simp: talk_inv_def)

lemma talk_restore: "talk_inv {i} m \<Longrightarrow> answered 0 m i \<Longrightarrow> talk_inv {} m"
  by (auto simp: talk_inv_def)

lemma talk_closed: "talk_inv {i} m \<Longrightarrow> type_at m i \<noteq> TYPE_BACKEND \<Longrightarrow> talk_inv {} m"
  unfolding talk_inv_def by blast

lemma close_socket_Inr:
  assumes "close_socket os i m = Inr m'"
  shows "ms_sockets m' = (ms_sockets m)[i := zero_socket]" "ms_total_sockets m' = ms_total_sockets m"
    "ms_idle m' = ms_idle m" "ms_log m' = StreamClose (fd_at m i) # ms_log m"
  using assms by (auto simp: close_socket_def Let_def res_bind_eq_Inr)

lemma close_talk:
  assumes "talk_inv {i} m" "close_socket os i m = Inr m'" "length (ms_sockets m) = ms_total_sockets m"
  shows "talk_inv {} m'"
proof -
  note m' = close_socket_Inr[OF assms(2)]
  have s: "ms_sockets m' ! j = (if j = i then zero_socket else ms_sockets m ! j)" if "j < ms_total_sockets m" for j
    using that assms(3) by (simp add: m'(1) nth_list_update)
  have log: "received_from fd (ms_log m') = received_from fd (ms_log m)" "jobs_to fd (ms_log m') = jobs_to fd (ms_log m)"
    "connections (ms_log m') = connections (ms_log m)" for fd
    using mute_log[of "[StreamClose (fd_at m i)]"] by (simp_all add: m'(4))
  show ?thesis
    using assms(1) unfolding talk_inv_def answered_def m'(2,3) log
    by (auto simp: s zero_socket_def split: if_splits)
qed

lemma set_socket_talk:
  assumes "talk_inv {i} m" "sk_type s = type_at m i" "sk_fd s = fd_at m i"
    and "type_at m i = TYPE_BACKEND \<or> type_at m i = TYPE_UNSET \<and> sk_read_offset s = 255"
    and "length (ms_sockets m) = ms_total_sockets m" "i < ms_total_sockets m"
  shows "talk_inv {i} (set_socket i s m)"
proof -
  have s: "ms_sockets (set_socket i s m) ! j = (if j = i then s else ms_sockets m ! j)" if "j < ms_total_sockets m" for j
    using that assms(5) by (simp add: nth_list_update)
  have ty: "type_at (set_socket i s m) j = type_at m j" "fd_at (set_socket i s m) j = fd_at m j"
    if "j < ms_total_sockets m" for j
    using s[OF that] assms(2,3) by simp_all
  have ans: "answered 0 (set_socket i s m) j = answered 0 m j" if "j < ms_total_sockets m" "j \<notin> {i}" for j
    using that s by (simp add: answered_def)
  have off: "sk_read_offset (ms_sockets (set_socket i s m) ! j) \<in> {0, 255}"
    if "j < ms_total_sockets m" "type_at m j = TYPE_UNSET" for j
    using that s assms(1,4) by (auto simp: talk_inv_def)
  show ?thesis
    using assms(1) unfolding talk_inv_def set_socket_sel(3,10)
    by (simp add: ty ans off del: set_socket_sel(2) insert_iff cong: conj_cong imp_cong)
qed

text \<open>The bytes of a \<open>recv\<close>, an answer, an entry of the idle workers.\<close>

lemma recv_talk:
  assumes "talk_inv {} m" "i < ms_total_sockets m" "type_at m i = TYPE_BACKEND"
  shows "talk_inv {i} (add_log [Recv (fd_at m i) bs] m)"
    "length (received_from (fd_at m i) (Recv (fd_at m i) bs # ms_log m)) =
      12 * (length (jobs_to (fd_at m i) (ms_log m)) + count_list (ring_list (ms_idle m)) (int i))
      + bytes_read (ms_sockets m ! i) + length bs"
proof -
  have "received_from (fd_at m j) (Recv (fd_at m i) bs # ms_log m) = received_from (fd_at m j) (ms_log m)"
    if "j < ms_total_sockets m" "type_at m j = TYPE_BACKEND" "j \<noteq> i" for j
    using assms that unfolding talk_inv_def by auto
  moreover have "fd \<noteq> fd_at m i" if "fd \<notin> set (connections (ms_log m))" for fd
    using assms that unfolding talk_inv_def by auto
  ultimately show "talk_inv {i} (add_log [Recv (fd_at m i) bs] m)"
    using assms(1) by (auto simp: talk_inv_def answered_def)
  have "answered 0 m i" using assms by (simp add: talk_inv_def)
  then show "length (received_from (fd_at m i) (Recv (fd_at m i) bs # ms_log m)) =
      12 * (length (jobs_to (fd_at m i) (ms_log m)) + count_list (ring_list (ms_idle m)) (int i))
      + bytes_read (ms_sockets m ! i) + length bs"
    by (simp add: answered_def)
qed

lemma send_talk:
  assumes "talk_inv {i} m" "i < ms_total_sockets m" "type_at m i = TYPE_BACKEND" "answered 1 m i" "\<forall>c \<in> set l. mute c"
  shows "talk_inv {} (add_log (SendFd (fd_at m i) job # l) m)"
proof -
  have log: "ms_log (add_log (SendFd (fd_at m i) job # l) m) = rev l @ SendFd (fd_at m i) job # ms_log m" by simp
  have l: "\<forall>c \<in> set (rev l). mute c" using assms(5) by simp
  have "jobs_to (fd_at m j) (SendFd (fd_at m i) job # ms_log m) = jobs_to (fd_at m j) (ms_log m)"
    if "j < ms_total_sockets m" "type_at m j = TYPE_BACKEND" "j \<noteq> i" for j
    using assms that unfolding talk_inv_def by auto
  moreover have "fd \<noteq> fd_at m i" if "fd \<notin> set (connections (ms_log m))" for fd
    using assms that unfolding talk_inv_def by auto
  ultimately have "talk_inv {i} (add_log (SendFd (fd_at m i) job # l) m)"
    using assms(1) unfolding talk_inv_def answered_def log by (auto simp: mute_log[OF l])
  moreover have "answered 0 (add_log (SendFd (fd_at m i) job # l) m) i"
    using assms(4) unfolding answered_def log by (simp add: mute_log[OF l])
  ultimately show ?thesis by (rule talk_restore)
qed

lemma idle_push_talk:
  assumes "talk_inv {i} m" "answered 1 m i" "ring_ok (ms_idle m)" "rq_size (ms_idle m) < rq_cap (ms_idle m)"
  shows "talk_inv {} (m\<lparr>ms_idle := ring_push (int i) (ms_idle m)\<rparr>)"
proof -
  let ?m = "m\<lparr>ms_idle := ring_push (int i) (ms_idle m)\<rparr>"
  have list: "ring_list (ms_idle ?m) = ring_list (ms_idle m) @ [int i]" using ring_list_push[OF assms(3,4)] by simp
  have "talk_inv {i} ?m" using assms(1) unfolding talk_inv_def answered_def list by auto
  moreover have "answered 0 ?m i" using assms(2) unfolding answered_def list by simp
  ultimately show ?thesis by (rule talk_restore)
qed

lemma idle_pop_talk:
  assumes "talk_inv {} m" "base_inv m" "0 < rq_size (ms_idle m)"
  shows "talk_inv {nat (ring_first (ms_idle m))} (m\<lparr>ms_idle := ring_pop (ms_idle m)\<rparr>)"
    and "type_at m (nat (ring_first (ms_idle m))) = TYPE_BACKEND \<Longrightarrow>
      answered 1 (m\<lparr>ms_idle := ring_pop (ms_idle m)\<rparr>) (nat (ring_first (ms_idle m)))"
    and "type_at m (nat (ring_first (ms_idle m))) \<noteq> TYPE_BACKEND \<Longrightarrow> talk_inv {} (m\<lparr>ms_idle := ring_pop (ms_idle m)\<rparr>)"
proof -
  define b where "b = nat (ring_first (ms_idle m))"
  let ?m = "m\<lparr>ms_idle := ring_pop (ms_idle m)\<rparr>"
  note pop = idle_pop_base_inv[OF assms(2,3)]
  have b: "ring_first (ms_idle m) = int b" "b < ms_total_sockets m" using pop(2,3) by (auto simp: b_def)
  have "ring_ok (ms_idle m)" using base_invD(4)[OF assms(2)] by (simp add: queue_inv_def)
  then have list: "ring_list (ms_idle m) = int b # ring_list (ms_idle ?m)"
    using ring_list_pop[of "ms_idle m"] assms(3) b(1) by simp
  show inv: "talk_inv {nat (ring_first (ms_idle m))} ?m"
    using assms(1) list unfolding b_def[symmetric] talk_inv_def answered_def by auto
  show "answered 1 ?m (nat (ring_first (ms_idle m)))" if "type_at m (nat (ring_first (ms_idle m))) = TYPE_BACKEND"
    using assms(1) list b(2) that unfolding b_def[symmetric] talk_inv_def answered_def by simp
  show "talk_inv {} ?m" if "type_at m (nat (ring_first (ms_idle m))) \<noteq> TYPE_BACKEND"
    using inv that unfolding b_def[symmetric] talk_inv_def by auto
qed

section \<open>The handlers\<close>

lemma dispatch_talk:
  assumes "os_law os" "base_inv m" "talk_inv {} m" "dispatch_to_idle os sock m = Inr (ok, m')"
  shows "talk_inv {} m'"
  using assms
proof (induction os sock m rule: dispatch_to_idle.induct)
  case (1 os sock m)
  let ?b = "ring_first (ms_idle m)"
  let ?m = "m\<lparr>ms_idle := ring_pop (ms_idle m)\<rparr>"
  let ?s = "ms_sockets m ! nat ?b"
  note eq = dispatch_to_idle.simps[of os sock m]
  show ?case
  proof (cases "rq_size (ms_idle m) = 0")
    case True
    then show ?thesis using "1.prems"(3,4) by (simp add: eq)
  next
    case False
    then have pos: "0 < rq_size (ms_idle m)" by simp
    note pop = idle_pop_base_inv[OF "1.prems"(2) pos] and talk = idle_pop_talk[OF "1.prems"(3,2) pos]
    have len: "length (ms_sockets m) = ms_total_sockets m" by (rule table_type_lt[OF "1.prems"(2)])
    have b: "\<not> (?b < 0 \<or> int (length (ms_sockets m)) \<le> ?b)" "nat ?b < ms_total_sockets ?m" using pop(2,3) len by auto
    show ?thesis
    proof (cases "sk_type ?s = TYPE_BACKEND")
      case ty: True
      show ?thesis
      proof (cases "os_sendmsg os (ms_log m) (sk_fd ?s) sock")
        case True
        then have m': "m' = modify_wait os (sk_pos ?s) {WL_SOCKET_READABLE, WL_SOCKET_CLOSED}
            (add_log [SendFd (fd_at ?m (nat ?b)) sock, StreamClose sock] ?m)"
          using "1.prems"(4) b(1) ty False by (simp add: eq Let_def)
        have "talk_inv {} (add_log [SendFd (fd_at ?m (nat ?b)) sock, StreamClose sock] ?m)"
          by (rule send_talk[OF talk(1) b(2)]) (use ty talk(2) in simp_all)
        then show ?thesis unfolding m' quiet_talk .
      next
        case unsent: False
        let ?m2 = "add_log [SendFailed (sk_fd ?s) sock] ?m"
        obtain m2 where m2: "close_socket os (nat ?b) ?m2 = Inr m2" "dispatch_to_idle os sock m2 = Inr (ok, m')"
          using "1.prems"(4) b(1) ty False unsent by (auto simp: eq Let_def split: sum.splits)
        have "talk_inv {nat ?b} ?m2" using talk(1) by (simp add: talk_frame(1)[where l = "[_]" and m = ?m])
        then have "talk_inv {} m2" by (rule close_talk[OF _ m2(1)]) (simp add: len)
        moreover have "base_inv m2"
          using close_socket_sat[OF "1.prems"(1), of ?m2 "nat ?b" ] pop(1) b(2) ty m2(1) by simp
        ultimately show ?thesis using "1.IH"(2) b(1) ty False unsent m2 "1.prems"(1) by simp
      qed
    next
      case ty: False
      then have "dispatch_to_idle os sock ?m = Inr (ok, m')" using "1.prems"(4) b(1) False by (simp add: eq Let_def)
      then show ?thesis using "1.IH"(1) b(1) ty False "1.prems"(1) pop(1) talk(3) by simp
    qed
  qed
qed

lemma spawn_talk: "spawn_worker os m = Inr m' \<Longrightarrow> talk_inv {} m' = talk_inv {} m"
proof -
  assume "spawn_worker os m = Inr m'"
  then have "ms_sockets m' = ms_sockets m \<and> ms_total_sockets m' = ms_total_sockets m \<and> ms_idle m' = ms_idle m \<and>
      (\<exists>l. ms_log m' = l @ ms_log m \<and> (\<forall>c \<in> set l. mute c))"
    by (auto simp: spawn_worker_def Let_def split: if_splits option.splits
        intro: exI[of _ "[]"] exI[of _ "[RegisterWorker _]"])
  then show "talk_inv {} m' = talk_inv {} m" using talk_frame(1) by blast
qed

lemma enqueue_talk: "talk_inv {} (enqueue_job os sock m) = talk_inv {} m"
proof (cases "rq_size (ms_jobs m) < JOB_QLEN")
  case True
  then show ?thesis by (intro talk_frame(1)[where l = "[]"]) (simp_all add: enqueue_job_def Let_def)
next
  case False
  then show ?thesis
    by (intro talk_frame(1)[where l = "[StreamClose sock, LogQueueFull sock]"]) (simp_all add: enqueue_job_def Let_def)
qed

lemma frontend_talk:
  assumes "os_law os" "base_inv m" "talk_inv {} m" "on_frontend os i evs m = Inr m'"
  shows "talk_inv {} m'"
proof (cases "WL_SOCKET_ACCEPT \<in> evs")
  case True
  show ?thesis
  proof (cases "os_accept os (ms_log m) (fd_at m i)")
    case None
    then have "m' = add_log [Usleep] m" using assms(4) True by (simp add: on_frontend_def)
    then show ?thesis using assms(3) by (simp add: talk_frame(1)[where l = "[_]"])
  next
    case (Some sock)
    let ?m = "add_log [AcceptFrontend sock] m"
    obtain ok m1 where m1: "dispatch_to_idle os sock ?m = Inr (ok, m1)"
      "if ok then m' = m1 else (\<exists>m2. spawn_worker os m1 = Inr m2 \<and> m' = enqueue_job os sock m2)"
      using assms(4) True Some by (auto simp: on_frontend_def res_bind_eq_Inr split: if_splits)
    have "talk_inv {} ?m" using assms(3) by (simp add: talk_frame(1)[where l = "[_]"])
    then have "talk_inv {} m1" using dispatch_talk[OF assms(1) _ _ m1(1)] assms(2) by simp
    then show ?thesis using m1(2) spawn_talk enqueue_talk by (auto split: if_splits)
  qed
qed (use assms in \<open>simp add: on_frontend_def\<close>)

lemma idle_talk:
  assumes "base_inv m" "talk_inv {i} m" "answered 1 m i" "i < ms_total_sockets m" "type_at m i = TYPE_BACKEND"
    and "on_worker_idle os i m = Inr m'"
  shows "talk_inv {} m'"
proof (cases "0 < rq_size (ms_jobs m)")
  case True
  let ?job = "ring_first (ms_jobs m)"
  show ?thesis
  proof (cases "os_sendmsg os (ms_log m) (fd_at m i) ?job")
    case sent: True
    have "talk_inv {} (add_log [SendFd (fd_at m i) ?job] m)" by (rule send_talk[OF assms(2,4,5,3)]) simp
    moreover have "m' = resume_frontend os ((add_log [SendFd (fd_at m i) ?job] m)\<lparr>ms_jobs := ring_pop (ms_jobs m)\<rparr>)"
      using assms(6) True sent by (simp add: on_worker_idle_def Let_def)
    ultimately show ?thesis by simp
  next
    case False
    then have "close_socket os i (add_log [SendFailed (fd_at m i) ?job] m) = Inr m'"
      using assms(6) True by (simp add: on_worker_idle_def Let_def)
    moreover have "talk_inv {i} (add_log [SendFailed (fd_at m i) ?job] m)"
      using assms(2) by (simp add: talk_frame(1)[where l = "[_]"])
    ultimately show ?thesis using close_talk table_type_lt[OF assms(1)] by simp
  qed
next
  case False
  let ?m = "modify_wait os (int i) {WL_SOCKET_CLOSED} m"
  have pos: "sk_pos (ms_sockets m ! i) = int i" by (rule link_pos[OF base_invD(2)[OF assms(1)] assms(4)]) (simp add: assms(5))
  have room: "ring_ok (ms_idle m)" "rq_cap (ms_idle m) = ms_total_sockets m"
    using base_invD(4)[OF assms(1)] by (simp_all add: queue_inv_def)
  have m': "rq_size (ms_idle m) < ms_total_sockets m" "m' = ?m\<lparr>ms_idle := ring_push (int i) (ms_idle ?m)\<rparr>"
    using assms(6) False by (auto simp: on_worker_idle_def Let_def pos split: if_splits)
  have "talk_inv {i} ?m" "answered 1 ?m i" using assms(2,3) by simp_all
  then show ?thesis unfolding m'(2) using room m'(1) by (intro idle_push_talk) simp_all
qed

text \<open>
  The bytes of one \<open>recv\<close>: \<open>n\<close> greetings were answered before, and the entry counts the bytes of the
  next without those in \<open>buf\<close>.
\<close>

lemma bytes_talk:
  assumes "base_inv m" "talk_inv {i} m" "i < ms_total_sockets m" "type_at m i = TYPE_BACKEND"
    and off: "unat (sk_read_offset (ms_sockets m ! i)) < 12" "unat (sk_read_offset (ms_sockets m ! i)) + length buf \<le> 12"
    and read: "length (received_from (fd_at m i) (ms_log m)) =
      12 * (length (jobs_to (fd_at m i) (ms_log m)) + count_list (ring_list (ms_idle m)) (int i))
      + unat (sk_read_offset (ms_sockets m ! i)) + length buf"
    and bytes: "on_backend_bytes os i (int (length buf)) buf m = Inr m'"
  shows "talk_inv {} m'"
proof -
  define s where "s = ms_sockets m ! i"
  define n where "n = unat (sk_read_offset s)"
  note len = table_type_lt[OF assms(1)] and o = off[folded s_def, folded n_def]
  note eq = on_backend_bytes_eq[OF s_def n_def]
  have "s \<in> set (ms_sockets m)" using len assms(3) by (simp add: s_def)
  then have wid: "length (sk_worker_id s) = 4" using base_invD(3)[OF assms(1)] by (simp add: sock_inv_def sock_ok_def)
  have new: "unat (word_of_int (int n + int (length buf)) :: byte) = n + length buf"
    using o by (simp add: unat_of_nat flip: of_nat_add)
  let ?upd = "\<lambda>w x. set_socket i (s\<lparr>sk_worker_id := w, sk_read_offset := x\<rparr>) m"
  have upd: "talk_inv {i} (?upd w x)" for w x
    by (rule set_socket_talk[OF assms(2)]) (use assms(3,4) len in \<open>simp_all add: s_def\<close>)
  have ans: "answered k (?upd w x) i" if "12 * k + (if x = 255 then 0 else unat x) = n + length buf" for k w x
    using that read len assms(3)
    by (cases "x = 255") (simp_all add: answered_def bytes_read_def s_def n_def algebra_simps)
  have part: "talk_inv {} (?upd w (word_of_int (int n + int (length buf))))" if "n + length buf < 12" for w
  proof (rule talk_restore[OF upd])
    have "(word_of_int (int n + int (length buf)) :: byte) \<noteq> 255" using new that by auto
    then show "answered 0 (?upd w (word_of_int (int n + int (length buf)))) i" using new by (intro ans) simp
  qed
  show ?thesis
  proof (cases "hello_loop n buf (min (8 - int n) (int (length buf))) 0")
    case None
    then show ?thesis using close_talk[OF assms(2) _ len] bytes unfolding eq by simp
  next
    case (Some k)
    note k = hello_loop_bounds[OF Some o(1)]
    show ?thesis
    proof (cases "0 < int (length buf) - int k")
      case False
      then have "n + length buf < 12" using k(1,2) o by auto
      moreover have "m' = ?upd (sk_worker_id s) (word_of_int (int n + int (length buf)))"
        using False Some bytes unfolding eq by simp
      ultimately show ?thesis using part[of "sk_worker_id s"] by blast
    next
      case True
      then have "nat (max 0 (int n - 8)) + length (drop k buf) \<le> length (sk_worker_id s)" using k o wid by auto
      then obtain w where w: "copy_worker_id (nat (max 0 (int n - 8))) (drop k buf) (sk_worker_id s) = Inr w" "length w = 4"
        using copy_worker_id_ok wid by metis
      show ?thesis
      proof (cases "n + length buf = 12")
        case whole: True
        have "base_inv (?upd w 0)" using w(2) by (intro set_socket_base_inv assms(1)) (simp_all add: sock_ok_def s_def)
        moreover have "answered 1 (?upd w 0) i" using whole by (intro ans) simp
        moreover have "on_worker_idle os i (?upd w 0) = Inr m'"
          using bytes True Some w whole unfolding eq by (auto split: if_splits)
        ultimately show ?thesis using upd len assms(3,4) by (intro idle_talk[of "?upd w 0" i os m']) (simp_all add: s_def)
      next
        case False
        with True Some w bytes have "m' = ?upd w (word_of_int (int n + int (length buf)))" unfolding eq by (auto split: if_splits)
        then show ?thesis using part[of w] False o by simp
      qed
    qed
  qed
qed

lemma backend_talk:
  assumes "os_law os" "base_inv m" "talk_inv {} m" "i < ms_total_sockets m" "type_at m i = TYPE_BACKEND"
    and "on_backend os i evs m = Inr m'"
  shows "talk_inv {} m'"
proof -
  let ?s = "ms_sockets m ! i"
  note len = table_type_lt[OF assms(2)]
  have ok: "sock_ok ?s" using base_invD(3)[OF assms(2)] len assms(4) by (simp add: sock_inv_def)
  consider "WL_SOCKET_CLOSED \<in> evs" | "WL_SOCKET_CLOSED \<notin> evs" "WL_SOCKET_READABLE \<notin> evs"
    | "WL_SOCKET_CLOSED \<notin> evs" "WL_SOCKET_READABLE \<in> evs" "12 \<le> unat (sk_read_offset ?s)"
    | "WL_SOCKET_CLOSED \<notin> evs" "WL_SOCKET_READABLE \<in> evs" "unat (sk_read_offset ?s) < 12" by linarith
  then show ?thesis
  proof cases
    case 1
    then show ?thesis using close_talk[OF talk_weaken[OF assms(3)] _ len] assms(6) by (simp add: on_backend_def Let_def)
  next
    case 2
    then show ?thesis using assms(3,6) by (simp add: on_backend_def Let_def)
  next
    case 3
    then have "m' = modify_wait os (sk_pos ?s) {WL_SOCKET_CLOSED} m" using assms(6) by (simp add: on_backend_def Let_def)
    with assms(3) show ?thesis by simp
  next
    case 4
    show ?thesis
    proof (cases "os_recv os (ms_log m) (sk_fd ?s) (12 - unat (sk_read_offset ?s))")
      case None
      let ?m = "add_log [RecvFailed (sk_fd ?s)] m"
      obtain m1 where m1: "close_socket os i ?m = Inr m1" "on_backend_bytes os i (-1) [] m1 = Inr m'"
        using assms(6) 4 None by (auto simp: on_backend_def Let_def res_bind_eq_Inr)
      note c = close_socket_Inr[OF m1(1)]
      have i: "ms_sockets m1 ! i = zero_socket" using c(1) len assms(4) by simp
      have "talk_inv {i} ?m = talk_inv {i} m" by (rule talk_frame(1)[where l = "[RecvFailed (sk_fd ?s)]"]) simp_all
      then have "talk_inv {i} ?m" using talk_weaken[OF assms(3)] by blast
      then have "talk_inv {} m1" by (rule close_talk[OF _ m1(1)]) (simp add: len)
      then have "talk_inv {i} (set_socket i (zero_socket\<lparr>sk_read_offset := -1\<rparr>) m1)"
        by (rule set_socket_talk[OF talk_weaken]) (simp_all add: i zero_socket_def c(1,2) len assms(4))
      moreover have "m' = set_socket i (zero_socket\<lparr>sk_read_offset := -1\<rparr>) m1"
        using m1(2) unfolding on_backend_bytes_after_close[OF i] by blast
      moreover have "type_at (set_socket i (zero_socket\<lparr>sk_read_offset := -1\<rparr>) m1) i \<noteq> TYPE_BACKEND"
        using len assms(4) c(1) by (simp add: zero_socket_def)
      ultimately show ?thesis using talk_closed by blast
    next
      case (Some buf)
      let ?m = "add_log [Recv (sk_fd ?s) buf] m"
      note r = recv_talk[OF assms(3-5), of buf]
      have "length buf \<le> 12 - unat (sk_read_offset ?s)" by (rule os_lawD(3)[OF assms(1) Some])
      moreover have "bytes_read ?s = unat (sk_read_offset ?s)" using 4(3) by (auto simp: bytes_read_def)
      moreover have "on_backend_bytes os i (int (length buf)) buf ?m = Inr m'"
        using assms(6) 4 Some by (simp add: on_backend_def Let_def)
      ultimately show ?thesis
        using r assms(2,4,5) 4(3) by (intro bytes_talk[of ?m i buf os m']) simp_all
    qed
  qed
qed

lemma connect_Inr:
  assumes "os_law os" "base_inv m" "on_backend_connect os i evs m = Inr m'"
  obtains "m' = m" | "m' = add_log [Usleep] m"
  | sock k pos es where "k < ms_total_sockets m" "type_at m k = TYPE_UNSET"
      "m' = add_log [AcceptBackend sock]
        (set_socket k ((ms_sockets m ! k)\<lparr>sk_type := TYPE_BACKEND, sk_fd := sock, sk_pos := pos\<rparr>) (m\<lparr>ms_wait_set := es\<rparr>))"
proof (cases "WL_SOCKET_ACCEPT \<in> evs")
  case accept: True
  show ?thesis
  proof (cases "os_accept os (ms_log m) (fd_at m i)")
    case None
    with accept assms(3) show ?thesis by (intro that(2)) (simp add: on_backend_connect_def)
  next
    case (Some sock)
    have len: "length (ms_sockets m) = ms_total_sockets m" by (rule table_type_lt[OF assms(2)])
    have used: "es_used (ms_wait_set m) < es_space (ms_wait_set m)"
    proof (rule ccontr)
      assume "\<not> es_used (ms_wait_set m) < es_space (ms_wait_set m)"
      then show False
        using next_pos_full[OF assms(2)] assms(3) accept Some by (simp add: on_backend_connect_def)
    qed
    obtain k where k: "NextWaitEventPos (ms_wait_set m) = int k" "k < ms_total_sockets m" "type_at m k = TYPE_UNSET"
      using next_pos[OF assms(2) used] by metis
    obtain es pos where add: "AddWaitEventToSetEx (os_add os) (ms_wait_set m)
        \<lparr>we_events = {WL_SOCKET_READABLE, WL_SOCKET_CLOSED}, we_fd = sock, we_user_data = k\<rparr> = (es, pos)" by fastforce
    note att = attach_base_inv(2)[OF assms(1,2) k(1) used add, of TYPE_BACKEND]
    have "on_backend_connect os i evs m = Inr (add_log [AcceptBackend sock]
        (set_socket k ((ms_sockets m ! k)\<lparr>sk_type := TYPE_BACKEND, sk_fd := sock, sk_pos := pos\<rparr>) (m\<lparr>ms_wait_set := es\<rparr>)))"
      using Some accept k(1,2) add att len
      by (simp add: on_backend_connect_def Let_def add_log_def set_socket_def)
    with assms(3) have "m' = add_log [AcceptBackend sock]
        (set_socket k ((ms_sockets m ! k)\<lparr>sk_type := TYPE_BACKEND, sk_fd := sock, sk_pos := pos\<rparr>) (m\<lparr>ms_wait_set := es\<rparr>))"
      by (metis sum.inject(2))
    with k show ?thesis by (intro that(3))
  qed
next
  case False
  with assms(3) show ?thesis by (intro that(1)) (simp add: on_backend_connect_def)
qed

lemma connect_talk:
  assumes "os_law os" "base_inv m" "talk_inv {} m" "idle_open m" "on_backend_connect os i evs m = Inr m'"
    and "distinct (connections (ms_log m'))"
  shows "talk_inv {} m'"
  using assms(1,2,5)
proof (cases rule: connect_Inr)
  case 1
  with assms(3) show ?thesis by simp
next
  case 2
  moreover have "talk_inv {} (add_log [Usleep] m) = talk_inv {} m" by (rule talk_frame(1)[where l = "[Usleep]"]) simp_all
  ultimately show ?thesis using assms(3) by simp
next
  case (3 sock k pos es)
  let ?s = "(ms_sockets m ! k)\<lparr>sk_type := TYPE_BACKEND, sk_fd := sock, sk_pos := pos\<rparr>"
  note len = table_type_lt[OF assms(2)]
  have m': "ms_log m' = AcceptBackend sock # ms_log m" "ms_total_sockets m' = ms_total_sockets m" "ms_idle m' = ms_idle m"
    using 3(3) by simp_all
  have s: "ms_sockets m' ! j = (if j = k then ?s else ms_sockets m ! j)" if "j < ms_total_sockets m" for j
    using 3(3) that len by (simp add: nth_list_update)
  have log: "received_from fd (ms_log m') = received_from fd (ms_log m)" "jobs_to fd (ms_log m') = jobs_to fd (ms_log m)"
    "connections (ms_log m') = connections (ms_log m) @ [sock]" for fd by (simp_all add: m'(1))
  have new: "sock \<notin> set (connections (ms_log m))" using assms(6) log(3) by simp
  have none: "received_from sock (ms_log m) = []" "jobs_to sock (ms_log m) = []" using assms(3) new by (simp_all add: talk_inv_def)
  have "0 \<le> x \<and> type_at m (nat x) = TYPE_BACKEND" if "x \<in> set (ring_list (ms_idle m))" for x
    using that assms(4) base_invD(4)[OF assms(2)] by (simp add: queue_inv_def idle_open_def)
  then have "int k \<notin> set (ring_list (ms_idle m))" using 3(2) by fastforce
  moreover have "sk_read_offset (ms_sockets m ! k) \<in> {0, 255}" using assms(3) 3(1,2) by (simp add: talk_inv_def)
  ultimately have k: "answered 0 m' k"
    using none 3(1) by (auto simp: answered_def s log m'(3) bytes_read_def)
  have other: "answered 0 m' j = answered 0 m j" if "j < ms_total_sockets m" "j \<noteq> k" for j
    using that by (simp add: answered_def s log m'(3))
  have old: "type_at m j = TYPE_BACKEND \<Longrightarrow> fd_at m j \<in> set (connections (ms_log m))" if "j < ms_total_sockets m" for j
    using assms(3) that by (simp add: talk_inv_def)
  have ty: "type_at m' j = (if j = k then TYPE_BACKEND else type_at m j)" "fd_at m' j = (if j = k then sock else fd_at m j)"
    "j \<noteq> k \<Longrightarrow> sk_read_offset (ms_sockets m' ! j) = sk_read_offset (ms_sockets m ! j)"
    if "j < ms_total_sockets m" for j using s[OF that] by simp_all
  have "fd_at m' j \<in> set (connections (ms_log m')) \<and> answered 0 m' j \<and>
      (\<forall>h < ms_total_sockets m. type_at m' h = TYPE_BACKEND \<longrightarrow> fd_at m' h = fd_at m' j \<longrightarrow> h = j)"
    if j: "j < ms_total_sockets m" "type_at m' j = TYPE_BACKEND" for j
  proof (cases "j = k")
    case True
    have sock: "fd_at m' j = sock" using ty(2)[OF j(1)] True by simp
    have "h = j" if h: "h < ms_total_sockets m" "type_at m' h = TYPE_BACKEND" "fd_at m' h = fd_at m' j" for h
    proof (rule ccontr)
      assume "h \<noteq> j"
      then have "type_at m h = TYPE_BACKEND" "fd_at m h = sock" using h ty[OF h(1)] sock True by simp_all
      then show False using old[OF h(1)] new by simp
    qed
    then show ?thesis using k True sock by (simp add: log(3))
  next
    case False
    have "\<forall>h < ms_total_sockets m. type_at m h = TYPE_BACKEND \<longrightarrow> fd_at m h = fd_at m j \<longrightarrow> h = j" "answered 0 m j"
      using assms(3) j False ty(1)[OF j(1)] by (auto simp: talk_inv_def)
    then show ?thesis using False old[OF j(1)] j new other[OF j(1) False] by (auto simp: ty log(3) split: if_splits)
  qed
  moreover have "sk_read_offset (ms_sockets m' ! j) \<in> {0, 255}" if "j < ms_total_sockets m" "type_at m' j = TYPE_UNSET" for j
  proof -
    have "j \<noteq> k" "type_at m j = TYPE_UNSET" using that ty(1)[OF that(1)] by (auto split: if_splits)
    then show ?thesis using assms(3) that(1) ty(3)[OF that(1)] by (simp add: talk_inv_def)
  qed
  moreover have "received_from fd (ms_log m') = [] \<and> jobs_to fd (ms_log m') = []"
    if "fd \<notin> set (connections (ms_log m'))" for fd
    using assms(3) that log by (simp add: talk_inv_def)
  ultimately show ?thesis unfolding talk_inv_def m'(2) by blast
qed

lemma latch_talk:
  assumes "on_latch os m = Inr m'"
  shows "talk_inv {} m' = talk_inv {} m" "ms_sockets m' = ms_sockets m" "ms_idle m' = ms_idle m" "ms_log m' = ms_log m"
proof -
  have same: "ms_sockets m' = ms_sockets m \<and> ms_idle m' = ms_idle m \<and> ms_log m' = ms_log m \<and>
      ms_total_sockets m' = ms_total_sockets m"
    using assms by (auto simp: on_latch_def on_worker_died_def split_beta Let_def split: if_splits)
  then show "ms_sockets m' = ms_sockets m" "ms_idle m' = ms_idle m" "ms_log m' = ms_log m" by simp_all
  show "talk_inv {} m' = talk_inv {} m" by (rule talk_frame(1)[where l = "[]"]) (simp_all add: same)
qed

text \<open>One event, or a signal, from a state without entries of workers that have gone.\<close>

lemma event_talk:
  assumes "os_law os" "master_inv m" "talk_inv {} m" "idle_open m" "i < ms_total_sockets m"
    and "process_events os [(i, evs)] m = Inr (False, m')" "distinct (connections (ms_log m'))"
  shows "talk_inv {} m'"
proof -
  obtain m1 where m1: "(if WL_LATCH_SET \<in> evs then on_latch os m else Inr m) = Inr m1" "on_socket_event os i evs m1 = Inr m'"
    using assms(6) by (auto simp: res_bind_eq_Inr split: if_splits)
  have inv1: "step_post m m1"
    using m1(1) assms(2) on_latch_sat[OF assms(2), of os] by (auto split: if_splits)
  have talk1: "talk_inv {} m1" "idle_open m1"
    using m1(1) assms(3,4) latch_talk[of os m m1] by (auto simp: idle_open_def split: if_splits)
  obtain m2 m3 where step:
    "(if type_at m1 i = TYPE_IPC then on_backend_connect os i evs m1 else Inr m1) = Inr m2"
    "(if type_at m2 i = TYPE_FRONTEND then on_frontend os i evs m2 else Inr m2) = Inr m3"
    "(if type_at m3 i = TYPE_BACKEND then on_backend os i evs m3 else Inr m3) = Inr m'"
    using m1(2) by (auto simp: on_socket_event_def res_bind_eq_Inr)
  have b1: "base_inv m1" "i < ms_total_sockets m1" using inv1 assms(5) by (simp_all add: master_inv_def)
  consider "type_at m1 i = TYPE_IPC" | "type_at m1 i = TYPE_FRONTEND" | "type_at m1 i = TYPE_BACKEND" | "type_at m1 i = TYPE_UNSET"
    by (cases "type_at m1 i") auto
  then show ?thesis
  proof cases
    case 1
    then have c: "on_backend_connect os i evs m1 = Inr m2" using step(1) by simp
    from assms(1) b1(1) c have "type_at m2 i = TYPE_IPC"
    proof (cases rule: connect_Inr)
      case (3 sock k pos es)
      then show ?thesis using 1 by (cases "i = k") simp_all
    qed (use 1 in simp_all)
    with step(2,3) have "m' = m2" by simp
    with connect_talk[OF assms(1) b1(1) talk1 c] assms(7) show ?thesis by simp
  next
    case 2
    with step(1,2) have f: "on_frontend os i evs m1 = Inr m3" and m2: "m2 = m1" by simp_all
    have talk3: "talk_inv {} m3" by (rule frontend_talk[OF assms(1) b1(1) talk1(1) f])
    have "step_post m1 m3" using on_frontend_sat[OF assms(1), of m1 i evs] f inv1 by simp
    then show ?thesis
      using step(3) talk3 backend_talk[OF assms(1) _ talk3] b1(2) by (auto simp: master_inv_def split: if_splits)
  next
    case 3
    with step have "on_backend os i evs m1 = Inr m'" by simp
    then show ?thesis by (rule backend_talk[OF assms(1) b1(1) talk1(1) b1(2) 3])
  next
    case 4
    with step have "m' = m1" by simp
    with talk1 show ?thesis by simp
  qed
qed

lemma step_talk:
  assumes "os_law os" "master_inv m" "talk_inv {} m" "idle_open m" "master_step os m m'" "distinct (connections (ms_log m'))"
  shows "talk_inv {} m'"
  using assms(5)
proof (cases rule: master_step.cases)
  case (event i evs)
  then show ?thesis using event_talk[OF assms(1-4)] assms(6) by blast
next
  case sigterm
  have "talk_inv {} (master_on_sigterm m) = talk_inv {} m"
    by (rule talk_frame(1)[where l = "[]"]) (simp_all add: master_on_sigterm_def)
  with sigterm assms(3) show ?thesis by simp
next
  case sigusr1
  have "talk_inv {} (master_on_sigusr1 m) = talk_inv {} m"
    by (rule talk_frame(1)[where l = "[]"]) (simp_all add: master_on_sigusr1_def)
  with sigusr1 assms(3) show ?thesis by simp
qed

end
