(* ===== verification/System.thy ===== *)
theory System
  imports Talk WorkerProps "HOL-Library.Sublist"
begin

text \<open>
  The master and its workers together, in any interleaving. A worker is named by the descriptor of its
  connection in the master; what the two processes hear of each other is what the other has said.
\<close>

section \<open>The system\<close>

fun jobs_taken :: "wcall list \<Rightarrow> int list" where
  "jobs_taken [] = []"
| "jobs_taken (Job client acts # l) = jobs_taken l @ [client]"
| "jobs_taken (_ # l) = jobs_taken l"

record system =
  sy_master :: master
  sy_workers :: "int \<Rightarrow> worker"

text \<open>
  The Unix sockets: bytes and descriptors arrive in order, once, and only if they were sent. Descriptors
  stand for connections, so \<open>accept\<close> does not give one twice; a client's connection keeps its number on
  the way to the worker.
\<close>

definition channels :: "system \<Rightarrow> bool" where
  "channels s \<longleftrightarrow> distinct (connections (ms_log (sy_master s))) \<and>
     (\<forall>fd. prefix (received_from fd (ms_log (sy_master s))) (sent_stream (wk_log (sy_workers s fd))) \<and>
           prefix (jobs_taken (wk_log (sy_workers s fd))) (jobs_to fd (ms_log (sy_master s))))"

text \<open>
  The states of the system. Each step of a process may be in an environment of its own, as far as the
  channels allow. With \<open>calm\<close>, the master takes no step from a state in which a worker has gone and is
  still among the idle ones.
\<close>

inductive system_reachable :: "bool \<Rightarrow> int list \<Rightarrow> int \<Rightarrow> nat \<Rightarrow> system \<Rightarrow> bool" for calm fds ipc k where
  start: "master_config os fds k \<Longrightarrow> master_startup os fds ipc k = Inr m \<Longrightarrow>
    system_reachable calm fds ipc k \<lparr>sy_master = m, sy_workers = \<lambda>fd. worker_startup (ids fd)\<rparr>"
| master: "system_reachable calm fds ipc k s \<Longrightarrow> os_law os \<Longrightarrow> (calm \<longrightarrow> idle_open (sy_master s)) \<Longrightarrow>
    master_step os (sy_master s) m \<Longrightarrow> channels (s\<lparr>sy_master := m\<rparr>) \<Longrightarrow>
    system_reachable calm fds ipc k (s\<lparr>sy_master := m\<rparr>)"
| worker: "system_reachable calm fds ipc k s \<Longrightarrow> we_law env \<Longrightarrow>
    ev \<subseteq> insert WL_LATCH_SET (wk_mask (sy_workers s fd)) \<Longrightarrow>
    worker_event env ev (sy_workers s fd) = Inr (None, w) \<Longrightarrow>
    channels (s\<lparr>sy_workers := (sy_workers s)(fd := w)\<rparr>) \<Longrightarrow>
    system_reachable calm fds ipc k (s\<lparr>sy_workers := (sy_workers s)(fd := w)\<rparr>)"
| sigterm: "system_reachable calm fds ipc k s \<Longrightarrow>
    system_reachable calm fds ipc k
      (s\<lparr>sy_workers := (sy_workers s)(fd := worker_on_sigterm (sy_workers s fd))\<rparr>)"

section \<open>Invariants\<close>

lemma length_jobs_taken [simp]: "length (jobs_taken l) = jobs_done l"
  by (induction l rule: jobs_taken.induct) simp_all

definition fresh_table :: "master \<Rightarrow> bool" where
  "fresh_table m \<longleftrightarrow> (\<forall>s \<in> set (ms_sockets m). sk_type s \<noteq> TYPE_BACKEND \<and> sk_read_offset s = 0)"

lemma add_socket_fresh:
  assumes "add_socket os ty fd evs m = Inr m'" "ty \<noteq> TYPE_BACKEND"
    and "fresh_table m"
  shows "fresh_table m' \<and> ms_log m' = ms_log m"
proof -
  define k where "k = nat (NextWaitEventPos (ms_wait_set m))"
  obtain es pos where add: "AddWaitEventToSetEx (os_add os) (ms_wait_set m)
      \<lparr>we_events = evs, we_fd = fd, we_user_data = k\<rparr> = (es, pos)" by fastforce
  have k: "k < length (ms_sockets m)" and
    m': "m' = set_socket k ((ms_sockets m ! k)\<lparr>sk_type := ty, sk_fd := fd, sk_pos := pos\<rparr>) (m\<lparr>ms_wait_set := es\<rparr>)"
    using assms(1) add by (auto simp: add_socket_def Let_def k_def split: if_splits)
  have "sk_read_offset (ms_sockets m ! k) = 0" using assms(3) k by (simp add: fresh_table_def)
  then show ?thesis using assms(2,3) unfolding m' fresh_table_def by (auto dest!: set_update_subset_insert [THEN subsetD])
qed

lemma add_frontends_fresh:
  "add_frontends os fds m = Inr m' \<Longrightarrow>
    fresh_table m \<Longrightarrow> fresh_table m' \<and> ms_log m' = ms_log m"
proof (induction fds arbitrary: m)
  case (Cons fd fds)
  then obtain m1 where m1: "add_socket os TYPE_FRONTEND fd {WL_SOCKET_ACCEPT} m = Inr m1" "add_frontends os fds m1 = Inr m'"
    by (auto simp: res_bind_eq_Inr split: if_splits)
  have "fresh_table m1 \<and> ms_log m1 = ms_log m" by (rule add_socket_fresh[OF m1(1) _ Cons.prems(2)]) simp
  with Cons.IH[OF m1(2)] show ?case by simp
qed simp

lemma startup_talk:
  assumes "master_config os fds k" "master_startup os fds ipc k = Inr m"
  shows "talk_inv {} m" "ms_log m = []" "master_inv m"
proof -
  obtain m0 where m0: "master_startup os fds ipc k = Inr m0" "master_inv m0" "ms_log m0 = []"
    using startup_ok[of os k fds ipc] assms(1) unfolding master_config_def by metis
  show inv: "master_inv m" "ms_log m = []" using m0 assms(2) by simp_all
  obtain m1 m2 where
    m: "add_socket os TYPE_UNSET (-1) {WL_LATCH_SET} (master_init (length fds) k) = Inr m1"
      "add_socket os TYPE_IPC ipc {WL_SOCKET_ACCEPT} m1 = Inr m2" "add_frontends os fds m2 = Inr m"
    using assms(2) by (auto simp: master_startup_def res_bind_eq_Inr)
  have "fresh_table (master_init (length fds) k)" by (simp add: fresh_table_def master_init_def zero_socket_def)
  then have "fresh_table m1" using add_socket_fresh[OF m(1)] by blast
  then have "fresh_table m2" using add_socket_fresh[OF m(2)] by blast
  then have fresh: "fresh_table m" using add_frontends_fresh[OF m(3)] by blast
  moreover have "length (ms_sockets m) = ms_total_sockets m" using inv(1) table_type_lt by (simp add: master_inv_def)
  ultimately show "talk_inv {} m" using inv(2) by (simp add: talk_inv_def fresh_table_def)
qed

definition system_inv :: "system \<Rightarrow> bool" where
  "system_inv s \<longleftrightarrow> master_inv (sy_master s) \<and> channels s \<and> (\<forall>fd. worker_inv (sy_workers s fd))"

lemma worker_sigterm:
  "wk_log (worker_on_sigterm w) = wk_log w" "worker_inv (worker_on_sigterm w) = worker_inv w"
  by (simp_all add: worker_on_sigterm_def worker_inv_def greetings_def waiting_for_job_def)

lemma system_reachable_inv: "system_reachable calm fds ipc k s \<Longrightarrow> system_inv s"
proof (induction rule: system_reachable.induct)
  case (start os m ids)
  then show ?case
    using startup_talk[OF start] worker_startup_inv
    by (simp add: system_inv_def channels_def) (simp add: worker_startup_def)
next
  case (master s os m)
  then show ?case using step_inv[of os "sy_master s" m] by (simp add: system_inv_def)
next
  case (worker s env ev fd w)
  then show ?case using worker_event_inv[of env "sy_workers s fd" ev w] by (simp add: system_inv_def)
next
  case (sigterm s fd)
  then show ?case
    by (simp add: system_inv_def channels_def worker_sigterm)
qed

lemma system_talk: "system_reachable calm fds ipc k s \<Longrightarrow> calm \<Longrightarrow> talk_inv {} (sy_master s)"
proof (induction rule: system_reachable.induct)
  case (start os m ids)
  then show ?case using startup_talk by simp
next
  case (master s os m)
  then show ?case
    using step_talk[of os "sy_master s" m] system_reachable_inv[OF master(1)]
    by (simp add: system_inv_def channels_def)
qed simp_all

lemma prefix_mset: "prefix xs ys \<Longrightarrow> mset xs \<subseteq># mset ys"
  by (auto simp: prefix_def)

lemma sum_subset_mset: "(\<And>x. f x \<subseteq># g x) \<Longrightarrow> sum f F \<subseteq># sum g F"
  by (induction F rule: infinite_finite_induct) (auto intro: subset_mset.add_mono)

lemma jobs_to_sent:
  assumes "finite F"
  shows "(\<Sum>fd \<in> F. mset (jobs_to fd log)) \<subseteq># mset (sent_jobs log)"
proof (induction log)
  case (Cons c log)
  show ?case
  proof (cases c)
    case (SendFd fd job)
    have "(\<Sum>x \<in> F. mset (jobs_to x (c # log))) =
      (\<Sum>x \<in> F. mset (jobs_to x log)) + (\<Sum>x \<in> F. if fd = x then {#job#} else {#})"
      by (simp add: SendFd sum.distrib[symmetric] cong: if_cong) (rule sum.cong; simp)
    also have "\<dots> \<subseteq># mset (sent_jobs log) + {#job#}"
      using assms Cons.IH by (intro subset_mset.add_mono) (simp_all add: sum.delta)
    finally show ?thesis by (simp add: SendFd)
  qed (use Cons in simp_all)
qed simp

section \<open>A small run\<close>

text \<open>
  The worker with id 7 connects, greets and is idle; a connection comes, is given to it, and the worker
  takes it.
\<close>

definition demo_next :: "os \<Rightarrow> nat \<times> wl set \<Rightarrow> master \<Rightarrow> master" where
  "demo_next os e m = snd (projr (process_events os [e] m))"

definition demo_m0 :: master where "demo_m0 = projr (master_startup (demo_os demo_greeting) [5] 4 3)"
definition demo_m1 :: master where "demo_m1 = demo_next (demo_os demo_greeting) (1, {WL_SOCKET_ACCEPT}) demo_m0"
definition demo_m2 :: master where "demo_m2 = demo_next (demo_os demo_greeting) (3, {WL_SOCKET_READABLE}) demo_m1"
definition demo_m3 :: master where "demo_m3 = demo_next (demo_os demo_greeting) (2, {WL_SOCKET_ACCEPT}) demo_m2"

definition demo_taker :: worker_env where
  "demo_taker = \<lparr>we_send = (\<lambda>_ bs. Some (length bs)), we_recvmsg = (\<lambda>_. Some 100), we_job = (\<lambda>_. demo_job)\<rparr>"

definition demo_w1 :: worker where
  "demo_w1 = snd (projr (worker_event demo_taker {WL_SOCKET_WRITEABLE} (worker_startup 7)))"
definition demo_w2 :: worker where "demo_w2 = snd (projr (worker_event demo_taker {WL_SOCKET_READABLE} demo_w1))"

definition demo_system :: "master \<Rightarrow> worker \<Rightarrow> system" where
  "demo_system m w = \<lparr>sy_master = m, sy_workers = (\<lambda>fd. worker_startup 7)(100 := w)\<rparr>"

lemma demo_next_step:
  assumes "\<not> isl (process_events os [e] m)" "\<not> fst (projr (process_events os [e] m))"
  shows "process_events os [e] m = Inr (False, demo_next os e m)"
  using assms by (cases "process_events os [e] m") (auto simp: demo_next_def)

lemma demo_master_steps:
  "process_events (demo_os demo_greeting) [(1, {WL_SOCKET_ACCEPT})] demo_m0 = Inr (False, demo_m1)"
  "process_events (demo_os demo_greeting) [(3, {WL_SOCKET_READABLE})] demo_m1 = Inr (False, demo_m2)"
  "process_events (demo_os demo_greeting) [(2, {WL_SOCKET_ACCEPT})] demo_m2 = Inr (False, demo_m3)"
  unfolding demo_m3_def demo_m2_def demo_m1_def by (rule demo_next_step; code_simp)+

lemma demo_worker_steps:
  "worker_event demo_taker {WL_SOCKET_WRITEABLE} (worker_startup 7) = Inr (None, demo_w1)"
  "worker_event demo_taker {WL_SOCKET_READABLE} demo_w1 = Inr (None, demo_w2)"
  unfolding demo_w1_def demo_w2_def by code_simp+

lemma demo_facts:
  "ms_log demo_m0 = []" "ms_log demo_m1 = [AcceptBackend 100]"
  "ms_log demo_m2 = [Recv 100 (worker_hello 7), AcceptBackend 100]"
  "ms_log demo_m3 = [StreamClose 100, SendFd 100 100, AcceptFrontend 100, Recv 100 (worker_hello 7), AcceptBackend 100]"
  "sent_stream (wk_log demo_w1) = worker_hello 7" "sent_stream (wk_log demo_w2) = worker_hello 7"
  "jobs_taken (wk_log demo_w1) = []" "jobs_taken (wk_log demo_w2) = [100]"
  "wk_mask demo_w1 = {WL_SOCKET_READABLE, WL_SOCKET_CLOSED}" "sent_stream (wk_log (worker_startup 7)) = []"
  "jobs_taken (wk_log (worker_startup 7)) = []" "wk_mask (worker_startup 7) = {WL_SOCKET_WRITEABLE, WL_SOCKET_CLOSED}"
  "idle_open demo_m0" "idle_open demo_m1" "idle_open demo_m2"
  "ms_total_sockets demo_m0 = 5" "ms_total_sockets demo_m1 = 5" "ms_total_sockets demo_m2 = 5"
  by code_simp+

lemma demo_channels:
  "channels (demo_system demo_m1 (worker_startup 7))" "channels (demo_system demo_m1 demo_w1)"
  "channels (demo_system demo_m2 demo_w1)" "channels (demo_system demo_m3 demo_w1)" "channels (demo_system demo_m3 demo_w2)"
  by (simp_all add: channels_def demo_system_def demo_facts)

lemma demo_system_reachable:
  "system_reachable True [5] 4 3 (demo_system demo_m3 demo_w1)"
  "system_reachable True [5] 4 3 (demo_system demo_m3 demo_w2)"
proof -
  note law = demo_os_law[of demo_greeting]
  have taker: "we_law demo_taker" by (simp add: we_law_def demo_taker_def)
  have next_m: "system_reachable True [5] 4 3 (demo_system m' w)"
    if "system_reachable True [5] 4 3 (demo_system m w)" "process_events (demo_os demo_greeting) [(i, ev)] m = Inr (False, m')"
      "i < ms_total_sockets m" "idle_open m" "channels (demo_system m' w)" for m m' w i ev
    using system_reachable.master[OF that(1) law, of m'] that(2-) master_step.event by (simp add: demo_system_def)
  have next_w: "system_reachable True [5] 4 3 (demo_system m w')"
    if "system_reachable True [5] 4 3 (demo_system m w)" "worker_event demo_taker ev w = Inr (None, w')"
      "ev \<subseteq> wk_mask w" "channels (demo_system m w')" for m w w' ev
    using system_reachable.worker[OF that(1) taker, of ev 100 w'] that(2-) by (simp add: demo_system_def subset_insertI2)
  have "master_startup (demo_os demo_greeting) [5] 4 3 = Inr demo_m0"
  proof -
    have "\<not> isl (master_startup (demo_os demo_greeting) [5] 4 3)" by code_simp
    then show ?thesis by (simp add: demo_m0_def)
  qed
  from system_reachable.start[OF demo_config this, of True "\<lambda>_. 7"]
  have "system_reachable True [5] 4 3 \<lparr>sy_master = demo_m0, sy_workers = \<lambda>fd. worker_startup 7\<rparr>" by simp
  then have "system_reachable True [5] 4 3 (demo_system demo_m0 (worker_startup 7))"
    unfolding demo_system_def by (simp add: fun_upd_idem)
  then have "system_reachable True [5] 4 3 (demo_system demo_m1 (worker_startup 7))"
    by (rule next_m[OF _ demo_master_steps(1)]) (simp_all add: demo_facts demo_channels)
  then have "system_reachable True [5] 4 3 (demo_system demo_m1 demo_w1)"
    by (rule next_w[OF _ demo_worker_steps(1)]) (simp_all add: demo_facts demo_channels)
  then have "system_reachable True [5] 4 3 (demo_system demo_m2 demo_w1)"
    by (rule next_m[OF _ demo_master_steps(2)]) (simp_all add: demo_facts demo_channels)
  then show 3: "system_reachable True [5] 4 3 (demo_system demo_m3 demo_w1)"
    by (rule next_m[OF _ demo_master_steps(3)]) (simp_all add: demo_facts demo_channels)
  then show "system_reachable True [5] 4 3 (demo_system demo_m3 demo_w2)"
    by (rule next_w[OF _ demo_worker_steps(2)]) (simp_all add: demo_facts demo_channels)
qed

section \<open>Properties\<close>

text \<open>
  C3: a connection is served once. However the processes interleave, and whatever workers come and go,
  the connections all workers together have taken, counted with repetition, are among those the master
  accepted and did not refuse: none is given to two workers, or twice to one.
\<close>
lemma served_at_most_once:
  assumes "system_reachable calm fds ipc k s" "finite workers"
  shows "(\<Sum>fd \<in> workers. mset (jobs_taken (wk_log (sy_workers s fd)))) \<subseteq># mset (kept_jobs (ms_log (sy_master s)))"
proof -
  note inv = system_reachable_inv[OF assms(1)]
  have "mset (jobs_taken (wk_log (sy_workers s fd))) \<subseteq># mset (jobs_to fd (ms_log (sy_master s)))" for fd
    using inv by (auto simp: system_inv_def channels_def intro: prefix_mset)
  then have "(\<Sum>fd \<in> workers. mset (jobs_taken (wk_log (sy_workers s fd)))) \<subseteq>#
      (\<Sum>fd \<in> workers. mset (jobs_to fd (ms_log (sy_master s))))" by (rule sum_subset_mset)
  also have "\<dots> \<subseteq># mset (sent_jobs (ms_log (sy_master s)))" by (rule jobs_to_sent[OF assms(2)])
  also have "\<dots> \<subseteq># mset (kept_jobs (ms_log (sy_master s)))"
    using inv by (simp add: system_inv_def master_inv_def fifo_inv_def)
  finally show ?thesis .
qed

lemma served_at_most_once_witness:
  "(\<Sum>fd \<in> {100, 101}. mset (jobs_taken (wk_log (sy_workers (demo_system demo_m3 demo_w2) fd))))
    \<subseteq># mset (kept_jobs (ms_log (sy_master (demo_system demo_m3 demo_w2))))"
  by (rule served_at_most_once[OF demo_system_reachable(2)]) simp

text \<open>
  C2: the master and a worker never disagree by more than one connection. While no worker goes away
  among the idle ones, a worker that is busy or greeting has no connection on its way and no place among
  the idle workers; one that waits has at most one of the two, and exactly one as soon as the master has
  read all it sent.
\<close>
lemma one_job_in_flight:
  assumes "system_reachable True fds ipc k s" "i < ms_total_sockets (sy_master s)"
    and "type_at (sy_master s) i = TYPE_BACKEND"
    and "fd = fd_at (sy_master s) i" "w = sy_workers s fd" "log = ms_log (sy_master s)"
  shows "length (jobs_taken (wk_log w)) \<le> length (jobs_to fd log)
    \<and> length (jobs_to fd log) + count_list (ring_list (ms_idle (sy_master s))) (int i)
        \<le> length (jobs_taken (wk_log w)) + (if waiting_for_job w then 1 else 0)
    \<and> (waiting_for_job w \<and> received_from fd log = sent_stream (wk_log w) \<longrightarrow>
        length (jobs_to fd log) + count_list (ring_list (ms_idle (sy_master s))) (int i) =
          length (jobs_taken (wk_log w)) + 1)"
proof -
  note inv = system_reachable_inv[OF assms(1)]
  have ch: "prefix (received_from fd log) (sent_stream (wk_log w))" "prefix (jobs_taken (wk_log w)) (jobs_to fd log)"
    and w: "worker_inv w"
    using inv by (simp_all add: system_inv_def channels_def assms(5,6))
  have base: "base_inv (sy_master s)" using inv by (simp add: system_inv_def master_inv_def)
  have "sock_ok (ms_sockets (sy_master s) ! i)"
    using base_invD(3)[OF base] table_type_lt[OF base] assms(2) by (simp add: sock_inv_def)
  then have off: "bytes_read (ms_sockets (sy_master s) ! i) < 12" by (auto simp: sock_ok_def bytes_read_def)
  have "answered 0 (sy_master s) i" using system_talk[OF assms(1)] assms(2,3) by (simp add: talk_inv_def)
  then have rec: "length (received_from fd log) =
      12 * (length (jobs_to fd log) + count_list (ring_list (ms_idle (sy_master s))) (int i))
      + bytes_read (ms_sockets (sy_master s) ! i)"
    by (simp add: answered_def assms(4,6))
  have "length (concat (replicate n (wk_hello w))) = 12 * n" for n
    using w by (induction n) (simp_all add: worker_inv_def)
  then have sent: "length (sent_stream (wk_log w)) = 12 * greetings w + wk_sent w" "wk_sent w < 12"
    using w by (simp_all add: worker_inv_def)
  have "length (received_from fd log) \<le> length (sent_stream (wk_log w))" using ch(1) by (rule prefix_length_le)
  moreover have "length (jobs_taken (wk_log w)) \<le> length (jobs_to fd log)" using ch(2) by (rule prefix_length_le)
  moreover have "waiting_for_job w \<longrightarrow> wk_sent w = 0" using w by (simp add: worker_inv_def)
  ultimately show ?thesis using rec sent off by (auto simp: greetings_def)
qed

lemma one_job_in_flight_witness:
  "length (jobs_taken (wk_log demo_w1)) \<le> length (jobs_to 100 (ms_log demo_m3)) \<and>
    length (jobs_to 100 (ms_log demo_m3)) + count_list (ring_list (ms_idle demo_m3)) (int 3) =
      length (jobs_taken (wk_log demo_w1)) + 1"
proof -
  have s: "sy_master (demo_system demo_m3 demo_w1) = demo_m3" "sy_workers (demo_system demo_m3 demo_w1) 100 = demo_w1"
    by (simp_all add: demo_system_def)
  have at: "3 < ms_total_sockets demo_m3" "type_at demo_m3 3 = TYPE_BACKEND" "100 = fd_at demo_m3 3" by code_simp+
  have "waiting_for_job demo_w1 \<and> received_from 100 (ms_log demo_m3) = sent_stream (wk_log demo_w1)"
    by (simp add: waiting_for_job_def demo_facts)
  with one_job_in_flight[OF demo_system_reachable(1), unfolded s(1), OF at s(2)[symmetric] refl] show ?thesis by blast
qed

text \<open>
  A second run, with a new number for each connection: the worker goes away while it is idle, two others
  connect, the second of them in its place, and a connection comes.
\<close>

definition demo_stale_os :: os where
  "demo_stale_os = (demo_os demo_greeting)\<lparr>os_accept := \<lambda>l _. Some (100 + int (length l))\<rparr>"

definition demo_stale :: "nat \<Rightarrow> master" where
  "demo_stale n = fold (demo_next demo_stale_os)
     (take n [(1, {WL_SOCKET_ACCEPT}), (3, {WL_SOCKET_READABLE}), (3, {WL_SOCKET_CLOSED}), (1, {WL_SOCKET_ACCEPT}),
       (1, {WL_SOCKET_ACCEPT}), (2, {WL_SOCKET_ACCEPT})])
     (projr (master_startup demo_stale_os [5] 4 3))"

lemma demo_stale_law: "os_law demo_stale_os"
  using demo_os_law[of demo_greeting] by (simp add: os_law_def demo_stale_os_def demo_os_def)

text \<open>The logs of the run, and that each step is one of the master.\<close>

lemma demo_stale_logs:
  "ms_log (demo_stale 0) = []" "ms_log (demo_stale (Suc 0)) = [AcceptBackend 100]" "ms_log (demo_stale 2) = [Recv 100 (worker_hello 7), AcceptBackend 100]"
  "ms_log (demo_stale 3) = StreamClose 100 # ms_log (demo_stale 2)"
  "ms_log (demo_stale 4) = AcceptBackend 103 # ms_log (demo_stale 3)"
  "ms_log (demo_stale 5) = AcceptBackend 104 # ms_log (demo_stale 4)"
  "ms_log (demo_stale 6) = [StreamClose 105, SendFd 104 105, AcceptFrontend 105] @ ms_log (demo_stale 5)"
  by code_simp+

lemma demo_stale_steps:
  "master_step demo_stale_os (demo_stale 0) (demo_stale 1)" "master_step demo_stale_os (demo_stale 1) (demo_stale 2)"
  "master_step demo_stale_os (demo_stale 2) (demo_stale 3)" "master_step demo_stale_os (demo_stale 3) (demo_stale 4)"
  "master_step demo_stale_os (demo_stale 4) (demo_stale 5)" "master_step demo_stale_os (demo_stale 5) (demo_stale 6)"
proof -
  have step: "master_step demo_stale_os m (demo_next demo_stale_os (i, ev) m)"
    if "i < ms_total_sockets m" "\<not> isl (process_events demo_stale_os [(i, ev)] m)"
      "\<not> fst (projr (process_events demo_stale_os [(i, ev)] m))" for i ev m
    by (rule master_step.event[OF that(1) demo_next_step[OF that(2,3)]])
  have n: "demo_stale 1 = demo_next demo_stale_os (1, {WL_SOCKET_ACCEPT}) (demo_stale 0)"
    "demo_stale 2 = demo_next demo_stale_os (3, {WL_SOCKET_READABLE}) (demo_stale 1)"
    "demo_stale 3 = demo_next demo_stale_os (3, {WL_SOCKET_CLOSED}) (demo_stale 2)"
    "demo_stale 4 = demo_next demo_stale_os (1, {WL_SOCKET_ACCEPT}) (demo_stale 3)"
    "demo_stale 5 = demo_next demo_stale_os (1, {WL_SOCKET_ACCEPT}) (demo_stale 4)"
    "demo_stale 6 = demo_next demo_stale_os (2, {WL_SOCKET_ACCEPT}) (demo_stale 5)"
    by (simp_all add: demo_stale_def eval_nat_numeral)
  show "master_step demo_stale_os (demo_stale 0) (demo_stale 1)" unfolding n(1) by (rule step; code_simp)
  show "master_step demo_stale_os (demo_stale 1) (demo_stale 2)" unfolding n(2) by (rule step; code_simp)
  show "master_step demo_stale_os (demo_stale 2) (demo_stale 3)" unfolding n(3) by (rule step; code_simp)
  show "master_step demo_stale_os (demo_stale 3) (demo_stale 4)" unfolding n(4) by (rule step; code_simp)
  show "master_step demo_stale_os (demo_stale 4) (demo_stale 5)" unfolding n(5) by (rule step; code_simp)
  show "master_step demo_stale_os (demo_stale 5) (demo_stale 6)" unfolding n(6) by (rule step; code_simp)
qed

text \<open>
  C36: the place of an idle worker that has gone is not cleared. There is a run in which a worker that
  has just connected, and has not sent one byte of its greeting, is given a connection, because it got
  the place in the table of a worker that went away idle.
\<close>
lemma job_before_greeting:
  "\<exists>fds ipc k s i. system_reachable False fds ipc k s \<and> type_at (sy_master s) i = TYPE_BACKEND \<and>
    jobs_to (fd_at (sy_master s) i) (ms_log (sy_master s)) \<noteq> [] \<and>
    sent_stream (wk_log (sy_workers s (fd_at (sy_master s) i))) = []"
proof -
  define sys where "sys m = demo_system m demo_w1" for m
  have run: "system_reachable False [5] 4 3 (sys m')"
    if "system_reachable False [5] 4 3 (sys m)" "master_step demo_stale_os m m'" "channels (sys m')" for m m'
    using system_reachable.master[OF that(1) demo_stale_law, of m'] that(2,3) by (simp add: sys_def demo_system_def)
  have ch: "channels (sys (demo_stale 0))" "channels (sys (demo_stale 1))" "channels (sys (demo_stale 2))"
    "channels (sys (demo_stale 3))" "channels (sys (demo_stale 4))" "channels (sys (demo_stale 5))"
    "channels (sys (demo_stale 6))"
    by (simp_all add: channels_def sys_def demo_system_def demo_facts demo_stale_logs)
  have config: "master_config demo_stale_os [5] 3"
    by (simp add: master_config_def demo_stale_law PGINVALID_SOCKET_def)
  have "\<not> isl (master_startup demo_stale_os [5] 4 3)" by code_simp
  then have "master_startup demo_stale_os [5] 4 3 = Inr (demo_stale 0)" by (simp add: demo_stale_def)
  from system_reachable.start[OF config this, of False "\<lambda>_. 7"]
  have "system_reachable False [5] 4 3 (demo_system (demo_stale 0) (worker_startup 7))"
    unfolding demo_system_def by (simp add: fun_upd_idem)
  from system_reachable.worker[OF this, of demo_taker "{WL_SOCKET_WRITEABLE}" 100 demo_w1] ch(1)
  have "system_reachable False [5] 4 3 (sys (demo_stale 0))"
    using demo_worker_steps(1) by (simp add: sys_def demo_system_def demo_facts we_law_def demo_taker_def)
  then have "system_reachable False [5] 4 3 (sys (demo_stale 6))"
    by (intro run[OF _ demo_stale_steps(6) ch(7)] run[OF _ demo_stale_steps(5) ch(6)] run[OF _ demo_stale_steps(4) ch(5)]
        run[OF _ demo_stale_steps(3) ch(4)] run[OF _ demo_stale_steps(2) ch(3)] run[OF _ demo_stale_steps(1) ch(2)])
  moreover have "type_at (demo_stale 6) 3 = TYPE_BACKEND" "fd_at (demo_stale 6) 3 = 104"
    "jobs_to 104 (ms_log (demo_stale 6)) \<noteq> []" by code_simp+
  ultimately show ?thesis
    by (intro exI[of _ "[5]"] exI[of _ 4] exI[of _ 3] exI[of _ "sys (demo_stale 6)"])
      (simp add: sys_def demo_system_def demo_facts)
qed

end
