(* ===== verification/Contracts.thy ===== *)
theory Contracts
  imports Act
begin

text \<open>
  Contracts between components that are not one component's alone: systems that keep an invariant,
  systems that simulate others, and a cache whose entries are loaded when they are missed.
\<close>

section \<open>Systems that keep an invariant\<close>

locale invariant_system =
  fixes step :: "'s \<Rightarrow> 's \<Rightarrow> bool"
    and inv :: "'s \<Rightarrow> bool"
  assumes step_keeps: "inv s \<Longrightarrow> step s s' \<Longrightarrow> inv s'"
begin

lemma run_keeps: "step\<^sup>*\<^sup>* s s' \<Longrightarrow> inv s \<Longrightarrow> inv s'"
  by (induction rule: rtranclp_induct) (auto intro: step_keeps)

end

section \<open>Simulation\<close>

text \<open>Every step that keeps the invariant is, seen through \<open>view\<close>, a step of the other system.\<close>

locale simulation = invariant_system step inv
  for step :: "'s \<Rightarrow> 's \<Rightarrow> bool" and inv :: "'s \<Rightarrow> bool" +
  fixes view :: "'s \<Rightarrow> 'a"
    and abs_step :: "'a \<Rightarrow> 'a \<Rightarrow> bool"
  assumes step_simulated: "inv s \<Longrightarrow> step s s' \<Longrightarrow> abs_step (view s) (view s')"
begin

lemma run_simulated:
  assumes "step\<^sup>*\<^sup>* s s'" "inv s"
  shows "abs_step\<^sup>*\<^sup>* (view s) (view s')"
  using assms(1)
proof (induction rule: rtranclp_induct)
  case (step t t')
  from step(3) step_simulated[OF run_keeps[OF step(1) assms(2)] step(2)] show ?case by (rule rtranclp.rtrancl_into_rtrancl)
qed simp

end

section \<open>A cache\<close>

text \<open>
  What the client relies on: a loaded entry is found under its name until it is dropped, and neither
  loading nor dropping changes what is found under other names.
\<close>

locale entry_cache =
  fixes ok :: "'s \<Rightarrow> bool"
    and lookup :: "'s \<Rightarrow> 'n \<Rightarrow> 'h option"
    and load :: "'n \<Rightarrow> ('s, 'e) act"
    and handle :: "'e \<Rightarrow> 'h"
    and drop :: "'n \<Rightarrow> ('s, unit) act"
  assumes load_ok: "ok s \<Longrightarrow> lookup s n = None \<Longrightarrow> load n s = (Inr e, s') \<Longrightarrow> ok s'"
    and load_found: "ok s \<Longrightarrow> lookup s n = None \<Longrightarrow> load n s = (Inr e, s') \<Longrightarrow>
      lookup s' k = (if k = n then Some (handle e) else lookup s k)"
    and drop_ok: "ok s \<Longrightarrow> drop n s = (Inr (), s') \<Longrightarrow> ok s'"
    and drop_gone: "ok s \<Longrightarrow> drop n s = (Inr (), s') \<Longrightarrow> lookup s' k = (if k = n then None else lookup s k)"
begin

text \<open>The client takes what is there, and loads what is not.\<close>

definition get :: "'n \<Rightarrow> ('s, 'h) act" where
  "get n s = (case lookup s n of Some h \<Rightarrow> (Inr h, s) | None \<Rightarrow> act_bind (load n) (\<lambda>e. act_return (handle e)) s)"

lemma get_cases:
  assumes "get n s = (Inr h, s')"
  obtains "lookup s n = Some h" "s' = s" | e where "lookup s n = None" "load n s = (Inr e, s')" "h = handle e"
  using assms by (auto simp: get_def act_bind_def act_return_def split: option.splits prod.splits sum.splits)

lemma get_ok: "ok s \<Longrightarrow> get n s = (Inr h, s') \<Longrightarrow> ok s'"
  by (erule get_cases) (auto intro: load_ok)

lemma get_found: "ok s \<Longrightarrow> get n s = (Inr h, s') \<Longrightarrow> lookup s' n = Some h"
  by (erule get_cases) (auto simp: load_found)

text \<open>What was got once is not loaded again; what was dropped is.\<close>

lemma get_again: "ok s \<Longrightarrow> get n s = (Inr h, s') \<Longrightarrow> get n s' = (Inr h, s')"
  by (simp add: get_def[of n s'] get_found)

lemma get_dropped: "ok s \<Longrightarrow> drop n s = (Inr (), s') \<Longrightarrow> get n s' = act_bind (load n) (\<lambda>e. act_return (handle e)) s'"
  by (simp add: get_def drop_gone)

end

end
