(* ===== verification/Process.thy ===== *)
theory Process
  imports ModuleProps Http Contracts
begin

text \<open>
  What a worker process does with modules outside \<open>rst_prepare_module\<close>: the statements prepared at
  its start (\<open>module.c\<close>), the unloading of modules that were changed in the database, and the
  callbacks by which WAMR loads the modules another one imports (\<open>worker.c\<close>).
\<close>

section \<open>Start and teardown\<close>

text \<open>\<open>SPI_prepare\<close> gives a plan, \<open>SPI_keepplan\<close> succeeds: the answers of Postgres.\<close>

definition prepare_and_keep :: "bool \<Rightarrow> bool \<Rightarrow> (engine, nat) act" where
  "prepare_and_keep prepare_ok keep_ok =
     (if \<not> prepare_ok then act_lift (Inl (PgError ''could not prepare SPI plan''))
      else if \<not> keep_ok then act_lift (Inl (PgError ''failed to keep plan''))
      else acquire Plan)"

text \<open>\<open>load_module_plan\<close> and \<open>load_module_queries_plan\<close>.\<close>

type_synonym worker_plans = "nat option \<times> nat option"

definition rst_module_worker_startup :: "(bool \<times> bool) \<Rightarrow> (bool \<times> bool) \<Rightarrow> (engine, worker_plans) act" where
  "rst_module_worker_startup modules queries =
     act_bind (prepare_and_keep (fst modules) (snd modules)) (\<lambda>load_module_plan.
     act_bind (prepare_and_keep (fst queries) (snd queries)) (\<lambda>load_module_queries_plan.
       act_return (Some load_module_plan, Some load_module_queries_plan)))"

text \<open>\<open>SPI_freeplan\<close> takes a null pointer, which the plans are when no database is configured.\<close>

definition rst_module_worker_teardown :: "worker_plans \<Rightarrow> (engine, unit) act" where
  "rst_module_worker_teardown plans = act_then (release_opt Plan (fst plans)) (release_opt Plan (snd plans))"

section \<open>Modules that are loaded and that were changed\<close>

record process =
  pr_mock_methods :: bool \<comment> \<open>\<open>PqCommMethods == &mock_comm_methods\<close>\<close>
  pr_dest_remote :: bool \<comment> \<open>\<open>whereToSendOutput == DestRemote\<close>\<close>
  pr_engine :: engine
  pr_held :: "prepared_module list"
  pr_lost :: "prepared_module list"

text \<open>
  \<open>pr_held\<close> are the modules that are loaded; a module that is loaded is held from then on. \<open>pr_lost\<close>
  are the ones that were made for an import and that WAMR then refused: nothing refers to them.
\<close>

definition load_module :: "module_db \<Rightarrow> spi \<Rightarrow> wamr \<Rightarrow> byte list \<Rightarrow> (process, prepared_module) act" where
  "load_module db sp w name p =
     (case rst_prepare_module db sp w name False (pr_engine p) of
        (Inl e, en) \<Rightarrow> (Inl e, p\<lparr>pr_engine := en\<rparr>)
      | (Inr pm, en) \<Rightarrow> (Inr pm, p\<lparr>pr_engine := en, pr_held := pm # pr_held p\<rparr>))"

text \<open>The module is given by its address.\<close>

definition invalidate_cached_module :: "wamr \<Rightarrow> byte list \<Rightarrow> (process, unit) act" where
  "invalidate_cached_module w module_name p =
     (case rst_lookup_module w (pr_engine p) module_name of
        None \<Rightarrow> (Inr (), p)
      | Some module \<Rightarrow>
          (case find (\<lambda>pm. pm_block pm = module) (pr_held p) of
             None \<Rightarrow> (Inl (Undefined ''use after free''), p)
           | Some pm \<Rightarrow>
               (case rst_free_module pm (pr_engine p) of
                  (Inl e, en) \<Rightarrow> (Inl e, p\<lparr>pr_engine := en\<rparr>)
                | (Inr _, en) \<Rightarrow> (Inr (), p\<lparr>pr_engine := en, pr_held := filter (\<lambda>q. pm_block q \<noteq> module) (pr_held p)\<rparr>))))"

text \<open>\<open>pq_getmsgint\<close> and \<open>pq_getmsgstring\<close> on the rest of a message.\<close>

record msg_reader =
  pq_getmsgint :: "byte list \<Rightarrow> (u32 \<times> byte list) res"
  pq_getmsgstring :: "byte list \<Rightarrow> (byte list \<times> byte list) res"

definition deliver :: "msg_reader \<Rightarrow> wamr \<Rightarrow> char \<times> byte list \<Rightarrow> (process, unit) act" where
  "deliver pq w msg =
     act_bind (act_lift (mock_comm_putmessage (pq_getmsgint pq) (pq_getmsgstring pq) (fst msg) (snd msg))) (\<lambda>payload.
       case payload of None \<Rightarrow> act_return () | Some name \<Rightarrow> invalidate_cached_module w name)"

text \<open>\<open>ProcessNotifyInterrupt\<close> hands the messages \<open>msgs\<close> to the methods, in order.\<close>

definition on_notification_received :: "msg_reader \<Rightarrow> wamr \<Rightarrow> (char \<times> byte list) list \<Rightarrow> (process, unit) act" where
  "on_notification_received pq w msgs =
     act_bind (act_gets pr_mock_methods) (\<lambda>old_methods.
     act_then (act_modify (\<lambda>p. p\<lparr>pr_mock_methods := True, pr_dest_remote := True\<rparr>))
     (act_then (act_each (deliver pq w) msgs)
       (act_modify (\<lambda>p. p\<lparr>pr_dest_remote := False, pr_mock_methods := old_methods\<rparr>))))"

section \<open>Modules another one imports\<close>

text \<open>\<open>PG_CATCH(); { h }\<close> that does not throw again.\<close>

definition pg_swallow :: "('s, 'a) act \<Rightarrow> ('s, 'a) act \<Rightarrow> ('s, 'a) act" where
  "pg_swallow m h s = (case m s of (Inl (PgError msg), s') \<Rightarrow> h s' | r \<Rightarrow> r)"

text \<open>The module whose address becomes the name WAMR registers, or \<open>None\<close> for false.\<close>

definition wasm_module_reader_callback ::
  "module_db \<Rightarrow> spi \<Rightarrow> wamr \<Rightarrow> byte list \<Rightarrow> (engine, prepared_module option) act" where
  "wasm_module_reader_callback db sp w name =
     pg_swallow (act_bind (rst_prepare_module db sp w name True) (\<lambda>pm. act_return (Some pm))) (act_return None)"

definition wasm_module_completer_callback :: "nat \<Rightarrow> prepared_module \<Rightarrow> (engine, prepared_module) act" where
  "wasm_module_completer_callback module pmod =
     act_then (release_opt Table (pm_loading_tuptable pmod))
       (act_return (pmod\<lparr>pm_module := Some module, pm_loading_tuptable := None\<rparr>))"

definition wasm_module_destroyer_callback :: "(engine, unit) act" where
  "wasm_module_destroyer_callback = act_return ()"

section \<open>The process\<close>

text \<open>Between the callbacks WAMR loads the code and registers the module under the name it was given.\<close>

definition wamr_registers :: "prepared_module \<Rightarrow> nat \<Rightarrow> engine \<Rightarrow> engine \<Rightarrow> bool" where
  "wamr_registers pm m en en' \<longleftrightarrow> m = en_next en \<and>
     en' = en\<lparr>en_next := Suc m, en_live := insert (Module m) (en_live en),
       en_registry := (pm_name pm, m, pm_block pm) # en_registry en\<rparr>"

inductive process_step :: "wamr \<Rightarrow> process \<Rightarrow> process \<Rightarrow> bool" for w where
  ModuleStep: "module_step w (pr_engine p, pr_held p) (en, held) \<Longrightarrow>
    process_step w p (p\<lparr>pr_engine := en, pr_held := held\<rparr>)"
| Notified: "on_notification_received pq w msgs p = (Inr (), p') \<Longrightarrow> process_step w p p'"
| Dependency: "rst_lookup_module w (pr_engine p) name = None \<Longrightarrow>
    wasm_module_reader_callback db sp w name (pr_engine p) = (Inr (Some pm), en1) \<Longrightarrow>
    wamr_registers pm m en1 en2 \<Longrightarrow>
    wasm_module_completer_callback m pm en2 = (Inr pm', en3) \<Longrightarrow>
    process_step w p (p\<lparr>pr_engine := en3, pr_held := pm' # pr_held p\<rparr>)"
| NoDependency: "wasm_module_reader_callback db sp w name (pr_engine p) = (Inr None, en) \<Longrightarrow>
    process_step w p (p\<lparr>pr_engine := en\<rparr>)"
| Refused: "rst_lookup_module w (pr_engine p) name = None \<Longrightarrow>
    wasm_module_reader_callback db sp w name (pr_engine p) = (Inr (Some pm), en1) \<Longrightarrow>
    wasm_module_destroyer_callback en1 = (Inr (), en2) \<Longrightarrow>
    process_step w p (p\<lparr>pr_engine := en2, pr_lost := pm # pr_lost p\<rparr>)"

text \<open>A process that has prepared \<open>plans\<close>, if it has a database.\<close>

definition process_start :: "engine \<Rightarrow> process" where
  "process_start en = \<lparr>pr_mock_methods = False, pr_dest_remote = False, pr_engine = en, pr_held = [],
     pr_lost = []\<rparr>"

definition start_plans :: "bool \<Rightarrow> (bool \<times> bool) \<times> (bool \<times> bool) \<Rightarrow> (engine, worker_plans) act" where
  "start_plans database oks =
     (if database then rst_module_worker_startup (fst oks) (snd oks) else act_return (None, None))"

inductive process_reachable :: "wamr \<Rightarrow> worker_plans \<Rightarrow> process \<Rightarrow> bool" for w plans where
  Start: "start_plans database oks \<lparr>en_next = n, en_live = {}, en_registry = []\<rparr> = (Inr plans, en) \<Longrightarrow>
    process_reachable w plans (process_start en)"
| Step: "process_reachable w plans p \<Longrightarrow> process_step w p p' \<Longrightarrow> process_reachable w plans p'"

section \<open>Lemmas\<close>

lemma wp_swallow [simp]:
  "wp (pg_swallow m h) s Q E =
    wp m s Q (\<lambda>e s'. case e of PgError msg \<Rightarrow> wp h s' Q E | _ \<Rightarrow> E e s')"
  by (auto simp: wp_def pg_swallow_def split: sum.splits prod.splits failure.splits)

lemma wp_reader:
  assumes "en_wf en"
  shows "wp (wasm_module_reader_callback db sp w name) en
    (\<lambda>r en'. case r of Some pm \<Rightarrow> loaded db sp name True en pm en' | None \<Rightarrow> grown {} en en')
    (\<lambda>e _. \<forall>msg. e \<noteq> PgError msg)"
  unfolding wasm_module_reader_callback_def wp_swallow wp_bind
  by (rule wp_mono[OF wp_prepare_module[OF assms]]) (auto simp: on_error_def split: failure.splits)

text \<open>A dependency ends up as if \<open>rst_prepare_module\<close> had loaded it itself.\<close>

lemma completed_like_loaded:
  assumes "loaded db sp name True en pm en1" "wamr_registers pm m en1 en2"
  shows "\<exists>pm' en3. wasm_module_completer_callback m pm en2 = (Inr pm', en3) \<and> loaded db sp name False en pm' en3 \<and>
    pm_module pm' = Some m \<and> pm_loading_tuptable pm' = None \<and> pm_block pm' = pm_block pm \<and> pm_name pm' = name"
proof -
  have pm: "pm_module pm = None" "module_wf pm" "pm_name pm = name"
    using assms(1) by (auto simp: loaded_def)
  obtain t where t: "pm_loading_tuptable pm = Some t" using assms(1) by (auto simp: loaded_def)
  let ?pm = "pm\<lparr>pm_module := Some m, pm_loading_tuptable := None\<rparr>"
  let ?en = "en2\<lparr>en_live := en_live en2 - {Table t}\<rparr>"
  have g: "grown (owned_module pm) en en1" "en_registry en1 = en_registry en"
    using assms(1) pm(1) by (auto simp: loaded_def grown_def en_wf_def)
  have "Table t \<in> owned_module pm" using t by (simp add: owned_module_def)
  then have live: "Table t \<in> en_live en2" using g(1) assms(2) by (auto simp: grown_def wamr_registers_def)
  have "Module m \<notin> en_live en1" using grown_fresh[OF g(1), of "Module m"] assms(2) by (simp add: wamr_registers_def)
  then have "Module m \<notin> en_live en" using g(1) by (auto simp: grown_def)
  have "owned_module ?pm = insert (Module m) (owned_module pm - {Table t})"
    using pm(1) t by (auto simp: owned_module_def)
  moreover have "grown (insert (Module m) (owned_module pm - {Table t})) en (?en\<lparr>en_registry := en_registry en\<rparr>)"
    using g assms(2) live \<open>Module m \<notin> en_live en\<close> \<open>Table t \<in> owned_module pm\<close>
    by (auto simp: grown_def wamr_registers_def en_wf_def less_Suc_eq)
  ultimately have "loaded db sp name False en ?pm ?en"
    using assms(1,2) g(2) pm by (auto simp: loaded_def wamr_registers_def module_wf_def)
  then show ?thesis
    using t live by (auto simp: wasm_module_completer_callback_def act_then_def act_bind_def release_opt_def release_def
        act_return_def pm(3))
qed

lemma held_block_unique:
  "disjoint_modules held \<Longrightarrow> pm \<in> set held \<Longrightarrow> q \<in> set held \<Longrightarrow> pm_block pm = pm_block q \<Longrightarrow> pm = q"
proof (induction held)
  case (Cons x held)
  have "pm_block x \<noteq> pm_block y" if "y \<in> set held" for y
    using Cons.prems(1) owned_allI[OF that, of "Block (pm_block x)"] by (auto simp: owned_module_def)
  with Cons show ?case by auto metis+
qed simp

lemma remove1_filter_key:
  "distinct (map f xs) \<Longrightarrow> x \<in> set xs \<Longrightarrow> remove1 x xs = filter (\<lambda>y. f y \<noteq> f x) xs"
  by (induction xs) (auto simp: image_iff intro!: filter_True[symmetric])

definition process_inv :: "resource set \<Rightarrow> process \<Rightarrow> bool" where
  "process_inv others p \<longleftrightarrow> held_inv (others \<union> owned_all (pr_lost p)) (pr_engine p, pr_held p) \<and>
     others \<inter> owned_all (pr_lost p) = {} \<and> \<not> pr_mock_methods p \<and> \<not> pr_dest_remote p"

text \<open>A name that is not loaded changes nothing; the one module of a name that is is freed.\<close>

lemma invalidate_ok:
  assumes "held_inv others (pr_engine p, pr_held p)" "find_law w"
  shows "\<exists>en. invalidate_cached_module w name p =
      (Inr (), p\<lparr>pr_engine := en, pr_held := filter (\<lambda>pm. pm_name pm \<noteq> name) (pr_held p)\<rparr>) \<and>
    held_inv others (en, filter (\<lambda>pm. pm_name pm \<noteq> name) (pr_held p))"
proof (cases "rst_lookup_module w (pr_engine p) name")
  case None
  then have "filter (\<lambda>pm. pm_name pm \<noteq> name) (pr_held p) = pr_held p"
    using lookup_held[OF assms, of name] by (auto simp: filter_id_conv)
  then show ?thesis using assms(1) None by (auto simp: invalidate_cached_module_def intro!: exI[of _ "pr_engine p"])
next
  case (Some b)
  then obtain pm where pm: "pm \<in> set (pr_held p)" "pm_block pm = b" "pm_name pm = name"
    using lookup_held[OF assms, of name] by auto
  have h: "disjoint_modules (pr_held p)" "distinct (map pm_name (pr_held p))" using assms(1) by (auto simp: held_inv_def)
  have "find (\<lambda>pm. pm_block pm = b) (pr_held p) \<noteq> None" using pm by (auto simp: find_None_iff)
  then obtain q where q: "find (\<lambda>pm. pm_block pm = b) (pr_held p) = Some q" by blast
  then have "q \<in> set (pr_held p)" "pm_block q = b" by (auto simp: find_Some_iff)
  with pm have "q = pm" using held_block_unique[OF h(1)] by metis
  moreover obtain en where "rst_free_module pm (pr_engine p) = (Inr (), en)" "held_inv others (en, remove1 pm (pr_held p))"
    using held_inv_free[OF assms(1) pm(1)] by blast
  moreover have "filter (\<lambda>x. pm_block x \<noteq> b) (pr_held p) = filter (\<lambda>x. pm_name x \<noteq> name) (pr_held p)"
  proof (rule filter_cong[OF refl])
    fix x assume x: "x \<in> set (pr_held p)"
    then have "pm_block x = b \<longleftrightarrow> x = pm" using held_block_unique[OF h(1) x pm(1)] pm(2) by auto
    moreover have "pm_name x = name \<longleftrightarrow> x = pm" using inj_onD[OF _ _ x pm(1), of pm_name] h(2) pm(3) by (auto simp: distinct_map)
    ultimately show "(pm_block x \<noteq> b) = (pm_name x \<noteq> name)" by blast
  qed
  moreover have "remove1 pm (pr_held p) = filter (\<lambda>x. pm_name x \<noteq> name) (pr_held p)"
    using remove1_filter_key[OF h(2) pm(1)] pm(3) by simp
  ultimately show ?thesis using Some q by (intro exI[of _ en]) (simp add: invalidate_cached_module_def)
qed

text \<open>The format of the message: an \<open>int32\<close>, two C strings.\<close>

definition reader_law :: "msg_reader \<Rightarrow> bool" where
  "reader_law pq \<longleftrightarrow>
     (\<forall>pid s. length pid = 4 \<longrightarrow> (\<exists>n. pq_getmsgint pq (pid @ s) = Inr (n, s))) \<and>
     (\<forall>str s. 0 \<notin> set str \<longrightarrow> pq_getmsgstring pq (str @ 0 # s) = Inr (str, s))"

record notification =
  nt_pid :: i32
  nt_channel :: "byte list"
  nt_payload :: "byte list"

definition notification_ok :: "notification \<Rightarrow> bool" where
  "notification_ok nt \<longleftrightarrow> 0 \<notin> set (nt_channel nt) \<and> 0 \<notin> set (nt_payload nt)"

definition message_of :: "notification \<Rightarrow> char \<times> byte list" where
  "message_of nt = (CHR ''A'', le_bytes32 (nt_pid nt) @ nt_channel nt @ 0 # nt_payload nt @ [0])"

definition named :: "notification list \<Rightarrow> byte list set" where
  "named nts = nt_payload ` {nt \<in> set nts. nt_channel nt = cache_invalidation}"

lemma mock_comm_message:
  assumes "reader_law pq" "notification_ok nt" "message_of nt = (t, s)"
  shows "mock_comm_putmessage (pq_getmsgint pq) (pq_getmsgstring pq) t s =
    Inr (if nt_channel nt = cache_invalidation then Some (nt_payload nt) else None)"
proof -
  have t: "t = CHR ''A''" and s: "s = le_bytes32 (nt_pid nt) @ nt_channel nt @ 0 # nt_payload nt @ [0]"
    using assms(3) by (auto simp: message_of_def)
  obtain n where n: "pq_getmsgint pq s = Inr (n, nt_channel nt @ 0 # nt_payload nt @ [0])"
    using assms(1) by (metis reader_law_def length_le_bytes32 s)
  have "pq_getmsgstring pq (nt_channel nt @ 0 # nt_payload nt @ [0]) = Inr (nt_channel nt, nt_payload nt @ [0])"
    "pq_getmsgstring pq (nt_payload nt @ [0]) = Inr (nt_payload nt, [])"
    using assms(1,2) by (simp_all add: reader_law_def notification_ok_def)
  with n t show ?thesis by (simp add: mock_comm_putmessage_def)
qed

lemma deliver_each:
  assumes "reader_law pq" "find_law w" "\<forall>nt \<in> set nts. notification_ok nt" "held_inv others (pr_engine p, pr_held p)"
  shows "\<exists>en. act_each (deliver pq w) (map message_of nts) p =
      (Inr (), p\<lparr>pr_engine := en, pr_held := filter (\<lambda>pm. pm_name pm \<notin> named nts) (pr_held p)\<rparr>) \<and>
    held_inv others (en, filter (\<lambda>pm. pm_name pm \<notin> named nts) (pr_held p))"
  using assms(3,4)
proof (induction nts arbitrary: p)
  case Nil
  then show ?case by (auto simp: named_def act_return_def intro!: exI[of _ "pr_engine p"])
next
  case (Cons nt nts)
  define h where "h = (if nt_channel nt = cache_invalidation then filter (\<lambda>pm. pm_name pm \<noteq> nt_payload nt) (pr_held p)
    else pr_held p)"
  obtain t s where m: "message_of nt = (t, s)" by (cases "message_of nt")
  note msg = mock_comm_message[OF assms(1) _ m]
  have "\<exists>en. deliver pq w (message_of nt) p = (Inr (), p\<lparr>pr_engine := en, pr_held := h\<rparr>) \<and> held_inv others (en, h)"
    using invalidate_ok[OF Cons.prems(2) assms(2), of "nt_payload nt"] Cons.prems msg
    by (auto simp: deliver_def m act_bind_def act_lift_def act_return_def h_def intro!: exI[of _ "pr_engine p"])
  then obtain en where d: "deliver pq w (message_of nt) p = (Inr (), p\<lparr>pr_engine := en, pr_held := h\<rparr>)"
    "held_inv others (en, h)" by blast
  have "filter (\<lambda>pm. pm_name pm \<notin> named nts) h = filter (\<lambda>pm. pm_name pm \<notin> named (nt # nts)) (pr_held p)"
    by (auto simp: h_def named_def intro!: filter_cong)
  with Cons.IH[of "p\<lparr>pr_engine := en, pr_held := h\<rparr>"] Cons.prems(1) d show ?case
    by (auto simp: act_then_def act_bind_def)
qed

lemma deliver_inv:
  assumes "find_law w" "act_each (deliver pq w) msgs p = (Inr (), p')" "held_inv others (pr_engine p, pr_held p)"
  shows "held_inv others (pr_engine p', pr_held p')"
  using assms(2,3)
proof (induction msgs arbitrary: p)
  case (Cons m msgs)
  then obtain p1 where p1: "deliver pq w m p = (Inr (), p1)" "act_each (deliver pq w) msgs p1 = (Inr (), p')"
    by (auto simp: act_then_def act_bind_def split: prod.splits sum.splits)
  have "held_inv others (pr_engine p1, pr_held p1)"
  proof (cases "mock_comm_putmessage (pq_getmsgint pq) (pq_getmsgstring pq) (fst m) (snd m)")
    case (Inr r)
    show ?thesis
    proof (cases r)
      case (Some name)
      with Inr p1(1) invalidate_ok[OF Cons.prems(2) assms(1), of name] show ?thesis
        by (auto simp: deliver_def act_bind_def act_lift_def)
    qed (use Inr p1(1) Cons.prems(2) in \<open>simp add: deliver_def act_bind_def act_lift_def act_return_def\<close>)
  qed (use p1(1) in \<open>simp add: deliver_def act_bind_def act_lift_def\<close>)
  then show ?case by (rule Cons.IH[OF p1(2)])
qed (simp add: act_return_def)

lemma invalidate_lost: "invalidate_cached_module w name p = (r, p') \<Longrightarrow> pr_lost p' = pr_lost p"
  by (auto simp: invalidate_cached_module_def split: option.splits prod.splits sum.splits)

lemma deliver_lost: "act_each (deliver pq w) msgs p = (r, p') \<Longrightarrow> pr_lost p' = pr_lost p"
proof (induction msgs arbitrary: p)
  case (Cons m msgs)
  obtain r1 p1 where p1: "deliver pq w m p = (r1, p1)" by (cases "deliver pq w m p")
  then have "pr_lost p1 = pr_lost p"
    by (auto simp: deliver_def act_bind_def act_lift_def act_return_def dest: invalidate_lost
        split: sum.splits option.splits)
  with Cons p1 show ?case by (auto simp: act_then_def act_bind_def split: sum.splits)
qed (simp add: act_return_def)

lemma notified_lost:
  "on_notification_received pq w msgs p = (Inr (), p') \<Longrightarrow> pr_lost p' = pr_lost p"
  by (auto simp: on_notification_received_def act_bind_def act_then_def act_gets_def act_modify_def
      dest: deliver_lost split: prod.splits sum.splits)

lemma notified_eq:
  "act_each (deliver pq w) msgs (p\<lparr>pr_mock_methods := True, pr_dest_remote := True\<rparr>) = (Inr (), p') \<Longrightarrow>
    on_notification_received pq w msgs p =
      (Inr (), p'\<lparr>pr_dest_remote := False, pr_mock_methods := pr_mock_methods p\<rparr>)"
  by (simp add: on_notification_received_def act_bind_def act_then_def act_gets_def act_modify_def)

lemma process_inv_step:
  assumes "process_step w p p'" "process_inv others p" "find_law w"
  shows "process_inv others p'"
proof -
  let ?others = "others \<union> owned_all (pr_lost p)"
  have inv: "held_inv ?others (pr_engine p, pr_held p)" using assms(2) by (simp add: process_inv_def)
  then have wf: "en_wf (pr_engine p)" by (simp add: held_inv_def)
  from assms(1) show ?thesis
  proof (cases rule: process_step.cases)
    case (ModuleStep en held)
    with assms(2) held_inv_step[OF ModuleStep(2) _ assms(3)] show ?thesis by (simp add: process_inv_def)
  next
    case (Notified pq msgs)
    then obtain q where q: "act_each (deliver pq w) msgs (p\<lparr>pr_mock_methods := True, pr_dest_remote := True\<rparr>) = (Inr (), q)"
      by (auto simp: on_notification_received_def act_bind_def act_then_def act_gets_def act_modify_def
          split: prod.splits sum.splits)
    then have "held_inv ?others (pr_engine q, pr_held q)" by (rule deliver_inv[OF assms(3)]) (use inv in simp)
    then show ?thesis using notified_eq[OF q] Notified(1) assms(2) deliver_lost[OF q] by (auto simp: process_inv_def)
  next
    case (Dependency name db sp pm en1 m en2 pm' en3)
    then have "loaded db sp name True (pr_engine p) pm en1"
      using wp_reader[OF wf, of db sp w name] by (simp add: wp_def)
    from completed_like_loaded[OF this Dependency(4)] Dependency(5)
    have "loaded db sp name False (pr_engine p) pm' en3" by auto
    from held_inv_load[OF inv assms(3) Dependency(2) this] show ?thesis
      using Dependency(1) assms(2) by (simp add: process_inv_def)
  next
    case (NoDependency db sp name en)
    then have "grown {} (pr_engine p) en" using wp_reader[OF wf, of db sp w name] by (simp add: wp_def)
    then show ?thesis using NoDependency(1) assms(2) by (auto simp: process_inv_def held_inv_def grown_def)
  next
    case (Refused name db sp pm en1 en2)
    then have l: "loaded db sp name True (pr_engine p) pm en1"
      using wp_reader[OF wf, of db sp w name] by (simp add: wp_def)
    moreover have "en2 = en1" using Refused(4) by (simp add: wasm_module_destroyer_callback_def act_return_def)
    moreover have "en1\<lparr>en_registry := en_registry (pr_engine p)\<rparr> = en1" using l by (auto simp: loaded_def)
    ultimately show ?thesis
      using Refused(1) assms(2) inv by (auto simp: process_inv_def held_inv_def loaded_def grown_def)
  qed
qed

definition owned_start :: "worker_plans \<Rightarrow> resource set" where
  "owned_start plans = Plan ` set_option (fst plans) \<union> Plan ` set_option (snd plans)"

lemma start_plans_inv:
  assumes "start_plans database oks \<lparr>en_next = n, en_live = {}, en_registry = []\<rparr> = (Inr plans, en)"
  shows "process_inv (owned_start plans) (process_start en)"
  using assms
  by (auto simp: start_plans_def rst_module_worker_startup_def prepare_and_keep_def act_bind_def act_lift_def acquire_def
      act_return_def process_inv_def process_start_def held_inv_def owned_start_def en_wf_def split: if_splits)

lemma process_reachable_inv: "process_reachable w plans p \<Longrightarrow> find_law w \<Longrightarrow> process_inv (owned_start plans) p"
proof (induction rule: process_reachable.induct)
  case (Start database oks n en)
  then show ?case using start_plans_inv by blast
qed (rule process_inv_step)

text \<open>The teardown finds the plans of the start, whatever the process did with modules.\<close>

lemma start_plans_distinct:
  "start_plans database oks en = (Inr plans, en') \<Longrightarrow> fst plans = None \<and> snd plans = None \<or> fst plans \<noteq> snd plans"
  by (auto simp: start_plans_def rst_module_worker_startup_def prepare_and_keep_def act_bind_def act_lift_def acquire_def
      act_return_def split: if_splits)

lemma process_plans_distinct: "process_reachable w plans p \<Longrightarrow> fst plans = None \<and> snd plans = None \<or> fst plans \<noteq> snd plans"
  by (induction rule: process_reachable.induct) (use start_plans_distinct in blast)

lemma teardown_ok:
  assumes "process_inv (owned_start plans) p" "fst plans = None \<and> snd plans = None \<or> fst plans \<noteq> snd plans"
  shows "\<exists>en. rst_module_worker_teardown plans (pr_engine p) = (Inr (), en) \<and> 
    en_live en = owned_all (pr_lost p) \<union> owned_all (pr_held p)"
proof -
  let ?rest = "owned_all (pr_lost p) \<union> owned_all (pr_held p)"
  have h: "en_live (pr_engine p) = owned_start plans \<union> ?rest" "owned_start plans \<inter> ?rest = {}"
    using assms(1) by (auto simp: process_inv_def held_inv_def)
  then have "en_live (pr_engine p) - owned_start plans = ?rest" by blast
  then show ?thesis
    using assms(2) h unfolding rst_module_worker_teardown_def owned_start_def
    by (cases "fst plans"; cases "snd plans")
      (auto simp: act_then_def act_bind_def release_opt_def release_def act_return_def Diff_insert2[symmetric] insert_commute)
qed

text \<open>A lookup sees the modules that are held, and the process is a cache of modules.\<close>

lemma lookup_iff:
  assumes "find_law w" "process_inv others p"
  shows "rst_lookup_module w (pr_engine p) name = Some b \<longleftrightarrow> (\<exists>pm \<in> set (pr_held p). pm_name pm = name \<and> pm_block pm = b)"
proof -
  have inv: "held_inv (others \<union> owned_all (pr_lost p)) (pr_engine p, pr_held p)" using assms(2) by (simp add: process_inv_def)
  then have names: "inj_on pm_name (set (pr_held p))" by (simp add: held_inv_def distinct_map)
  show ?thesis
    using lookup_held[OF inv assms(1), of name] inj_onD[OF names] by (auto split: option.splits)
qed

lemma load_module_Inr:
  assumes "load_module db sp w name p = (Inr pm, p')"
  obtains en where "rst_prepare_module db sp w name False (pr_engine p) = (Inr pm, en)"
    "p' = p\<lparr>pr_engine := en, pr_held := pm # pr_held p\<rparr>"
  using assms by (auto simp: load_module_def split: prod.splits sum.splits)

lemma load_module_inv:
  assumes "find_law w" "process_inv others p" "rst_lookup_module w (pr_engine p) name = None"
    and "load_module db sp w name p = (Inr pm, p')"
  shows "process_inv others p' \<and> pm_name pm = name"
proof -
  obtain en where en: "rst_prepare_module db sp w name False (pr_engine p) = (Inr pm, en)"
    "p' = p\<lparr>pr_engine := en, pr_held := pm # pr_held p\<rparr>" by (rule load_module_Inr[OF assms(4)])
  have inv: "held_inv (others \<union> owned_all (pr_lost p)) (pr_engine p, pr_held p)" using assms(2) by (simp add: process_inv_def)
  then have l: "loaded db sp name False (pr_engine p) pm en"
    using wp_prepare_module[of "pr_engine p" db sp w name False] en(1) by (simp add: wp_def held_inv_def)
  from held_inv_load[OF inv assms(1,3) this] l show ?thesis
    using assms(2) by (simp add: process_inv_def en(2) loaded_def)
qed

lemma invalidate_Inr:
  assumes "find_law w" "process_inv others p" "invalidate_cached_module w name p = (Inr (), p')"
  shows "process_inv others p' \<and> pr_held p' = filter (\<lambda>pm. pm_name pm \<noteq> name) (pr_held p)"
  using invalidate_ok[of "others \<union> owned_all (pr_lost p)" p w name] assms by (auto simp: process_inv_def)

lemma lookup_same:
  assumes "find_law w" "process_inv others p" "process_inv others p'"
    and "\<And>pm. pm_name pm = name \<Longrightarrow> pm \<in> set (pr_held p') \<longleftrightarrow> pm \<in> set (pr_held p)"
  shows "rst_lookup_module w (pr_engine p') name = rst_lookup_module w (pr_engine p) name"
proof (cases "rst_lookup_module w (pr_engine p) name")
  case None
  then have "rst_lookup_module w (pr_engine p') name \<noteq> Some b" for b
    using assms(4) lookup_iff[OF assms(1,2), of name b] lookup_iff[OF assms(1,3), of name b] by auto
  with None show ?thesis by (cases "rst_lookup_module w (pr_engine p') name") auto
next
  case (Some b)
  then have "rst_lookup_module w (pr_engine p') name = Some b"
    using assms(4) lookup_iff[OF assms(1,2), of name b] lookup_iff[OF assms(1,3), of name b] by auto
  with Some show ?thesis by simp
qed

interpretation modules: entry_cache "\<lambda>p. find_law w \<and> process_inv others p" "\<lambda>p. rst_lookup_module w (pr_engine p)"
  "load_module db sp w" pm_block "invalidate_cached_module w"
  for w :: wamr and others :: "resource set" and db :: module_db and sp :: spi
proof (unfold_locales, goal_cases)
  case (1 p n pm p')
  then show ?case using load_module_inv by blast
next
  case (2 p n pm p' k)
  then have inv: "process_inv others p'" "pm_name pm = n" using load_module_inv by blast+
  have held: "pr_held p' = pm # pr_held p" by (rule load_module_Inr[OF 2(3)]) simp
  show ?case
  proof (cases "k = n")
    case True
    then show ?thesis using lookup_iff[of w others p' n "pm_block pm"] 2(1) inv held by auto
  next
    case False
    then have "rst_lookup_module w (pr_engine p') k = rst_lookup_module w (pr_engine p) k"
      using 2(1) inv held by (intro lookup_same[of w others]) auto
    with False show ?thesis by simp
  qed
next
  case (3 p n p')
  then show ?case using invalidate_Inr by blast
next
  case (4 p n p' k)
  then have inv: "process_inv others p'" "pr_held p' = filter (\<lambda>pm. pm_name pm \<noteq> n) (pr_held p)"
    using invalidate_Inr by blast+
  show ?case
  proof (cases "k = n")
    case True
    then show ?thesis using lookup_iff[of w others p' n] 4(1) inv by auto
  next
    case False
    then have "rst_lookup_module w (pr_engine p') k = rst_lookup_module w (pr_engine p) k"
      using 4(1) inv by (intro lookup_same[of w others]) auto
    with False show ?thesis by simp
  qed
qed

lemma process_lookup:
  assumes "process_reachable w plans p" "find_law w"
  shows "case rst_lookup_module w (pr_engine p) name of
      Some b \<Rightarrow> \<exists>pm \<in> set (pr_held p). pm_block pm = b \<and> pm_name pm = name \<and> pm_module pm \<noteq> None \<and>
        owned_module pm \<subseteq> en_live (pr_engine p)
    | None \<Rightarrow> name \<notin> pm_name ` set (pr_held p)"
  using process_reachable_inv[OF assms] lookup_held[OF _ assms(2)] by (auto simp: process_inv_def)

lemma process_names: "process_reachable w plans p \<Longrightarrow> find_law w \<Longrightarrow> distinct (map pm_name (pr_held p))"
  using process_reachable_inv by (auto simp: process_inv_def held_inv_def)

text \<open>The messages of notifications, read and acted on.\<close>

lemma notified_unloads:
  assumes "process_reachable w plans p" "find_law w" "reader_law pq" "\<forall>nt \<in> set nts. notification_ok nt"
  shows "\<exists>p'. on_notification_received pq w (map message_of nts) p = (Inr (), p') \<and>
    pr_held p' = filter (\<lambda>pm. pm_name pm \<notin> named nts) (pr_held p) \<and>
    (\<forall>name \<in> named nts. rst_lookup_module w (pr_engine p') name = None) \<and>
    (\<forall>pm \<in> set (pr_held p'). rst_lookup_module w (pr_engine p') (pm_name pm) = Some (pm_block pm)) \<and>
    en_live (pr_engine p') = owned_start plans \<union> owned_all (pr_lost p) \<union> owned_all (pr_held p') \<and>
    pr_lost p' = pr_lost p \<and> \<not> pr_mock_methods p' \<and> \<not> pr_dest_remote p'"
proof -
  let ?held = "filter (\<lambda>pm. pm_name pm \<notin> named nts) (pr_held p)"
  let ?q = "p\<lparr>pr_mock_methods := True, pr_dest_remote := True\<rparr>"
  have inv: "process_inv (owned_start plans) p" by (rule process_reachable_inv[OF assms(1,2)])
  then obtain en where en: "act_each (deliver pq w) (map message_of nts) ?q = (Inr (), ?q\<lparr>pr_engine := en, pr_held := ?held\<rparr>)"
    "held_inv (owned_start plans \<union> owned_all (pr_lost p)) (en, ?held)"
    using deliver_each[OF assms(3,2,4), of "owned_start plans \<union> owned_all (pr_lost p)" ?q] by (auto simp: process_inv_def)
  have uniq: "distinct (map pm_name ?held)" "en_live en = owned_start plans \<union> owned_all (pr_lost p) \<union> owned_all ?held" using en(2) by (simp_all add: held_inv_def)
  have "rst_lookup_module w en name = None" if "name \<in> named nts" for name
    using lookup_held[OF en(2) assms(2), of name] that by (auto split: option.splits)
  moreover have "rst_lookup_module w en (pm_name pm) = Some (pm_block pm)" if "pm \<in> set ?held" for pm
    using lookup_held[OF en(2) assms(2), of "pm_name pm"] that uniq(1)
    by (fastforce simp: distinct_map inj_on_def split: option.splits)
  ultimately show ?thesis
    using notified_eq[OF en(1)] inv uniq(2) by (auto simp: process_inv_def)
qed

section \<open>Properties\<close>

text \<open>
  C10: whatever a worker process does with modules, by loading and freeing them, by loading what
  others import, by unloading what was changed, a lookup gives a module that is held, has that
  name, and whose memory, plans and code are live, or says truly that none is held, and every
  module can be freed. What the process owns are the statements of its start, the modules it
  holds, and the modules that were made for an import WAMR then refused; the last are lost, they
  stay when the process ends its work.
\<close>
lemma process_lookups_live:
  assumes "process_reachable w plans p" "find_law w"
  shows "(case rst_lookup_module w (pr_engine p) name of
      Some b \<Rightarrow> \<exists>pm \<in> set (pr_held p). pm_block pm = b \<and> pm_name pm = name \<and> pm_module pm \<noteq> None \<and>
        owned_module pm \<subseteq> en_live (pr_engine p)
    | None \<Rightarrow> name \<notin> pm_name ` set (pr_held p)) \<and>
    en_live (pr_engine p) = owned_start plans \<union> owned_all (pr_lost p) \<union> owned_all (pr_held p) \<and>
    owned_all (pr_lost p) \<inter> owned_all (pr_held p) = {} \<and>
    (\<forall>pm \<in> set (pr_held p). \<exists>en'. rst_free_module pm (pr_engine p) = (Inr (), en')) \<and>
    (\<exists>en'. rst_module_worker_teardown plans (pr_engine p) = (Inr (), en') \<and>
       en_live en' = owned_all (pr_lost p) \<union> owned_all (pr_held p))"
proof -
  note proc = process_reachable_inv[OF assms]
  then have inv: "held_inv (owned_start plans \<union> owned_all (pr_lost p)) (pr_engine p, pr_held p)"
    by (simp add: process_inv_def)
  then have "en_live (pr_engine p) = owned_start plans \<union> owned_all (pr_lost p) \<union> owned_all (pr_held p)"
    "owned_all (pr_lost p) \<inter> owned_all (pr_held p) = {}" by (auto simp: held_inv_def)
  with lookup_held[OF inv assms(2), of name] held_inv_free[OF inv] teardown_ok[OF proc process_plans_distinct[OF assms(1)]]
  show ?thesis by blast
qed

lemma no_start_plans: "owned_start (None, None) = {}"
  by (simp add: owned_start_def)

definition demo_process :: "engine \<Rightarrow> prepared_module list \<Rightarrow> process" where
  "demo_process en held = \<lparr>pr_mock_methods = False, pr_dest_remote = False, pr_engine = en, pr_held = held,
     pr_lost = []\<rparr>"

lemma demo_process_start: "process_reachable demo_wamr (None, None) (demo_process no_engine [])"
  using process_reachable.Start[of False "((True, True), (True, True))" 0 "(None, None)"]
  by (simp add: demo_process_def process_start_def no_engine_def start_plans_def act_return_def)

lemma demo_process_reachable:
  obtains pm en where "process_reachable demo_wamr (None, None) (demo_process en [pm])" "pm_name pm = demo_name"
proof (rule demo_load)
  fix pm en
  assume l: "rst_prepare_module demo_db demo_spi demo_wamr demo_name False no_engine = (Inr pm, en)" "pm_name pm = demo_name"
  note demo_process_start
  moreover have "rst_lookup_module demo_wamr no_engine demo_name = None"
    by (simp add: rst_lookup_module_def demo_wamr_def no_engine_def)
  then have "module_step demo_wamr (no_engine, []) (en, [pm])" by (rule module_step.Load[OF _ l(1)])
  then have "process_step demo_wamr (demo_process no_engine []) (demo_process en [pm])"
    using process_step.ModuleStep[of demo_wamr "demo_process no_engine []" en "[pm]"] by (simp add: demo_process_def)
  ultimately show thesis using that l(2) process_reachable.Step by blast
qed

text \<open>
  C12: notifications unload exactly the modules they name. However many arrive at once, on whichever
  channels, whatever names they carry, loaded or not, repeated or not: afterwards no module of a
  name sent on the channel of the module cache is found, all others still are, in their order,
  what the unloaded ones owned is given back, and Postgres' output methods are the old ones.
\<close>
lemma notified_modules_unloaded:
  assumes "process_reachable w plans p" "find_law w" "reader_law pq" "\<forall>nt \<in> set nts. notification_ok nt"
  shows "\<exists>p'. on_notification_received pq w (map message_of nts) p = (Inr (), p') \<and>
    pr_held p' = filter (\<lambda>pm. pm_name pm \<notin> named nts) (pr_held p) \<and>
    (\<forall>name \<in> named nts. rst_lookup_module w (pr_engine p') name = None) \<and>
    (\<forall>pm \<in> set (pr_held p'). rst_lookup_module w (pr_engine p') (pm_name pm) = Some (pm_block pm)) \<and>
    en_live (pr_engine p') = owned_start plans \<union> owned_all (pr_lost p) \<union> owned_all (pr_held p') \<and>
    pr_lost p' = pr_lost p \<and> \<not> pr_mock_methods p' \<and> \<not> pr_dest_remote p'"
  by (rule notified_unloads[OF assms])

definition demo_reader :: msg_reader where
  "demo_reader = \<lparr>pq_getmsgint = (\<lambda>s. Inr (0, drop 4 s)),
     pq_getmsgstring = (\<lambda>s. if 0 \<in> set s then Inr (takeWhile (\<lambda>b. b \<noteq> 0) s, tl (dropWhile (\<lambda>b. b \<noteq> 0) s))
       else Inl (PgError ''invalid string in message''))\<rparr>"

lemma demo_reader_law: "reader_law demo_reader"
proof -
  have "takeWhile (\<lambda>b. b \<noteq> 0) (str @ 0 # s) = str \<and> tl (dropWhile (\<lambda>b. b \<noteq> 0) (str @ 0 # s)) = s"
    if "0 \<notin> set str" for str s :: "byte list"
    using that by (induction str) auto
  then show ?thesis by (simp add: reader_law_def demo_reader_def)
qed

lemma notified_modules_unloaded_witness:
  "\<exists>p p' pm. pr_held p = [pm] \<and>
    on_notification_received demo_reader demo_wamr
      [message_of \<lparr>nt_pid = 7, nt_channel = cache_invalidation, nt_payload = demo_name\<rparr>] p = (Inr (), p') \<and>
    pr_held p' = [] \<and> en_live (pr_engine p') = {}"
proof (rule demo_process_reachable)
  let ?nt = "\<lparr>nt_pid = 7, nt_channel = cache_invalidation, nt_payload = demo_name\<rparr>"
  fix pm en
  assume r: "process_reachable demo_wamr (None, None) (demo_process en [pm])" "pm_name pm = demo_name"
  have "notification_ok ?nt" by (simp add: notification_ok_def cache_invalidation_def demo_name_def)
  moreover have "named [?nt] = {demo_name}" by (auto simp: named_def)
  ultimately obtain p' where p': "on_notification_received demo_reader demo_wamr [message_of ?nt] (demo_process en [pm]) = (Inr (), p')"
    "pr_held p' = []" "en_live (pr_engine p') = {}"
    using notified_modules_unloaded[OF r(1) demo_find_law demo_reader_law, of "[?nt]"] r(2) no_start_plans
    by (auto simp: demo_process_def)
  have "pr_held (demo_process en [pm]) = [pm]" by (simp add: demo_process_def)
  with p' show ?thesis by blast
qed

text \<open>
  A module that is imported and that WAMR then refuses: what the reader made is new, its memory,
  its plans and the result of the query; the only callback that is left does nothing.
\<close>
lemma refused_dependency_leaks:
  assumes "process_reachable w plans p" "find_law w"
    and "wasm_module_reader_callback db sp w name (pr_engine p) = (Inr (Some pm), en)"
  shows "\<exists>en' t. wasm_module_destroyer_callback en = (Inr (), en') \<and> pm_loading_tuptable pm = Some t \<and>
    en_live en' = en_live (pr_engine p) \<union> owned_module pm \<and> owned_module pm \<inter> en_live (pr_engine p) = {} \<and>
    {Block (pm_block pm), Table t} \<union> owned_plans (pm_queries pm) \<subseteq> owned_module pm"
proof -
  have "en_wf (pr_engine p)"
    using process_reachable_inv[OF assms(1,2)] by (simp add: process_inv_def held_inv_def)
  then have "loaded db sp name True (pr_engine p) pm en"
    using wp_reader[of "pr_engine p" db sp w name] assms(3) by (simp add: wp_def)
  then obtain t where "pm_loading_tuptable pm = Some t" "en_live en = en_live (pr_engine p) \<union> owned_module pm"
    "owned_module pm \<inter> en_live (pr_engine p) = {}" by (auto simp: loaded_def grown_def)
  then show ?thesis
    by (auto simp: wasm_module_destroyer_callback_def act_return_def owned_module_def)
qed

text \<open>A process that loaded a module, and then an import that was refused: the second is lost.\<close>

lemma process_lookups_live_witness:
  "\<exists>p pm lost t. process_reachable demo_wamr (None, None) p \<and> pr_held p = [pm] \<and> pr_lost p = [lost] \<and>
    rst_lookup_module demo_wamr (pr_engine p) demo_name = Some (pm_block pm) \<and>
    owned_module pm \<union> owned_module lost = en_live (pr_engine p) \<and> Table t \<in> owned_module lost - owned_module pm"
proof (rule demo_process_reachable)
  fix pm en
  assume r: "process_reachable demo_wamr (None, None) (demo_process en [pm])" "pm_name pm = demo_name"
  let ?p = "demo_process en [pm]" and ?db = "demo_db" and ?name = "[98]"
  note p = process_lookups_live[OF r(1) demo_find_law]
  have wf: "en_wf en" using process_reachable_inv[OF r(1) demo_find_law] by (simp add: process_inv_def held_inv_def demo_process_def)
  have "loads demo_db demo_spi demo_wamr ?name [0] [demo_row]" using demo_loads by (simp add: loads_def demo_db_def demo_wamr_def demo_name_def)
  then obtain lost en1 where rd: "wasm_module_reader_callback demo_db demo_spi demo_wamr ?name en = (Inr (Some lost), en1)"
    using wp_prepare_ok[OF demo_rows_ok _ wf, of demo_db demo_spi demo_wamr ?name "[0]" True]
    by (auto simp: wp_def wasm_module_reader_callback_def pg_swallow_def act_bind_def act_return_def split: prod.splits sum.splits)
  have none: "rst_lookup_module demo_wamr en ?name = None"
    using p[of ?name] r(2) by (auto simp: demo_process_def demo_name_def split: option.splits)
  have "wasm_module_destroyer_callback en1 = (Inr (), en1)" by (simp add: wasm_module_destroyer_callback_def act_return_def)
  then have "process_step demo_wamr ?p (?p\<lparr>pr_engine := en1, pr_lost := [lost]\<rparr>)"
    using process_step.Refused[of demo_wamr ?p ?name demo_db demo_spi lost en1 en1] none rd by (simp add: demo_process_def)
  then have r2: "process_reachable demo_wamr (None, None) (?p\<lparr>pr_engine := en1, pr_lost := [lost]\<rparr>)"
    by (rule process_reachable.Step[OF r(1)])
  from refused_dependency_leaks[OF r(1) demo_find_law, of demo_db demo_spi ?name lost en1] rd
  obtain t where t: "Table t \<in> owned_module lost" by (auto simp: demo_process_def)
  from process_lookups_live[OF r2 demo_find_law, of demo_name] r(2) no_start_plans t r2 show ?thesis
    by (intro exI[of _ "?p\<lparr>pr_engine := en1, pr_lost := [lost]\<rparr>"] exI[of _ pm] exI[of _ lost] exI[of _ t])
      (auto simp: demo_process_def split: option.splits)
qed

end
