(* ===== verification/Natives.thy ===== *)
theory Natives
  imports Prelude
begin

text \<open>
  The host functions WAMR links an application to: the tables of all files, each entry with the C
  type of its function and the signature it is registered under, and the three sets of tables that
  are registered: when the extension is loaded (\<open>wamr.c\<close>), when a worker starts (\<open>worker.c\<close>), and in
  the command-line program (\<open>main.c\<close>). \<open>backdoor\<close>: built with \<open>RUSTICA_SQL_BACKDOOR\<close>.
\<close>

section \<open>Tables\<close>

text \<open>Types of parameters and results: references, \<open>int32_t\<close>, \<open>int64_t\<close>, \<open>long\<close>, \<open>float_t\<close>, \<open>double_t\<close>.\<close>

datatype c_type = CRef | CInt32 | CInt64 | CLong | CFloat | CDouble

record native_symbol =
  ns_symbol :: string
  ns_function :: string
  ns_params :: "c_type list" \<comment> \<open>after \<open>exec_env\<close>\<close>
  ns_result :: "c_type option" \<comment> \<open>\<open>None\<close>: \<open>void\<close>\<close>
  ns_signature :: string

definition native :: "string \<Rightarrow> string \<Rightarrow> c_type list \<Rightarrow> c_type option \<Rightarrow> string \<Rightarrow> native_symbol" where
  "native name func params result signature =
     \<lparr>ns_symbol = name, ns_function = func, ns_params = params, ns_result = result, ns_signature = signature\<rparr>"

definition rst_noop_native_env :: "bool \<Rightarrow> native_symbol list" where
  "rst_noop_native_env backdoor =
     [native ''recv'' ''native_noop'' [] None ''(rii)i'',
      native ''send'' ''native_noop'' [] None ''(rii)i'',
      native ''llhttp_execute'' ''native_noop'' [] None ''(rii)i'',
      native ''llhttp_resume'' ''native_noop'' [] None ''()i'',
      native ''llhttp_finish'' ''native_noop'' [] None ''(r)i'',
      native ''llhttp_reset'' ''native_noop'' [] None ''()i'',
      native ''llhttp_get_error_pos'' ''native_noop'' [] None ''(r)i'',
      native ''llhttp_get_method'' ''native_noop'' [] None ''()i'',
      native ''llhttp_get_http_major'' ''native_noop'' [] None ''()i'',
      native ''llhttp_get_http_minor'' ''native_noop'' [] None ''()i'',
      native ''execute_statement'' ''native_noop'' [] None ''(i)i'',
      native ''ereport'' ''env_ereport'' [CInt32, CRef] (Some CInt32) ''(ir)i'',
      native ''tid_to_oid'' ''env_tid_to_oid'' [CRef] (Some CInt32) ''(r)i''] @
     (if backdoor then
        [native ''sql_backdoor'' ''native_noop'' [] None ''(rii)r''] else [])"

definition query_symbols :: "native_symbol list" where
  "query_symbols =
     [native ''execute_statement'' ''env_execute_statement'' [CInt32] (Some CInt32) ''(i)i'',
      native ''cursor_open'' ''env_cursor_open'' [CInt32] (Some CRef) ''(i)r'',
      native ''cursor_fetch'' ''env_cursor_fetch'' [CRef, CLong] (Some CRef) ''(ri)r'',
      native ''cursor_fetch_all'' ''env_cursor_fetch_all'' [CRef] (Some CRef) ''(r)r'',
      native ''cursor_close'' ''env_cursor_close'' [CRef] (Some CInt32) ''(r)i'',
      native ''tuple_table_len'' ''env_tuple_table_len'' [CRef] (Some CInt32) ''(r)i'',
      native ''tuple_table_get'' ''env_tuple_table_get'' [CRef, CInt32] (Some CRef) ''(ri)r'',
      native ''tuple_lower'' ''env_tuple_lower'' [CRef] (Some CInt32) ''(r)i'']"

definition bytea_symbols :: "native_symbol list" where
  "bytea_symbols =
     [native ''bytes_decode'' ''bytes_decode'' [CRef, CInt32, CInt32, CRef] (Some CRef) ''(riir)r'',
      native ''text_encode'' ''rst_text_encode'' [CRef, CRef] (Some CRef) ''(rr)r'',
      native ''bytea_out'' ''rst_bytea_out'' [CRef] (Some CRef) ''(r)r'',
      native ''bytea_repeat'' ''rst_bytea_repeat'' [CInt32, CInt32] (Some CRef) ''(ii)r'',
      native ''byteaeq'' ''rst_byteaeq'' [CRef, CRef] (Some CInt32) ''(rr)i'',
      native ''byteaoctetlen'' ''rst_byteaoctetlen'' [CRef] (Some CInt32) ''(r)i'',
      native ''bytea_substr'' ''rst_bytea_substr'' [CRef, CInt32, CInt32] (Some CRef) ''(rii)r'']"

definition date_symbols :: "native_symbol list" where
  "date_symbols =
     [native ''date_in'' ''rst_date_in'' [CRef] (Some CInt32) ''(r)i'',
      native ''date_out'' ''rst_date_out'' [CInt32] (Some CRef) ''(i)r'',
      native ''time_in'' ''rst_time_in'' [CRef] (Some CInt64) ''(r)I'',
      native ''time_out'' ''rst_time_out'' [CInt64] (Some CRef) ''(I)r'']"

definition jsonb_symbols :: "native_symbol list" where
  "jsonb_symbols =
     [native ''jsonb_in'' ''rsl_jsonb_in'' [CRef] (Some CRef) ''(r)r'',
      native ''jsonb_out'' ''rsl_jsonb_out'' [CRef] (Some CRef) ''(r)r'',
      native ''jsonb_value_to_jsonb'' ''jsonb_value_to_jsonb'' [CRef] (Some CRef) ''(r)r'',
      native ''jsonb_value_new_null'' ''jsonb_value_new_null'' [] (Some CRef) ''()r'',
      native ''jsonb_value_new_string'' ''jsonb_value_new_string'' [CRef] (Some CRef) ''(r)r'',
      native ''jsonb_value_new_numeric'' ''jsonb_value_new_numeric'' [CDouble] (Some CRef) ''(F)r'',
      native ''jsonb_value_new_bool'' ''jsonb_value_new_bool'' [CInt32] (Some CRef) ''(i)r'',
      native ''jsonb_value_new_array'' ''jsonb_value_new_array'' [CInt32] (Some CRef) ''(i)r'',
      native ''jsonb_value_array_set'' ''jsonb_value_array_set'' [CRef, CInt32, CRef] (Some CInt32) ''(rir)i'',
      native ''jsonb_value_new_object'' ''jsonb_value_new_object'' [CInt32] (Some CRef) ''(i)r'',
      native ''jsonb_value_object_set'' ''jsonb_value_object_set'' [CRef, CInt32, CRef, CRef] (Some CInt32) ''(rirr)i'',
      native ''json_parse'' ''rst_json_parse'' [CRef, CInt32, CInt32] (Some CInt32) ''(rii)i'',
      native ''jsonb_iterate'' ''rst_jsonb_iterate'' [CRef] (Some CInt32) ''(r)i'']"

definition json_symbols :: "native_symbol list" where
  "json_symbols =
     [native ''json_in'' ''rsl_json_in'' [CRef] (Some CRef) ''(r)r'',
      native ''json_out'' ''rsl_json_out'' [CRef] (Some CRef) ''(r)r'']"

definition primitives_natives :: "native_symbol list" where
  "primitives_natives =
     [native ''int4in'' ''rsl_int4in'' [CRef] (Some CInt32) ''(r)i'',
      native ''int4out'' ''rsl_int4out'' [CInt32] (Some CRef) ''(i)r'',
      native ''int8in'' ''rsl_int8in'' [CRef] (Some CInt64) ''(r)I'',
      native ''int8out'' ''rsl_int8out'' [CInt64] (Some CRef) ''(I)r'',
      native ''float4in'' ''rst_float4in'' [CRef] (Some CFloat) ''(r)f'',
      native ''float4out'' ''rst_float4out'' [CFloat] (Some CRef) ''(f)r'',
      native ''float8in'' ''rst_float8in'' [CRef] (Some CDouble) ''(r)F'',
      native ''float8out'' ''rst_float8out'' [CDouble] (Some CRef) ''(F)r'',
      native ''boolout'' ''rst_boolout'' [CInt32] (Some CRef) ''(i)r'',
      native ''parse_bool'' ''rst_parse_bool'' [CRef] (Some CInt32) ''(r)i'']"

definition sb_symbols :: "native_symbol list" where
  "sb_symbols =
     [native ''sb_new'' ''sb_new'' [CInt32] (Some CRef) ''(i)r'',
      native ''si_read_text'' ''sb_read_text'' [CRef] (Some CRef) ''(r)r'',
      native ''sb_mblength'' ''sb_mblength'' [CRef] (Some CInt32) ''(r)i'',
      native ''sb_write_string'' ''sb_write_string'' [CRef, CRef] (Some CInt32) ''(rr)i'',
      native ''sb_write_substring'' ''sb_write_substring'' [CRef, CRef, CInt32, CInt32] (Some CInt32) ''(rrii)i'',
      native ''sb_write_char'' ''sb_write_char'' [CRef, CInt32] (Some CInt32) ''(ri)i'',
      native ''sb_write_bytes'' ''sb_write_bytes'' [CRef, CRef, CInt32, CInt32] (Some CInt32) ''(rrii)i'',
      native ''sb_write_byte'' ''sb_write_byte'' [CRef, CInt32] (Some CInt32) ''(ri)i'',
      native ''sb_to_string'' ''sb_to_string'' [CRef] (Some CRef) ''(r)r'',
      native ''sb_to_bytes'' ''sb_to_bytes'' [CRef] (Some CRef) ''(r)r'',
      native ''si_read_char'' ''sb_read_char'' [CRef] (Some CInt32) ''(r)i'']"

definition text_natives :: "native_symbol list" where
  "text_natives =
     [native ''textlen'' ''rst_textlen'' [CRef] (Some CInt32) ''(r)i'',
      native ''textget'' ''rst_textget'' [CRef, CInt32] (Some CInt32) ''(ri)i'',
      native ''texteq'' ''rst_texteq'' [CRef, CRef] (Some CInt32) ''(rr)i'',
      native ''textcat'' ''rst_textcat'' [CRef, CRef] (Some CRef) ''(rr)r'',
      native ''text_substr'' ''rst_text_substr'' [CRef, CInt32, CInt32] (Some CRef) ''(rii)r'']"

definition wasm_js_string_natives :: "native_symbol list" where
  "wasm_js_string_natives =
     [native ''length'' ''utf16_length'' [CRef] (Some CInt32) ''(r)i'',
      native ''charCodeAt'' ''utf16_char_code_at'' [CRef, CInt32] (Some CInt32) ''(ri)i'',
      native ''fromCharCodeArray'' ''utf16_from_char_code_array'' [CRef, CInt32, CInt32] (Some CRef) ''(rii)r'',
      native ''equals'' ''rst_texteq'' [CRef, CRef] (Some CInt32) ''(rr)i'',
      native ''concat'' ''rst_textcat'' [CRef, CRef] (Some CRef) ''(rr)r'',
      native ''fromCodePoint'' ''utf16_from_code_point'' [CInt32] (Some CRef) ''(i)r'']"

definition console_natives :: "native_symbol list" where
  "console_natives =
     [native ''log'' ''console_log'' [CRef] None ''(r)'']"

definition timestamp_natives :: "native_symbol list" where
  "timestamp_natives =
     [native ''timestamp_in'' ''rsl_timestamp_in'' [CRef, CInt32] (Some CInt64) ''(ri)I'',
      native ''timestamp_out'' ''rsl_timestamp_out'' [CInt64, CInt32] (Some CRef) ''(Ii)r'',
      native ''timestamp_pl_interval'' ''rsl_timestamp_pl_interval'' [CInt64, CRef] (Some CInt64) ''(Ir)I'',
      native ''timestamp_mi_interval'' ''rsl_timestamp_mi_interval'' [CInt64, CRef] (Some CInt64) ''(Ir)I'',
      native ''interval_in'' ''rst_interval_in'' [CRef] (Some CRef) ''(r)r'',
      native ''interval_make'' ''rst_interval_make'' [CInt32, CInt32, CInt32, CInt32, CInt32, CInt32, CDouble] (Some CRef) ''(iiiiiiF)r'',
      native ''interval_out'' ''rst_interval_out'' [CRef] (Some CRef) ''(r)r'',
      native ''interval_pl'' ''rst_interval_pl'' [CRef, CRef] (Some CRef) ''(rr)r'',
      native ''interval_mi'' ''rst_interval_mi'' [CRef, CRef] (Some CRef) ''(rr)r'',
      native ''interval_mul'' ''rsl_interval_mul'' [CRef, CDouble] (Some CRef) ''(ri)I'',
      native ''interval_div'' ''rsl_interval_div'' [CRef, CDouble] (Some CRef) ''(ri)I'']"

definition uuid_symbols :: "native_symbol list" where
  "uuid_symbols =
     [native ''uuid_in'' ''rsl_uuid_in'' [CRef] (Some CRef) ''(r)r'',
      native ''uuid_out'' ''rsl_uuid_out'' [CRef] (Some CRef) ''(r)r'',
      native ''uuid_cmp'' ''rsl_uuid_cmp'' [CRef, CRef] (Some CInt32) ''(rr)i'']"

definition native_env :: "bool \<Rightarrow> native_symbol list" where
  "native_env backdoor =
     [native ''recv'' ''env_recv'' [CRef, CInt32, CInt32] (Some CInt32) ''(rii)i'',
      native ''send'' ''env_send'' [CRef, CInt32, CInt32] (Some CInt32) ''(rii)i'',
      native ''llhttp_execute'' ''env_llhttp_execute'' [CRef, CInt32, CInt32] (Some CInt32) ''(rii)i'',
      native ''llhttp_resume'' ''env_llhttp_resume'' [] (Some CInt32) ''()i'',
      native ''llhttp_finish'' ''env_llhttp_finish'' [CRef] (Some CInt32) ''(r)i'',
      native ''llhttp_reset'' ''env_llhttp_reset'' [] (Some CInt32) ''()i'',
      native ''llhttp_get_error_pos'' ''env_llhttp_get_error_pos'' [CRef] (Some CInt32) ''(r)i'',
      native ''llhttp_get_method'' ''env_llhttp_get_method'' [] (Some CInt32) ''()i'',
      native ''llhttp_get_http_major'' ''env_llhttp_get_http_major'' [] (Some CInt32) ''()i'',
      native ''llhttp_get_http_minor'' ''env_llhttp_get_http_minor'' [] (Some CInt32) ''()i'',
      native ''ereport'' ''env_ereport'' [CInt32, CRef] (Some CInt32) ''(ir)i''] @
     (if backdoor then
        [native ''tid_to_oid'' ''env_tid_to_oid'' [CRef] (Some CInt32) ''(r)i'',
         native ''sql_backdoor'' ''env_sql_backdoor'' [CRef, CInt32, CInt32] (Some CRef) ''(rii)r''] else [])"

definition clock_natives :: "native_symbol list" where
  "clock_natives =
     [native ''realtime_micros_since_unix_epoch'' ''realtime_micros_since_unix_epoch'' [] (Some CInt64) ''()I'',
      native ''monotonic_now'' ''monotonic_now'' [] (Some CRef) ''()r'',
      native ''monotonic_nanos_since'' ''monotonic_nanos_since'' [CRef] (Some CInt64) ''(r)I'']"

definition exception_symbols :: "native_symbol list" where
  "exception_symbols =
     [native ''throw'' ''exception_throw'' [] None ''()'']"

section \<open>Registration\<close>

text \<open>
  Tables under the name of a module, the latest first. Whether WAMR takes one more is its answer,
  \<open>accepts\<close>.
\<close>

type_synonym natives = "(string \<times> native_symbol list) list"

definition register_wasm_natives :: "(natives \<Rightarrow> bool) \<Rightarrow> string \<Rightarrow> native_symbol list \<Rightarrow> natives \<Rightarrow> natives res" where
  "register_wasm_natives accepts m table reg =
     (if accepts ((m, table) # reg) then Inr ((m, table) # reg) else Inl (PgError ''cannot register WASM natives''))"

definition rst_register_natives_query :: "(natives \<Rightarrow> bool) \<Rightarrow> natives \<Rightarrow> natives res" where
  "rst_register_natives_query accepts = register_wasm_natives accepts ''env'' query_symbols"

definition rst_register_natives_date :: "(natives \<Rightarrow> bool) \<Rightarrow> natives \<Rightarrow> natives res" where
  "rst_register_natives_date accepts = register_wasm_natives accepts ''env'' date_symbols"

definition rst_register_natives_jsonb :: "(natives \<Rightarrow> bool) \<Rightarrow> natives \<Rightarrow> natives res" where
  "rst_register_natives_jsonb accepts = register_wasm_natives accepts ''env'' jsonb_symbols"

definition rst_register_natives_json :: "(natives \<Rightarrow> bool) \<Rightarrow> natives \<Rightarrow> natives res" where
  "rst_register_natives_json accepts = register_wasm_natives accepts ''env'' json_symbols"

definition rst_register_natives_primitives :: "(natives \<Rightarrow> bool) \<Rightarrow> natives \<Rightarrow> natives res" where
  "rst_register_natives_primitives accepts = register_wasm_natives accepts ''env'' primitives_natives"

definition rst_register_natives_stringbuilder :: "(natives \<Rightarrow> bool) \<Rightarrow> natives \<Rightarrow> natives res" where
  "rst_register_natives_stringbuilder accepts = register_wasm_natives accepts ''env'' sb_symbols"

definition rst_register_natives_timestamp :: "(natives \<Rightarrow> bool) \<Rightarrow> natives \<Rightarrow> natives res" where
  "rst_register_natives_timestamp accepts = register_wasm_natives accepts ''env'' timestamp_natives"

definition rst_register_natives_uuid :: "(natives \<Rightarrow> bool) \<Rightarrow> natives \<Rightarrow> natives res" where
  "rst_register_natives_uuid accepts = register_wasm_natives accepts ''env'' uuid_symbols"

definition rst_register_natives_clock :: "(natives \<Rightarrow> bool) \<Rightarrow> natives \<Rightarrow> natives res" where
  "rst_register_natives_clock accepts = register_wasm_natives accepts ''env'' clock_natives"

text \<open>\<open>resolver\<close>: WAMR takes the function that makes the globals of a name.\<close>

definition rst_register_natives_text :: "(string \<Rightarrow> bool) \<Rightarrow> (natives \<Rightarrow> bool) \<Rightarrow> natives \<Rightarrow> natives res" where
  "rst_register_natives_text resolver accepts reg =
     res_bind (register_wasm_natives accepts ''env'' text_natives reg) (\<lambda>reg.
     res_bind (register_wasm_natives accepts ''wasm:js-string'' wasm_js_string_natives reg) (\<lambda>reg.
     res_bind (register_wasm_natives accepts ''console'' console_natives reg) (\<lambda>reg.
       if \<not> resolver ''env:text'' then Inl (PgError ''cannot register global resolver for texts'') else Inr reg)))"

definition rst_register_natives_bytea :: "(string \<Rightarrow> bool) \<Rightarrow> (natives \<Rightarrow> bool) \<Rightarrow> natives \<Rightarrow> natives res" where
  "rst_register_natives_bytea resolver accepts reg =
     res_bind (register_wasm_natives accepts ''env'' bytea_symbols reg) (\<lambda>reg.
       if \<not> resolver ''env:bytea'' then Inl (PgError ''cannot register global resolver for bytea'') else Inr reg)"

definition rst_init_wamr :: "bool \<Rightarrow> bool \<Rightarrow> (string \<Rightarrow> bool) \<Rightarrow> (natives \<Rightarrow> bool) \<Rightarrow> natives res" where
  "rst_init_wamr backdoor full_init resolver accepts =
     (if \<not> full_init then Inl (PgError ''cannot register WASM natives'')
      else
        res_bind (register_wasm_natives accepts ''env'' (rst_noop_native_env backdoor) []) (\<lambda>reg.
        res_bind (rst_register_natives_query accepts reg) (\<lambda>reg.
        res_bind (rst_register_natives_bytea resolver accepts reg) (\<lambda>reg.
        res_bind (rst_register_natives_date accepts reg) (\<lambda>reg.
        res_bind (rst_register_natives_jsonb accepts reg) (\<lambda>reg.
        res_bind (rst_register_natives_json accepts reg) (\<lambda>reg.
        res_bind (rst_register_natives_primitives accepts reg) (\<lambda>reg.
        res_bind (rst_register_natives_stringbuilder accepts reg) (\<lambda>reg.
        res_bind (rst_register_natives_text resolver accepts reg) (\<lambda>reg.
        res_bind (rst_register_natives_timestamp accepts reg) (rst_register_natives_uuid accepts)))))))))))"

text \<open>The start of a worker: the stubs go, the functions that work on a connection come.\<close>

definition worker_natives :: "bool \<Rightarrow> (natives \<Rightarrow> bool) \<Rightarrow> natives \<Rightarrow> natives res" where
  "worker_natives backdoor accepts reg =
     register_wasm_natives accepts ''env'' (native_env backdoor)
       (remove1 (''env'', rst_noop_native_env backdoor) reg)"

definition runner_natives :: "bool \<Rightarrow> (string \<Rightarrow> bool) \<Rightarrow> (natives \<Rightarrow> bool) \<Rightarrow> natives res" where
  "runner_natives is_moontest resolver accepts =
     res_bind (rst_register_natives_text resolver accepts []) (\<lambda>reg.
     res_bind (rst_register_natives_stringbuilder accepts reg) (\<lambda>reg.
     res_bind (rst_register_natives_clock accepts reg) (\<lambda>reg.
       if \<not> is_moontest then Inr reg
       else if accepts ((''exception'', exception_symbols) # reg) then Inr ((''exception'', exception_symbols) # reg)
       else Inl (PgError ''Failed to register exception natives''))))"

section \<open>Linking\<close>

text \<open>What a table promises of its functions, written as WAMR writes it.\<close>

fun type_char :: "c_type \<Rightarrow> char" where
  "type_char CRef = CHR ''r''"
| "type_char CInt32 = CHR ''i''"
| "type_char CInt64 = CHR ''I''"
| "type_char CLong = CHR ''I''"
| "type_char CFloat = CHR ''f''"
| "type_char CDouble = CHR ''F''"

definition signature_of :: "native_symbol \<Rightarrow> string" where
  "signature_of ns = ''('' @ map type_char (ns_params ns) @ '')'' @
     (case ns_result ns of None \<Rightarrow> [] | Some t \<Rightarrow> [type_char t])"

text \<open>An import of the application: module, name, signature. WAMR links it to an entry that has all three.\<close>

definition linked :: "natives \<Rightarrow> string \<Rightarrow> string \<Rightarrow> string \<Rightarrow> native_symbol list" where
  "linked reg m name signature =
     concat (map (\<lambda>(m', table). if m' = m then filter (\<lambda>ns. ns_symbol ns = name \<and> ns_signature ns = signature) table else []) reg)"

definition offered :: "natives \<Rightarrow> (string \<times> string) list" where
  "offered reg = concat (map (\<lambda>(m, table). map (\<lambda>ns. (m, ns_symbol ns)) table) reg)"

section \<open>Lemmas\<close>

lemmas registrations =
  rst_register_natives_query_def rst_register_natives_bytea_def rst_register_natives_date_def rst_register_natives_jsonb_def
  rst_register_natives_json_def rst_register_natives_primitives_def rst_register_natives_stringbuilder_def
  rst_register_natives_text_def rst_register_natives_timestamp_def rst_register_natives_uuid_def
  rst_register_natives_clock_def

lemma register_eq_Inr: "register_wasm_natives accepts m t reg = Inr reg' \<longleftrightarrow> accepts ((m, t) # reg) \<and> reg' = (m, t) # reg"
  by (auto simp: register_wasm_natives_def)

text \<open>What both the extension and a worker offer.\<close>

definition common_natives :: natives where
  "common_natives =
     [(''env'', uuid_symbols), (''env'', timestamp_natives), (''console'', console_natives),
      (''wasm:js-string'', wasm_js_string_natives), (''env'', text_natives), (''env'', sb_symbols),
      (''env'', primitives_natives), (''env'', json_symbols), (''env'', jsonb_symbols), (''env'', date_symbols),
      (''env'', bytea_symbols), (''env'', query_symbols)]"

lemma init_wamr_natives:
  "rst_init_wamr backdoor full_init resolver accepts = Inr reg \<Longrightarrow> reg = common_natives @ [(''env'', rst_noop_native_env backdoor)]"
  by (auto simp: rst_init_wamr_def registrations res_bind_eq_Inr register_eq_Inr common_natives_def split: if_splits)

lemmas native_tables =
  rst_noop_native_env_def query_symbols_def bytea_symbols_def date_symbols_def jsonb_symbols_def json_symbols_def
  primitives_natives_def sb_symbols_def text_natives_def wasm_js_string_natives_def console_natives_def
  timestamp_natives_def uuid_symbols_def native_env_def clock_natives_def exception_symbols_def

text \<open>The stubs are no other table: only they have a function of that name.\<close>

lemma stubs_not_common: "(m, rst_noop_native_env backdoor) \<notin> set common_natives"
proof
  assume "(m, rst_noop_native_env backdoor) \<in> set common_natives"
  then have "\<exists>t \<in> set common_natives. ns_function (hd (snd t)) = ''native_noop''"
    by (rule rev_bexI) (simp add: rst_noop_native_env_def native_def)
  then show False by (simp add: common_natives_def native_tables native_def)
qed

lemma worker_natives_eq:
  assumes "rst_init_wamr backdoor full_init resolver accepts = Inr reg" "worker_natives backdoor accepts' reg = Inr reg'"
  shows "reg' = (''env'', native_env backdoor) # common_natives"
  using assms(2) stubs_not_common[of "''env''" backdoor]
  by (auto simp: worker_natives_def register_eq_Inr init_wamr_natives[OF assms(1)] remove1_append)

text \<open>No function is offered twice.\<close>

lemma offered_distinct: "distinct (offered ((''env'', native_env backdoor) # common_natives))"
  by (rule bool.induct[of _ backdoor]; code_simp)

text \<open>Every stub has its function in the worker.\<close>

definition replaced :: "bool \<Rightarrow> native_symbol \<Rightarrow> bool" where
  "replaced backdoor ns \<longleftrightarrow> ns_symbol ns = ''tid_to_oid'' \<and> \<not> backdoor \<or>
     list_ex (\<lambda>ns'. ns_symbol ns' = ns_symbol ns \<and> ns_signature ns' = ns_signature ns)
       (native_env backdoor @ query_symbols)"

lemma stubs_replaced: "list_all (replaced backdoor) (rst_noop_native_env backdoor)"
  by (rule bool.induct[of _ backdoor]; code_simp)

lemma functions_have_stubs:
  "list_all (\<lambda>ns. list_ex (\<lambda>ns'. ns_symbol ns' = ns_symbol ns \<and> ns_signature ns' = ns_signature ns)
    (rst_noop_native_env backdoor)) (native_env backdoor)"
  by (rule bool.induct[of _ backdoor]; code_simp)

text \<open>A worker has no stub, and \<open>tid_to_oid\<close> only with the backdoor.\<close>

lemma worker_entries:
  "list_all (\<lambda>(m, t). list_all (\<lambda>ns. ns_function ns \<noteq> ''native_noop'' \<and> (ns_symbol ns = ''tid_to_oid'' \<longrightarrow> backdoor)) t)
    ((''env'', native_env backdoor) # common_natives)"
  by (rule bool.induct[of _ backdoor]; code_simp)

lemma linkedI:
  "(m, t) \<in> set reg \<Longrightarrow> ns \<in> set t \<Longrightarrow> ns_symbol ns = name \<Longrightarrow> ns_signature ns = sig \<Longrightarrow>
    ns \<in> set (linked reg m name sig)"
  by (force simp: linked_def)

lemma linkedE:
  assumes "ns \<in> set (linked reg m name sig)"
  obtains t where "(m, t) \<in> set reg" "ns \<in> set t" "ns_symbol ns = name" "ns_signature ns = sig"
  using assms by (auto simp: linked_def split: if_splits)

text \<open>At most one entry of a registry without repetitions has a name.\<close>

lemma linked_unique:
  assumes "distinct (offered reg)"
  shows "length (linked reg m name sig) \<le> 1"
proof -
  have "length (linked reg m name sig) \<le> count_list (offered reg) (m, name)"
  proof (induction reg)
    case (Cons x reg)
    have "length (filter (\<lambda>ns. ns_symbol ns = name \<and> ns_signature ns = sig) t) \<le> count_list (map (\<lambda>ns. (m, ns_symbol ns)) t) (m, name)" for t
      by (induction t) auto
    with Cons show ?case by (cases x) (auto simp: linked_def offered_def intro: add_mono le_trans)
  qed (simp add: linked_def)
  also have "count_list xs x \<le> 1" if "distinct xs" for xs and x :: "string \<times> string"
    using that by (induction xs) (auto simp: count_list_0_iff)
  then have "count_list (offered reg) (m, name) \<le> 1" using assms .
  finally show ?thesis .
qed

text \<open>What links with the extension, in a worker, and back.\<close>

lemma links_in_worker:
  assumes "ns \<in> set (linked (common_natives @ [(''env'', rst_noop_native_env backdoor)]) m name sig)"
    and "\<not> (m = ''env'' \<and> name = ''tid_to_oid'' \<and> \<not> backdoor)"
  shows "linked ((''env'', native_env backdoor) # common_natives) m name sig \<noteq> []"
  using assms(1)
proof (rule linkedE)
  fix t assume t: "(m, t) \<in> set (common_natives @ [(''env'', rst_noop_native_env backdoor)])" "ns \<in> set t" "ns_symbol ns = name" "ns_signature ns = sig"
  show "linked ((''env'', native_env backdoor) # common_natives) m name sig \<noteq> []"
  proof (cases "(m, t) \<in> set common_natives")
    case True
    then have "ns \<in> set (linked ((''env'', native_env backdoor) # common_natives) m name sig)" using t by (intro linkedI[of m t]) simp_all
    then show ?thesis by auto
  next
    case False
    then have m: "m = ''env''" "ns \<in> set (rst_noop_native_env backdoor)" using t(1,2) by auto
    then have "replaced backdoor ns" using stubs_replaced[of backdoor] by (simp add: list_all_iff)
    then obtain ns' where ns': "ns' \<in> set (native_env backdoor) \<or> ns' \<in> set query_symbols"
      "ns_symbol ns' = name" "ns_signature ns' = sig"
      using assms(2) m(1) t(3,4) by (auto simp: replaced_def list_ex_iff)
    have "(''env'', query_symbols) \<in> set common_natives" by (simp add: common_natives_def)
    then have "ns' \<in> set (linked ((''env'', native_env backdoor) # common_natives) m name sig)"
      using ns' unfolding m(1) by (elim disjE) (rule linkedI; simp)+
    then show ?thesis by auto
  qed
qed

lemma links_in_extension:
  assumes "ns \<in> set (linked ((''env'', native_env backdoor) # common_natives) m name sig)"
  shows "linked (common_natives @ [(''env'', rst_noop_native_env backdoor)]) m name sig \<noteq> []"
  using assms
proof (rule linkedE)
  fix t assume t: "(m, t) \<in> set ((''env'', native_env backdoor) # common_natives)" "ns \<in> set t" "ns_symbol ns = name" "ns_signature ns = sig"
  show "linked (common_natives @ [(''env'', rst_noop_native_env backdoor)]) m name sig \<noteq> []"
  proof (cases "(m, t) \<in> set common_natives")
    case True
    then have "ns \<in> set (linked (common_natives @ [(''env'', rst_noop_native_env backdoor)]) m name sig)" using t by (intro linkedI[of m t]) simp_all
    then show ?thesis by auto
  next
    case False
    then have m: "m = ''env''" "ns \<in> set (native_env backdoor)" using t(1,2) by auto
    then obtain ns' where "ns' \<in> set (rst_noop_native_env backdoor)" "ns_symbol ns' = name" "ns_signature ns' = sig"
      using functions_have_stubs[of backdoor] t(3,4) by (force simp: list_all_iff list_ex_iff)
    then have "ns' \<in> set (linked (common_natives @ [(''env'', rst_noop_native_env backdoor)]) m name sig)" unfolding m(1) by (intro linkedI) simp_all
    then show ?thesis by auto
  qed
qed

section \<open>Properties\<close>

text \<open>
  C23: an application that links when it is compiled links in a worker. Every import that WAMR
  resolves with the functions of the extension it resolves in a worker, to exactly one function,
  which is never a stub; the only exception is \<open>tid_to_oid\<close> in a build without the backdoor. A worker
  offers nothing the extension does not offer under the same name and signature.
\<close>
lemma compiled_imports_link:
  assumes "rst_init_wamr backdoor full_init resolver accepts = Inr reg" "worker_natives backdoor accepts' reg = Inr reg'"
  shows "linked reg m name sig \<noteq> [] \<and> \<not> (m = ''env'' \<and> name = ''tid_to_oid'' \<and> \<not> backdoor) \<longleftrightarrow>
    (\<exists>ns. linked reg' m name sig = [ns] \<and> ns_function ns \<noteq> ''native_noop'')"
proof -
  have reg: "reg = common_natives @ [(''env'', rst_noop_native_env backdoor)]" by (rule init_wamr_natives[OF assms(1)])
  have reg': "reg' = (''env'', native_env backdoor) # common_natives" by (rule worker_natives_eq[OF assms])
  have unique: "length (linked reg' m name sig) \<le> 1" unfolding reg' by (rule linked_unique[OF offered_distinct])
  have entry: "ns_function ns \<noteq> ''native_noop'' \<and> (name = ''tid_to_oid'' \<longrightarrow> backdoor)"
    if "ns \<in> set (linked reg' m name sig)" for ns
    using that worker_entries[of backdoor] unfolding reg' list_all_iff by (elim linkedE) fastforce
  have forth: "linked reg' m name sig \<noteq> []"
    if "ns \<in> set (linked reg m name sig)" "\<not> (m = ''env'' \<and> name = ''tid_to_oid'' \<and> \<not> backdoor)" for ns
    using links_in_worker that unfolding reg reg' by blast
  have only: "linked reg m name sig \<noteq> []" if "ns \<in> set (linked reg' m name sig)" for ns
    using links_in_extension that unfolding reg reg' by blast
  have "linked reg' m name sig = [] \<or> (\<exists>ns. linked reg' m name sig = [ns])"
    using unique by (cases "linked reg' m name sig") auto
  then show ?thesis
    using forth only entry by (metis hd_in_set list.set_intros(1) list.distinct(1))
qed

lemma compiled_imports_link_witness:
  "\<exists>ns. linked ((''env'', native_env False) # common_natives) ''env'' ''recv'' ''(rii)i'' = [ns] \<and>
    ns_function ns \<noteq> ''native_noop''"
proof -
  have i: "rst_init_wamr False True (\<lambda>_. True) (\<lambda>_. True) = Inr (common_natives @ [(''env'', rst_noop_native_env False)])"
    by (simp add: rst_init_wamr_def registrations register_wasm_natives_def common_natives_def)
  have w: "worker_natives False (\<lambda>_. True) (common_natives @ [(''env'', rst_noop_native_env False)]) =
      Inr ((''env'', native_env False) # common_natives)"
    using stubs_not_common by (simp add: worker_natives_def register_wasm_natives_def remove1_append)
  have "native ''recv'' ''native_noop'' [] None ''(rii)i'' \<in>
      set (linked (common_natives @ [(''env'', rst_noop_native_env False)]) ''env'' ''recv'' ''(rii)i'')"
    by (rule linkedI[of _ "rst_noop_native_env False"]) (simp_all add: rst_noop_native_env_def native_def)
  then show ?thesis using compiled_imports_link[OF i w, of "''env''" "''recv''" "''(rii)i''"] by auto
qed

text \<open>
  C24: which host functions have another C type than the signature says under which an application
  links to them, of all the functions the extension and a worker offer. They are every stub of the
  extension, which takes and returns nothing whatever its signature says, and, in a worker, the
  product and the quotient of an interval and a number and the fetch from a cursor; every other
  function has the type of its signature.
\<close>
lemma signatures_match:
  assumes "(m, t) \<in> set ((''env'', native_env backdoor) # (''env'', rst_noop_native_env backdoor) #
      (''env'', clock_natives) # (''exception'', exception_symbols) # common_natives)"
    and "ns \<in> set t"
  shows "ns_signature ns \<noteq> signature_of ns \<longleftrightarrow>
    ns_function ns = ''native_noop'' \<or> ns_symbol ns \<in> {''interval_mul'', ''interval_div'', ''cursor_fetch''}"
proof -
  have "list_all (\<lambda>(m, t). list_all (\<lambda>ns. ns_signature ns \<noteq> signature_of ns \<longleftrightarrow>
        ns_function ns = ''native_noop'' \<or> ns_symbol ns \<in> set [''interval_mul'', ''interval_div'', ''cursor_fetch'']) t)
      ((''env'', native_env backdoor) # (''env'', rst_noop_native_env backdoor) # (''env'', clock_natives) #
        (''exception'', exception_symbols) # common_natives)"
    by (rule bool.induct[of _ backdoor]; code_simp)
  with assms show ?thesis by (fastforce simp: list_all_iff)
qed

lemma signatures_match_witness:
  "native ''cursor_fetch'' ''env_cursor_fetch'' [CRef, CLong] (Some CRef) ''(ri)r'' \<in> set query_symbols \<and>
    ns_signature (native ''cursor_fetch'' ''env_cursor_fetch'' [CRef, CLong] (Some CRef) ''(ri)r'') \<noteq>
      signature_of (native ''cursor_fetch'' ''env_cursor_fetch'' [CRef, CLong] (Some CRef) ''(ri)r'')"
proof -
  have q: "native ''cursor_fetch'' ''env_cursor_fetch'' [CRef, CLong] (Some CRef) ''(ri)r'' \<in> set query_symbols"
    by (simp add: query_symbols_def)
  have "(''env'', query_symbols) \<in> set ((''env'', native_env False) # (''env'', rst_noop_native_env False) #
      (''env'', clock_natives) # (''exception'', exception_symbols) # common_natives)"
    by (simp add: common_natives_def)
  from signatures_match[OF this q] q show ?thesis by (simp add: native_def)
qed

end
