(* ===== verification/Host.thy ===== *)
theory Host
  imports Http Adt Act
begin

text \<open>
  The rest of what the engine offers an application and its administrator: the HTTP parser
  (\<open>worker.c\<close>), messages to the log (\<open>wamr.c\<close>), the backdoor for SQL (\<open>worker.c\<close>), the compilation of
  the binary code (\<open>compiler.c\<close>), and the settings (\<open>gucs.c\<close>).
\<close>

section \<open>The HTTP parser\<close>

text \<open>
  llhttp: the callbacks it makes for some bytes as long as each of them answers \<open>HPE_OK\<close>, a data
  callback with the place of its data in these bytes; what it returns and becomes, from the answers it
  got; the callbacks at the end of the message; the rest of its interface.
\<close>

datatype llhttp_errno = PE_OK | PE_PAUSED | PE_Error int

record 'p llhttp_lib =
  ll_callbacks :: "'p \<Rightarrow> byte list \<Rightarrow> (callback \<times> nat \<times> nat) list"
  ll_execute :: "'p \<Rightarrow> byte list \<Rightarrow> cb_result list \<Rightarrow> llhttp_errno \<times> 'p"
  ll_last_callbacks :: "'p \<Rightarrow> callback list"
  ll_finish :: "'p \<Rightarrow> cb_result list \<Rightarrow> llhttp_errno \<times> 'p"
  ll_resume :: "'p \<Rightarrow> 'p"
  ll_reset :: "'p \<Rightarrow> 'p"
  ll_error_reason :: "'p \<Rightarrow> byte list"
  ll_error_pos :: "'p \<Rightarrow> int" \<comment> \<open>as an offset in the buffer\<close>
  ll_method :: "'p \<Rightarrow> i32"
  ll_http_major :: "'p \<Rightarrow> i32"
  ll_http_minor :: "'p \<Rightarrow> i32"

record ('p, 'f) http_session =
  hs_parser :: 'p \<comment> \<open>\<open>ctx->http_parser\<close>\<close>
  hs_context :: "'f http_context"
  hs_reported :: "('f \<times> wasm_ref) list" \<comment> \<open>calls of \<open>on_error\<close>, latest first\<close>

text \<open>The answers, up to the first that is not \<open>HPE_OK\<close>; a callback that is not installed counts as one.\<close>

fun run_callbacks ::
  "('f \<Rightarrow> i32) \<Rightarrow> ('f \<Rightarrow> i32 option) \<Rightarrow> ('f \<Rightarrow> i32 \<times> i32 \<times> i32 \<Rightarrow> i32 option) \<Rightarrow> (callback \<times> nat \<times> nat) list
   \<Rightarrow> 'f http_context \<Rightarrow> (cb_result list \<times> 'f http_context) res" where
  "run_callbacks param_type call data_call [] ctx = Inr ([], ctx)"
| "run_callbacks param_type call data_call ((cb, at, len) # cbs) ctx =
     res_bind (run_callback param_type call data_call cb at len ctx) (\<lambda>r.
       let (answer, ctx) = (case r of None \<Rightarrow> (HPE_OK, ctx) | Some r \<Rightarrow> r) in
       if answer \<noteq> HPE_OK then Inr ([answer], ctx)
       else res_bind (run_callbacks param_type call data_call cbs ctx) (\<lambda>(answers, ctx). Inr (answer # answers, ctx)))"

definition report_error :: "'p llhttp_lib \<Rightarrow> llhttp_errno \<Rightarrow> ('p, 'f) http_session \<Rightarrow> ('p, 'f) http_session res" where
  "report_error lib rv hs =
     (case maybe_call_on_error (rv = PE_OK) (rv = PE_PAUSED) (hs_context hs) of
        None \<Rightarrow> Inr hs
      | Some f \<Rightarrow>
          res_bind (cstring_into_varatt_obj (ll_error_reason lib (hs_parser hs)) BYTEAOID) (\<lambda>bytes.
            Inr (hs\<lparr>hs_reported := (f, bytes) # hs_reported hs\<rparr>)))"

definition env_llhttp_execute ::
  "'p llhttp_lib \<Rightarrow> ('f \<Rightarrow> i32) \<Rightarrow> ('f \<Rightarrow> i32 option) \<Rightarrow> ('f \<Rightarrow> i32 \<times> i32 \<times> i32 \<Rightarrow> i32 option)
   \<Rightarrow> wasm_ref \<Rightarrow> i32 \<Rightarrow> i32 \<Rightarrow> ('p, 'f) http_session \<Rightarrow> (llhttp_errno \<times> ('p, 'f) http_session) res" where
  "env_llhttp_execute lib param_type call data_call buf start len hs =
     res_bind (var_bytes buf BYTEAOID) (\<lambda>view.
       if sint start < 0 \<or> int (length view) < sint start + uint (size_of_len len) then
         Inl (Undefined ''llhttp_execute past the end of view'')
       else
         let bytes = take (unat (size_of_len len)) (drop (nat (sint start)) view);
             cbs = map (\<lambda>(cb, off, n). (cb, nat (sint start) + off, n)) (ll_callbacks lib (hs_parser hs) bytes)
         in res_bind (run_callbacks param_type call data_call cbs (hs_context hs)) (\<lambda>(answers, ctx).
            let (rv, p) = ll_execute lib (hs_parser hs) bytes answers in
            res_bind (report_error lib rv (hs\<lparr>hs_parser := p, hs_context := ctx\<rparr>)) (\<lambda>hs. Inr (rv, hs))))"

definition env_llhttp_finish ::
  "'p llhttp_lib \<Rightarrow> ('f \<Rightarrow> i32) \<Rightarrow> ('f \<Rightarrow> i32 option) \<Rightarrow> ('f \<Rightarrow> i32 \<times> i32 \<times> i32 \<Rightarrow> i32 option)
   \<Rightarrow> ('p, 'f) http_session \<Rightarrow> (llhttp_errno \<times> ('p, 'f) http_session) res" where
  "env_llhttp_finish lib param_type call data_call hs =
     res_bind (run_callbacks param_type call data_call (map (\<lambda>cb. (cb, 0, 0)) (ll_last_callbacks lib (hs_parser hs)))
         (hs_context hs)) (\<lambda>(answers, ctx).
       let (rv, p) = ll_finish lib (hs_parser hs) answers in
       res_bind (report_error lib rv (hs\<lparr>hs_parser := p, hs_context := ctx\<rparr>)) (\<lambda>hs. Inr (rv, hs)))"

definition env_llhttp_resume :: "'p llhttp_lib \<Rightarrow> ('p, 'f) http_session \<Rightarrow> llhttp_errno \<times> ('p, 'f) http_session" where
  "env_llhttp_resume lib hs = (PE_OK, hs\<lparr>hs_parser := ll_resume lib (hs_parser hs)\<rparr>)"

definition env_llhttp_reset :: "'p llhttp_lib \<Rightarrow> ('p, 'f) http_session \<Rightarrow> llhttp_errno \<times> ('p, 'f) http_session" where
  "env_llhttp_reset lib hs = (PE_OK, hs\<lparr>hs_parser := ll_reset lib (hs_parser hs)\<rparr>)"

text \<open>The position is that in the buffer the parser saw last; \<open>buf\<close> is taken to be that buffer.\<close>

definition env_llhttp_get_error_pos :: "'p llhttp_lib \<Rightarrow> wasm_ref \<Rightarrow> ('p, 'f) http_session \<Rightarrow> i32 res" where
  "env_llhttp_get_error_pos lib buf hs =
     res_bind (var_bytes buf BYTEAOID) (\<lambda>_. Inr (word_of_int (ll_error_pos lib (hs_parser hs))))"

definition env_llhttp_get_method :: "'p llhttp_lib \<Rightarrow> ('p, 'f) http_session \<Rightarrow> i32" where
  "env_llhttp_get_method lib hs = ll_method lib (hs_parser hs)"

definition env_llhttp_get_http_major :: "'p llhttp_lib \<Rightarrow> ('p, 'f) http_session \<Rightarrow> i32" where
  "env_llhttp_get_http_major lib hs = ll_http_major lib (hs_parser hs)"

definition env_llhttp_get_http_minor :: "'p llhttp_lib \<Rightarrow> ('p, 'f) http_session \<Rightarrow> i32" where
  "env_llhttp_get_http_minor lib hs = ll_http_minor lib (hs_parser hs)"

section \<open>Messages\<close>

text \<open>What \<open>ereport\<close> does with a level: it logs, ends the process, or, above \<open>FATAL\<close>, aborts the server.\<close>

definition ERROR_LEVEL :: int where "ERROR_LEVEL = 21"
definition FATAL_LEVEL :: int where "FATAL_LEVEL = 22"

datatype report =
    Logged int "byte list"
  | AppPanicked "byte list" \<comment> \<open>a warning, and an exception of the application\<close>
  | ProcessExits "byte list"
  | ServerPanics "byte list"

definition env_ereport :: "i32 \<Rightarrow> wasm_ref \<Rightarrow> report res" where
  "env_ereport level r =
     (if sint level = ERROR_LEVEL then res_bind (wasm_text_copy_cstring r) (\<lambda>msg. Inr (AppPanicked msg))
      else res_bind (var_bytes r TEXTOID) (\<lambda>t.
        let msg = until_0 t in
        if sint level < ERROR_LEVEL then Inr (Logged (sint level) msg)
        else if sint level = FATAL_LEVEL then Inr (ProcessExits msg)
        else Inr (ServerPanics msg)))"

section \<open>The backdoor\<close>

definition ascii_bytes :: "string \<Rightarrow> byte list" where "ascii_bytes s = map of_char s"

fun decimal_nat :: "nat \<Rightarrow> byte list" where
  "decimal_nat n = (if n < 10 then [word_of_nat (0x30 + n)] else decimal_nat (n div 10) @ [word_of_nat (0x30 + n mod 10)])"

definition decimal :: "int \<Rightarrow> byte list" where
  "decimal i = (if i < 0 then 0x2D # decimal_nat (nat (- i)) else decimal_nat (nat i))"

text \<open>
  The statement: the bytes of the range up to a NUL. If the last byte of the range is not a NUL, they
  are copied; otherwise the C string at its start is taken where it is.
\<close>

definition backdoor_sql :: "byte list \<Rightarrow> i32 \<Rightarrow> i32 \<Rightarrow> byte list res" where
  "backdoor_sql bytes start len =
     (let last = sint start + sint len - 1 in
      if sint start < 0 \<or> int (length bytes) < sint start \<or> last < 0 \<or> int (length bytes) \<le> last then
        Inl (Undefined ''view[len - 1]'')
      else if bytes ! nat last \<noteq> 0 then
        if sint len < 0 then Inl (Undefined ''memcpy'')
        else Inr (until_0 (take (nat (sint len)) (drop (nat (sint start)) bytes)))
      else if 0 \<in> set (drop (nat (sint start)) bytes) then Inr (until_0 (drop (nat (sint start)) bytes))
      else Inl (Undefined ''view''))"

text \<open>\<open>SPI_execute\<close> gives a code and \<open>SPI_tuptable\<close>: the types of the columns and the rows.\<close>

type_synonym spi_result = "int \<times> (pg_type list \<times> datum option list list) option"

record backdoor_env =
  bd_execute :: "byte list \<Rightarrow> spi_result answer"
  bd_jsonb :: "datum \<Rightarrow> byte list answer" \<comment> \<open>\<open>JsonbToCString\<close>\<close>
  bd_text :: "datum \<Rightarrow> byte list answer" \<comment> \<open>\<open>TextDatumGetCString\<close>\<close>
  bd_edata :: "string \<Rightarrow> int \<times> byte list" \<comment> \<open>\<open>sqlerrcode\<close> and \<open>message\<close> of the error that was caught\<close>

definition backdoor_answer :: "backdoor_env \<Rightarrow> spi_result \<Rightarrow> byte list res" where
  "backdoor_answer E result =
     (case result of (code, tuptable) \<Rightarrow>
      if code < 0 then Inl (PgError ''SPI_execute failed, errcode: %d'')
      else case tuptable of
        None \<Rightarrow> Inr (ascii_bytes ''null'')
      | Some (types, rows) \<Rightarrow>
          (case (if length rows = 1 \<and> length types = 1 \<and> (hd types = JSONBOID \<or> hd types = JSONOID)
                 then hd (hd rows) else None) of
             None \<Rightarrow> Inr (ascii_bytes ''null'')
           | Some d \<Rightarrow>
               if hd types = JSONBOID then raised (bd_jsonb E d)
               else if hd types = JSONOID then raised (bd_text E d)
               else Inl (PgError ''unknown atttype: %d'')))"

definition backdoor_error :: "backdoor_env \<Rightarrow> string \<Rightarrow> byte list" where
  "backdoor_error E msg =
     (case bd_edata E msg of (sqlerrcode, message) \<Rightarrow>
      ascii_bytes ''{\"errcode\": '' @ decimal sqlerrcode @ ascii_bytes '', \"message\": \"'' @ until_0 message
        @ ascii_bytes ''\"}'')"

text \<open>
  The handler runs in \<open>ErrorContext\<close>, where Postgres goes on after an error, and neither leaves it nor
  flushes the error. \<open>CopyErrorData\<close> asserts that it was left; in a build without assertions
  (\<open>asserts\<close>) the answer is allocated there. The result names the context the answer is in.
\<close>

datatype memory_context = CallerContext | ErrorContext

definition in_context :: "memory_context \<Rightarrow> 'a res \<Rightarrow> (memory_context \<times> 'a) res" where
  "in_context cx r = res_bind r (\<lambda>x. Inr (cx, x))"

definition env_sql_backdoor :: "bool \<Rightarrow> backdoor_env \<Rightarrow> wasm_ref \<Rightarrow> i32 \<Rightarrow> i32 \<Rightarrow> (memory_context \<times> wasm_ref) res" where
  "env_sql_backdoor asserts E r start len =
     (let answer =
        res_bind (var_bytes r BYTEAOID) (\<lambda>bytes.
        res_bind (backdoor_sql bytes start len) (\<lambda>sql.
        res_bind (raised (bd_execute E sql)) (backdoor_answer E)))
      in case answer of
           Inl (PgError msg) \<Rightarrow>
             if asserts then Inl (Trap ''CurrentMemoryContext != ErrorContext'')
             else in_context ErrorContext (cstring_into_varatt_obj (backdoor_error E msg) BYTEAOID)
         | Inl e \<Rightarrow> Inl e
         | Inr resp \<Rightarrow> in_context CallerContext (cstring_into_varatt_obj (until_0 resp) BYTEAOID))"

section \<open>Ahead-of-time compilation\<close>

text \<open>Objects of WAMR's compiler; a count for each, since a process compiles many modules.\<close>

record aot_objects =
  ao_comp_data :: nat
  ao_comp_ctx :: nat
  ao_obj_data :: nat
  ao_files :: nat \<comment> \<open>temporary files that are open\<close>

text \<open>What the compiler answers; \<open>aw_emit\<close> fills a buffer of the given size.\<close>

record aot_wamr =
  aw_comp_data :: bool
  aw_comp_ctx :: bool
  aw_compile :: bool
  aw_obj_data :: bool
  aw_file_size :: u32
  aw_emit :: "nat \<Rightarrow> byte list option"

definition fails_unless :: "bool \<Rightarrow> string \<Rightarrow> (aot_objects, unit) act" where
  "fails_unless ok msg = (if ok then act_return () else act_lift (Inl (PgError msg)))"

definition aot_data_created :: "aot_wamr \<Rightarrow> (aot_objects, unit) act" where
  "aot_data_created w =
     act_then (fails_unless (aw_comp_data w) ''could not create compilation data: %s'')
       (act_modify (\<lambda>s. s\<lparr>ao_comp_data := ao_comp_data s + 1\<rparr>))"

text \<open>
  The debug build writes the binary into a temporary file, for the extractor to read. \<open>OpenTemporaryFile\<close> may
  raise; \<open>FileWrite\<close> answers a count or something negative.
\<close>

record aot_debug =
  ad_wasm :: "byte list"
  ad_open :: "unit res"
  ad_write :: "byte list \<Rightarrow> int"
  ad_extractor :: bool

definition aot_debug_info :: "aot_debug \<Rightarrow> (aot_objects, unit) act" where
  "aot_debug_info d =
     act_then (act_lift (ad_open d))
     (act_then (act_modify (\<lambda>s. s\<lparr>ao_files := ao_files s + 1\<rparr>))
     (let nbytes = ad_write d (ad_wasm d) in
      if nbytes \<noteq> int (length (ad_wasm d)) then
        act_lift (Inl (PgError (if nbytes < 0 then ''could not write temporary file: %m''
          else ''could not write temporary file: wrote only %d of %d bytes'')))
      else
        act_then (fails_unless (ad_extractor d) ''could not create dwarf extractor: %s'')
          (act_modify (\<lambda>s. s\<lparr>ao_files := ao_files s - 1\<rparr>))))"

text \<open>
  \<open>compile_aot\<close>, in the debug build if \<open>dbg\<close> is not \<open>None\<close>. The sum of the size and the header is taken with
  32 bits; \<open>palloc\<close> refuses a gigabyte.
\<close>

definition compile_aot_datum :: "aot_debug option \<Rightarrow> aot_wamr \<Rightarrow> (aot_objects, byte list) act" where
  "compile_aot_datum dbg w =
     act_then (aot_data_created w)
     (act_then (case dbg of None \<Rightarrow> act_return () | Some d \<Rightarrow> aot_debug_info d)
     (act_then (fails_unless (aw_comp_ctx w) ''could not create compilation context: %s'')
     (act_then (act_modify (\<lambda>s. s\<lparr>ao_comp_ctx := ao_comp_ctx s + 1\<rparr>))
     (act_then (fails_unless (aw_compile w) ''failed to compile wasm module: %s'')
     (act_then (fails_unless (aw_obj_data w) ''could not create object data: %s'')
     (act_then (act_modify (\<lambda>s. s\<lparr>ao_obj_data := ao_obj_data s + 1\<rparr>))
       (let size = unat (aw_file_size w + word_of_nat VARHDRSZ) in
        if 0x3fffffff < size then act_lift (Inl (PgError ''invalid memory alloc request size''))
        else if size < unat (aw_file_size w) then act_lift (Inl (Undefined ''aot_emit_aot_file_buf_ex''))
        else case aw_emit w (unat (aw_file_size w)) of
          None \<Rightarrow> act_lift (Inl (PgError ''Failed to emit aot file: %s''))
        | Some rv \<Rightarrow>
            act_then (act_modify (\<lambda>s. s\<lparr>ao_obj_data := ao_obj_data s - 1\<rparr>)) (act_return rv))))))))"

section \<open>Settings\<close>

datatype guc_value = GucString "string option" | GucInt int int int \<comment> \<open>default, minimum, maximum\<close>

record guc =
  gc_name :: string
  gc_value :: guc_value

definition rst_init_gucs :: "guc list" where
  "rst_init_gucs =
     [\<lparr>gc_name = ''rustica.listen_addresses'', gc_value = GucString (Some ''localhost'')\<rparr>,
      \<lparr>gc_name = ''rustica.port'', gc_value = GucInt 8080 1 65535\<rparr>,
      \<lparr>gc_name = ''rustica.worker_idle_timeout'', gc_value = GucInt 60 0 (3600 * 24 * 20)\<rparr>,
      \<lparr>gc_name = ''rustica.database'', gc_value = GucString None\<rparr>]"

text \<open>A setting takes the values of its range.\<close>

definition guc_accepts :: "string \<Rightarrow> int \<Rightarrow> bool" where
  "guc_accepts name v \<longleftrightarrow> list_ex (\<lambda>g. gc_name g = name \<and>
     (case gc_value g of GucInt _ lo hi \<Rightarrow> lo \<le> v \<and> v \<le> hi | GucString _ \<Rightarrow> False)) rst_init_gucs"

text \<open>\<open>timeout\<close> in \<open>main_loop\<close>: an \<open>int\<close> product, stored in a \<open>long\<close>.\<close>

definition worker_timeout :: "i32 \<Rightarrow> i64 res" where
  "worker_timeout rst_worker_idle_timeout =
     (if rst_worker_idle_timeout = 0 then Inr (-1)
      else if sint rst_worker_idle_timeout * 1000 \<notin> {- (2 ^ 31)..<2 ^ 31} then Inl (Undefined ''signed overflow'')
      else Inr (scast (rst_worker_idle_timeout * 1000)))"

end
