(* ===== verification/HostProps.thy ===== *)
theory HostProps
  imports Host
begin

text \<open>
  What the functions of \<open>Host\<close> keep to: the views the parser hands out, the answers of the backdoor,
  what an application's message can do to the process, what a compilation leaves, and the time-out.
\<close>

section \<open>Lemmas\<close>

text \<open>
  A data callback that reads the bytes its view names in the buffer: \<open>app\<close> is the application's
  function, given the type of the view, where the bytes start, and the bytes.
\<close>

definition reading :: "byte list \<Rightarrow> ('f \<Rightarrow> i32 \<Rightarrow> int \<Rightarrow> byte list \<Rightarrow> i32 option) \<Rightarrow> 'f \<Rightarrow> i32 \<times> i32 \<times> i32 \<Rightarrow> i32 option" where
  "reading view app f = (\<lambda>(t, s, l). app f t (sint s) (take (nat (sint l)) (drop (nat (sint s)) view)))"

text \<open>The callbacks for the bytes \<open>fed\<close>, which are at \<open>start\<close> in the buffer: each data callback gets its data.\<close>

fun feed_callbacks ::
  "('f \<Rightarrow> i32) \<Rightarrow> ('f \<Rightarrow> i32 option) \<Rightarrow> ('f \<Rightarrow> i32 \<Rightarrow> int \<Rightarrow> byte list \<Rightarrow> i32 option) \<Rightarrow> nat \<Rightarrow> byte list
   \<Rightarrow> (callback \<times> nat \<times> nat) list \<Rightarrow> 'f http_context \<Rightarrow> (cb_result list \<times> 'f http_context) res" where
  "feed_callbacks param_type call app start fed [] ctx = Inr ([], ctx)"
| "feed_callbacks param_type call app start fed ((cb, off, n) # cbs) ctx =
     res_bind (run_callback param_type call (\<lambda>f (t, _). app f t (int (start + off)) (take n (drop off fed))) cb off n ctx) (\<lambda>r.
       let (answer, ctx) = (case r of None \<Rightarrow> (HPE_OK, ctx) | Some r \<Rightarrow> r) in
       if answer \<noteq> HPE_OK then Inr ([answer], ctx)
       else res_bind (feed_callbacks param_type call app start fed cbs ctx) (\<lambda>(answers, ctx). Inr (answer # answers, ctx)))"

definition feed_parser ::
  "'p llhttp_lib \<Rightarrow> ('f \<Rightarrow> i32) \<Rightarrow> ('f \<Rightarrow> i32 option) \<Rightarrow> ('f \<Rightarrow> i32 \<Rightarrow> int \<Rightarrow> byte list \<Rightarrow> i32 option) \<Rightarrow> nat \<Rightarrow> byte list
   \<Rightarrow> ('p, 'f) http_session \<Rightarrow> (llhttp_errno \<times> ('p, 'f) http_session) res" where
  "feed_parser lib param_type call app start fed hs =
     res_bind (feed_callbacks param_type call app start fed (ll_callbacks lib (hs_parser hs) fed) (hs_context hs))
       (\<lambda>(answers, ctx).
       let (rv, p) = ll_execute lib (hs_parser hs) fed answers in
       res_bind (report_error lib rv (hs\<lparr>hs_parser := p, hs_context := ctx\<rparr>)) (\<lambda>hs. Inr (rv, hs)))"

lemma run_callback_reading:
  assumes "start + off + n < 2 ^ 31" "off + n \<le> len"
  shows "run_callback param_type call (reading view app) cb (start + off) n ctx =
    run_callback param_type call (\<lambda>f (t, _). app f t (int (start + off)) (take n (drop off (take len (drop start view))))) cb off n ctx"
proof -
  have "sint (word_of_nat (start + off) :: i32) = int (start + off)" "sint (word_of_nat n :: i32) = int n"
    using assms(1) by (simp_all only: sint_of_nat32)
  moreover have "take n (drop off (take len (drop start view))) = take n (drop (start + off) view)"
    using assms(2) by (simp add: drop_take min_def add.commute)
  ultimately have "llhttp_data_cb_impl param_type (reading view app) f (start + off) n ctx =
      llhttp_data_cb_impl param_type
        (\<lambda>f (t, _). app f t (int (start + off)) (take n (drop off (take len (drop start view))))) f off n ctx" for f
    by (simp add: llhttp_data_cb_impl_def reading_def Let_def del: of_nat_add)
  then show ?thesis by (simp add: run_callback_def split: option.splits prod.splits cb_kind.splits)
qed

lemma run_callbacks_reading:
  assumes "\<forall>(cb, off, n) \<in> set cbs. off + n \<le> len" "start + len < 2 ^ 31"
  shows "run_callbacks param_type call (reading view app) (map (\<lambda>(cb, off, n). (cb, start + off, n)) cbs) ctx =
    feed_callbacks param_type call app start (take len (drop start view)) cbs ctx"
  using assms(1)
proof (induction cbs arbitrary: ctx)
  case (Cons x cbs)
  obtain cb off n where x: "x = (cb, off, n)" by (cases x)
  have n: "off + n \<le> len" using Cons.prems x by simp
  then have "start + off + n < 2 ^ 31" using assms(2) by linarith
  note one = run_callback_reading[OF this n]
  have rest: "run_callbacks param_type call (reading view app) (map (\<lambda>(cb, off, n). (cb, start + off, n)) cbs) c =
      feed_callbacks param_type call app start (take len (drop start view)) cbs c" for c
    by (rule Cons.IH) (use Cons.prems in auto)
  show ?case unfolding x list.map prod.case run_callbacks.simps feed_callbacks.simps one rest ..
qed simp

lemma uint_size_of_len:
  assumes "0 \<le> sint len"
  shows "uint (size_of_len len) = sint len"
proof -
  have "sint len < 2 ^ 31" using sint_lt[of len] by simp
  moreover have "sint (size_of_len len) = sint len" unfolding size_of_len_def by (rule sint_up_scast) (simp add: is_up)
  ultimately show ?thesis using assms unfolding uint_sint[of "size_of_len len"] by (simp add: take_bit_int_eq_self)
qed

lemma until_0_no_0: "0 \<notin> set (until_0 bs)"
  unfolding until_0_def by (auto dest: set_takeWhileD)

lemma cstring_sat: "res_sat {PgError ''varlena_new: input too long''} (\<lambda>_. True) (cstring_into_varatt_obj bs oid)"
  by (auto simp: cstring_into_varatt_obj_def varatt_new_def Let_def)

text \<open>A range in the bytes is read as it is.\<close>

lemma backdoor_sql_in_range:
  assumes "0 \<le> sint start" "0 < sint len" "sint start + sint len \<le> int (length bytes)"
  shows "backdoor_sql bytes start len = Inr (until_0 (take (nat (sint len)) (drop (nat (sint start)) bytes)))"
proof -
  define i n where "i = nat (sint start)" and "n = nat (sint len)"
  have n: "sint start = int i" "sint len = int n" "0 < n" "i + n \<le> length bytes"
    using assms by (auto simp: i_def n_def)
  let ?str = "drop i bytes"
  have last: "bytes ! (i + n - 1) = ?str ! (n - 1)" "n - 1 < length ?str" using n(3,4) by (simp_all add: add_diff_assoc)
  have int: "int i + int n - 1 = int (i + n - 1)" using n(3) by simp
  show ?thesis
  proof (cases "bytes ! (i + n - 1) = 0")
    case True
    then have 0: "?str ! (n - 1) = 0" using last by simp
    then have "0 \<in> set ?str" using last(2) nth_mem by metis
    moreover have "until_0 (take n ?str) = until_0 ?str"
    proof -
      have "0 \<in> set (take n ?str)" using 0 last(2) n(3) by (auto simp: in_set_conv_nth intro!: exI[of _ "n - 1"])
      then have "takeWhile (\<lambda>b. b \<noteq> 0) (take n ?str @ drop n ?str) = takeWhile (\<lambda>b. b \<noteq> 0) (take n ?str)"
        by (intro takeWhile_append1[of 0]) simp_all
      then show ?thesis unfolding until_0_def append_take_drop_id ..
    qed
    ultimately show ?thesis
      using True n int by (simp add: backdoor_sql_def n(1,2) del: of_nat_diff)
  next
    case False
    then show ?thesis using n int by (simp add: backdoor_sql_def n(1,2) del: of_nat_diff)
  qed
qed

section \<open>Properties\<close>

text \<open>
  C33: the parser shows the application the bytes it was given, at their place in the buffer. If the
  places llhttp names lie in the bytes it was fed, then a call of \<open>llhttp_execute\<close> with a range of
  the buffer is the parser fed with the bytes of that range, with each data callback given exactly
  its data, through a view of the buffer that starts where the data is in the buffer; everything the
  call does is that.
\<close>
lemma views_inside_buffer:
  assumes "var_bytes buf BYTEAOID = Inr view" "length view < 2 ^ 31"
    and "0 \<le> sint start" "0 \<le> sint len" "sint start + sint len \<le> int (length view)"
    and "\<forall>p bytes. \<forall>(cb, off, n) \<in> set (ll_callbacks lib p bytes). off + n \<le> length bytes"
  shows "env_llhttp_execute lib param_type call (reading view app) buf start len hs =
    feed_parser lib param_type call app (nat (sint start)) (take (nat (sint len)) (drop (nat (sint start)) view)) hs"
proof -
  let ?n = "nat (sint len)" and ?i = "nat (sint start)"
  let ?bytes = "take ?n (drop ?i view)"
  have size: "unat (size_of_len len) = ?n" using uint_size_of_len[OF assms(4)] by (simp flip: nat_uint_eq)
  have in_range: "\<not> (sint start < 0 \<or> int (length view) < sint start + uint (size_of_len len))"
    using assms(3,5) uint_size_of_len[OF assms(4)] by simp
  have "?i + ?n < 2 ^ 31" using assms(2-5) by linarith
  moreover have "length ?bytes \<le> ?n" by simp
  then have "\<forall>(cb, off, n) \<in> set (ll_callbacks lib (hs_parser hs) ?bytes). off + n \<le> ?n"
    using assms(6) by (fastforce dest: spec[of _ "hs_parser hs"])
  ultimately have "run_callbacks param_type call (reading view app)
      (map (\<lambda>(cb, off, n). (cb, ?i + off, n)) (ll_callbacks lib (hs_parser hs) ?bytes)) ctx =
    feed_callbacks param_type call app ?i ?bytes (ll_callbacks lib (hs_parser hs) ?bytes) ctx" for ctx
    by (intro run_callbacks_reading) simp_all
  then show ?thesis
    using in_range by (simp add: env_llhttp_execute_def feed_parser_def assms(1) size Let_def)
qed

text \<open>A parser that finds a body in all it is fed.\<close>

definition demo_llhttp :: "unit llhttp_lib" where
  "demo_llhttp = \<lparr>ll_callbacks = (\<lambda>_ bytes. [(on_body, 0, length bytes)]), ll_execute = (\<lambda>_ _ _. (PE_OK, ())),
     ll_last_callbacks = (\<lambda>_. []), ll_finish = (\<lambda>_ _. (PE_OK, ())), ll_resume = id, ll_reset = id,
     ll_error_reason = (\<lambda>_. []), ll_error_pos = (\<lambda>_. 0), ll_method = (\<lambda>_. 0), ll_http_major = (\<lambda>_. 1),
     ll_http_minor = (\<lambda>_. 1)\<rparr>"

lemma demo_var_bytes: "var_bytes (rst_externref_of_owned_datum (DPointer BYTEAOID bs) BYTEAOID) BYTEAOID = Inr bs"
  by (simp add: var_bytes_def wasm_externref_obj_get_datum_def wasm_externref_obj_get_obj_def
      rst_externref_of_owned_datum_def rst_externref_of_obj_def rst_obj_new_def)

lemma views_inside_buffer_witness:
  "\<forall>app (hs :: (unit, nat) http_session).
    env_llhttp_execute demo_llhttp (\<lambda>_. 0) (\<lambda>_. Some 0) (reading [1, 2, 3, 4] app)
      (rst_externref_of_owned_datum (DPointer BYTEAOID [1, 2, 3, 4]) BYTEAOID) 1 2 hs =
    feed_parser demo_llhttp (\<lambda>_. 0) (\<lambda>_. Some 0) app 1 [2, 3] hs"
proof (intro allI)
  fix app and hs :: "(unit, nat) http_session"
  have "\<forall>p bytes. \<forall>(cb, off, n) \<in> set (ll_callbacks demo_llhttp p bytes). off + n \<le> length bytes"
    by (simp add: demo_llhttp_def)
  then show "env_llhttp_execute demo_llhttp (\<lambda>_. 0) (\<lambda>_. Some 0) (reading [1, 2, 3, 4] app)
      (rst_externref_of_owned_datum (DPointer BYTEAOID [1, 2, 3, 4]) BYTEAOID) 1 2 hs =
    feed_parser demo_llhttp (\<lambda>_. 0) (\<lambda>_. Some 0) app 1 [2, 3] hs"
    using views_inside_buffer[OF demo_var_bytes[of "[1, 2, 3, 4]"], of 1 2 demo_llhttp "\<lambda>_. 0" "\<lambda>_. Some 0" app hs]
    by (simp add: take_Cons')
qed

text \<open>
  What the application is told of a statement: \<open>Inl\<close> the error it raised, or the value in the only
  row and column of its result, if that is JSON, and \<open>null\<close> otherwise.
\<close>

definition backdoor_spec :: "backdoor_env \<Rightarrow> byte list \<Rightarrow> byte list answer" where
  "backdoor_spec E sql =
     (case bd_execute E sql of
        Inl msg \<Rightarrow> Inl msg
      | Inr (code, tuptable) \<Rightarrow>
          if code < 0 then Inl ''SPI_execute failed, errcode: %d''
          else (case tuptable of
              Some ([oid], [[Some d]]) \<Rightarrow>
                if oid = JSONBOID then bd_jsonb E d else if oid = JSONOID then bd_text E d else Inr (ascii_bytes ''null'')
            | _ \<Rightarrow> Inr (ascii_bytes ''null'')))"

lemma backdoor_answer_spec:
  assumes "\<And>code types rows. bd_execute E sql = Inr (code, Some (types, rows)) \<Longrightarrow> \<forall>row \<in> set rows. length row = length types"
  shows "res_bind (raised (bd_execute E sql)) (backdoor_answer E) = raised (backdoor_spec E sql)"
proof (cases "bd_execute E sql")
  case (Inr result)
  obtain code tuptable where result: "result = (code, tuptable)" by (cases result)
  show ?thesis
  proof (cases "code < 0 \<or> tuptable = None")
    case False
    then obtain types rows where tt: "tuptable = Some (types, rows)" by auto
    have rows: "\<forall>row \<in> set rows. length row = length types" using assms Inr result tt by blast
    show ?thesis
    proof (cases "length rows = 1 \<and> length types = 1")
      case True
      then obtain oid row where one: "types = [oid]" "rows = [row]" by (auto simp: length_Suc_conv)
      then obtain d where "row = [d]" using rows by (auto simp: length_Suc_conv)
      then show ?thesis
        using False Inr one by (cases d) (simp_all add: backdoor_answer_def backdoor_spec_def result tt)
    next
      case other: False
      have "backdoor_spec E sql = Inr (ascii_bytes ''null'')"
        using other False Inr by (auto simp: backdoor_spec_def result tt split: list.splits option.splits)
      then show ?thesis using other False Inr by (auto simp: backdoor_answer_def result tt)
    qed
  qed (auto simp: backdoor_answer_def backdoor_spec_def Inr result)
qed (simp add: backdoor_spec_def)

text \<open>
  C34: what the backdoor does with a range of the bytes that is not empty is what its specification
  says. The application gets \<open>null\<close>, the JSON value in the only row and column, or the error that was
  raised, which is then allocated in \<open>ErrorContext\<close>; in a build with assertions the process aborts
  instead when an error was raised. Otherwise the call fails only with an answer of a gigabyte.
\<close>
lemma backdoor_answers:
  assumes "var_bytes r BYTEAOID = Inr bytes" "0 \<le> sint start" "0 < sint len" "sint start + sint len \<le> int (length bytes)"
    and sql: "sql = until_0 (take (nat (sint len)) (drop (nat (sint start)) bytes))"
    and pg: "\<And>code types rows. bd_execute E sql = Inr (code, Some (types, rows)) \<Longrightarrow> \<forall>row \<in> set rows. length row = length types"
  shows "env_sql_backdoor asserts E r start len =
      (case backdoor_spec E sql of
         Inl msg \<Rightarrow>
           if asserts then Inl (Trap ''CurrentMemoryContext != ErrorContext'')
           else in_context ErrorContext (cstring_into_varatt_obj (backdoor_error E msg) BYTEAOID)
       | Inr resp \<Rightarrow> in_context CallerContext (cstring_into_varatt_obj (until_0 resp) BYTEAOID)) \<and>
    res_sat ({PgError ''varlena_new: input too long''} \<union>
        (if asserts \<and> (\<exists>msg. backdoor_spec E sql = Inl msg) then {Trap ''CurrentMemoryContext != ErrorContext''} else {}))
      (\<lambda>_. True) (env_sql_backdoor asserts E r start len)"
proof -
  have sat: "res_sat X (\<lambda>_. True) (in_context cx (cstring_into_varatt_obj bs BYTEAOID))"
    if "PgError ''varlena_new: input too long'' \<in> X" for X cx bs
    using that cstring_sat[of bs BYTEAOID] by (cases "cstring_into_varatt_obj bs BYTEAOID") (auto simp: in_context_def)
  have run: "env_sql_backdoor asserts E r start len =
      (case backdoor_spec E sql of
         Inl msg \<Rightarrow>
           if asserts then Inl (Trap ''CurrentMemoryContext != ErrorContext'')
           else in_context ErrorContext (cstring_into_varatt_obj (backdoor_error E msg) BYTEAOID)
       | Inr resp \<Rightarrow> in_context CallerContext (cstring_into_varatt_obj (until_0 resp) BYTEAOID))"
    unfolding env_sql_backdoor_def assms(1) res_bind_simps(2) backdoor_sql_in_range[OF assms(2-4), folded sql] Let_def
    using backdoor_answer_spec[of E sql] pg by (cases "backdoor_spec E sql") simp_all
  moreover have "res_sat ({PgError ''varlena_new: input too long''} \<union>
        (if asserts \<and> (\<exists>msg. backdoor_spec E sql = Inl msg) then {Trap ''CurrentMemoryContext != ErrorContext''} else {}))
      (\<lambda>_. True) (env_sql_backdoor asserts E r start len)"
    unfolding run by (cases "backdoor_spec E sql") (simp_all add: sat)
  ultimately show ?thesis by blast
qed

text \<open>A server with one statement; any other is an error.\<close>

definition demo_backdoor :: backdoor_env where
  "demo_backdoor = \<lparr>bd_execute = (\<lambda>q. if q = [0x41, 0x42] then Inr (5, Some ([JSONBOID], [[Some (DPointer JSONBOID [])]]))
       else Inl ''syntax error''),
     bd_jsonb = (\<lambda>_. Inr [0x5B, 0x5D]), bd_text = (\<lambda>_. Inr []), bd_edata = (\<lambda>_. (16801924, [0x73, 0]))\<rparr>"

lemma backdoor_answers_witness:
  "in_context CallerContext (cstring_into_varatt_obj [0x5B, 0x5D] BYTEAOID) =
      env_sql_backdoor True demo_backdoor (rst_externref_of_owned_datum (DPointer BYTEAOID [0x41, 0x42]) BYTEAOID) 0 2 \<and>
    env_sql_backdoor True demo_backdoor (rst_externref_of_owned_datum (DPointer BYTEAOID [0x41, 0x42]) BYTEAOID) 1 1 =
      Inl (Trap ''CurrentMemoryContext != ErrorContext'')"
proof -
  have sql: "backdoor_spec demo_backdoor [0x41, 0x42] = Inr [0x5B, 0x5D]"
    "backdoor_spec demo_backdoor [0x42] = Inl ''syntax error''"
    by (simp_all add: backdoor_spec_def demo_backdoor_def)
  note holds = backdoor_answers[OF demo_var_bytes, of _ _ _ _ demo_backdoor True]
  show ?thesis
    using holds[of 0 2 "[0x41, 0x42]" "[0x41, 0x42]"] holds[of 1 1 "[0x41, 0x42]" "[0x42]"] sql
    by (auto simp: demo_backdoor_def until_0_def split: if_splits)
qed

text \<open>
  The time-out of an idle worker. Whatever value Postgres accepts for the setting, the product in
  milliseconds does not overflow; a worker waits for ever for the value zero only, and otherwise for
  exactly that many seconds.
\<close>
lemma idle_timeout_exact:
  assumes "guc_accepts ''rustica.worker_idle_timeout'' (sint secs)"
  shows "\<exists>ms. worker_timeout secs = Inr ms \<and> (sint ms = -1 \<longleftrightarrow> sint secs = 0)
    \<and> (sint secs \<noteq> 0 \<longrightarrow> 0 < sint ms \<and> sint ms < 2 ^ 31 \<and> sint ms = sint secs * 1000)"
proof -
  have range: "0 \<le> sint secs" "sint secs \<le> 3600 * 24 * 20"
    using assms by (simp_all add: guc_accepts_def rst_init_gucs_def)
  show ?thesis
  proof (cases "secs = 0")
    case False
    then have pos: "0 < sint secs" using range(1) by (metis signed_eq_0_iff order_le_less)
    have "sint (secs * 1000) = sint secs * 1000"
      using range by (simp add: sint_word_ariths signed_take_bit_int_eq_self)
    moreover have "sint (scast w :: i64) = sint w" for w :: i32 by (rule sint_up_scast) (simp add: is_up)
    ultimately show ?thesis using False pos range by (simp add: worker_timeout_def)
  qed (simp add: worker_timeout_def)
qed

lemma idle_timeout_exact_witness:
  "\<exists>ms. worker_timeout 60 = Inr ms \<and> (sint ms = -1 \<longleftrightarrow> sint (60 :: i32) = 0)
    \<and> (sint (60 :: i32) \<noteq> 0 \<longrightarrow> 0 < sint ms \<and> sint ms < 2 ^ 31 \<and> sint ms = sint (60 :: i32) * 1000)"
  by (rule idle_timeout_exact) (simp add: guc_accepts_def rst_init_gucs_def)

lemma wp_debug_info:
  "wp (case dbg of None \<Rightarrow> act_return () | Some d \<Rightarrow> aot_debug_info d) s (\<lambda>_ s'. s' = s)
    (\<lambda>_ s'. s' = s \<or> s' = s\<lparr>ao_files := ao_files s + 1\<rparr>)"
  by (cases dbg) (simp_all add: aot_debug_info_def fails_unless_def Let_def split: sum.split)

text \<open>
  A compilation leaves WAMR's objects behind, in both builds. One that succeeds destroys the object data but
  neither the compilation data nor the context, and closes its file; one that fails destroys nothing it had
  made by then.
\<close>
lemma compile_aot_leaks:
  "wp (compile_aot_datum dbg w) s
    (\<lambda>_ s'. ao_comp_data s' = ao_comp_data s + 1 \<and> ao_comp_ctx s' = ao_comp_ctx s + 1 \<and>
      ao_obj_data s' = ao_obj_data s \<and> ao_files s' = ao_files s)
    (\<lambda>e s'. e = PgError ''could not create compilation data: %s'' \<and> s' = s
      \<or> ao_comp_data s' = ao_comp_data s + 1 \<and> ao_comp_ctx s \<le> ao_comp_ctx s' \<and> ao_obj_data s \<le> ao_obj_data s'
        \<and> ao_files s \<le> ao_files s')"
proof (cases "aw_comp_data w")
  case True
  let ?s = "s\<lparr>ao_comp_data := ao_comp_data s + 1\<rparr>"
  have "aot_data_created w s = (Inr (), ?s)"
    using True by (simp add: aot_data_created_def fails_unless_def act_then_def act_bind_def act_return_def act_modify_def)
  then have made: "wp (aot_data_created w) s (\<lambda>_ s'. s' = ?s) E" for E by (simp add: wp_def)
  show ?thesis
    unfolding compile_aot_datum_def wp_then
    by (rule wp_mono[OF made], rule wp_mono[OF wp_debug_info])
      (auto simp: fails_unless_def Let_def split: option.splits)
next
  case False
  then show ?thesis by (simp add: compile_aot_datum_def aot_data_created_def fails_unless_def)
qed

end
