(* ===== verification/WamrLog.thy ===== *)
theory WamrLog
  imports Host
begin

text \<open>
  Messages of WAMR in the server's log (\<open>bh_log_to_pg.c\<close>). A message is formatted into a buffer that
  grows until it fits; the buffer is then given to \<open>errmsg_internal\<close> as a format of its own.
\<close>

section \<open>The functions\<close>

definition LOG_LEVEL :: int where "LOG_LEVEL = 15"
definition DEBUG1_LEVEL :: int where "DEBUG1_LEVEL = 14"
definition DEBUG3_LEVEL :: int where "DEBUG3_LEVEL = 12"
definition WARNING_LEVEL :: int where "WARNING_LEVEL = 19"

datatype bh_level = BH_FATAL | BH_ERROR | BH_WARNING | BH_DEBUG | BH_VERBOSE

text \<open>
  Postgres: whether a level is reported; what \<open>appendStringInfoVA\<close> answers for a formatted text and an
  empty buffer of some size; the size after \<open>enlargeStringInfo\<close>; the text as a format without arguments.
\<close>

record log_lib =
  lg_start :: "int \<Rightarrow> bool"
  lg_needed :: "byte list \<Rightarrow> nat \<Rightarrow> nat"
  lg_enlarge :: "nat \<Rightarrow> nat \<Rightarrow> nat answer"
  lg_again :: "byte list \<Rightarrow> byte list res"

text \<open>
  The loop around \<open>appendStringInfoVA\<close>. The first argument says that every round uses the \<open>va_list\<close> of
  the caller, which is indeterminate once a round has walked it; the last that a round has.
\<close>

partial_function (option) format_into :: "bool \<Rightarrow> log_lib \<Rightarrow> byte list \<Rightarrow> nat \<Rightarrow> bool \<Rightarrow> byte list res option" where
  "format_into reuse L str cap walked =
     (if reuse \<and> walked then Some (Inl (Undefined ''va_list''))
      else let needed = lg_needed L str cap in
        if needed = 0 then Some (Inr str)
        else case lg_enlarge L cap needed of
          Inl msg \<Rightarrow> Some (Inl (PgError msg))
        | Inr cap \<Rightarrow> format_into reuse L str cap True)"

definition STRINGINFO_SIZE :: nat where "STRINGINFO_SIZE = 1024"

fun drop_newlines :: "byte list \<Rightarrow> byte list" where
  "drop_newlines buf = (if buf \<noteq> [] \<and> last buf = 0x0A then drop_newlines (butlast buf) else buf)"

declare drop_newlines.simps [simp del]

text \<open>The value returned, and the level and text that were logged.\<close>

definition pg_log_vprintf :: "log_lib \<Rightarrow> byte list \<Rightarrow> (nat \<times> (int \<times> byte list) option) res option" where
  "pg_log_vprintf L str =
     (if \<not> lg_start L LOG_LEVEL then Some (Inr (0, None))
      else map_option (\<lambda>r. res_bind r (\<lambda>buf.
        let buf = drop_newlines buf in
        res_bind (lg_again L buf) (\<lambda>msg. Inr (length buf, Some (LOG_LEVEL, msg)))))
          (format_into True L str STRINGINFO_SIZE False))"

definition bh_elevel :: "bh_level \<Rightarrow> int" where
  "bh_elevel log_level =
     (case log_level of
        BH_FATAL \<Rightarrow> FATAL_LEVEL
      | BH_ERROR \<Rightarrow> ERROR_LEVEL
      | BH_WARNING \<Rightarrow> WARNING_LEVEL
      | BH_DEBUG \<Rightarrow> DEBUG1_LEVEL
      | BH_VERBOSE \<Rightarrow> DEBUG3_LEVEL)"

text \<open>How a call ends; one that raises or exits does not come back to WAMR.\<close>

datatype log_end = LogQuiet | LogLine int "byte list" | LogRaises "byte list" | LogExits "byte list"

definition pg_bh_log :: "log_lib \<Rightarrow> bh_level \<Rightarrow> byte list \<Rightarrow> log_end res option" where
  "pg_bh_log L log_level str =
     (let elevel = bh_elevel log_level in
      if \<not> lg_start L elevel then
        Some (if ERROR_LEVEL \<le> elevel then Inl (Undefined ''pg_unreachable'') else Inr LogQuiet)
      else map_option (\<lambda>r. res_bind r (\<lambda>buf. res_bind (lg_again L buf) (\<lambda>msg.
          Inr (if elevel = ERROR_LEVEL then LogRaises msg
               else if elevel = FATAL_LEVEL then LogExits msg else LogLine elevel msg))))
        (format_into False L str STRINGINFO_SIZE False))"

section \<open>What Postgres promises\<close>

text \<open>
  A text that fits is taken; otherwise the answer is more than its length, and the enlarged buffer has
  room for that, unless it would pass a gigabyte. A text without a per cent sign, read as a format, is
  the text.
\<close>

definition log_law :: "log_lib \<Rightarrow> bool" where
  "log_law L \<longleftrightarrow>
     (\<forall>level. ERROR_LEVEL \<le> level \<longrightarrow> lg_start L level)
     \<and> (\<forall>str cap. 16 \<le> cap \<longrightarrow> (if length str < cap then lg_needed L str cap = 0 else length str < lg_needed L str cap))
     \<and> (\<forall>cap needed cap'. lg_enlarge L cap needed = Inr cap' \<longrightarrow> cap \<le> cap' \<and> needed < cap')
     \<and> (\<forall>buf. length buf < STRINGINFO_SIZE \<and> 0x25 \<notin> set buf \<longrightarrow> lg_again L buf = Inr buf)"

lemma log_law_needed:
  assumes "log_law L" "16 \<le> cap"
  shows "length str < cap \<Longrightarrow> lg_needed L str cap = 0" "cap \<le> length str \<Longrightarrow> length str < lg_needed L str cap"
  using assms unfolding log_law_def by (metis, metis linorder_not_le)

lemma log_law_enlarge: "log_law L \<Longrightarrow> lg_enlarge L cap needed = Inr cap' \<Longrightarrow> cap \<le> cap' \<and> needed < cap'"
  unfolding log_law_def by blast

lemma log_law_again:
  "log_law L \<Longrightarrow> length buf < STRINGINFO_SIZE \<Longrightarrow> 0x25 \<notin> set buf \<Longrightarrow> lg_again L buf = Inr buf"
  unfolding log_law_def by blast

section \<open>Lemmas\<close>

text \<open>The loop ends in its second round at the latest.\<close>

lemma format_into_first:
  assumes "log_law L" "length str < STRINGINFO_SIZE"
  shows "format_into reuse L str STRINGINFO_SIZE False = Some (Inr str)"
  using assms log_law_needed(1)[of L STRINGINFO_SIZE str]
  by (simp add: format_into.simps[of _ _ _ _ False] STRINGINFO_SIZE_def)

lemma format_into_again:
  assumes law: "log_law L" and long: "STRINGINFO_SIZE \<le> length str"
  shows "format_into reuse L str STRINGINFO_SIZE False =
    Some (case lg_enlarge L STRINGINFO_SIZE (lg_needed L str STRINGINFO_SIZE) of
      Inl msg \<Rightarrow> Inl (PgError msg) | Inr _ \<Rightarrow> if reuse then Inl (Undefined ''va_list'') else Inr str)"
proof -
  let ?needed = "lg_needed L str STRINGINFO_SIZE"
  have needed: "length str < ?needed" by (rule log_law_needed(2)[OF law _ long]) (simp add: STRINGINFO_SIZE_def)
  have second: "format_into reuse L str cap True = Some (if reuse then Inl (Undefined ''va_list'') else Inr str)"
    if "lg_enlarge L STRINGINFO_SIZE ?needed = Inr cap" for cap
  proof -
    have "STRINGINFO_SIZE \<le> cap" "?needed < cap" using log_law_enlarge[OF law that] by simp_all
    then have "16 \<le> cap" "length str < cap" using needed by (simp_all add: STRINGINFO_SIZE_def)
    then show ?thesis using log_law_needed(1)[OF law] by (simp add: format_into.simps[of _ _ _ _ True])
  qed
  show ?thesis
  proof (cases "lg_enlarge L STRINGINFO_SIZE ?needed")
    case (Inr cap)
    then show ?thesis using needed second[OF Inr] by (simp add: format_into.simps[of _ _ _ _ False])
  qed (use needed in \<open>simp add: format_into.simps[of _ _ _ _ False]\<close>)
qed

lemma drop_newlines_eq: "drop_newlines buf = rev (dropWhile (\<lambda>b. b = 0x0A) (rev buf))"
proof (induction buf rule: rev_induct)
  case (snoc b buf)
  then show ?case by (simp add: drop_newlines.simps[of "buf @ [b]"])
qed (simp add: drop_newlines.simps)

lemma set_drop_newlines: "set (drop_newlines buf) \<subseteq> set buf"
  by (auto simp: drop_newlines_eq dest: set_dropWhileD)

lemma length_drop_newlines: "length (drop_newlines buf) \<le> length buf"
  using length_dropWhile_le[of "\<lambda>b. b = 0x0A" "rev buf"] by (simp add: drop_newlines_eq)

section \<open>Properties\<close>

text \<open>
  A line from WAMR reaches the log whole, or is refused for want of memory. Formatting it always
  ends; what is logged is the text read again as a format, so a line that has a conversion in it is not
  logged as it is. A message at WAMR's level for errors never comes back to WAMR.
\<close>
lemma bh_log_outcome:
  assumes "log_law L"
  shows "\<exists>r. pg_bh_log L log_level str = Some r \<and>
    ((\<exists>msg. r = Inl (PgError msg) \<and> STRINGINFO_SIZE \<le> length str)
     \<or> r = Inr LogQuiet \<and> \<not> lg_start L (bh_elevel log_level)
     \<or> r = res_bind (lg_again L str) (\<lambda>msg. Inr (case log_level of BH_ERROR \<Rightarrow> LogRaises msg | BH_FATAL \<Rightarrow> LogExits msg
          | _ \<Rightarrow> LogLine (bh_elevel log_level) msg)))"
proof (cases "lg_start L (bh_elevel log_level)")
  case False
  then have "\<not> ERROR_LEVEL \<le> bh_elevel log_level" using assms unfolding log_law_def by blast
  with False show ?thesis by (simp add: pg_bh_log_def)
next
  case True
  have level: "(if bh_elevel log_level = ERROR_LEVEL then LogRaises msg
      else if bh_elevel log_level = FATAL_LEVEL then LogExits msg else LogLine (bh_elevel log_level) msg) =
    (case log_level of BH_ERROR \<Rightarrow> LogRaises msg | BH_FATAL \<Rightarrow> LogExits msg | _ \<Rightarrow> LogLine (bh_elevel log_level) msg)" for msg
    by (cases log_level) (simp_all add: bh_elevel_def ERROR_LEVEL_def FATAL_LEVEL_def WARNING_LEVEL_def DEBUG1_LEVEL_def DEBUG3_LEVEL_def)
  show ?thesis
  proof (cases "length str < STRINGINFO_SIZE")
    case False
    then have long: "STRINGINFO_SIZE \<le> length str" by simp
    show ?thesis
      using True long
      by (auto simp: pg_bh_log_def Let_def format_into_again[OF assms long] level split: sum.splits)
  qed (simp add: pg_bh_log_def Let_def format_into_first[OF assms] True level)
qed

text \<open>A log that takes everything, as it is, into buffers of any size.\<close>

definition demo_log :: log_lib where
  "demo_log = \<lparr>lg_start = (\<lambda>_. True), lg_needed = (\<lambda>str cap. if length str < cap then 0 else length str + 1),
     lg_enlarge = (\<lambda>cap needed. Inr (cap + needed + 1)), lg_again = Inr\<rparr>"

lemma demo_log_law: "log_law demo_log"
  by (simp add: log_law_def demo_log_def)

lemma bh_log_outcome_witness:
  "\<exists>r. pg_bh_log demo_log BH_ERROR [0x41] = Some r \<and>
    ((\<exists>msg. r = Inl (PgError msg) \<and> STRINGINFO_SIZE \<le> length [0x41 :: byte])
     \<or> r = Inr LogQuiet \<and> \<not> lg_start demo_log (bh_elevel BH_ERROR)
     \<or> r = res_bind (lg_again demo_log [0x41]) (\<lambda>msg. Inr (case BH_ERROR of BH_ERROR \<Rightarrow> LogRaises msg | BH_FATAL \<Rightarrow> LogExits msg
          | _ \<Rightarrow> LogLine (bh_elevel BH_ERROR) msg)))"
  by (rule bh_log_outcome[OF demo_log_law])

text \<open>
  C35: the other way into the log walks the caller's arguments twice. Nothing is done if the server
  does not log at the level \<open>LOG\<close>. A text shorter than the first buffer is taken without the line
  ends at its end, and read once more as a format; it is logged as it is if it has no per cent sign.
  A longer text is refused with the error of the buffer that cannot grow, and otherwise makes the call
  undefined.
\<close>
lemma log_vprintf_undefined:
  assumes "log_law L" "buf = rev (dropWhile (\<lambda>b. b = 0x0A) (rev str))"
  shows "pg_log_vprintf L str = Some
      (if \<not> lg_start L LOG_LEVEL then Inr (0, None)
       else if length str < STRINGINFO_SIZE then res_bind (lg_again L buf) (\<lambda>msg. Inr (length buf, Some (LOG_LEVEL, msg)))
       else case lg_enlarge L STRINGINFO_SIZE (lg_needed L str STRINGINFO_SIZE) of
           Inl msg \<Rightarrow> Inl (PgError msg)
         | Inr _ \<Rightarrow> Inl (Undefined ''va_list'')) \<and>
    (lg_start L LOG_LEVEL \<and> length str < STRINGINFO_SIZE \<and> 0x25 \<notin> set str \<longrightarrow>
      pg_log_vprintf L str = Some (Inr (length buf, Some (LOG_LEVEL, buf))))"
proof -
  have buf: "drop_newlines str = buf" by (simp add: assms(2) drop_newlines_eq)
  have run: "pg_log_vprintf L str = Some
      (if \<not> lg_start L LOG_LEVEL then Inr (0, None)
       else if length str < STRINGINFO_SIZE then res_bind (lg_again L buf) (\<lambda>msg. Inr (length buf, Some (LOG_LEVEL, msg)))
       else case lg_enlarge L STRINGINFO_SIZE (lg_needed L str STRINGINFO_SIZE) of
           Inl msg \<Rightarrow> Inl (PgError msg)
         | Inr _ \<Rightarrow> Inl (Undefined ''va_list''))"
    using format_into_first[OF assms(1), of str True] format_into_again[OF assms(1), of str True]
    by (auto simp: pg_log_vprintf_def buf Let_def split: sum.splits)
  have "lg_again L buf = Inr buf" if "length str < STRINGINFO_SIZE" "0x25 \<notin> set str"
    using that length_drop_newlines[of str] set_drop_newlines[of str] unfolding buf
    by (intro log_law_again[OF assms(1)]) auto
  with run show ?thesis by simp
qed

lemma log_vprintf_undefined_witness:
  "pg_log_vprintf demo_log (replicate 2000 0x41) = Some (Inl (Undefined ''va_list'')) \<and>
    pg_log_vprintf demo_log [0x41, 0x0A] = Some (Inr (1, Some (LOG_LEVEL, [0x41])))"
proof -
  have "[0x41 :: byte] = rev (dropWhile (\<lambda>b. b = 0x0A) (rev [0x41, 0x0A]))" by simp
  from log_vprintf_undefined[OF demo_log_law refl, of "replicate 2000 0x41"] log_vprintf_undefined[OF demo_log_law this]
  show ?thesis by (simp add: demo_log_def STRINGINFO_SIZE_def)
qed

end
