(* ===== verification/Moontest.thy ===== *)
theory Moontest
  imports Json ObjSys
begin

text \<open>
  The test driver (\<open>moontest.c\<close>): a specification in JSON names the tests of each file by ranges
  of indexes; callbacks of Postgres' parser walk through it with a state machine and run each test
  when a range ends.
\<close>

section \<open>State\<close>

datatype expect =
    E_TOP | E_TOP_FIELD | E_PACKAGE_NAME | E_FILE_ARRAY | E_FILE_TUPLE | E_FILE_NAME
  | E_RANGE_ARRAY | E_RANGE_OBJECT | E_RANGE_FIELD | E_RANGE_START | E_RANGE_END | E_FILE_END | E_END

text \<open>
  What leaves the driver: a test is called, a failed one is reported (package, file, index and
  message, the strings as JSON), the application's end function is called.
\<close>

datatype moon_act =
    RunTest "byte list" int
  | Report "byte list" "byte list" int "byte list"
  | Finish

record parse_state =
  jp_expect :: expect
  jp_package :: "byte list"
  jp_filename :: "byte list option"
  jp_range_index :: int
  jp_range_start :: i32
  jp_range_end :: i32
  jp_range_start_set :: bool
  jp_range_end_set :: bool
  jp_log :: "moon_act list"

text \<open>
  The module and the functions of WAMR and Postgres: whether the two functions are exported,
  what a call of a test gives (it returns without an exception, with one, or a host function
  raises an error of Postgres out of it), the error a call of the end function raises if any, the
  exception and the call stack after a failed test (the stack with its NUL), the quoting of a
  string as JSON and the reading of a number.
\<close>

record moon_env =
  me_has_exec :: bool
  me_has_finish :: bool
  me_call :: "moon_act list \<Rightarrow> byte list \<Rightarrow> int \<Rightarrow> bool answer"
  me_finish :: "moon_act list \<Rightarrow> string option"
  me_exception :: "moon_act list \<Rightarrow> byte list option"
  me_call_stack :: "moon_act list \<Rightarrow> byte list"
  me_escape_json :: "byte list \<Rightarrow> byte list"
  me_strtoint32 :: "byte list \<Rightarrow> i32 res"

section \<open>Running the tests of a range\<close>

text \<open>
  \<open>while (msg->len >= 2 && msg->data[msg->len - 2] == '\n') msg->data[msg->len-- - 2] = '\0';\<close>
  on the bytes before \<open>len\<close>.
\<close>

function trim_newlines :: "byte list \<Rightarrow> byte list" where
  "trim_newlines data =
     (if 2 \<le> length data \<and> data ! (length data - 2) = 10
      then trim_newlines (take (length data - 2) data @ [0]) else data)"
  by pat_completeness auto
termination by (relation "measure length") auto

declare trim_newlines.simps [simp del]

definition until_nul :: "byte list \<Rightarrow> byte list" where
  "until_nul bs = takeWhile (\<lambda>b. b \<noteq> 0) bs"

definition failure_message :: "moon_env \<Rightarrow> moon_act list \<Rightarrow> byte list" where
  "failure_message e log =
     until_nul (trim_newlines
       ((case me_exception e log of Some exc \<Rightarrow> exc | None \<Rightarrow> ascii ''Error: '' @ [10]) @ me_call_stack e log))"

text \<open>
  The loop of \<open>json_object_end_cb\<close>. The object for the file name is made in the first round; the
  log says which tests were called. An error of Postgres that a test raises leaves the loop, the
  parser and \<open>moontest_run\<close>.
\<close>

fun run_range :: "moon_env \<Rightarrow> int list \<Rightarrow> parse_state \<Rightarrow> parse_state res" where
  "run_range e [] s = Inr s"
| "run_range e (i # is) s =
     (case jp_filename s of
        None \<Rightarrow> Inl (Trap ''parse_state->filename != NULL'')
      | Some filename \<Rightarrow>
          res_bind (cstring_into_varatt_obj filename TEXTOID) (\<lambda>_.
          res_bind (raised (me_call e (jp_log s) filename i)) (\<lambda>ok.
            let log = jp_log s @ [RunTest filename i];
                log = (if ok then log
                       else log @ [Report (jp_package s) (me_escape_json e filename) i
                                     (me_escape_json e (failure_message e log))])
            in run_range e is (s\<lparr>jp_log := log\<rparr>))))"

section \<open>Callbacks\<close>

definition json_object_start_cb :: "parse_state \<Rightarrow> (json_result \<times> parse_state) res" where
  "json_object_start_cb s =
     (case jp_expect s of
        E_TOP \<Rightarrow> Inr (JSON_SUCCESS, s\<lparr>jp_expect := E_TOP_FIELD\<rparr>)
      | E_RANGE_OBJECT \<Rightarrow>
          Inr (JSON_SUCCESS, s\<lparr>jp_expect := E_RANGE_FIELD, jp_range_start_set := False, jp_range_end_set := False\<rparr>)
      | _ \<Rightarrow> Inr (JSON_SEM_ACTION_FAILED, s))"

definition json_object_end_cb :: "moon_env \<Rightarrow> parse_state \<Rightarrow> (json_result \<times> parse_state) res" where
  "json_object_end_cb e s =
     (case jp_expect s of
        E_RANGE_FIELD \<Rightarrow>
          if \<not> jp_range_start_set s \<or> \<not> jp_range_end_set s then
            Inl (PgError ''Range object missing 'start' or 'end' field'')
          else
            res_bind (run_range e [sint (jp_range_start s)..sint (jp_range_end s) - 1] s) (\<lambda>s.
              Inr (JSON_SUCCESS, s\<lparr>jp_range_index := jp_range_index s + 1, jp_expect := E_RANGE_OBJECT\<rparr>))
      | E_TOP_FIELD \<Rightarrow>
          if \<not> me_has_finish e then Inr (JSON_SUCCESS, s\<lparr>jp_expect := E_END\<rparr>)
          else
            (case me_finish e (jp_log s) of
               Some msg \<Rightarrow> Inl (PgError msg)
             | None \<Rightarrow> Inr (JSON_SUCCESS, s\<lparr>jp_expect := E_END, jp_log := jp_log s @ [Finish]\<rparr>))
      | _ \<Rightarrow> Inr (JSON_SEM_ACTION_FAILED, s))"

definition json_array_start_cb :: "parse_state \<Rightarrow> (json_result \<times> parse_state) res" where
  "json_array_start_cb s =
     (case jp_expect s of
        E_FILE_ARRAY \<Rightarrow> Inr (JSON_SUCCESS, s\<lparr>jp_expect := E_FILE_TUPLE\<rparr>)
      | E_FILE_TUPLE \<Rightarrow> Inr (JSON_SUCCESS, s\<lparr>jp_expect := E_FILE_NAME\<rparr>)
      | E_RANGE_ARRAY \<Rightarrow> Inr (JSON_SUCCESS, s\<lparr>jp_expect := E_RANGE_OBJECT, jp_range_index := 0\<rparr>)
      | _ \<Rightarrow> Inr (JSON_SEM_ACTION_FAILED, s))"

definition json_array_end_cb :: "parse_state \<Rightarrow> (json_result \<times> parse_state) res" where
  "json_array_end_cb s =
     (case jp_expect s of
        E_RANGE_OBJECT \<Rightarrow> Inr (JSON_SUCCESS, s\<lparr>jp_expect := E_FILE_END\<rparr>)
      | E_FILE_END \<Rightarrow>
          (case jp_filename s of
             None \<Rightarrow> Inl (Undefined ''pfree(NULL)'')
           | Some _ \<Rightarrow> Inr (JSON_SUCCESS, s\<lparr>jp_filename := None, jp_expect := E_FILE_TUPLE\<rparr>))
      | _ \<Rightarrow> Inr (JSON_SEM_ACTION_FAILED, s))"

definition json_object_field_start_cb :: "byte list \<Rightarrow> bool \<Rightarrow> parse_state \<Rightarrow> (json_result \<times> parse_state) res" where
  "json_object_field_start_cb fname isnull s =
     (let to = (\<lambda>x. Inr (JSON_SUCCESS, if isnull then s else s\<lparr>jp_expect := x\<rparr>)) in
      case jp_expect s of
        E_TOP_FIELD \<Rightarrow>
          if fname = ascii ''package'' then to E_PACKAGE_NAME
          else if fname = ascii ''file_and_index'' then to E_FILE_ARRAY
          else Inl (PgError ''Unexpected field '%s' in top-level object'')
      | E_RANGE_FIELD \<Rightarrow>
          if fname = ascii ''start'' then to E_RANGE_START
          else if fname = ascii ''end'' then to E_RANGE_END
          else Inl (PgError ''Unexpected field '%s' in range object'')
      | _ \<Rightarrow> Inr (JSON_SEM_ACTION_FAILED, s))"

definition json_scalar_cb :: "moon_env \<Rightarrow> byte list \<Rightarrow> json_token \<Rightarrow> parse_state \<Rightarrow> (json_result \<times> parse_state) res" where
  "json_scalar_cb e token type s =
     (case jp_expect s of
        E_PACKAGE_NAME \<Rightarrow>
          if type \<noteq> JSON_TOKEN_STRING then Inl (PgError ''Expected string for 'package' field'')
          else Inr (JSON_SUCCESS, s\<lparr>jp_package := me_escape_json e token, jp_expect := E_TOP_FIELD\<rparr>)
      | E_FILE_NAME \<Rightarrow>
          if type \<noteq> JSON_TOKEN_STRING then Inl (PgError ''Expected string for filename in file_and_index entry'')
          else Inr (JSON_SUCCESS, s\<lparr>jp_filename := Some token, jp_expect := E_RANGE_ARRAY\<rparr>)
      | E_RANGE_START \<Rightarrow>
          if type \<noteq> JSON_TOKEN_NUMBER then Inl (PgError ''Expected number for 'start' in range object'')
          else res_bind (me_strtoint32 e token) (\<lambda>n.
            Inr (JSON_SUCCESS, s\<lparr>jp_range_start := n, jp_range_start_set := True, jp_expect := E_RANGE_FIELD\<rparr>))
      | E_RANGE_END \<Rightarrow>
          if type \<noteq> JSON_TOKEN_NUMBER then Inl (PgError ''Expected number for 'end' in range object'')
          else res_bind (me_strtoint32 e token) (\<lambda>n.
            Inr (JSON_SUCCESS, s\<lparr>jp_range_end := n, jp_range_end_set := True, jp_expect := E_RANGE_FIELD\<rparr>))
      | _ \<Rightarrow> Inr (JSON_SEM_ACTION_FAILED, s))"

fun moon_callback :: "moon_env \<Rightarrow> json_event \<Rightarrow> parse_state \<Rightarrow> (json_result \<times> parse_state) res" where
  "moon_callback e ObjectStart = json_object_start_cb"
| "moon_callback e ObjectEnd = json_object_end_cb e"
| "moon_callback e ArrayStart = json_array_start_cb"
| "moon_callback e ArrayEnd = json_array_end_cb"
| "moon_callback e (FieldStart fname isnull) = json_object_field_start_cb fname isnull"
| "moon_callback e (Scalar token type) = json_scalar_cb e token type"

section \<open>A run\<close>

definition initial_parse_state :: parse_state where
  "initial_parse_state =
     \<lparr>jp_expect = E_TOP, jp_package = [34] @ ascii ''<unknown package>'' @ [34], jp_filename = None,
      jp_range_index = 0, jp_range_start = 0, jp_range_end = 0, jp_range_start_set = False,
      jp_range_end_set = False, jp_log = []\<rparr>"

text \<open>
  \<open>pg_parse\<close>: the callbacks Postgres makes for the text. What \<open>pg_parse_json\<close> returns is not
  looked at. The clean-up frees the file name and the package's buffer.
\<close>

definition moontest_run :: "moon_env \<Rightarrow> (byte list \<Rightarrow> json_event list) \<Rightarrow> byte list \<Rightarrow> parse_state res" where
  "moontest_run e pg_parse spec =
     (if \<not> me_has_exec e then
        Inl (PgError ''Function 'moonbit_test_driver_internal_execute' not found in module'')
      else res_bind (run_events (moon_callback e) (pg_parse spec) initial_parse_state) (\<lambda>(_, s).
        Inr (s\<lparr>jp_filename := None\<rparr>)))"

end
