(* ===== verification/MoontestProps.thy ===== *)
theory MoontestProps
  imports Moontest TextProps
begin

text \<open>
  The test driver runs the tests of a specification in order, up to one that raises an error, and
  survives any text; it calls the application's end function only if it ran no test.
\<close>

section \<open>Any text\<close>

definition holds_filename :: "expect \<Rightarrow> bool" where
  "holds_filename x \<longleftrightarrow>
     x \<in> {E_RANGE_ARRAY, E_RANGE_OBJECT, E_RANGE_FIELD, E_RANGE_START, E_RANGE_END, E_FILE_END}"

definition tests_run :: "moon_act list \<Rightarrow> (byte list \<times> int) list" where
  "tests_run log = concat (map (\<lambda>a. case a of RunTest f i \<Rightarrow> [(f, i)] | _ \<Rightarrow> []) log)"

lemma tests_run_simps [simp]:
  "tests_run [] = []" "tests_run (log @ log') = tests_run log @ tests_run log'"
  "tests_run (RunTest f i # log) = (f, i) # tests_run log" "tests_run (Finish # log) = tests_run log"
  "tests_run (Report p f i m # log) = tests_run log"
  by (simp_all add: tests_run_def)

text \<open>
  The file name is allocated exactly in the states that use it. Before the files nothing has run,
  and after them the driver never comes back to the fields of the top-level object.
\<close>

definition moon_inv :: "parse_state \<Rightarrow> bool" where
  "moon_inv s \<longleftrightarrow>
     (jp_filename s \<noteq> None \<longleftrightarrow> holds_filename (jp_expect s)) \<and>
     (jp_expect s \<in> {E_TOP, E_TOP_FIELD, E_PACKAGE_NAME, E_FILE_ARRAY, E_END} \<longrightarrow> tests_run (jp_log s) = []) \<and>
     (Finish \<in> set (jp_log s) \<longrightarrow> jp_expect s = E_END)"

definition moon_law :: "moon_env \<Rightarrow> bool" where
  "moon_law e \<longleftrightarrow> (\<forall>tok. res_sat pg_errors (\<lambda>_. True) (me_strtoint32 e tok))"

lemma run_range_Cons:
  assumes "jp_filename s = Some f"
  shows "run_range e (i # is) s =
    res_bind (cstring_into_varatt_obj f TEXTOID) (\<lambda>_.
    res_bind (raised (me_call e (jp_log s) f i)) (\<lambda>ok.
      run_range e is (s\<lparr>jp_log := jp_log s @ RunTest f i # (if ok then []
        else [Report (jp_package s) (me_escape_json e f) i
          (me_escape_json e (failure_message e (jp_log s @ [RunTest f i])))])\<rparr>)))"
  using assms by (simp add: Let_def if_distrib[where f = "\<lambda>x. jp_log s @ RunTest f i # x"] cong: if_cong)

lemma run_range_sat:
  "jp_filename s = Some f \<Longrightarrow>
    res_sat pg_errors (\<lambda>s'. \<exists>log. s' = s\<lparr>jp_log := log\<rparr> \<and> (Finish \<in> set log \<longleftrightarrow> Finish \<in> set (jp_log s)))
      (run_range e is s)"
proof (induction "is" arbitrary: s)
  case Nil
  then show ?case by (auto intro: exI[of _ "jp_log s"])
next
  case (Cons i "is")
  have "res_sat pg_errors (\<lambda>s'. \<exists>log. s' = s\<lparr>jp_log := log\<rparr> \<and> (Finish \<in> set log \<longleftrightarrow> Finish \<in> set (jp_log s)))
      (run_range e is (s\<lparr>jp_log := log\<rparr>))" if "Finish \<in> set log \<longleftrightarrow> Finish \<in> set (jp_log s)" for log
    by (rule res_sat_mono[OF Cons.IH[of "s\<lparr>jp_log := log\<rparr>"]]) (use Cons.prems that in simp_all)
  moreover have "res_sat pg_errors (\<lambda>_. True) (cstring_into_varatt_obj f TEXTOID)"
    by (simp add: cstring_into_varatt_obj_def varatt_new_def Let_def)
  ultimately show ?case
    unfolding run_range_Cons[OF Cons.prems]
    by (cases "cstring_into_varatt_obj f TEXTOID"; cases "me_call e (jp_log s) f i") auto
qed

lemma moon_callback_inv:
  assumes "moon_law e" "moon_inv s"
  shows "res_sat pg_errors (\<lambda>(_, s'). moon_inv s') (moon_callback e ev s)"
proof (cases ev)
  case ObjectEnd
  show ?thesis
  proof (cases "jp_expect s")
    case E_RANGE_FIELD
    then obtain f where f: "jp_filename s = Some f"
      using assms(2) by (auto simp: moon_inv_def holds_filename_def)
    from run_range_sat[OF f, of e "[sint (jp_range_start s)..sint (jp_range_end s) - 1]"] show ?thesis
      using E_RANGE_FIELD assms(2) f ObjectEnd
      by (auto simp: json_object_end_cb_def moon_inv_def holds_filename_def elim!: res_sat_bind)
  qed (use assms(2) in \<open>auto simp: ObjectEnd json_object_end_cb_def moon_inv_def holds_filename_def
      split: option.splits\<close>)
next
  case (Scalar tok ty)
  have "res_sat pg_errors (\<lambda>_. True) (me_strtoint32 e tok)" using assms(1) by (simp add: moon_law_def)
  then show ?thesis
    using assms(2) Scalar
    by (cases "jp_expect s"; cases "me_strtoint32 e tok")
      (simp_all add: json_scalar_cb_def moon_inv_def holds_filename_def)
next
  case ObjectStart
  then show ?thesis using assms(2)
    by (cases "jp_expect s") (simp_all add: json_object_start_cb_def moon_inv_def holds_filename_def)
next
  case ArrayStart
  then show ?thesis using assms(2)
    by (cases "jp_expect s") (simp_all add: json_array_start_cb_def moon_inv_def holds_filename_def)
next
  case ArrayEnd
  then show ?thesis using assms(2)
    by (cases "jp_expect s") (auto simp: json_array_end_cb_def moon_inv_def holds_filename_def)
next
  case (FieldStart fname isnull)
  then show ?thesis using assms(2)
    by (cases "jp_expect s"; cases isnull)
      (simp_all add: json_object_field_start_cb_def moon_inv_def holds_filename_def Let_def)
qed

section \<open>A specification\<close>

text \<open>
  What MoonBit's build tool gives: the package and, for each file, its name and the ranges of its
  tests, as tokens of numbers.
\<close>

definition range_json :: "byte list \<times> byte list \<Rightarrow> json" where
  "range_json r = JObject [(ascii ''start'', JNumber (fst r)), (ascii ''end'', JNumber (snd r))]"

definition file_json :: "byte list \<times> (byte list \<times> byte list) list \<Rightarrow> json" where
  "file_json f = JArray [JString (fst f), JArray (map range_json (snd f))]"

definition spec_json :: "byte list \<Rightarrow> (byte list \<times> (byte list \<times> byte list) list) list \<Rightarrow> json" where
  "spec_json package files =
     JObject [(ascii ''package'', JString package), (ascii ''file_and_index'', JArray (map file_json files))]"

definition num :: "moon_env \<Rightarrow> byte list \<Rightarrow> int" where
  "num e tok = (case me_strtoint32 e tok of Inr n \<Rightarrow> sint n | Inl _ \<Rightarrow> 0)"

definition range_tests :: "moon_env \<Rightarrow> byte list \<Rightarrow> byte list \<times> byte list \<Rightarrow> (byte list \<times> int) list" where
  "range_tests e f r = map (Pair f) [num e (fst r)..num e (snd r) - 1]"

definition file_tests :: "moon_env \<Rightarrow> byte list \<times> (byte list \<times> byte list) list \<Rightarrow> (byte list \<times> int) list" where
  "file_tests e f = concat (map (range_tests e (fst f)) (snd f))"

definition file_ok :: "moon_env \<Rightarrow> byte list \<times> (byte list \<times> byte list) list \<Rightarrow> bool" where
  "file_ok e f \<longleftrightarrow> length (fst f) \<le> VARATT_MAX - VARHDRSZ \<and>
     (\<forall>(a, b) \<in> set (snd f). (\<exists>n. me_strtoint32 e a = Inr n) \<and> (\<exists>n. me_strtoint32 e b = Inr n))"

text \<open>The driver is in state \<open>x\<close> with the file name \<open>f\<close>, has run \<open>ts\<close> and not called the end function.\<close>

definition at :: "parse_state \<Rightarrow> expect \<Rightarrow> byte list option \<Rightarrow> (byte list \<times> int) list \<Rightarrow> bool" where
  "at s x f ts \<longleftrightarrow> jp_expect s = x \<and> jp_filename s = f \<and> tests_run (jp_log s) = ts \<and> Finish \<notin> set (jp_log s)"

definition reaches ::
  "moon_env \<Rightarrow> json_event list \<Rightarrow> parse_state \<Rightarrow> (parse_state \<Rightarrow> bool) \<Rightarrow> (failure \<Rightarrow> bool) \<Rightarrow> bool" where
  "reaches e evs s Q F \<longleftrightarrow> (case run_events (moon_callback e) evs s of
     Inr (r, s') \<Rightarrow> r = JSON_SUCCESS \<and> Q s' | Inl err \<Rightarrow> F err)"

lemma reaches_Nil [simp]: "reaches e [] s Q F = Q s" by (simp add: reaches_def)

lemma reaches_Cons:
  "reaches e (ev # evs) s Q F \<longleftrightarrow> (case moon_callback e ev s of
     Inr (r, s') \<Rightarrow> r = JSON_SUCCESS \<and> reaches e evs s' Q F | Inl err \<Rightarrow> F err)"
  unfolding reaches_def by (cases "moon_callback e ev s") (auto split: prod.splits if_splits)

lemma reaches_append: "reaches e (evs @ evs') s Q F \<longleftrightarrow> reaches e evs s (\<lambda>s'. reaches e evs' s' Q F) F"
  by (induction evs arbitrary: s) (auto simp: reaches_Cons split: sum.splits prod.splits)

lemma reaches_mono:
  "reaches e evs s Q F \<Longrightarrow> (\<And>s'. Q s' \<Longrightarrow> Q' s') \<Longrightarrow> (\<And>err. F err \<Longrightarrow> F' err) \<Longrightarrow> reaches e evs s Q' F'"
  by (auto simp: reaches_def split: sum.splits)

text \<open>
  After the tests \<open>ts\<close> had run, the error \<open>err\<close> was raised by one of the tests \<open>new\<close>, when the ones
  before it had run.
\<close>

definition raised_in :: "moon_env \<Rightarrow> (byte list \<times> int) list \<Rightarrow> (byte list \<times> int) list \<Rightarrow> failure \<Rightarrow> bool" where
  "raised_in e ts new err \<longleftrightarrow> (\<exists>before f i after log msg. new = before @ (f, i) # after \<and>
     tests_run log = ts @ before \<and> me_call e log f i = Inl msg \<and> err = PgError msg)"

lemma raised_inI:
  "new = before @ (f, i) # after \<Longrightarrow> tests_run log = ts @ before \<Longrightarrow> me_call e log f i = Inl msg \<Longrightarrow>
    raised_in e ts new (PgError msg)"
  unfolding raised_in_def by blast

lemma raised_in_append:
  "raised_in e ts a err \<Longrightarrow> raised_in e ts (a @ b) err"
  "raised_in e (ts @ a) b err \<Longrightarrow> raised_in e ts (a @ b) err"
proof -
  show "raised_in e ts a err \<Longrightarrow> raised_in e ts (a @ b) err"
    by (clarsimp simp: raised_in_def) blast
  assume "raised_in e (ts @ a) b err"
  then obtain before f i after log msg where "b = before @ (f, i) # after" "tests_run log = ts @ a @ before"
    "me_call e log f i = Inl msg" "err = PgError msg" by (auto simp: raised_in_def)
  then show "raised_in e ts (a @ b) err"
    unfolding raised_in_def by (intro exI[of _ "a @ before"] exI[of _ f] exI[of _ i] exI[of _ after]) auto
qed

text \<open>A list of values of the same kind, in a state they come back to.\<close>

lemma reaches_each:
  assumes "\<And>v s ts. v \<in> set vs \<Longrightarrow> at s x f ts \<Longrightarrow>
      reaches e (json_events (j v)) s (\<lambda>s'. at s' x f (ts @ g v)) (raised_in e ts (g v))"
  shows "at s x f ts \<Longrightarrow> reaches e (concat (map json_events (map j vs))) s
    (\<lambda>s'. at s' x f (ts @ concat (map g vs))) (raised_in e ts (concat (map g vs)))"
  using assms
proof (induction vs arbitrary: s ts)
  case (Cons v vs)
  let ?F = "raised_in e ts (g v @ concat (map g vs))"
  have "reaches e (concat (map json_events (map j vs))) s' (\<lambda>s''. at s'' x f ((ts @ g v) @ concat (map g vs))) ?F"
    if "at s' x f (ts @ g v)" for s'
    by (rule reaches_mono[OF Cons.IH[OF that Cons.prems(2)]]) (auto intro: raised_in_append(2))
  moreover have "reaches e (json_events (j v)) s (\<lambda>s'. at s' x f (ts @ g v)) ?F"
    by (rule reaches_mono[OF Cons.prems(2)[OF _ Cons.prems(1)]]) (auto intro: raised_in_append(1))
  ultimately show ?case by (auto simp: reaches_append elim!: reaches_mono)
qed simp

lemma run_range_total:
  assumes "jp_filename s = Some f" "length f \<le> VARATT_MAX - VARHDRSZ"
  shows "case run_range e is s of
      Inr s' \<Rightarrow> \<exists>log. s' = s\<lparr>jp_log := log\<rparr> \<and> tests_run log = tests_run (jp_log s) @ map (Pair f) is \<and>
        (Finish \<in> set log \<longleftrightarrow> Finish \<in> set (jp_log s))
    | Inl err \<Rightarrow> raised_in e (tests_run (jp_log s)) (map (Pair f) is) err"
  using assms(1)
proof (induction "is" arbitrary: s)
  case Nil
  then show ?case by (auto intro: exI[of _ "jp_log s"])
next
  case (Cons i "is")
  obtain r where r: "cstring_into_varatt_obj f TEXTOID = Inr r"
    using cstring_into_varatt_obj_ok[OF assms(2), of TEXTOID] by auto
  show ?case
  proof (cases "me_call e (jp_log s) f i")
    case (Inl msg)
    then have "raised_in e (tests_run (jp_log s)) (map (Pair f) (i # is)) (PgError msg)"
      by (intro raised_inI[of _ "[]" f i _ "jp_log s"]) simp_all
    then show ?thesis using Inl r by (simp add: run_range_Cons[OF Cons.prems] del: run_range.simps)
  next
    case (Inr ok)
    define log1 where "log1 = jp_log s @ RunTest f i # (if ok then []
        else [Report (jp_package s) (me_escape_json e f) i
          (me_escape_json e (failure_message e (jp_log s @ [RunTest f i])))])"
    have log1: "tests_run log1 = tests_run (jp_log s) @ [(f, i)]" "Finish \<in> set log1 \<longleftrightarrow> Finish \<in> set (jp_log s)"
      by (simp_all add: log1_def)
    have "run_range e (i # is) s = run_range e is (s\<lparr>jp_log := log1\<rparr>)"
      using Inr r by (simp add: run_range_Cons[OF Cons.prems] log1_def del: run_range.simps)
    moreover have "raised_in e (tests_run (jp_log s)) ((f, i) # map (Pair f) is) err"
      if "raised_in e (tests_run log1) (map (Pair f) is) err" for err
      using raised_in_append(2)[of e "tests_run (jp_log s)" "[(f, i)]"] that log1(1) by simp
    ultimately show ?thesis
      using Cons.IH[of "s\<lparr>jp_log := log1\<rparr>"] Cons.prems log1 by (auto split: sum.splits)
  qed
qed

lemma ascii_neq [simp]:
  "ascii ''start'' \<noteq> ascii ''end''" "ascii ''end'' \<noteq> ascii ''start''"
  "ascii ''file_and_index'' \<noteq> ascii ''package''"
  by (simp_all add: ascii_def)

lemma reaches_range:
  assumes "at s E_RANGE_OBJECT (Some f) ts" "length f \<le> VARATT_MAX - VARHDRSZ"
    and "me_strtoint32 e (fst r) = Inr a" "me_strtoint32 e (snd r) = Inr b"
  shows "reaches e (json_events (range_json r)) s (\<lambda>s'. at s' E_RANGE_OBJECT (Some f) (ts @ range_tests e f r))
    (raised_in e ts (range_tests e f r))"
proof -
  let ?s = "s\<lparr>jp_range_start := a, jp_range_start_set := True, jp_range_end := b, jp_range_end_set := True,
    jp_expect := E_RANGE_FIELD\<rparr>"
  have "jp_filename ?s = Some f" using assms(1) by (simp add: at_def)
  from run_range_total[OF this assms(2), of e "[sint a..sint b - 1]"] assms show ?thesis
    by (auto simp: range_json_def reaches_Cons json_object_start_cb_def json_object_field_start_cb_def
        json_scalar_cb_def json_object_end_cb_def at_def range_tests_def num_def Let_def split: sum.splits)
qed

lemma reaches_file:
  assumes "at s E_FILE_TUPLE None ts" "file_ok e f"
  shows "reaches e (json_events (file_json f)) s (\<lambda>s'. at s' E_FILE_TUPLE None (ts @ file_tests e f))
    (raised_in e ts (file_tests e f))"
proof -
  let ?ranges = "concat (map json_events (map range_json (snd f)))" and ?F = "raised_in e ts (file_tests e f)"
  let ?s = "s\<lparr>jp_expect := E_FILE_NAME, jp_filename := Some (fst f), jp_expect := E_RANGE_OBJECT, jp_range_index := 0\<rparr>"
  have "at ?s E_RANGE_OBJECT (Some (fst f)) ts" using assms(1) by (simp add: at_def)
  then have ranges: "reaches e ?ranges ?s (\<lambda>s'. at s' E_RANGE_OBJECT (Some (fst f)) (ts @ file_tests e f)) ?F"
    unfolding file_tests_def
  proof (rule reaches_each[rotated])
    fix r s ts
    assume "r \<in> set (snd f)" "at s E_RANGE_OBJECT (Some (fst f)) ts"
    with assms(2) show "reaches e (json_events (range_json r)) s
        (\<lambda>s'. at s' E_RANGE_OBJECT (Some (fst f)) (ts @ range_tests e (fst f) r)) (raised_in e ts (range_tests e (fst f) r))"
      by (force simp: file_ok_def intro: reaches_range)
  qed
  have "reaches e [ArrayEnd, ArrayEnd] s' (\<lambda>s''. at s'' E_FILE_TUPLE None ts') ?F"
    if "at s' E_RANGE_OBJECT (Some (fst f)) ts'" for s' ts'
    using that by (simp add: at_def reaches_Cons json_array_end_cb_def)
  from reaches_mono[OF ranges this]
  have "reaches e (?ranges @ [ArrayEnd, ArrayEnd]) ?s (\<lambda>s'. at s' E_FILE_TUPLE None (ts @ file_tests e f)) ?F"
    by (simp only: reaches_append)
  moreover have "json_events (file_json f) =
      ArrayStart # Scalar (fst f) JSON_TOKEN_STRING # ArrayStart # ?ranges @ [ArrayEnd, ArrayEnd]"
    by (simp add: file_json_def)
  ultimately show ?thesis
    using assms(1) by (simp add: reaches_Cons json_array_start_cb_def json_scalar_cb_def at_def)
qed

section \<open>Messages\<close>

text \<open>The call stack comes with its NUL; the newlines in front of it are cut off.\<close>

lemma trim_message:
  assumes "0 \<notin> set m" "m = [] \<or> last m \<noteq> 10"
  shows "until_nul (trim_newlines (m @ replicate k 10 @ [0])) = m"
proof (induction k)
  case 0
  have "\<not> (2 \<le> length (m @ [0]) \<and> (m @ [0]) ! (length (m @ [0]) - 2) = 10)"
    using assms(2) by (cases m rule: rev_cases) (auto simp: nth_append)
  then have "trim_newlines (m @ [0]) = m @ [0]" by (subst trim_newlines.simps) (simp only: if_False)
  moreover have "takeWhile (\<lambda>b. b \<noteq> 0) (m @ [0]) = m"
    using assms(1) by (induction m) auto
  ultimately show ?case by (simp add: until_nul_def)
next
  case (Suc k)
  let ?d = "m @ replicate k 10 @ [10, 0]"
  have "?d ! (length ?d - 2) = 10" by (simp add: nth_append)
  moreover have "take (length ?d - 2) ?d @ [0] = m @ replicate k 10 @ [0]" by simp
  ultimately have "trim_newlines ?d = trim_newlines (m @ replicate k 10 @ [0])"
    by (subst trim_newlines.simps) simp
  moreover have "m @ replicate (Suc k) 10 @ [0] = ?d" by (simp flip: replicate_append_same)
  ultimately show ?case using Suc by simp
qed

section \<open>Properties\<close>

text \<open>
  C18: the test driver runs the tests of a specification: every test of every range of every file,
  once, in order, under its file's name, whether they fail or not. It then returns without having
  called the application's end function: the array of files cannot be closed, and the parser
  stops there. Only an error of Postgres that a test raises ends the run before: then it is that
  error, and the tests before that one, and no others, have run.
\<close>
lemma all_tests_run:
  assumes "me_has_exec e" "pg_parse text = json_events (spec_json package files)" "\<forall>f \<in> set files. file_ok e f"
  shows "case moontest_run e pg_parse text of
      Inr s \<Rightarrow> tests_run (jp_log s) = concat (map (file_tests e) files) \<and> Finish \<notin> set (jp_log s)
    | Inl err \<Rightarrow> \<exists>before f i after log msg. concat (map (file_tests e) files) = before @ (f, i) # after \<and>
        tests_run log = before \<and> me_call e log f i = Inl msg \<and> err = PgError msg"
proof -
  let ?files = "concat (map json_events (map file_json files))" and ?tests = "concat (map (file_tests e) files)"
  let ?s = "initial_parse_state\<lparr>jp_package := me_escape_json e package, jp_expect := E_FILE_TUPLE\<rparr>"
  have "at ?s E_FILE_TUPLE None []" by (simp add: at_def initial_parse_state_def)
  then have files: "reaches e ?files ?s (\<lambda>s'. at s' E_FILE_TUPLE None ([] @ ?tests)) (raised_in e [] ?tests)"
    by (rule reaches_each[rotated]) (use assms(3) reaches_file in blast)
  have "json_events (spec_json package files) =
      [ObjectStart, FieldStart (ascii ''package'') False, Scalar package JSON_TOKEN_STRING,
       FieldStart (ascii ''file_and_index'') False, ArrayStart] @ ?files @ [ArrayEnd, ObjectEnd]"
    by (simp add: spec_json_def)
  then have run: "run_events (moon_callback e) (pg_parse text) initial_parse_state =
      run_events (moon_callback e) (?files @ [ArrayEnd, ObjectEnd]) ?s"
    by (simp add: assms(2) json_object_start_cb_def json_object_field_start_cb_def
        json_scalar_cb_def json_array_start_cb_def Let_def initial_parse_state_def)
  show ?thesis
  proof (cases "run_events (moon_callback e) ?files ?s")
    case (Inl err)
    with files have "raised_in e [] ?tests err" by (simp add: reaches_def)
    then show ?thesis using Inl run assms(1) by (simp add: moontest_run_def run_events_append raised_in_def)
  next
    case (Inr p)
    then obtain s where s: "run_events (moon_callback e) ?files ?s = Inr (JSON_SUCCESS, s)" "at s E_FILE_TUPLE None ?tests"
      using files by (cases p) (simp add: reaches_def)
    then have "run_events (moon_callback e) (pg_parse text) initial_parse_state = Inr (JSON_SEM_ACTION_FAILED, s)"
      by (simp add: run run_events_append json_array_end_cb_def at_def)
    then show ?thesis using s(2) assms(1) by (simp add: moontest_run_def at_def)
  qed
qed

text \<open>
  C39: no text can crash the test driver. For whatever callbacks the parser makes the run ends with
  a state or an error of Postgres; the file name is set whenever a test is run, and freed exactly
  once; and the application's end function is called only if no test was run.
\<close>
lemma moontest_safe:
  assumes "moon_law e"
  shows "res_sat pg_errors (\<lambda>s. Finish \<in> set (jp_log s) \<longrightarrow> tests_run (jp_log s) = []) (moontest_run e pg_parse text)"
proof -
  have "moon_inv initial_parse_state" by (simp add: moon_inv_def initial_parse_state_def holds_filename_def)
  from run_events_invariant[of moon_inv pg_errors "moon_callback e", OF moon_callback_inv[OF assms] this]
  have "res_sat pg_errors (\<lambda>(_, s'). moon_inv s') (run_events (moon_callback e) (pg_parse text) initial_parse_state)" .
  then show ?thesis
    by (cases "run_events (moon_callback e) (pg_parse text) initial_parse_state")
      (auto simp: moontest_run_def moon_inv_def)
qed

text \<open>Numbers of one digit; every second test fails.\<close>

definition demo_moon :: moon_env where
  "demo_moon =
     \<lparr>me_has_exec = True, me_has_finish = True, me_call = \<lambda>_ _ i. Inr (even i), me_finish = \<lambda>_. None, me_exception = \<lambda>_. None,
      me_call_stack = \<lambda>_. [10, 0], me_escape_json = \<lambda>s. [34] @ s @ [34],
      me_strtoint32 = \<lambda>tok. (case tok of [d] \<Rightarrow> Inr (ucast d - 48) | _ \<Rightarrow> Inl (PgError ''invalid input''))\<rparr>"

lemma demo_moon_law: "moon_law demo_moon"
  by (simp add: moon_law_def demo_moon_def split: list.splits)

text \<open>Two tests of which one fails; and the same when the second raises an error.\<close>

definition demo_spec :: "byte list \<Rightarrow> json_event list" where
  "demo_spec = (\<lambda>_. json_events (spec_json [112] [([97], [([48], [50])]), ([98], [])]))"

lemma all_tests_run_witness:
  "(\<exists>s. moontest_run demo_moon demo_spec [] = Inr s \<and> tests_run (jp_log s) = [([97], 0), ([97], 1)] \<and>
      Finish \<notin> set (jp_log s)) \<and>
   moontest_run (demo_moon\<lparr>me_call := \<lambda>_ _ i. if i = 0 then Inr True else Inl ''division by zero''\<rparr>) demo_spec [] =
     Inl (PgError ''division by zero'')"
proof -
  let ?e = "\<lambda>call. demo_moon\<lparr>me_call := call\<rparr>"
  let ?raise = "\<lambda>_ _ i. if i = 0 then Inr True else Inl ''division by zero''"
  have tests: "concat (map (file_tests (?e call)) [([97], [([48], [50])]), ([98], [])]) = [([97], 0), ([97], 1)]" for call
  proof -
    have "num (?e call) [48] = 0" "num (?e call) [50] = 2" by (simp_all add: num_def demo_moon_def)
    moreover have "[0..2 - 1] = [0, 1::int]" by (simp add: upto.simps)
    ultimately show ?thesis by (simp add: file_tests_def range_tests_def)
  qed
  have ok: "\<forall>f \<in> set [([97], [([48], [50])]), ([98], [])]. file_ok (?e call) f" "me_has_exec (?e call)" for call
    by (auto simp: file_ok_def demo_moon_def VARATT_MAX_def VARHDRSZ_def)
  have spec: "demo_spec [] = json_events (spec_json [112] [([97], [([48], [50])]), ([98], [])])"
    by (simp add: demo_spec_def)
  note run = all_tests_run[of _ demo_spec "[]", OF ok(2) spec ok(1), unfolded tests]
  have "?e (me_call demo_moon) = demo_moon" by simp
  with run[of "me_call demo_moon"] have
    "\<exists>s. moontest_run demo_moon demo_spec [] = Inr s \<and> tests_run (jp_log s) = [([97], 0), ([97], 1)] \<and> Finish \<notin> set (jp_log s)"
    by (auto simp: demo_moon_def split: sum.splits)
  moreover have "isl (moontest_run (?e ?raise) demo_spec [])"
    by (simp add: moontest_run_def demo_spec_def spec_json_def file_json_def range_json_def json_object_start_cb_def
        json_object_field_start_cb_def json_scalar_cb_def json_array_start_cb_def json_object_end_cb_def Let_def
        initial_parse_state_def demo_moon_def cstring_into_varatt_obj_def varatt_new_def VARATT_MAX_def VARHDRSZ_def
        upto.simps)
  with run[of ?raise] have "moontest_run (?e ?raise) demo_spec [] = Inl (PgError ''division by zero'')"
    by (auto split: sum.splits if_splits)
  ultimately show ?thesis by blast
qed

lemma moontest_safe_witness:
  "res_sat pg_errors (\<lambda>s. Finish \<in> set (jp_log s) \<longrightarrow> tests_run (jp_log s) = [])
    (moontest_run demo_moon (\<lambda>_. [ObjectStart, FieldStart [] True, ArrayEnd]) [])"
  by (rule moontest_safe[OF demo_moon_law])

end
