(* ===== verification/Runner.thy ===== *)
theory Runner
  imports Act Moontest
begin

text \<open>
  The command-line runner (\<open>main.c\<close>, and \<open>moontest_parse_args\<close> of \<open>moontest.c\<close>): the command
  line, and running one WebAssembly file with everything given back at the end. WAMR, the file
  system and \<open>getopt_long\<close> are parameters.
\<close>

section \<open>Command line\<close>

definition lower :: "char \<Rightarrow> char" where
  "lower c = (if 65 \<le> (of_char c :: nat) \<and> (of_char c :: nat) \<le> 90 then char_of ((of_char c :: nat) + 32) else c)"

definition strcaseeq :: "string \<Rightarrow> string \<Rightarrow> bool" where
  "strcaseeq s t \<longleftrightarrow> map lower s = map lower t"

datatype subcommand = RUN | MOONTEST | HELP | VERSION | BAD_ARGS

text \<open>What \<open>getopt_long\<close> returns before -1, and the arguments from \<open>optind\<close> on.\<close>

datatype main_option = OptMode "string option" | OptHelp | OptVersion | OptOther

definition mode_of :: "string \<Rightarrow> string \<Rightarrow> bool res" where
  "mode_of msg mode =
     (if strcaseeq mode ''aot'' then Inr True else if strcaseeq mode ''jit'' then Inr False
      else Inl (PgError msg))"

fun parse_options :: "main_option list \<Rightarrow> bool \<Rightarrow> (subcommand option \<times> bool) res" where
  "parse_options [] aot = Inr (None, aot)"
| "parse_options (OptMode None # os) aot = Inl (PgError ''-m requires an argument'')"
| "parse_options (OptMode (Some mode) # os) aot =
     res_bind (mode_of ''Unknown mode '%s', available: aot, jit'' mode) (\<lambda>aot. parse_options os aot)"
| "parse_options (OptHelp # os) aot = Inr (Some HELP, aot)"
| "parse_options (OptVersion # os) aot = Inr (Some VERSION, aot)"
| "parse_options (OptOther # os) aot = Inr (Some BAD_ARGS, aot)"

text \<open>The subcommand, \<open>use_aot\<close> and the arguments left.\<close>

definition parse_args ::
  "string option \<Rightarrow> main_option list \<Rightarrow> string list \<Rightarrow> bool \<Rightarrow> (subcommand \<times> bool \<times> string list) res" where
  "parse_args engine_mode os rest aot =
     res_bind (case engine_mode of
         None \<Rightarrow> Inr aot
       | Some mode \<Rightarrow> mode_of ''Unknown RUSTICA_ENGINE_MODE value '%s', available: aot, jit'' mode) (\<lambda>aot.
     res_bind (parse_options os aot) (\<lambda>(cmd, aot).
       case (cmd, rest) of
         (Some cmd, _) \<Rightarrow> Inr (cmd, aot, rest)
       | (None, []) \<Rightarrow> Inr (HELP, aot, [])
       | (None, arg # rest') \<Rightarrow>
           if arg = ''run'' then Inr (RUN, aot, rest')
           else if arg = ''moontest'' then Inr (MOONTEST, aot, rest')
           else Inl (PgError ''Unsupported command %s'')))"

datatype moontest_option = MtSpec string | MtHelp | MtOther

text \<open>
  \<open>None\<close>: \<open>false\<close>. \<open>Some (spec, file)\<close>: the values of the two output parameters, where a file that
  is \<open>None\<close> is a null pointer, after the help was printed.
\<close>

fun moontest_parse_args ::
  "moontest_option list \<Rightarrow> string list \<Rightarrow> string option \<Rightarrow> (string option \<times> string option) option res" where
  "moontest_parse_args (MtSpec s # os) rest spec = moontest_parse_args os rest (Some s)"
| "moontest_parse_args (MtHelp # os) rest spec = Inr (Some (spec, None))"
| "moontest_parse_args (MtOther # os) rest spec = Inr None"
| "moontest_parse_args [] rest spec =
     (case rest of
        [] \<Rightarrow> Inl (PgError ''No wasm file specified for moontest'')
      | file # _ \<Rightarrow>
          (case spec of
             None \<Rightarrow> Inl (PgError ''--spec requires an argument'')
           | Some s \<Rightarrow> Inr (Some (Some s, Some file))))"

section \<open>Resources\<close>

datatype host_res = Runtime | FileBuffer nat | WasmModule nat | CompData | CompContext | Instance | ExecEnv

record host =
  ho_next :: nat
  ho_live :: "host_res set"

text \<open>
  What has to be gone before a resource is given back: the environment before its instance, the
  instance and the compiler's data before the module they were made of, the module before the
  buffer it was loaded from, everything of WAMR before the runtime.
\<close>

fun needs :: "host_res \<Rightarrow> host_res \<Rightarrow> bool" where
  "needs ExecEnv r \<longleftrightarrow> r = Instance \<or> r = Runtime"
| "needs Instance r \<longleftrightarrow> (\<exists>n. r = WasmModule n) \<or> r = Runtime"
| "needs CompContext r \<longleftrightarrow> r = CompData \<or> r = Runtime"
| "needs CompData r \<longleftrightarrow> (\<exists>n. r = WasmModule n) \<or> r = Runtime"
| "needs (WasmModule n) r \<longleftrightarrow> r = FileBuffer n \<or> r = Runtime"
| "needs (FileBuffer n) r \<longleftrightarrow> False"
| "needs Runtime r \<longleftrightarrow> False"

definition hold :: "host_res \<Rightarrow> (host, unit) act" where
  "hold r = act_modify (\<lambda>ho. ho\<lparr>ho_live := insert r (ho_live ho)\<rparr>)"

definition drop_res :: "host_res \<Rightarrow> (host, unit) act" where
  "drop_res r ho =
     (if r \<notin> ho_live ho then (Inl (Undefined ''double free''), ho)
      else if \<exists>r' \<in> ho_live ho. needs r' r then (Inl (Undefined ''use after free''), ho)
      else (Inr (), ho\<lparr>ho_live := ho_live ho - {r}\<rparr>))"

definition fresh_buffer :: "(host, nat) act" where
  "fresh_buffer ho = (Inr (ho_next ho), ho\<lparr>ho_next := Suc (ho_next ho), ho_live := insert (FileBuffer (ho_next ho)) (ho_live ho)\<rparr>)"

definition check :: "bool \<Rightarrow> string \<Rightarrow> ('s, unit) act" where
  "check ok msg = act_lift (if ok then Inr () else Inl (PgError msg))"

section \<open>Running a file\<close>

text \<open>Which calls succeed; \<open>rn_fn\<close>: the outcome of running the program.\<close>

record run_env =
  rn_full_init :: bool
  rn_natives :: bool \<comment> \<open>all natives could be registered\<close>
  rn_extension :: bool \<comment> \<open>the name ends in \<open>.wasm\<close>\<close>
  rn_read :: bool
  rn_load :: "nat \<Rightarrow> bool" \<comment> \<open>of the module in that buffer\<close>
  rn_comp_data :: bool
  rn_comp_context :: bool
  rn_compile :: bool
  rn_emit :: bool
  rn_instantiate :: bool
  rn_exec_env :: bool
  rn_fn :: "unit res"

definition init_wamr :: "run_env \<Rightarrow> (host, unit) act" where
  "init_wamr e =
     act_then (check (rn_full_init e) ''Failed to initialize WASM runtime'')
     (act_then (hold Runtime)
       (check (rn_natives e) ''cannot register WASM natives''))"

definition read_wasm_file :: "run_env \<Rightarrow> (host, nat) act" where
  "read_wasm_file e =
     act_then (check (rn_extension e) ''Unsupported file type: %s'')
     (act_then (check (rn_read e) ''Failed to read wasm file: %s'') fresh_buffer)"

definition load_wasm_module :: "run_env \<Rightarrow> nat \<Rightarrow> (host, nat) act" where
  "load_wasm_module e buffer =
     act_then (check (rn_load e buffer) ''Error loading wasm module: %s'')
     (act_then (hold (WasmModule buffer)) (act_return buffer))"

text \<open>A member of the local variables: \<open>Some\<close> when the pointer is not null.\<close>

definition drop_opt :: "('a \<Rightarrow> host_res) \<Rightarrow> 'a option \<Rightarrow> (host, unit) act" where
  "drop_opt kind x = (case x of None \<Rightarrow> act_return () | Some a \<Rightarrow> drop_res (kind a))"

definition drop_if :: "bool \<Rightarrow> host_res \<Rightarrow> (host, unit) act" where
  "drop_if b r = (if b then drop_res r else act_return ())"

record aot_locals =
  al_module :: "nat option"
  al_comp_data :: bool
  al_comp_ctx :: bool
  al_rv :: "nat option"

definition aot_body :: "run_env \<Rightarrow> nat \<Rightarrow> (aot_locals \<times> host, unit) act" where
  "aot_body e byte_code =
     act_bind (act_global (load_wasm_module e byte_code)) (\<lambda>m.
     act_then (act_modify (\<lambda>(l, ho). (l\<lparr>al_module := Some m\<rparr>, ho)))
     (act_then (check (rn_comp_data e) ''Error creating AOT compilation data: %s'')
     (act_then (act_global (hold CompData))
     (act_then (act_modify (\<lambda>(l, ho). (l\<lparr>al_comp_data := True\<rparr>, ho)))
     (act_then (check (rn_comp_context e) ''Error creating AOT compilation context: %s'')
     (act_then (act_global (hold CompContext))
     (act_then (act_modify (\<lambda>(l, ho). (l\<lparr>al_comp_ctx := True\<rparr>, ho)))
     (act_then (check (rn_compile e) ''Error compiling wasm module: %s'')
     (act_then (check (rn_emit e) ''Error emitting AOT file: %s'')
     (act_bind (act_global fresh_buffer) (\<lambda>b.
       act_modify (\<lambda>(l, ho). (l\<lparr>al_rv := Some b\<rparr>, ho)))))))))))))"

definition aot_finally :: "(aot_locals \<times> host, unit) act" where
  "aot_finally =
     act_bind (act_gets fst) (\<lambda>l.
     act_global
       (act_then (drop_if (al_comp_ctx l) CompContext)
       (act_then (drop_if (al_comp_data l) CompData)
         (drop_opt WasmModule (al_module l)))))"

definition compile_aot :: "run_env \<Rightarrow> nat \<Rightarrow> (host, nat option) act" where
  "compile_aot e byte_code =
     act_bind (act_local \<lparr>al_module = None, al_comp_data = False, al_comp_ctx = False, al_rv = None\<rparr>
       (pg_finally (aot_body e byte_code) aot_finally)) (\<lambda>l. act_return (al_rv l))"

record run_locals =
  rl_wamr_inited :: bool
  rl_buffer :: "nat option"
  rl_module :: "nat option"
  rl_module_inst :: bool
  rl_exec_env :: bool

definition set_local :: "(run_locals \<Rightarrow> run_locals) \<Rightarrow> (run_locals \<times> host, unit) act" where
  "set_local f = act_modify (\<lambda>(l, ho). (f l, ho))"

text \<open>From the final buffer on, and everything.\<close>

definition run_loaded :: "run_env \<Rightarrow> (run_locals \<times> host, unit) act" where
  "run_loaded e =
     act_bind (act_gets (\<lambda>(l, ho). rl_buffer l)) (\<lambda>b.
       case b of
         None \<Rightarrow> act_lift (Inl (Undefined ''buffer''))
       | Some b \<Rightarrow>
           act_bind (act_global (load_wasm_module e b)) (\<lambda>m.
           act_then (set_local (rl_module_update (\<lambda>_. Some m)))
           (act_then (check (rn_instantiate e) ''Error instantiating wasm module: %s'')
           (act_then (act_global (hold Instance))
           (act_then (set_local (rl_module_inst_update (\<lambda>_. True)))
           (act_then (check (rn_exec_env e) ''Error creating execution environment'')
           (act_then (act_global (hold ExecEnv))
           (act_then (set_local (rl_exec_env_update (\<lambda>_. True)))
             (act_lift (rn_fn e))))))))))"

definition run_body :: "run_env \<Rightarrow> bool \<Rightarrow> (run_locals \<times> host, unit) act" where
  "run_body e use_aot =
     act_then (act_global (init_wamr e))
     (act_then (set_local (rl_wamr_inited_update (\<lambda>_. True)))
     (act_bind (act_global (read_wasm_file e)) (\<lambda>b.
     act_then (set_local (rl_buffer_update (\<lambda>_. Some b)))
     (act_then
       (if use_aot then
          act_bind (act_global (compile_aot e b)) (\<lambda>aot_buffer.
          act_then (act_global (drop_res (FileBuffer b)))
            (set_local (rl_buffer_update (\<lambda>_. aot_buffer))))
        else act_return ())
       (run_loaded e)))))"

definition run_finally :: "(run_locals \<times> host, unit) act" where
  "run_finally =
     act_bind (act_gets fst) (\<lambda>l.
     act_global
       (act_then (drop_if (rl_exec_env l) ExecEnv)
       (act_then (drop_if (rl_module_inst l) Instance)
       (act_then (drop_opt WasmModule (rl_module l))
       (act_then (drop_opt FileBuffer (rl_buffer l))
         (drop_if (rl_wamr_inited l) Runtime))))))"

definition no_locals :: run_locals where
  "no_locals = \<lparr>rl_wamr_inited = False, rl_buffer = None, rl_module = None, rl_module_inst = False, rl_exec_env = False\<rparr>"

definition run_wasm_with :: "run_env \<Rightarrow> bool \<Rightarrow> (host, unit) act" where
  "run_wasm_with e use_aot =
     act_bind (act_local no_locals (pg_finally (run_body e use_aot) run_finally)) (\<lambda>_. act_return ())"

text \<open>
  What the program does: \<open>_start\<close> if it is exported. When the call fails the message is the
  exception and the call stack, without the newlines at its end.
\<close>

definition run_start :: "bool \<Rightarrow> bool \<Rightarrow> byte list option \<Rightarrow> byte list \<Rightarrow> (byte list \<times> byte list) option" where
  "run_start exported returns exc stack =
     (if exported \<and> \<not> returns then
        Some (case exc of Some m \<Rightarrow> m | None \<Rightarrow> ascii ''Error'', until_nul (trim_newlines stack))
      else None)"

section \<open>The program\<close>

text \<open>
  The switch over the subcommand: the exit status. \<open>run file aot spec\<close> is the outcome of
  \<open>run_wasm_with\<close>, with the specification for tests; \<open>moontest_getopt\<close> is the second use of
  \<open>getopt_long\<close>.
\<close>

definition run_subcommand ::
  "(string list \<Rightarrow> moontest_option list \<times> string list) \<Rightarrow> (string \<Rightarrow> bool \<Rightarrow> string option \<Rightarrow> unit res) \<Rightarrow>
    subcommand \<Rightarrow> bool \<Rightarrow> string list \<Rightarrow> int res" where
  "run_subcommand moontest_getopt run cmd aot args =
     (case cmd of
        RUN \<Rightarrow>
          (case args of
             [] \<Rightarrow> Inl (PgError ''No wasm file specified for run'')
           | file # _ \<Rightarrow> res_bind (run file aot None) (\<lambda>_. Inr 0))
      | MOONTEST \<Rightarrow>
          (case moontest_getopt args of (mos, rest) \<Rightarrow>
             res_bind (moontest_parse_args mos rest None) (\<lambda>parsed.
               case parsed of
                 None \<Rightarrow> Inr 1
               | Some (spec, None) \<Rightarrow> Inr 0
               | Some (spec, Some file) \<Rightarrow> res_bind (run file aot spec) (\<lambda>_. Inr 0)))
      | HELP \<Rightarrow> Inr 0
      | VERSION \<Rightarrow> Inr 0
      | BAD_ARGS \<Rightarrow> Inr 1)"

text \<open>\<open>PG_TRY\<close> around everything.\<close>

definition main_program ::
  "string option \<Rightarrow> main_option list \<Rightarrow> string list \<Rightarrow> (string list \<Rightarrow> moontest_option list \<times> string list) \<Rightarrow>
    (string \<Rightarrow> bool \<Rightarrow> string option \<Rightarrow> unit res) \<Rightarrow> int res" where
  "main_program engine_mode os rest moontest_getopt run =
     (case res_bind (parse_args engine_mode os rest True) (\<lambda>(cmd, aot, args). run_subcommand moontest_getopt run cmd aot args)
      of Inl (PgError _) \<Rightarrow> Inr 1 | r \<Rightarrow> r)"

section \<open>Reasoning\<close>

lemma wp_hold [simp]: "wp (hold r) ho Q E = Q () (ho\<lparr>ho_live := insert r (ho_live ho)\<rparr>)"
  by (simp add: hold_def)

lemma wp_drop_res [simp]:
  "wp (drop_res r) ho Q E =
    (if r \<notin> ho_live ho then E (Undefined ''double free'') ho
     else if \<exists>r' \<in> ho_live ho. needs r' r then E (Undefined ''use after free'') ho
     else Q () (ho\<lparr>ho_live := ho_live ho - {r}\<rparr>))"
  by (simp add: wp_def drop_res_def)

lemma wp_fresh_buffer [simp]:
  "wp fresh_buffer ho Q E =
    Q (ho_next ho) (ho\<lparr>ho_next := Suc (ho_next ho), ho_live := insert (FileBuffer (ho_next ho)) (ho_live ho)\<rparr>)"
  by (simp add: wp_def fresh_buffer_def)

lemma wp_check [simp]: "wp (check ok msg) s Q E = (if ok then Q () s else E (PgError msg) s)"
  by (simp add: check_def)

lemma wp_drop_opt [simp]:
  "wp (drop_opt kind x) ho Q E = (case x of None \<Rightarrow> Q () ho | Some a \<Rightarrow> wp (drop_res (kind a)) ho Q E)"
  by (simp add: drop_opt_def split: option.splits)

lemma wp_drop_if [simp]: "wp (drop_if b r) ho Q E = (if b then wp (drop_res r) ho Q E else Q () ho)"
  by (simp add: drop_if_def)

text \<open>Compiling leaves only the new buffer, and nothing when it fails.\<close>

lemma wp_compile_aot:
  assumes "ho_live ho = {FileBuffer b, Runtime}" "ho_next ho = Suc b"
  shows "wp (compile_aot e b) ho
    (\<lambda>r ho'. r = Some (Suc b) \<and> ho_live ho' = {FileBuffer (Suc b), FileBuffer b, Runtime})
    (\<lambda>err ho'. (\<exists>m. err = PgError m) \<and> ho_live ho' = {FileBuffer b, Runtime})"
  using assms
  by (cases "rn_load e b"; cases "rn_comp_data e"; cases "rn_comp_context e"; cases "rn_compile e"; cases "rn_emit e")
    (simp_all add: compile_aot_def aot_body_def aot_finally_def load_wasm_module_def insert_Diff_if)

text \<open>The rest, and the clean-up after it.\<close>

definition cleaned :: "run_locals \<times> host \<Rightarrow> bool" where
  "cleaned s \<longleftrightarrow> wp run_finally s (\<lambda>_ (l, ho). ho_live ho = {}) (\<lambda>_ _. False)"

lemma wp_run_loaded:
  assumes "ho_live ho = {FileBuffer b, Runtime}" "rn_fn e = Inr () \<or> (\<exists>m. rn_fn e = Inl (PgError m))"
    and "l = no_locals\<lparr>rl_wamr_inited := True, rl_buffer := Some b\<rparr>"
  shows "wp (run_loaded e) (l, ho) (\<lambda>_ s. cleaned s \<and> rn_fn e = Inr ()) (\<lambda>err s. (\<exists>m. err = PgError m) \<and> cleaned s)"
  using assms
  by (cases "rn_load e b"; cases "rn_instantiate e"; cases "rn_exec_env e"; elim disjE exE)
    (simp_all add: run_loaded_def load_wasm_module_def set_local_def cleaned_def run_finally_def no_locals_def insert_Diff_if)

lemma wp_run_body:
  assumes "ho_live ho = {}" "rn_fn e = Inr () \<or> (\<exists>m. rn_fn e = Inl (PgError m))"
    and ok: "rn_full_init e" "rn_natives e" "rn_extension e" "rn_read e"
  shows "wp (run_body e use_aot) (no_locals, ho) (\<lambda>_ s. cleaned s \<and> rn_fn e = Inr ())
    (\<lambda>err s. (\<exists>m. err = PgError m) \<and> cleaned s)"
proof -
  let ?l = "no_locals\<lparr>rl_wamr_inited := True, rl_buffer := Some (ho_next ho)\<rparr>"
  let ?ho = "ho\<lparr>ho_live := {Runtime}, ho_next := Suc (ho_next ho), ho_live := {FileBuffer (ho_next ho), Runtime}\<rparr>"
  have compiled: "wp (compile_aot e (ho_next ho)) ?ho
      (\<lambda>r ho'. r = Some (Suc (ho_next ho)) \<and> ho_live ho' = {FileBuffer (Suc (ho_next ho)), FileBuffer (ho_next ho), Runtime})
      (\<lambda>err ho'. (\<exists>m. err = PgError m) \<and> ho_live ho' = {FileBuffer (ho_next ho), Runtime})"
    by (rule wp_compile_aot) simp_all
  have failed: "cleaned (?l, ho')" if "ho_live ho' = {FileBuffer (ho_next ho), Runtime}" for ho'
    using that by (simp add: cleaned_def run_finally_def no_locals_def insert_Diff_if)
  have after: "wp (run_loaded e) (no_locals\<lparr>rl_wamr_inited := True, rl_buffer := Some b\<rparr>, ho')
      (\<lambda>_ s. cleaned s \<and> rn_fn e = Inr ()) (\<lambda>err s. (\<exists>m. err = PgError m) \<and> cleaned s)"
    if "ho_live ho' = {FileBuffer b, Runtime}" for b ho'
    by (rule wp_run_loaded[OF that assms(2) refl])
  show ?thesis
  proof (cases use_aot)
    case False
    then show ?thesis
      using ok after assms(1) by (simp add: run_body_def init_wamr_def read_wasm_file_def set_local_def no_locals_def)
  next
    case True
    have "wp (compile_aot e (ho_next ho)) ?ho
        (\<lambda>r ho'. wp (drop_res (FileBuffer (ho_next ho))) ho'
          (\<lambda>_ ho''. wp (run_loaded e) (?l\<lparr>rl_buffer := r\<rparr>, ho'')
            (\<lambda>_ s. cleaned s \<and> rn_fn e = Inr ()) (\<lambda>err s. (\<exists>m. err = PgError m) \<and> cleaned s)) (\<lambda>_ _. False))
        (\<lambda>err ho'. (\<exists>m. err = PgError m) \<and> cleaned (?l, ho'))"
      by (rule wp_mono[OF compiled]) (use after failed in \<open>auto simp: insert_Diff_if\<close>)
    then show ?thesis
      using ok assms(1) True
      by (auto simp: run_body_def init_wamr_def read_wasm_file_def set_local_def no_locals_def elim!: wp_mono split: if_splits)
  qed
qed


lemma wp_run_wasm_with:
  assumes "ho_live ho = {}" "rn_fn e = Inr () \<or> (\<exists>m. rn_fn e = Inl (PgError m))"
  shows "wp (run_wasm_with e use_aot) ho
    (\<lambda>_ ho'. ho_live ho' = {} \<and> rn_fn e = Inr () \<and> rn_natives e)
    (\<lambda>err ho'. (\<exists>m. err = PgError m) \<and> ho_live ho' = (if rn_full_init e \<and> \<not> rn_natives e then {Runtime} else {}))"
proof (cases "rn_full_init e \<and> rn_natives e \<and> rn_extension e \<and> rn_read e")
  case False
  then show ?thesis
    using assms(1) by (auto simp: run_wasm_with_def run_body_def run_finally_def init_wamr_def read_wasm_file_def
        no_locals_def set_local_def insert_Diff_if)
next
  case True
  then have "wp (run_body e use_aot) (no_locals, ho) (\<lambda>_ s. cleaned s \<and> rn_fn e = Inr ())
    (\<lambda>err s. (\<exists>m. err = PgError m) \<and> cleaned s)"
    using assms by (intro wp_run_body) auto
  then show ?thesis
    using True unfolding run_wasm_with_def cleaned_def
    by (auto elim!: wp_mono)
qed

text \<open>Every call succeeds, the program too.\<close>

definition all_succeed :: "run_env \<Rightarrow> bool" where
  "all_succeed e \<longleftrightarrow>
     rn_full_init e \<and> rn_natives e \<and> rn_extension e \<and> rn_read e \<and> (\<forall>b. rn_load e b) \<and> rn_comp_data e \<and>
     rn_comp_context e \<and> rn_compile e \<and> rn_emit e \<and> rn_instantiate e \<and> rn_exec_env e \<and> rn_fn e = Inr ()"

lemma wp_all_succeed:
  assumes "all_succeed e" "ho_live ho = {}"
  shows "wp (run_wasm_with e use_aot) ho (\<lambda>_ _. True) (\<lambda>_ _. False)"
  using assms
  by (cases use_aot) (simp_all add: all_succeed_def run_wasm_with_def run_body_def run_finally_def init_wamr_def
      read_wasm_file_def no_locals_def set_local_def compile_aot_def aot_body_def aot_finally_def load_wasm_module_def
      run_loaded_def insert_Diff_if)

section \<open>Properties\<close>

text \<open>
  C29: running a file gives everything back in a safe order, whichever call fails: no resource is
  given back twice or while something made of it is in use, and nothing is left, but for the runtime
  itself when the natives cannot be registered after it started. The run succeeds when all calls do,
  and every failure is an error of Postgres.
\<close>
lemma runner_gives_back:
  assumes "ho_live ho = {}" "rn_fn e = Inr () \<or> (\<exists>m. rn_fn e = Inl (PgError m))"
    and "run_wasm_with e use_aot ho = (r, ho')"
  shows "ho_live ho' = (if rn_full_init e \<and> \<not> rn_natives e then {Runtime} else {}) \<and>
    (all_succeed e \<longrightarrow> r = Inr ()) \<and> (r = Inr () \<longrightarrow> rn_fn e = Inr ()) \<and> (\<forall>err. r = Inl err \<longrightarrow> (\<exists>m. err = PgError m))"
  using wp_run_wasm_with[OF assms(1,2), of use_aot] wp_all_succeed[OF _ assms(1), of e use_aot]
  by (auto simp: wp_def assms(3) split: sum.splits)

lemma runner_gives_back_witness:
  "\<exists>r ho'. run_wasm_with \<lparr>rn_full_init = True, rn_natives = True, rn_extension = True, rn_read = True, rn_load = \<lambda>_. True,
      rn_comp_data = True, rn_comp_context = False, rn_compile = True, rn_emit = True, rn_instantiate = True,
      rn_exec_env = True, rn_fn = Inr ()\<rparr> True \<lparr>ho_next = 0, ho_live = {}\<rparr> = (r, ho') \<and> ho_live ho' = {}"
proof -
  let ?e = "\<lparr>rn_full_init = True, rn_natives = True, rn_extension = True, rn_read = True, rn_load = \<lambda>_. True,
      rn_comp_data = True, rn_comp_context = False, rn_compile = True, rn_emit = True, rn_instantiate = True,
      rn_exec_env = True, rn_fn = Inr ()\<rparr> :: run_env"
  obtain r ho' where r: "run_wasm_with ?e True \<lparr>ho_next = 0, ho_live = {}\<rparr> = (r, ho')" by fastforce
  from runner_gives_back[OF _ _ this] have "ho_live ho' = {}" by simp
  with r show ?thesis by blast
qed

text \<open>The exit status is 0 or 1, and an error that was raised gives 1.\<close>

lemma pg_errors_bind:
  "res_sat pg_errors P r \<Longrightarrow> (\<And>x. P x \<Longrightarrow> res_sat pg_errors Q (f x)) \<Longrightarrow> res_sat pg_errors Q (res_bind r f)"
  by (cases r) simp_all

lemma mode_of_raises: "res_sat pg_errors (\<lambda>_. True) (mode_of msg mode)"
  by (simp add: mode_of_def)

lemma parse_options_raises: "res_sat pg_errors (\<lambda>_. True) (parse_options os aot)"
proof (induction os arbitrary: aot)
  case (Cons opt os)
  show ?case
  proof (cases opt)
    case (OptMode m)
    then show ?thesis
      using Cons by (cases m) (auto intro!: pg_errors_bind[OF mode_of_raises])
  qed simp_all
qed simp

lemma parse_args_raises: "res_sat pg_errors (\<lambda>_. True) (parse_args engine_mode os rest aot)"
  unfolding parse_args_def
  by (rule pg_errors_bind[where P = "\<lambda>_. True"])
    (auto intro!: pg_errors_bind[OF parse_options_raises] mode_of_raises split: option.splits list.splits)

lemma moontest_parse_args_raises: "res_sat pg_errors (\<lambda>_. True) (moontest_parse_args mos rest spec)"
  by (induction mos rest spec rule: moontest_parse_args.induct) (auto split: list.splits option.splits)

lemma run_subcommand_status:
  assumes "\<And>f aot spec. res_sat pg_errors (\<lambda>_. True) (run f aot spec)"
  shows "res_sat pg_errors (\<lambda>n. n = 0 \<or> n = 1) (run_subcommand mt run cmd aot args)"
  unfolding run_subcommand_def
  by (auto split: subcommand.splits list.splits prod.splits option.splits
      intro!: pg_errors_bind[OF assms] pg_errors_bind[OF moontest_parse_args_raises])

lemma exit_status:
  assumes "\<And>f aot spec. res_sat pg_errors (\<lambda>_. True) (run f aot spec)"
  shows "main_program engine_mode os rest mt run \<in> {Inr 0, Inr 1}"
proof -
  have "res_sat pg_errors (\<lambda>n. n = 0 \<or> n = 1)
      (res_bind (parse_args engine_mode os rest True) (\<lambda>(cmd, aot, args). run_subcommand mt run cmd aot args))"
    by (rule pg_errors_bind[OF parse_args_raises]) (use run_subcommand_status[of run, OF assms] in auto)
  then show ?thesis
    by (auto simp: main_program_def pg_errors_def split: sum.splits failure.splits)
qed

end
