(* ===== verification/Scheduler.thy ===== *)
theory Scheduler
  imports System Contracts
begin

text \<open>
  What the dispatcher does, without sockets, positions and rings: a scheduler with a queue of waiting
  connections and a queue of idle workers. The dispatcher simulates it.
\<close>

section \<open>The scheduler\<close>

record sched =
  sc_waiting :: "int list"
  sc_idle :: "int list"
  sc_given :: "(int \<times> int) list" \<comment> \<open>worker and connection, in the order in which they were given\<close>
  sc_refused :: "int list"

text \<open>
  A connection is given to the first idle worker that can be reached, past those that cannot; waits if
  there is none; is refused if too many wait. A worker that becomes idle is given the connection that
  has waited longest, or joins the idle workers. Everything else leaves the scheduler as it is.
\<close>

inductive sched_step :: "sched \<Rightarrow> sched \<Rightarrow> bool" where
  skip: "sched_step s s"
| give: "sc_idle s = gone @ w # idle \<Longrightarrow>
    sched_step s (s\<lparr>sc_idle := idle, sc_given := sc_given s @ [(w, job)]\<rparr>)"
| wait: "length (sc_waiting s) < JOB_QLEN \<Longrightarrow>
    sched_step s (s\<lparr>sc_idle := [], sc_waiting := sc_waiting s @ [job]\<rparr>)"
| refuse: "length (sc_waiting s) = JOB_QLEN \<Longrightarrow>
    sched_step s (s\<lparr>sc_idle := [], sc_refused := sc_refused s @ [job]\<rparr>)"
| serve: "sc_waiting s = job # waiting \<Longrightarrow>
    sched_step s (s\<lparr>sc_waiting := waiting, sc_given := sc_given s @ [(w, job)]\<rparr>)"
| join: "sc_waiting s = [] \<Longrightarrow> sched_step s (s\<lparr>sc_idle := sc_idle s @ [w]\<rparr>)"

section \<open>The dispatcher as a scheduler\<close>

fun given_log :: "log \<Rightarrow> (int \<times> int) list" where
  "given_log [] = []"
| "given_log (c # l) = given_log l @ (case c of SendFd w job \<Rightarrow> [(w, job)] | _ \<Rightarrow> [])"

fun refused_log :: "log \<Rightarrow> int list" where
  "refused_log [] = []"
| "refused_log (c # l) = refused_log l @ (case c of LogQueueFull job \<Rightarrow> [job] | _ \<Rightarrow> [])"

definition idle_fds :: "master \<Rightarrow> int list" where
  "idle_fds m = map (\<lambda>x. fd_at m (nat x)) (ring_list (ms_idle m))"

definition sched_of :: "master \<Rightarrow> sched" where
  "sched_of m = \<lparr>sc_waiting = ring_list (ms_jobs m), sc_idle = idle_fds m, sc_given = given_log (ms_log m),
     sc_refused = refused_log (ms_log m)\<rparr>"

section \<open>Lemmas\<close>

definition unheard :: "call \<Rightarrow> bool" where
  "unheard c \<longleftrightarrow> (case c of SendFd _ _ \<Rightarrow> False | LogQueueFull _ \<Rightarrow> False | _ \<Rightarrow> True)"

lemma unheard_simps [simp]:
  "unheard (AcceptFrontend fd)" "unheard (AcceptBackend fd)" "unheard (SendFailed w job)" "unheard (Recv fd bs)"
  "unheard (RecvFailed fd)" "unheard (StreamClose fd)" "unheard (RegisterWorker k)" "unheard Usleep"
  by (simp_all add: unheard_def)

lemma unheard_log:
  assumes "\<forall>c \<in> set l. unheard c"
  shows "given_log (l @ log) = given_log log" "refused_log (l @ log) = refused_log log"
  using assms by (induction l) (auto simp: unheard_def split: call.splits)

text \<open>A socket that is a worker's before and after is the same worker's.\<close>

definition same_workers :: "master \<Rightarrow> master \<Rightarrow> bool" where
  "same_workers m m' \<longleftrightarrow> (\<forall>i < ms_total_sockets m. type_at m i = TYPE_BACKEND \<longrightarrow> type_at m' i = TYPE_BACKEND \<longrightarrow>
     fd_at m' i = fd_at m i)"

lemma idle_fds_same:
  assumes "same_workers m m'" "base_inv m" "idle_open m" "idle_open m'"
    and "ring_list (ms_idle m) = gone @ ring_list (ms_idle m')"
  shows "idle_fds m' = map (\<lambda>x. fd_at m (nat x)) (ring_list (ms_idle m'))"
proof -
  have "fd_at m' (nat x) = fd_at m (nat x)" if x: "x \<in> set (ring_list (ms_idle m'))" for x
  proof -
    have "x \<in> set (ring_list (ms_idle m))" using x assms(5) by simp
    then have "type_at m (nat x) = TYPE_BACKEND" "nat x < ms_total_sockets m"
      using assms(3) base_invD(4)[OF assms(2)] by (auto simp: idle_open_def queue_inv_def nat_less_iff)
    then show ?thesis using assms(1,4) x by (simp add: same_workers_def idle_open_def)
  qed
  then show ?thesis by (simp add: idle_fds_def)
qed

lemma sched_skip:
  assumes "same_workers m m'" "base_inv m" "idle_open m" "idle_open m'" "ms_idle m' = ms_idle m" "ms_jobs m' = ms_jobs m"
    and "ms_log m' = l @ ms_log m" "\<forall>c \<in> set l. unheard c"
  shows "sched_step (sched_of m) (sched_of m')"
proof -
  have "idle_fds m' = idle_fds m"
    using idle_fds_same[OF assms(1-4), of "[]"] assms(5) by (simp add: idle_fds_def)
  then have "sched_of m' = sched_of m" using unheard_log[OF assms(8)] by (simp add: sched_of_def assms(6,7))
  then show ?thesis by (simp add: sched_step.skip)
qed

text \<open>Sockets are closed and nothing else.\<close>

definition shrinks :: "master \<Rightarrow> master \<Rightarrow> bool" where
  "shrinks m m' \<longleftrightarrow> ms_total_sockets m' = ms_total_sockets m \<and>
     (\<forall>i < ms_total_sockets m. type_at m' i = TYPE_BACKEND \<longrightarrow> ms_sockets m' ! i = ms_sockets m ! i)"

lemma shrinks_same: "shrinks m m' \<Longrightarrow> same_workers m m'"
  by (simp add: shrinks_def same_workers_def)

lemma shrinks_trans: "shrinks m m1 \<Longrightarrow> shrinks m1 m2 \<Longrightarrow> shrinks m m2"
  by (simp add: shrinks_def)

lemma shrinks_eq: "ms_sockets m' = ms_sockets m \<Longrightarrow> ms_total_sockets m' = ms_total_sockets m \<Longrightarrow> shrinks m m'"
  by (simp add: shrinks_def)

lemma shrinks_close:
  assumes "close_socket os i m = Inr m'" "length (ms_sockets m) = ms_total_sockets m"
  shows "shrinks m m'"
proof -
  have "ms_sockets m' ! j = ms_sockets m ! j" if "j < ms_total_sockets m" "type_at m' j = TYPE_BACKEND" for j
    using that close_socket_Inr(1)[OF assms(1)] assms(2) by (cases "j = i") (simp_all add: zero_socket_def)
  then show ?thesis using close_socket_Inr(2)[OF assms(1)] by (simp add: shrinks_def)
qed

lemma shrinks_at:
  "shrinks m m' \<Longrightarrow> i < ms_total_sockets m \<Longrightarrow> type_at m' i = TYPE_BACKEND \<Longrightarrow>
    type_at m i = TYPE_BACKEND \<and> fd_at m' i = fd_at m i"
  unfolding shrinks_def by metis

lemma close_socket_jobs: "close_socket os i m = Inr m' \<Longrightarrow> ms_jobs m' = ms_jobs m"
  by (auto simp: close_socket_def Let_def res_bind_eq_Inr)

text \<open>What the dispatch loop did, found out or not.\<close>

definition dispatched :: "int \<Rightarrow> master \<Rightarrow> bool \<Rightarrow> master \<Rightarrow> bool" where
  "dispatched sock m ok m' \<longleftrightarrow> shrinks m m' \<and> ms_jobs m' = ms_jobs m \<and> refused_log (ms_log m') = refused_log (ms_log m) \<and>
     (if ok then \<exists>gone b. ring_list (ms_idle m) = gone @ b # ring_list (ms_idle m') \<and> nat b < ms_total_sockets m \<and>
          type_at m (nat b) = TYPE_BACKEND \<and> given_log (ms_log m') = given_log (ms_log m) @ [(fd_at m (nat b), sock)]
      else ring_list (ms_idle m') = [] \<and> given_log (ms_log m') = given_log (ms_log m))"

text \<open>An entry of the idle workers that could not be used is one more that has gone.\<close>

lemma dispatched_past:
  assumes "dispatched sock m1 ok m'" "shrinks m m1" "ms_jobs m1 = ms_jobs m"
    and "ms_log m1 = l @ ms_log m" "\<forall>c \<in> set l. unheard c" "ring_list (ms_idle m) = b # ring_list (ms_idle m1)"
  shows "dispatched sock m ok m'"
proof (cases ok)
  case True
  then obtain gone b' where b': "ring_list (ms_idle m1) = gone @ b' # ring_list (ms_idle m')" "nat b' < ms_total_sockets m1"
    "type_at m1 (nat b') = TYPE_BACKEND" "given_log (ms_log m') = given_log (ms_log m1) @ [(fd_at m1 (nat b'), sock)]"
    using assms(1) by (auto simp: dispatched_def)
  have "ring_list (ms_idle m) = (b # gone) @ b' # ring_list (ms_idle m')" using assms(6) b'(1) by simp
  moreover have "nat b' < ms_total_sockets m" using b'(2) assms(2) by (simp add: shrinks_def)
  ultimately show ?thesis
    using b'(3,4) True assms(1-3) shrinks_at[OF assms(2), of "nat b'"] unheard_log[OF assms(5)]
    unfolding dispatched_def assms(4) by (auto intro: shrinks_trans)
next
  case False
  then show ?thesis
    using assms(1-3) unheard_log[OF assms(5)] unfolding dispatched_def assms(4) by (auto intro: shrinks_trans)
qed

lemma dispatch_sched:
  assumes "os_law os" "base_inv m" "dispatch_to_idle os sock m = Inr (ok, m')"
  shows "dispatched sock m ok m'"
  using assms
proof (induction os sock m rule: dispatch_to_idle.induct)
  case (1 os sock m)
  let ?b = "ring_first (ms_idle m)"
  let ?m = "m\<lparr>ms_idle := ring_pop (ms_idle m)\<rparr>"
  let ?s = "ms_sockets m ! nat ?b"
  note eq = dispatch_to_idle.simps[of os sock m]
  show ?case
  proof (cases "rq_size (ms_idle m) = 0")
    case True
    then show ?thesis using "1.prems"(3) by (simp add: eq dispatched_def shrinks_def)
  next
    case False
    then have pos: "0 < rq_size (ms_idle m)" by simp
    note pop = idle_pop_base_inv[OF "1.prems"(2) pos]
    have len: "length (ms_sockets m) = ms_total_sockets m" by (rule table_type_lt[OF "1.prems"(2)])
    have b: "\<not> (?b < 0 \<or> int (length (ms_sockets m)) \<le> ?b)" "nat ?b < ms_total_sockets m" using pop(2,3) len by auto
    have "ring_ok (ms_idle m)" using base_invD(4)[OF "1.prems"(2)] by (simp add: queue_inv_def)
    then have list: "ring_list (ms_idle m) = ?b # ring_list (ms_idle ?m)" using ring_list_pop[of "ms_idle m"] pos by simp
    show ?thesis
    proof (cases "sk_type ?s = TYPE_BACKEND")
      case ty: True
      show ?thesis
      proof (cases "os_sendmsg os (ms_log m) (sk_fd ?s) sock")
        case True
        then have "m' = modify_wait os (sk_pos ?s) {WL_SOCKET_READABLE, WL_SOCKET_CLOSED}
            (add_log [SendFd (sk_fd ?s) sock, StreamClose sock] ?m)" "ok"
          using "1.prems"(3) b(1) ty False by (simp_all add: eq Let_def)
        then show ?thesis using list b(2) ty
          by (auto simp: dispatched_def shrinks_def intro!: exI[of _ "[]"] exI[of _ ?b])
      next
        case unsent: False
        let ?m2 = "add_log [SendFailed (sk_fd ?s) sock] ?m"
        obtain m2 where m2: "close_socket os (nat ?b) ?m2 = Inr m2" "dispatch_to_idle os sock m2 = Inr (ok, m')"
          using "1.prems"(3) b(1) ty False unsent by (auto simp: eq Let_def split: sum.splits)
        note c = close_socket_Inr[OF m2(1)] close_socket_jobs[OF m2(1)]
        have "base_inv m2" using close_socket_sat[OF "1.prems"(1), of ?m2 "nat ?b"] pop(1) b(2) ty m2(1) by simp
        then have "dispatched sock m2 ok m'" using "1.IH"(2) b(1) ty False unsent m2 "1.prems"(1) by simp
        moreover have "shrinks m m2" using shrinks_close[OF m2(1)] len by (simp add: shrinks_def)
        ultimately show ?thesis
          using c list by (intro dispatched_past[of sock m2 ok m' m "[StreamClose _, SendFailed _ _]" ?b]) simp_all
      qed
    next
      case ty: False
      then have "dispatch_to_idle os sock ?m = Inr (ok, m')" using "1.prems"(3) b(1) False by (simp add: eq Let_def)
      then have "dispatched sock ?m ok m'" using "1.IH"(1) b(1) ty False "1.prems"(1) pop(1) by simp
      then show ?thesis using list by (intro dispatched_past[of sock ?m ok m' m "[]" ?b]) (simp_all add: shrinks_def)
    qed
  qed
qed

text \<open>What a change of a worker's entry leaves.\<close>

lemma set_socket_sched:
  assumes "sk_type s = type_at m i" "sk_fd s = fd_at m i"
  shows "sched_of (set_socket i s m) = sched_of m" "idle_open (set_socket i s m) = idle_open m"
proof -
  have nth: "P ((ms_sockets m)[i := s] ! j) = P (ms_sockets m ! j)" if "P s = P (ms_sockets m ! i)" for j and P :: "socket \<Rightarrow> 'b"
    using that by (cases "i < length (ms_sockets m)") (auto simp: nth_list_update list_update_beyond not_less)
  show "sched_of (set_socket i s m) = sched_of m" by (simp add: sched_of_def idle_fds_def nth[of sk_fd, OF assms(2)])
  show "idle_open (set_socket i s m) = idle_open m" by (simp add: idle_open_def nth[of sk_type, OF assms(1)])
qed

lemma close_sched:
  assumes "close_socket os i (add_log cs m) = Inr m'" "\<forall>c \<in> set cs. unheard c" "base_inv m" "idle_open m" "idle_open m'"
  shows "sched_step (sched_of m) (sched_of m')"
proof -
  note c = close_socket_Inr[OF assms(1)] close_socket_jobs[OF assms(1)]
  have "shrinks (add_log cs m) m'" by (rule shrinks_close[OF assms(1)]) (simp add: table_type_lt[OF assms(3)])
  then have "same_workers m m'" using shrinks_same[of "add_log cs m" m'] by (simp add: same_workers_def)
  then show ?thesis
    by (rule sched_skip[OF _ assms(3-5), where l = "StreamClose (fd_at m i) # rev cs"]) (use assms(2) c in simp_all)
qed

lemma idle_sched:
  assumes "base_inv m" "i < ms_total_sockets m" "type_at m i = TYPE_BACKEND" "idle_open m" "idle_open m'"
    and "on_worker_idle os i m = Inr m'"
  shows "sched_step (sched_of m) (sched_of m')"
proof (cases "0 < rq_size (ms_jobs m)")
  case True
  let ?job = "ring_first (ms_jobs m)"
  show ?thesis
  proof (cases "os_sendmsg os (ms_log m) (fd_at m i) ?job")
    case sent: True
    have list: "ring_list (ms_jobs m) = ?job # ring_list (ring_pop (ms_jobs m))"
      using ring_list_pop[of "ms_jobs m"] True base_invD(4)[OF assms(1)] by (simp add: queue_inv_def)
    have "m' = resume_frontend os ((add_log [SendFd (fd_at m i) ?job] m)\<lparr>ms_jobs := ring_pop (ms_jobs m)\<rparr>)"
      using assms(6) True sent by (simp add: on_worker_idle_def Let_def)
    then have "sched_of m' = (sched_of m)\<lparr>sc_waiting := ring_list (ring_pop (ms_jobs m)),
        sc_given := sc_given (sched_of m) @ [(fd_at m i, ?job)]\<rparr>"
      by (simp add: sched_of_def idle_fds_def resume_frontend_def)
    then show ?thesis using sched_step.serve[of "sched_of m" ?job "ring_list (ring_pop (ms_jobs m))" "fd_at m i"] list
      by (simp add: sched_of_def)
  next
    case False
    then have "close_socket os i (add_log [SendFailed (fd_at m i) ?job] m) = Inr m'"
      using assms(6) True by (simp add: on_worker_idle_def Let_def)
    then show ?thesis by (rule close_sched) (use assms in simp_all)
  qed
next
  case False
  have pos: "sk_pos (ms_sockets m ! i) = int i" by (rule link_pos[OF base_invD(2)[OF assms(1)] assms(2)]) (simp add: assms(3))
  have room: "ring_ok (ms_idle m)" "rq_cap (ms_idle m) = ms_total_sockets m"
    using base_invD(4)[OF assms(1)] by (simp_all add: queue_inv_def)
  let ?m = "modify_wait os (int i) {WL_SOCKET_CLOSED} m"
  have m': "rq_size (ms_idle m) < ms_total_sockets m" "m' = ?m\<lparr>ms_idle := ring_push (int i) (ms_idle ?m)\<rparr>"
    using assms(6) False by (auto simp: on_worker_idle_def Let_def pos split: if_splits)
  then have "ring_list (ms_idle m') = ring_list (ms_idle m) @ [int i]" using ring_list_push[of "ms_idle m" "int i"] room by simp
  then have "sched_of m' = (sched_of m)\<lparr>sc_idle := sc_idle (sched_of m) @ [fd_at m i]\<rparr>"
    using m'(2) by (simp add: sched_of_def idle_fds_def)
  moreover have "sc_waiting (sched_of m) = []" using False by (simp add: sched_of_def)
  ultimately show ?thesis using sched_step.join[of "sched_of m" "fd_at m i"] by simp
qed

lemma bytes_cases:
  assumes "on_backend_bytes os i r buf m = Inr m'"
  obtains "close_socket os i m = Inr m'"
  | s where "sk_type s = type_at m i" "sk_fd s = fd_at m i" "m' = set_socket i s m"
  | s where "sk_type s = type_at m i" "sk_fd s = fd_at m i" "sk_pos s = sk_pos (ms_sockets m ! i)"
      "length (sk_worker_id s) = length (sk_worker_id (ms_sockets m ! i))" "sk_read_offset s = 0"
      "on_worker_idle os i (set_socket i s m) = Inr m'"
proof (cases "hello_loop (nat (uint (sk_read_offset (ms_sockets m ! i)))) buf
    (min (8 - uint (sk_read_offset (ms_sockets m ! i))) r) 0")
  case None
  with assms show ?thesis by (intro that(1)) (simp add: on_backend_bytes_def Let_def)
next
  case (Some k)
  let ?s = "ms_sockets m ! i"
  let ?off = "uint (sk_read_offset ?s)"
  show ?thesis
  proof (cases "r - int k > 0")
    case False
    with assms Some have "m' = set_socket i (?s\<lparr>sk_read_offset := word_of_int (?off + r)\<rparr>) m"
      by (simp add: on_backend_bytes_def Let_def)
    then show ?thesis by (intro that(2)[of "?s\<lparr>sk_read_offset := word_of_int (?off + r)\<rparr>"]) simp_all
  next
    case True
    with assms Some obtain w where w: "copy_worker_id (nat (max 0 (?off - 8))) (drop k buf) (sk_worker_id ?s) = Inr w"
      by (auto simp: on_backend_bytes_def Let_def res_bind_eq_Inr)
    then have len: "length w = length (sk_worker_id ?s)" by (auto simp: copy_worker_id_def split: if_splits)
    show ?thesis
    proof (cases "?off + r = 12")
      case whole: True
      with assms Some True w have "on_worker_idle os i (set_socket i (?s\<lparr>sk_worker_id := w, sk_read_offset := 0\<rparr>) m) = Inr m'"
        by (simp add: on_backend_bytes_def Let_def)
      then show ?thesis by (intro that(3)[of "?s\<lparr>sk_worker_id := w, sk_read_offset := 0\<rparr>"]) (simp_all add: len)
    next
      case False
      with assms Some True w
      have "m' = set_socket i (?s\<lparr>sk_worker_id := w, sk_read_offset := word_of_int (?off + r)\<rparr>) m"
        by (simp add: on_backend_bytes_def Let_def)
      then show ?thesis
        by (intro that(2)[of "?s\<lparr>sk_worker_id := w, sk_read_offset := word_of_int (?off + r)\<rparr>"]) simp_all
    qed
  qed
qed

section \<open>The handlers\<close>

lemma sched_of_accept [simp]: "sched_of (add_log [AcceptFrontend sock] m) = sched_of m"
  by (simp add: sched_of_def idle_fds_def)

lemma spawn_enqueue_sched:
  assumes "spawn_worker os m = Inr m1" "m' = enqueue_job os sock m1" "ring_ok (ms_jobs m)" "rq_cap (ms_jobs m) = JOB_QLEN"
    and "ring_list (ms_idle m) = []" "sched_of m = s\<lparr>sc_idle := []\<rparr>"
  shows "sched_step s (sched_of m')"
proof -
  have m1: "ms_jobs m1 = ms_jobs m \<and> ms_idle m1 = ms_idle m \<and> ms_sockets m1 = ms_sockets m \<and>
      ms_total_sockets m1 = ms_total_sockets m \<and> (\<exists>l. ms_log m1 = l @ ms_log m \<and> (\<forall>c \<in> set l. unheard c))"
    using assms(1) by (auto simp: spawn_worker_def Let_def split: if_splits option.splits
        intro: exI[of _ "[]"] exI[of _ "[RegisterWorker _]"])
  then have log: "given_log (ms_log m1) = given_log (ms_log m)" "refused_log (ms_log m1) = refused_log (ms_log m)"
    by (auto simp: unheard_log)
  have m: "ring_list (ms_jobs m) = sc_waiting s" "given_log (ms_log m) = sc_given s" "refused_log (ms_log m) = sc_refused s"
    using arg_cong[OF assms(6), of sc_waiting] arg_cong[OF assms(6), of sc_given] arg_cong[OF assms(6), of sc_refused]
    by (simp_all add: sched_of_def)
  have wait: "length (sc_waiting s) = rq_size (ms_jobs m)" using m(1) by (metis length_ring_list)
  show "sched_step s (sched_of m')"
  proof (cases "rq_size (ms_jobs m) < JOB_QLEN")
    case True
    then have "sched_of m' = s\<lparr>sc_idle := [], sc_waiting := sc_waiting s @ [sock]\<rparr>"
      using m m1 log assms(3-5) ring_list_push[of "ms_jobs m" sock]
      by (simp add: sched_of_def idle_fds_def assms(2) enqueue_job_def Let_def)
    with True wait show ?thesis using sched_step.wait[of s sock] by simp
  next
    case False
    then have "rq_size (ms_jobs m) = JOB_QLEN" using assms(3,4) by (simp add: ring_ok_def)
    moreover have "sched_of m' = s\<lparr>sc_idle := [], sc_refused := sc_refused s @ [sock]\<rparr>"
      using False m m1 log assms(5) by (simp add: sched_of_def idle_fds_def assms(2) enqueue_job_def)
    ultimately show ?thesis using wait sched_step.refuse[of s sock] by simp
  qed
qed

lemma frontend_Inr:
  assumes "os_law os" "base_inv m" "on_frontend os i evs m = Inr m'"
  obtains "m' = m" | "m' = add_log [Usleep] m"
  | sock where "dispatched sock (add_log [AcceptFrontend sock] m) True m'"
  | sock m1 m2 where "dispatched sock (add_log [AcceptFrontend sock] m) False m1" "spawn_worker os m1 = Inr m2"
      "m' = enqueue_job os sock m2"
proof (cases "WL_SOCKET_ACCEPT \<in> evs")
  case True
  show ?thesis
  proof (cases "os_accept os (ms_log m) (fd_at m i)")
    case None
    with assms(3) True show ?thesis by (intro that(2)) (simp add: on_frontend_def)
  next
    case (Some sock)
    let ?m = "add_log [AcceptFrontend sock] m"
    obtain ok m1 where m1: "dispatch_to_idle os sock ?m = Inr (ok, m1)"
      "if ok then m' = m1 else (\<exists>m2. spawn_worker os m1 = Inr m2 \<and> m' = enqueue_job os sock m2)"
      using assms(3) True Some by (auto simp: on_frontend_def res_bind_eq_Inr split: if_splits)
    have "dispatched sock ?m ok m1" using dispatch_sched[OF assms(1) _ m1(1)] assms(2) by simp
    show ?thesis
    proof (cases ok)
      case True
      with \<open>dispatched sock ?m ok m1\<close> m1(2) show ?thesis by (intro that(3)) simp
    next
      case False
      with m1(2) obtain m2 where "spawn_worker os m1 = Inr m2" "m' = enqueue_job os sock m2" by auto
      with \<open>dispatched sock ?m ok m1\<close> False show ?thesis by (intro that(4)) simp_all
    qed
  qed
next
  case False
  with assms(3) show ?thesis by (intro that(1)) (simp add: on_frontend_def)
qed

lemma shrinks_accept [simp]: "shrinks (add_log [AcceptFrontend sock] m) m' = shrinks m m'"
  by (simp add: shrinks_def)

lemma frontend_shrinks:
  assumes "os_law os" "base_inv m" "on_frontend os i evs m = Inr m'"
  shows "shrinks m m'"
  using assms
proof (cases rule: frontend_Inr)
  case (4 sock m1 m2)
  then have "shrinks m m1" by (simp add: dispatched_def)
  moreover have "ms_sockets m' = ms_sockets m1" "ms_total_sockets m' = ms_total_sockets m1"
    using 4(2,3) by (auto simp: spawn_worker_def enqueue_job_def Let_def split: if_splits option.splits)
  ultimately show ?thesis by (simp add: shrinks_def)
qed (simp_all add: shrinks_def dispatched_def)

lemma frontend_sched:
  assumes "os_law os" "base_inv m" "idle_open m" "idle_open m'" "on_frontend os i evs m = Inr m'"
  shows "sched_step (sched_of m) (sched_of m')"
  using assms(1,2,5)
proof (cases rule: frontend_Inr)
  case 1
  then show ?thesis by (simp add: sched_step.skip)
next
  case 2
  then show ?thesis by (intro sched_skip[OF _ assms(2-4), where l = "[Usleep]"]) (simp_all add: same_workers_def)
next
  case (3 sock)
  then obtain gone b where b: "ring_list (ms_idle m) = gone @ b # ring_list (ms_idle m')"
    "given_log (ms_log m') = given_log (ms_log m) @ [(fd_at m (nat b), sock)]" by (auto simp: dispatched_def)
  have d: "shrinks m m'" "ms_jobs m' = ms_jobs m" "refused_log (ms_log m') = refused_log (ms_log m)"
    using 3 by (simp_all add: dispatched_def)
  have idle: "idle_fds m' = map (\<lambda>x. fd_at m (nat x)) (ring_list (ms_idle m'))"
    using b(1) by (intro idle_fds_same[OF shrinks_same[OF d(1)] assms(2-4), of "gone @ [b]"]) simp
  have "sc_idle (sched_of m) = map (\<lambda>x. fd_at m (nat x)) gone @ fd_at m (nat b) # idle_fds m'"
    by (simp add: sched_of_def idle_fds_def[of m] idle b(1))
  from sched_step.give[OF this, of sock] show ?thesis using d b(2) by (simp add: sched_of_def)
next
  case (4 sock m1 m2)
  then have d: "ring_list (ms_idle m1) = []" "ms_jobs m1 = ms_jobs m" "given_log (ms_log m1) = given_log (ms_log m)"
    "refused_log (ms_log m1) = refused_log (ms_log m)" by (simp_all add: dispatched_def)
  show ?thesis
  proof (rule spawn_enqueue_sched[OF 4(2,3) _ _ d(1)])
    show "ring_ok (ms_jobs m1)" "rq_cap (ms_jobs m1) = JOB_QLEN"
      using base_invD(4)[OF assms(2)] d(2) by (simp_all add: queue_inv_def)
    show "sched_of m1 = (sched_of m)\<lparr>sc_idle := []\<rparr>" using d by (simp add: sched_of_def idle_fds_def)
  qed
qed

lemma backend_sched:
  assumes "os_law os" "base_inv m" "i < ms_total_sockets m" "type_at m i = TYPE_BACKEND"
    and "idle_open m" "idle_open m'" "on_backend os i evs m = Inr m'"
  shows "sched_step (sched_of m) (sched_of m')"
proof -
  let ?s = "ms_sockets m ! i"
  have skip: "sched_step (sched_of m) (sched_of m')"
    if "shrinks m m'" "ms_idle m' = ms_idle m" "ms_jobs m' = ms_jobs m" "ms_log m' = l @ ms_log m" "\<forall>c \<in> set l. unheard c" for l
    using sched_skip[OF shrinks_same[OF that(1)] assms(2,5,6) that(2-5)] .
  note len = table_type_lt[OF assms(2)]
  have ok: "sock_ok ?s" using base_invD(3)[OF assms(2)] len assms(3) by (simp add: sock_inv_def)
  consider "WL_SOCKET_CLOSED \<in> evs" | "WL_SOCKET_CLOSED \<notin> evs" "WL_SOCKET_READABLE \<notin> evs"
    | "WL_SOCKET_CLOSED \<notin> evs" "WL_SOCKET_READABLE \<in> evs" "12 \<le> unat (sk_read_offset ?s)"
    | "WL_SOCKET_CLOSED \<notin> evs" "WL_SOCKET_READABLE \<in> evs" "unat (sk_read_offset ?s) < 12" by linarith
  then show ?thesis
  proof cases
    case 1
    then show ?thesis using close_sched[of os i "[]" m m'] assms(2,5-7) by (simp add: on_backend_def add_log_def)
  next
    case 2
    then show ?thesis using assms(7) by (simp add: on_backend_def Let_def sched_step.skip)
  next
    case 3
    then have "m' = modify_wait os (sk_pos ?s) {WL_SOCKET_CLOSED} m" using assms(7) by (simp add: on_backend_def Let_def)
    then show ?thesis by (intro skip[of "[]"]) (simp_all add: shrinks_eq)
  next
    case 4
    show ?thesis
    proof (cases "os_recv os (ms_log m) (sk_fd ?s) (12 - unat (sk_read_offset ?s))")
      case None
      let ?m = "add_log [RecvFailed (sk_fd ?s)] m"
      obtain m1 where m1: "close_socket os i ?m = Inr m1" "on_backend_bytes os i (-1) [] m1 = Inr m'"
        using assms(7) 4 None by (auto simp: on_backend_def Let_def res_bind_eq_Inr)
      note c = close_socket_Inr[OF m1(1)] close_socket_jobs[OF m1(1)]
      have i: "ms_sockets m1 ! i = zero_socket" using c(1) len assms(3) by simp
      have m': "m' = set_socket i (zero_socket\<lparr>sk_read_offset := -1\<rparr>) m1"
        using m1(2) unfolding on_backend_bytes_after_close[OF i] by blast
      have "shrinks m m1" using shrinks_close[OF m1(1)] len by (simp add: shrinks_def)
      then have "shrinks m m'" unfolding shrinks_def m' using len assms(3) c(1)
        by (auto simp: nth_list_update zero_socket_def split: if_splits)
      then show ?thesis by (rule skip[of "[StreamClose (sk_fd ?s), RecvFailed (sk_fd ?s)]"]) (simp_all add: m' c)
    next
      case (Some buf)
      let ?m = "add_log [Recv (sk_fd ?s) buf] m"
      have log: "sched_of ?m = sched_of m" by (simp add: sched_of_def idle_fds_def)
      have open': "idle_open ?m" "base_inv ?m" using assms(2,5) by (simp_all add: idle_open_def)
      have bytes: "on_backend_bytes os i (int (length buf)) buf ?m = Inr m'"
        using assms(7) 4 Some by (simp add: on_backend_def Let_def)
      then show ?thesis
      proof (cases rule: bytes_cases)
        case 1
        then show ?thesis by (rule close_sched) (use assms in simp_all)
      next
        case (2 s)
        then show ?thesis using set_socket_sched[OF 2(1,2)] log by (simp add: sched_step.skip)
      next
        case (3 s)
        have "base_inv (set_socket i s ?m)"
          using 3(1-5) ok by (intro set_socket_base_inv open'(2)) (simp_all add: sock_ok_def)
        moreover have "type_at (set_socket i s ?m) i = TYPE_BACKEND" using 3(1) assms(3,4) len by simp
        ultimately have "sched_step (sched_of (set_socket i s ?m)) (sched_of m')"
          using assms(3,6) 3(6) open'(1) set_socket_sched(2)[OF 3(1,2)] by (intro idle_sched[of _ i m' os]) simp_all
        then show ?thesis using set_socket_sched(1)[OF 3(1,2)] log by simp
      qed
    qed
  qed
qed

lemma connect_sched:
  assumes "os_law os" "base_inv m" "idle_open m" "idle_open m'" "on_backend_connect os i evs m = Inr m'"
  shows "sched_step (sched_of m) (sched_of m')"
  using assms(1,2,5)
proof (cases rule: connect_Inr)
  case 1
  then show ?thesis by (simp add: sched_step.skip)
next
  case 2
  then show ?thesis by (intro sched_skip[OF _ assms(2-4), where l = "[Usleep]"]) (simp_all add: same_workers_def)
next
  case (3 sock k pos es)
  then have "fd_at m' j = fd_at m j" if "type_at m j = TYPE_BACKEND" for j using that by (cases "j = k") auto
  then show ?thesis using 3
    by (intro sched_skip[OF _ assms(2-4), where l = "[AcceptBackend sock]"]) (simp_all add: same_workers_def)
qed

lemma latch_jobs: "on_latch os m = Inr m' \<Longrightarrow> ms_jobs m' = ms_jobs m"
  by (auto simp: on_latch_def on_worker_died_def split_beta Let_def split: if_splits)

lemma event_sched:
  assumes "os_law os" "master_inv m" "idle_open m" "idle_open m'" "i < ms_total_sockets m"
    and "process_events os [(i, evs)] m = Inr (False, m')"
  shows "sched_step (sched_of m) (sched_of m')"
proof -
  obtain m1 where m1: "(if WL_LATCH_SET \<in> evs then on_latch os m else Inr m) = Inr m1" "on_socket_event os i evs m1 = Inr m'"
    using assms(6) by (auto simp: res_bind_eq_Inr split: if_splits)
  have inv1: "step_post m m1"
    using m1(1) assms(2) on_latch_sat[OF assms(2), of os] by (auto split: if_splits)
  have same: "idle_open m1" "sched_of m1 = sched_of m"
    using m1(1) assms(3) latch_talk(2-4)[of os m m1] latch_jobs[of os m m1]
    by (auto simp: idle_open_def sched_of_def idle_fds_def split: if_splits)
  have b1: "base_inv m1" "i < ms_total_sockets m1" using inv1 assms(5) by (simp_all add: master_inv_def)
  obtain m2 m3 where step:
    "(if type_at m1 i = TYPE_IPC then on_backend_connect os i evs m1 else Inr m1) = Inr m2"
    "(if type_at m2 i = TYPE_FRONTEND then on_frontend os i evs m2 else Inr m2) = Inr m3"
    "(if type_at m3 i = TYPE_BACKEND then on_backend os i evs m3 else Inr m3) = Inr m'"
    using m1(2) by (auto simp: on_socket_event_def res_bind_eq_Inr)
  consider "type_at m1 i = TYPE_IPC" | "type_at m1 i = TYPE_FRONTEND" | "type_at m1 i = TYPE_BACKEND" | "type_at m1 i = TYPE_UNSET"
    by (cases "type_at m1 i") auto
  then have "sched_step (sched_of m1) (sched_of m')"
  proof cases
    case 1
    then have c: "on_backend_connect os i evs m1 = Inr m2" using step(1) by simp
    from assms(1) b1(1) c have "type_at m2 i = TYPE_IPC"
    proof (cases rule: connect_Inr)
      case (3 sock k pos es)
      then show ?thesis using 1 by (cases "i = k") simp_all
    qed (use 1 in simp_all)
    with step(2,3) have "m' = m2" by simp
    with connect_sched[OF assms(1) b1(1) same(1) _ c] assms(4) show ?thesis by simp
  next
    case 2
    with step(1,2) have f: "on_frontend os i evs m1 = Inr m3" by simp
    have "type_at m3 i \<noteq> TYPE_BACKEND"
      using shrinks_at[OF frontend_shrinks[OF assms(1) b1(1) f] b1(2)] 2 by auto
    with step(3) have "m' = m3" by simp
    with frontend_sched[OF assms(1) b1(1) same(1) _ f] assms(4) show ?thesis by simp
  next
    case 3
    with step have "on_backend os i evs m1 = Inr m'" by simp
    then show ?thesis by (rule backend_sched[OF assms(1) b1 3 same(1) assms(4)])
  next
    case 4
    with step have "m' = m1" by simp
    then show ?thesis by (simp add: sched_step.skip)
  qed
  then show ?thesis by (simp add: same(2))
qed

lemma step_sched:
  assumes "os_law os" "master_inv m" "idle_open m" "idle_open m'" "master_step os m m'"
  shows "sched_step (sched_of m) (sched_of m')"
  using assms(5)
proof (cases rule: master_step.cases)
  case (event i evs)
  then show ?thesis using event_sched[OF assms(1-4)] by blast
next
  case sigterm
  have "sched_of (master_on_sigterm m) = sched_of m" by (simp add: master_on_sigterm_def sched_of_def idle_fds_def)
  with sigterm show ?thesis by (simp add: sched_step.skip)
next
  case sigusr1
  have "sched_of (master_on_sigusr1 m) = sched_of m" by (simp add: master_on_sigusr1_def sched_of_def idle_fds_def)
  with sigusr1 show ?thesis by (simp add: sched_step.skip)
qed

section \<open>Runs\<close>

text \<open>The steps of the master after which no worker that has gone is among the idle ones.\<close>

definition calm_step :: "os \<Rightarrow> master \<Rightarrow> master \<Rightarrow> bool" where
  "calm_step os m m' \<longleftrightarrow> os_law os \<and> master_step os m m' \<and> idle_open m'"

interpretation dispatcher: simulation "calm_step os" "\<lambda>m. master_inv m \<and> idle_open m" sched_of sched_step for os :: os
  by unfold_locales (use step_inv step_sched in \<open>auto simp: calm_step_def\<close>)

definition calm_run :: "os \<Rightarrow> int list \<Rightarrow> int \<Rightarrow> nat \<Rightarrow> master \<Rightarrow> bool" where
  "calm_run os fds ipc k m \<longleftrightarrow> (\<exists>m0. master_startup os fds ipc k = Inr m0 \<and> (calm_step os)\<^sup>*\<^sup>* m0 m)"

definition sched_start :: sched where
  "sched_start = \<lparr>sc_waiting = [], sc_idle = [], sc_given = [], sc_refused = []\<rparr>"

lemma startup_sched:
  assumes "master_config os fds k" "master_startup os fds ipc k = Inr m"
  shows "sched_of m = sched_start" "idle_open m"
proof -
  obtain m0 where "master_startup os fds ipc k = Inr m0" "ms_jobs m0 = ring_new (replicate JOB_QLEN 0)" "rq_size (ms_idle m0) = 0"
    using startup_ok[of os k fds ipc] assms(1) unfolding master_config_def by metis
  then have "rq_size (ms_idle m) = 0" "rq_size (ms_jobs m) = 0" using assms(2) by (simp_all add: ring_new_def)
  then have empty: "ring_list (ms_idle m) = []" "ring_list (ms_jobs m) = []" by simp_all
  show "sched_of m = sched_start"
    using startup_talk(2)[OF assms] by (simp add: sched_of_def sched_start_def idle_fds_def empty)
  show "idle_open m" unfolding idle_open_def empty by simp
qed

lemma calm_run_inv:
  assumes "master_config os fds k" "calm_run os fds ipc k m"
  shows "master_inv m \<and> idle_open m" "sched_step\<^sup>*\<^sup>* sched_start (sched_of m)"
proof -
  obtain m0 where m0: "master_startup os fds ipc k = Inr m0" "(calm_step os)\<^sup>*\<^sup>* m0 m" using assms(2) by (auto simp: calm_run_def)
  then have inv: "master_inv m0 \<and> idle_open m0" using startup_talk(3)[OF assms(1)] startup_sched(2)[OF assms(1)] by blast
  then show "master_inv m \<and> idle_open m" by (rule dispatcher.run_keeps[OF m0(2)])
  show "sched_step\<^sup>*\<^sup>* sched_start (sched_of m)"
    using dispatcher.run_simulated[OF m0(2) inv] startup_sched(1)[OF assms(1) m0(1)] by simp
qed

text \<open>
  C5: the dispatcher is a scheduler. While no worker goes away among the idle ones, each event and signal
  of the master's loop, seen without sockets, positions and rings, is a step of the scheduler or leaves
  it as it is: connections are given to the worker that has been idle longest among those that can be
  reached, wait in order of arrival, are refused only when 1024 wait, and go to the next worker that
  becomes idle.
\<close>
lemma dispatcher_refines_scheduler:
  assumes "master_config os fds k" "calm_run os fds ipc k m" "master_step os m m'" "idle_open m'"
  shows "sched_step (sched_of m) (sched_of m') \<and> sched_step\<^sup>*\<^sup>* sched_start (sched_of m')"
proof -
  note inv = calm_run_inv[OF assms(1,2)]
  have "os_law os" using assms(1) by (simp add: master_config_def)
  then have "calm_step os m m'" using assms(3,4) by (simp add: calm_step_def)
  from dispatcher.step_simulated[OF inv(1) this] inv(2) show ?thesis by (auto intro: rtranclp.rtrancl_into_rtrancl)
qed

lemma dispatcher_refines_scheduler_witness:
  "sched_step (sched_of demo_m2) (sched_of demo_m3) \<and> sc_idle (sched_of demo_m2) = [100] \<and>
    sc_given (sched_of demo_m3) = [(100, 100)]"
proof -
  have "\<not> isl (master_startup (demo_os demo_greeting) [5] 4 3)" by code_simp
  then have "master_startup (demo_os demo_greeting) [5] 4 3 = Inr demo_m0" by (simp add: demo_m0_def)
  moreover have "master_step (demo_os demo_greeting) demo_m0 demo_m1" "master_step (demo_os demo_greeting) demo_m1 demo_m2"
    and last: "master_step (demo_os demo_greeting) demo_m2 demo_m3"
    by (rule master_step.event[OF _ demo_master_steps(1)] master_step.event[OF _ demo_master_steps(2)]
        master_step.event[OF _ demo_master_steps(3)]; simp add: demo_facts)+
  ultimately have steps: "master_startup (demo_os demo_greeting) [5] 4 3 = Inr demo_m0"
    "calm_step (demo_os demo_greeting) demo_m0 demo_m1" "calm_step (demo_os demo_greeting) demo_m1 demo_m2"
    using demo_facts(14,15) demo_os_law by (simp_all add: calm_step_def)
  then have "(calm_step (demo_os demo_greeting))\<^sup>*\<^sup>* demo_m0 demo_m2" by simp
  with steps(1) have "calm_run (demo_os demo_greeting) [5] 4 3 demo_m2" unfolding calm_run_def by blast
  moreover have "idle_open demo_m3" "sc_idle (sched_of demo_m2) = [100]" "sc_given (sched_of demo_m3) = [(100, 100)]"
    by code_simp+
  moreover have "master_config (demo_os demo_greeting) [5] 3" by (rule demo_config) simp
  ultimately show ?thesis using dispatcher_refines_scheduler[OF _ _ last] by blast
qed

end
