(* ===== verification/Boot.thy ===== *)
theory Boot
  imports MasterProps Process Natives Host Runner
begin

text \<open>
  How the parts come up: the extension (\<open>extension.c\<close>), the sockets and tables of the master
  (\<open>master.c\<close>, \<open>utils.c\<close>), a worker (\<open>worker.c\<close>), and the locales of the command-line program
  (\<open>main.c\<close>), composed of the definitions of the other theories.
\<close>

section \<open>The Unix socket\<close>

text \<open>\<open>sun_path\<close>, all of whose bytes are the name of a socket in the abstract namespace.\<close>

definition SUN_PATH_SIZE :: nat where "SUN_PATH_SIZE = 108"

definition rst_make_ipc_addr :: "byte list" where
  "rst_make_ipc_addr =
     (let path = overwrite 0 [0] (replicate SUN_PATH_SIZE 0)
      in overwrite 1 (take (SUN_PATH_SIZE - 1 - 1) (ascii_bytes ''rustica-ipc'') @ [0]) path)"

record unix_socket =
  us_socket :: "int option"
  us_bind :: "byte list \<Rightarrow> bool"
  us_listen :: "nat \<Rightarrow> bool"
  us_connect :: "byte list \<Rightarrow> bool"

definition listen_backend :: "unix_socket \<Rightarrow> nat \<Rightarrow> int res" where
  "listen_backend us max_worker_processes =
     (case us_socket us of
        None \<Rightarrow> Inl (PgError ''could not create Unix-domain socket'')
      | Some ipc_sock \<Rightarrow>
          if \<not> us_bind us rst_make_ipc_addr then Inl (PgError ''could not bind %s address %s: %m'')
          else if \<not> us_listen us (max_worker_processes * 2) then Inl (PgError ''could not listen on %s address %s: %m'')
          else Inr ipc_sock)"

section \<open>The master\<close>

definition master_boot ::
  "(string \<Rightarrow> string list option) \<Rightarrow> (string option \<Rightarrow> int list \<Rightarrow> bool \<times> int list) \<Rightarrow> string \<Rightarrow> unix_socket \<Rightarrow> os
   \<Rightarrow> nat \<Rightarrow> master res" where
  "master_boot split serve rst_listen_addresses us os max_worker_processes =
     res_bind (listen_frontend split serve rst_listen_addresses) (\<lambda>(num_listen_sockets, listen_sockets).
     res_bind (listen_backend us max_worker_processes) (\<lambda>ipc_sock.
       master_startup os (take num_listen_sockets listen_sockets) ipc_sock max_worker_processes))"

section \<open>A worker\<close>

text \<open>The plans are made if there is a database; the natives are those of the extension before.\<close>

definition worker_boot ::
  "unix_socket \<Rightarrow> bool \<Rightarrow> (bool \<times> bool) \<times> (bool \<times> bool) \<Rightarrow> bool \<Rightarrow> (natives \<Rightarrow> bool) \<Rightarrow> natives \<Rightarrow> i32
   \<Rightarrow> (engine, worker \<times> worker_plans \<times> natives) act" where
  "worker_boot us database plans_ok backdoor accepts reg worker_id =
     (if us_socket us = None then act_lift (Inl (PgError ''rustica-%d: could not create Unix socket: %m''))
      else if \<not> us_connect us rst_make_ipc_addr then
        act_lift (Inl (PgError ''rustica-%d: could not connect Unix socket: %m''))
      else
        act_bind (start_plans database plans_ok) (\<lambda>plans.
        act_bind (act_lift (worker_natives backdoor accepts reg)) (\<lambda>reg.
          act_return (worker_startup worker_id, plans, reg))))"

section \<open>The extension\<close>

record background_worker =
  bgw_name :: string
  bgw_type :: string
  bgw_library_name :: string
  bgw_function_name :: string
  bgw_restart_time :: nat

definition PG_init ::
  "bool \<Rightarrow> bool \<Rightarrow> (string \<Rightarrow> bool) \<Rightarrow> (natives \<Rightarrow> bool) \<Rightarrow> (guc list \<times> natives \<times> background_worker) res" where
  "PG_init backdoor full_init resolver accepts =
     (let gucs = rst_init_gucs in
      res_bind (rst_init_wamr backdoor full_init resolver accepts) (\<lambda>reg.
        Inr (gucs, reg, \<lparr>bgw_name = ''rustica master'', bgw_type = ''rustica master'',
          bgw_library_name = ''rustica-engine'', bgw_function_name = ''rustica_master'', bgw_restart_time = 10\<rparr>)))"

section \<open>The command-line program\<close>

text \<open>\<open>pg_perm_setlocale\<close> takes the locale or not; \<open>has_messages\<close> is \<open>LC_MESSAGES\<close>.\<close>

definition init_locale :: "(string \<Rightarrow> string \<Rightarrow> bool) \<Rightarrow> string \<Rightarrow> string \<Rightarrow> unit res" where
  "init_locale setlocale categoryname locale =
     (if \<not> setlocale categoryname locale \<and> \<not> setlocale categoryname ''C'' then
        Inl (PgError ''could not adopt %s locale nor C locale for %s'')
      else Inr ())"

fun init_locales :: "(string \<Rightarrow> string \<Rightarrow> bool) \<Rightarrow> (string \<times> string) list \<Rightarrow> unit res" where
  "init_locales setlocale [] = Inr ()"
| "init_locales setlocale ((category, locale) # ls) =
     res_bind (init_locale setlocale category locale) (\<lambda>_. init_locales setlocale ls)"

text \<open>The result is the exit status, if the program ends here.\<close>

definition main_setup :: "(string \<Rightarrow> string \<Rightarrow> bool) \<Rightarrow> bool \<Rightarrow> bool \<Rightarrow> int option res" where
  "main_setup setlocale has_messages icu_ok =
     res_bind (init_locales setlocale
       ([(''LC_COLLATE'', ''''), (''LC_CTYPE'', '''')] @ (if has_messages then [(''LC_MESSAGES'', '''')] else []) @
        [(''LC_MONETARY'', ''C''), (''LC_NUMERIC'', ''C''), (''LC_TIME'', ''C'')])) (\<lambda>_.
       Inr (if icu_ok then None else Some (-1)))"

definition main_status ::
  "int option res \<Rightarrow> string option \<Rightarrow> main_option list \<Rightarrow> string list \<Rightarrow> (string list \<Rightarrow> moontest_option list \<times> string list)
   \<Rightarrow> (string \<Rightarrow> bool \<Rightarrow> string option \<Rightarrow> unit res) \<Rightarrow> int res" where
  "main_status setup engine_mode os rest moontest_getopt run =
     res_bind setup (\<lambda>status.
       case status of Some rv \<Rightarrow> Inr rv | None \<Rightarrow> main_program engine_mode os rest moontest_getopt run)"

section \<open>Lemmas\<close>

definition boot_errors :: "failure set" where
  "boot_errors = {PgError ''invalid list syntax in parameter listen_addresses'',
     PgError ''could not create any TCP/IP sockets'', PgError ''no socket created for listening'',
     PgError ''could not create Unix-domain socket'', PgError ''could not bind %s address %s: %m'',
     PgError ''could not listen on %s address %s: %m''}"

lemma length_ipc_addr: "length rst_make_ipc_addr = SUN_PATH_SIZE"
  by (simp add: rst_make_ipc_addr_def overwrite_def ascii_bytes_def SUN_PATH_SIZE_def)

text \<open>The sockets \<open>listen_frontend\<close> counts are sockets.\<close>

lemma listen_frontend_sockets:
  assumes "listen_frontend split serve addrs = Inr (n, socks)"
  shows "0 < n" "PGINVALID_SOCKET \<notin> set (take n socks)"
proof -
  obtain as where as: "split addrs = Some as"
    using assms by (cases "split addrs") (simp_all add: listen_frontend_def)
  obtain k socks' where la: "listen_addresses serve as 0 (replicate MAXLISTEN PGINVALID_SOCKET) = (k, socks')" by fastforce
  have "n = length (takeWhile (\<lambda>s. s \<noteq> PGINVALID_SOCKET) (take MAXLISTEN socks)) \<and> n \<noteq> 0"
    using assms unfolding listen_frontend_def as Let_def option.case la prod.case
    by (simp only: sum.inject prod.inject split: if_splits) auto
  then have n: "n = length (takeWhile (\<lambda>s. s \<noteq> PGINVALID_SOCKET) (take MAXLISTEN socks))" and "n \<noteq> 0" by blast+
  then show "0 < n" by simp
  have "n \<le> length (take MAXLISTEN socks)" unfolding n by (rule length_takeWhile_le)
  then have "take n socks = take n (take MAXLISTEN socks)" by (simp add: min_absorb1)
  also have "\<dots> = takeWhile (\<lambda>s. s \<noteq> PGINVALID_SOCKET) (take MAXLISTEN socks)"
    unfolding n by (rule takeWhile_eq_take[symmetric])
  finally show "PGINVALID_SOCKET \<notin> set (take n socks)" by (auto dest: set_takeWhileD)
qed

text \<open>
  The start of the master. It ends with the invariant of the event loop, or in one of six named errors
  before any table is filled: the assertions of \<open>startup\<close> hold, and no position is missing.
\<close>
lemma boot_outcomes:
  assumes "os_law os" "1 \<le> max_worker_processes"
  shows "res_sat boot_errors
    (\<lambda>m. master_inv m \<and> ms_log m = []) (master_boot split serve rst_listen_addresses us os max_worker_processes)"
proof -
  have start: "res_sat boot_errors (\<lambda>m. master_inv m \<and> ms_log m = [])
      (master_startup os (take n socks) ipc max_worker_processes)"
    if listen: "listen_frontend split serve rst_listen_addresses = Inr (n, socks)" for n socks ipc
  proof -
    obtain m where "master_startup os (take n socks) ipc max_worker_processes = Inr m" "master_inv m" "ms_log m = []"
      by (rule startup_ok[OF assms listen_frontend_sockets(2)[OF listen]])
    then show ?thesis by simp
  qed
  have front: "res_sat boot_errors (\<lambda>_. True) (listen_frontend split serve rst_listen_addresses)"
    by (simp add: listen_frontend_def boot_errors_def Let_def split: option.split prod.split)
  have ipc: "res_sat boot_errors (\<lambda>_. True) (listen_backend us max_worker_processes)"
    by (simp add: listen_backend_def boot_errors_def split: option.split)
  show ?thesis
    unfolding master_boot_def
  proof (rule res_sat_bind[OF front])
    fix r assume "listen_frontend split serve rst_listen_addresses = Inr r"
    then show "res_sat boot_errors (\<lambda>m. master_inv m \<and> ms_log m = [])
      (case r of (n, socks) \<Rightarrow> res_bind (listen_backend us max_worker_processes)
        (\<lambda>ipc_sock. master_startup os (take n socks) ipc_sock max_worker_processes))"
      using start by (cases r) (auto intro: res_sat_bind[OF ipc])
  qed
qed

end
