(* ===== verification/Life.thy ===== *)
theory Life
  imports WorkerProps Boot
begin

text \<open>
  A worker as a whole (\<open>worker.c\<close>): the loop over events of \<open>Worker\<close>, run on the modules of
  \<open>Process\<close>, with the notifications that come between the batches, from the start of \<open>Boot\<close> to
  the teardown.
\<close>

section \<open>Jobs on the modules of the process\<close>

definition main_name :: "byte list" where "main_name = ascii_bytes ''main''"

text \<open>What the outside answers during one event; the database may change from one to the next.\<close>

record life_env =
  le_worker :: worker_env
  le_db :: module_db
  le_spi :: spi

definition load_main :: "wamr \<Rightarrow> life_env \<Rightarrow> (process, prepared_module) act" where
  "load_main w E = load_module (le_db E) (le_spi E) w main_name"

text \<open>The job's questions about the module are answered by the process.\<close>

definition module_answers :: "wamr \<Rightarrow> life_env \<Rightarrow> process \<Rightarrow> job_env \<Rightarrow> job_env" where
  "module_answers w E p je =
     je\<lparr>je_loaded := rst_lookup_module w (pr_engine p) main_name \<noteq> None,
       je_raises := (\<lambda>acts a. if a = PrepareModule then isl (fst (load_main w E p)) else je_raises je acts a)\<rparr>"

definition life_worker_env :: "wamr \<Rightarrow> life_env \<Rightarrow> process \<Rightarrow> worker_env" where
  "life_worker_env w E p = (le_worker E)\<lparr>we_job := (\<lambda>log. module_answers w E p (we_job (le_worker E) log))\<rparr>"

text \<open>The job of an event, if there was one: an event has at most one, which is then the latest call.\<close>

definition new_acts :: "worker \<Rightarrow> worker \<Rightarrow> job_act list option" where
  "new_acts wk wk' =
     (case wk_log wk' of
        Job client acts # log \<Rightarrow> if length (wk_log wk) \<le> length log then Some acts else None
      | _ \<Rightarrow> None)"

text \<open>A job that raises ends the process, so a load that fails has no state after it.\<close>

definition life_event ::
  "wamr \<Rightarrow> life_env \<Rightarrow> wl set \<Rightarrow> worker \<times> process \<Rightarrow> (wexit option \<times> worker \<times> process) res" where
  "life_event w E events = (\<lambda>(wk, p).
     res_bind (worker_event (life_worker_env w E p) events wk) (\<lambda>(ex, wk').
       Inr (ex, wk', case new_acts wk wk' of
           Some acts \<Rightarrow> if PrepareModule \<in> set acts then snd (load_main w E p) else p
         | None \<Rightarrow> p)))"

fun life_events ::
  "wamr \<Rightarrow> life_env \<Rightarrow> wl set list \<Rightarrow> worker \<times> process \<Rightarrow> (wexit option \<times> worker \<times> process) res" where
  "life_events w E [] s = Inr (None, s)"
| "life_events w E (ev # evs) s =
     res_bind (life_event w E ev s) (\<lambda>(ex, s).
       case ex of Some _ \<Rightarrow> Inr (ex, s) | None \<Rightarrow> life_events w E evs s)"

section \<open>The loop and the process\<close>

text \<open>One turn of the loop: what \<open>WaitEventSetWait\<close> gives, and the messages if a notification is pending.\<close>

record turn =
  tu_env :: life_env
  tu_sigterm :: bool \<comment> \<open>\<open>SIGTERM\<close> has arrived since the last turn\<close>
  tu_events :: "wl set list"
  tu_pending :: "(char \<times> byte list) list option"

fun life_loop ::
  "wamr \<Rightarrow> msg_reader \<Rightarrow> turn list \<Rightarrow> worker \<times> process \<Rightarrow> (wexit option \<times> worker \<times> process) res" where
  "life_loop w pq [] s = Inr (None, s)"
| "life_loop w pq (t # ts) s =
     (let s = (if tu_sigterm t then apfst worker_on_sigterm s else s) in
      if tu_events t = [] \<and> wk_state (fst s) = WAIT_READ then Inr (Some IdleTimeout, s)
      else res_bind (life_events w (tu_env t) (tu_events t) s) (\<lambda>(ex, wk, p).
        case ex of Some _ \<Rightarrow> Inr (ex, wk, p)
        | None \<Rightarrow>
            (case tu_pending t of
               None \<Rightarrow> life_loop w pq ts (wk, p)
             | Some msgs \<Rightarrow>
                 (case on_notification_received pq w msgs p of
                    (Inl e, _) \<Rightarrow> Inl e
                  | (Inr _, p) \<Rightarrow> life_loop w pq ts (wk, p)))))"

text \<open>\<open>None\<close>: the loop still waits.\<close>

definition rustica_worker ::
  "unix_socket \<Rightarrow> bool \<Rightarrow> (bool \<times> bool) \<times> (bool \<times> bool) \<Rightarrow> bool \<Rightarrow> (natives \<Rightarrow> bool) \<Rightarrow> natives \<Rightarrow> wamr
   \<Rightarrow> msg_reader \<Rightarrow> i32 \<Rightarrow> turn list \<Rightarrow> engine \<Rightarrow> (wexit \<times> worker \<times> process) option res" where
  "rustica_worker us database plans_ok backdoor accepts reg w pq worker_id ts en =
     (case worker_boot us database plans_ok backdoor accepts reg worker_id en of
        (Inl e, _) \<Rightarrow> Inl e
      | (Inr (wk, plans, _), en) \<Rightarrow>
          res_bind (life_loop w pq ts (wk, process_start en)) (\<lambda>(ex, wk, p).
            case ex of
              None \<Rightarrow> Inr None
            | Some ex \<Rightarrow>
                (case rst_module_worker_teardown plans (pr_engine p) of
                   (Inl e, _) \<Rightarrow> Inl e
                 | (Inr _, en) \<Rightarrow> Inr (Some (ex, wk, p\<lparr>pr_engine := en\<rparr>)))))"

section \<open>Lemmas\<close>

lemma run_job_complete:
  assumes "run_job env = Inr (j, None)"
  shows "Instantiate \<in> set (jb_acts j)" "PrepareModule \<in> set (jb_acts j) \<longleftrightarrow> \<not> je_loaded env"
    "je_loaded env \<or> (\<exists>acts. \<not> je_raises env acts PrepareModule)"
  using assms
  by (auto simp: run_job_def job_finally_def job_body_def job_run_def attempt_def new_job_def do_acts_def Let_def
      split: if_splits prod.splits)

lemma on_readable_job:
  assumes "on_readable env r wk = Inr wk'"
  shows "\<exists>client j. run_job env = Inr (j, None) \<and> wk_log wk' = Job client (rev (jb_acts j)) # wk_log wk"
  using assms by (auto simp: on_readable_def res_bind_eq_Inr split: option.splits prod.splits)

text \<open>The job of an event ran to its end without an error.\<close>

lemma event_job:
  assumes "worker_event env ev wk = Inr (ex, wk')" "new_acts wk wk' = Some acts"
  obtains log j where "run_job (we_job env log) = Inr (j, None)" "acts = rev (jb_acts j)"
proof -
  have new: "\<exists>log j. run_job (we_job env log) = Inr (j, None) \<and> acts = rev (jb_acts j)"
    if r: "on_readable (we_job env log) msg v = Inr wk'" for log msg v
  proof -
    obtain client j where "run_job (we_job env log) = Inr (j, None)" "wk_log wk' = Job client (rev (jb_acts j)) # wk_log v"
      using on_readable_job[OF r] by blast
    with assms(2) show ?thesis by (auto simp: new_acts_def split: if_splits)
  qed
  have same: "new_acts wk wk = None"
    by (auto simp: new_acts_def split: list.splits wcall.splits)
  have sent: "new_acts wk (on_writeable n wk) = None" for n
    by (auto simp: new_acts_def on_writeable_def Let_def split: option.splits)
  show thesis
    using assms new same sent that
    by (auto simp: worker_event_def Let_def res_bind_eq_Inr split: if_splits) blast+
qed

text \<open>An event has a job, for which the module was found or loaded, or leaves the modules as they are.\<close>

lemma life_event_cases:
  assumes "life_event w E ev (wk, p) = Inr (ex, wk', p')"
  obtains "new_acts wk wk' = None" "p' = p"
  | acts where "new_acts wk wk' = Some acts" "Instantiate \<in> set acts" "PrepareModule \<notin> set acts"
      "rst_lookup_module w (pr_engine p) main_name \<noteq> None" "p' = p"
  | acts pm where "new_acts wk wk' = Some acts" "Instantiate \<in> set acts" "PrepareModule \<in> set acts"
      "rst_lookup_module w (pr_engine p) main_name = None" "load_main w E p = (Inr pm, p')"
proof (cases "new_acts wk wk'")
  case None
  with assms show ?thesis by (intro that(1)) (auto simp: life_event_def res_bind_eq_Inr)
next
  case (Some acts)
  let ?env = "life_worker_env w E p"
  have ev: "worker_event ?env ev wk = Inr (ex, wk')"
    and p': "p' = (if PrepareModule \<in> set acts then snd (load_main w E p) else p)"
    using assms Some by (auto simp: life_event_def res_bind_eq_Inr)
  obtain log j where j: "run_job (we_job ?env log) = Inr (j, None)" "acts = rev (jb_acts j)"
    by (rule event_job[OF ev Some])
  note c = run_job_complete[OF j(1)]
  show ?thesis
  proof (cases "rst_lookup_module w (pr_engine p) main_name = None")
    case False
    with c(1,2) j(2) p' Some show ?thesis by (intro that(2)[of acts]) (simp_all add: life_worker_env_def module_answers_def)
  next
    case True
    with c(3) have "\<not> isl (fst (load_main w E p))" by (auto simp: life_worker_env_def module_answers_def)
    then obtain pm where "fst (load_main w E p) = Inr pm" by (cases "fst (load_main w E p)") auto
    moreover have "PrepareModule \<in> set acts" using c(2) j(2) True by (simp add: life_worker_env_def module_answers_def)
    ultimately show ?thesis
      using True c(1) j(2) p' Some by (intro that(3)[of acts pm]) (simp_all add: prod_eq_iff)
  qed
qed

lemma life_event_step:
  assumes "life_event w E ev (wk, p) = Inr (ex, wk', p')"
  shows "process_step w p p' \<or> p' = p"
  using assms
proof (cases rule: life_event_cases)
  case (3 acts pm)
  obtain en where "rst_prepare_module (le_db E) (le_spi E) w main_name False (pr_engine p) = (Inr pm, en)"
    and p': "p' = p\<lparr>pr_engine := en, pr_held := pm # pr_held p\<rparr>"
    by (rule load_module_Inr[OF 3(5)[unfolded load_main_def]])
  then have "module_step w (pr_engine p, pr_held p) (en, pm # pr_held p)" by (intro module_step.Load[OF 3(4)])
  then show ?thesis unfolding p' by (intro disjI1 process_step.ModuleStep)
qed simp_all

lemma life_event_process:
  "process_reachable w plans p \<Longrightarrow> life_event w E ev (wk, p) = Inr (ex, wk', p') \<Longrightarrow> process_reachable w plans p'"
  using life_event_step by (blast intro: process_reachable.Step)

lemma life_events_process:
  "process_reachable w plans p \<Longrightarrow> life_events w E evs (wk, p) = Inr (ex, wk', p') \<Longrightarrow> process_reachable w plans p'"
proof (induction evs arbitrary: wk p)
  case (Cons ev evs)
  then obtain ex1 wk1 p1 where e: "life_event w E ev (wk, p) = Inr (ex1, wk1, p1)"
    "if ex1 = None then life_events w E evs (wk1, p1) = Inr (ex, wk', p') else p1 = p'"
    by (auto simp: res_bind_eq_Inr split: option.splits)
  note r = life_event_process[OF Cons.prems(1) e(1)]
  with e(2) Cons.IH[OF r] show ?case by (auto split: if_splits)
qed simp

lemma worker_boot_plans:
  "worker_boot us database plans_ok backdoor accepts reg worker_id en = (Inr (wk, plans, reg'), en') \<Longrightarrow>
    start_plans database plans_ok en = (Inr plans, en') \<and> wk = worker_startup worker_id"
  by (auto simp: worker_boot_def act_bind_def act_lift_def act_return_def split: if_splits sum.splits prod.splits)

text \<open>Why the loop ends.\<close>

fun exit_reason :: "bool \<Rightarrow> turn list \<Rightarrow> wexit \<Rightarrow> bool" where
  "exit_reason stop ts ShutdownRequested \<longleftrightarrow> (stop \<or> (\<exists>t \<in> set ts. tu_sigterm t)) \<and>
     (\<exists>t \<in> set ts. \<exists>ev \<in> set (tu_events t). WL_LATCH_SET \<in> ev)"
| "exit_reason stop ts SocketClosed \<longleftrightarrow> (\<exists>t \<in> set ts. \<exists>ev \<in> set (tu_events t). WL_SOCKET_CLOSED \<in> ev)"
| "exit_reason stop ts IdleTimeout \<longleftrightarrow> (\<exists>t \<in> set ts. tu_events t = [])"

lemma exit_reason_Cons: "exit_reason (stop \<or> tu_sigterm t) ts ex \<Longrightarrow> exit_reason stop (t # ts) ex"
  by (cases ex) auto

lemma on_readable_shutdown: "on_readable env r wk = Inr wk' \<Longrightarrow> wk_shutdown wk' = wk_shutdown wk"
  by (erule on_readable_Inr) simp

lemma life_event_exit:
  assumes "life_event w E ev (wk, p) = Inr (ex, wk', p')"
  shows "wk_shutdown wk' = wk_shutdown wk"
    "ex = Some ShutdownRequested \<and> wk_shutdown wk \<and> WL_LATCH_SET \<in> ev \<or> ex = Some SocketClosed \<and> WL_SOCKET_CLOSED \<in> ev \<or> ex = None"
proof -
  have w: "worker_event (life_worker_env w E p) ev wk = Inr (ex, wk')"
    using assms by (auto simp: life_event_def res_bind_eq_Inr)
  have "wk_shutdown (on_writeable n wk) = wk_shutdown wk" for n
    by (simp add: on_writeable_def Let_def split: option.splits)
  with w on_readable_shutdown show "wk_shutdown wk' = wk_shutdown wk"
    by (fastforce simp: worker_event_def Let_def res_bind_eq_Inr split: if_splits)
  show "ex = Some ShutdownRequested \<and> wk_shutdown wk \<and> WL_LATCH_SET \<in> ev \<or> ex = Some SocketClosed \<and> WL_SOCKET_CLOSED \<in> ev \<or> ex = None"
    using w by (auto simp: worker_event_def Let_def res_bind_eq_Inr split: if_splits)
qed

lemma life_events_exit:
  "life_events w E evs (wk, p) = Inr (ex, wk', p') \<Longrightarrow> wk_shutdown wk' = wk_shutdown wk \<and>
    (ex = Some ShutdownRequested \<and> wk_shutdown wk \<and> (\<exists>ev \<in> set evs. WL_LATCH_SET \<in> ev) \<or>
     ex = Some SocketClosed \<and> (\<exists>ev \<in> set evs. WL_SOCKET_CLOSED \<in> ev) \<or> ex = None)"
proof (induction evs arbitrary: wk p)
  case (Cons ev evs)
  then obtain ex1 wk1 p1 where e: "life_event w E ev (wk, p) = Inr (ex1, wk1, p1)"
    "if ex1 = None then life_events w E evs (wk1, p1) = Inr (ex, wk', p') else ex1 = ex \<and> wk1 = wk'"
    by (auto simp: res_bind_eq_Inr split: option.splits)
  with life_event_exit[OF e(1)] Cons.IH[of wk1 p1] show ?case by (auto split: if_splits)
qed simp

lemma life_loop_Cons:
  assumes "life_loop w pq (t # ts) (wk, p) = Inr (ex, wk', p')"
  defines "wk0 \<equiv> if tu_sigterm t then worker_on_sigterm wk else wk"
  obtains "tu_events t = []" "ex = Some IdleTimeout" "wk' = wk0" "p' = p"
  | "life_events w (tu_env t) (tu_events t) (wk0, p) = Inr (ex, wk', p')" "ex \<noteq> None"
  | wk1 p1 p2 where "life_events w (tu_env t) (tu_events t) (wk0, p) = Inr (None, wk1, p1)"
      "p2 = p1 \<or> (\<exists>msgs. on_notification_received pq w msgs p1 = (Inr (), p2))"
      "life_loop w pq ts (wk1, p2) = Inr (ex, wk', p')"
proof (cases "tu_events t = [] \<and> wk_state wk0 = WAIT_READ")
  case True
  with assms show ?thesis by (intro that(1)) (auto simp: Let_def split: if_splits)
next
  case False
  then obtain ex1 wk1 p1 where e: "life_events w (tu_env t) (tu_events t) (wk0, p) = Inr (ex1, wk1, p1)"
    and rest: "case ex1 of Some _ \<Rightarrow> ex1 = ex \<and> wk1 = wk' \<and> p1 = p'
      | None \<Rightarrow> (case tu_pending t of None \<Rightarrow> life_loop w pq ts (wk1, p1) = Inr (ex, wk', p')
        | Some msgs \<Rightarrow> \<exists>p2. on_notification_received pq w msgs p1 = (Inr (), p2) \<and>
            life_loop w pq ts (wk1, p2) = Inr (ex, wk', p'))"
    using assms(1) unfolding wk0_def
    by (auto simp: Let_def res_bind_eq_Inr split: if_splits option.splits prod.splits sum.splits)
  show ?thesis
  proof (cases ex1)
    case None
    with rest obtain p2 where "p2 = p1 \<or> (\<exists>msgs. on_notification_received pq w msgs p1 = (Inr (), p2))"
      "life_loop w pq ts (wk1, p2) = Inr (ex, wk', p')" by (auto split: option.splits)
    with e None show ?thesis by (intro that(3)) simp_all
  next
    case (Some x)
    with rest have "ex = Some x" "wk1 = wk'" "p1 = p'" by auto
    with Some e show ?thesis by (intro that(2)) simp_all
  qed
qed

lemma life_loop_process:
  "process_reachable w plans p \<Longrightarrow> life_loop w pq ts (wk, p) = Inr (ex, wk', p') \<Longrightarrow> process_reachable w plans p'"
proof (induction ts arbitrary: wk p)
  case (Cons t ts)
  from Cons.prems(2) show ?case
  proof (cases rule: life_loop_Cons)
    case 1
    with Cons.prems(1) show ?thesis by simp
  next
    case 2
    then show ?thesis using life_events_process[OF Cons.prems(1)] by blast
  next
    case (3 wk1 p1 p2)
    have r: "process_reachable w plans p1" by (rule life_events_process[OF Cons.prems(1) 3(1)])
    then have "process_reachable w plans p2"
      using 3(2) by (auto intro: process_reachable.Step[OF r] process_step.Notified)
    then show ?thesis by (rule Cons.IH[OF _ 3(3)])
  qed
qed simp

text \<open>Jobs and notifications lose no module.\<close>

lemma life_event_lost:
  assumes "life_event w E ev (wk, p) = Inr (ex, wk', p')"
  shows "pr_lost p' = pr_lost p"
  using assms
proof (cases rule: life_event_cases)
  case (3 acts pm)
  show ?thesis by (rule load_module_Inr[OF 3(5)[unfolded load_main_def]]) simp
qed simp_all

lemma life_events_lost: "life_events w E evs (wk, p) = Inr (ex, wk', p') \<Longrightarrow> pr_lost p' = pr_lost p"
proof (induction evs arbitrary: wk p)
  case (Cons ev evs)
  then obtain ex1 wk1 p1 where e: "life_event w E ev (wk, p) = Inr (ex1, wk1, p1)"
    "if ex1 = None then life_events w E evs (wk1, p1) = Inr (ex, wk', p') else p1 = p'"
    by (auto simp: res_bind_eq_Inr split: option.splits)
  with Cons.IH[of wk1 p1] life_event_lost[OF e(1)] show ?case by (auto split: if_splits)
qed simp

lemma life_loop_lost: "life_loop w pq ts (wk, p) = Inr (ex, wk', p') \<Longrightarrow> pr_lost p' = pr_lost p"
proof (induction ts arbitrary: wk p)
  case (Cons t ts)
  from Cons.prems show ?case
  proof (cases rule: life_loop_Cons)
    case (3 wk1 p1 p2)
    then have "pr_lost p2 = pr_lost p1" using notified_lost by auto
    with Cons.IH[OF 3(3)] life_events_lost[OF 3(1)] show ?thesis by simp
  qed (auto dest: life_events_lost)
qed simp

lemma life_loop_exit:
  "life_loop w pq ts (wk, p) = Inr (Some ex, wk', p') \<Longrightarrow> exit_reason (wk_shutdown wk) ts ex"
proof (induction ts arbitrary: wk p)
  case (Cons t ts)
  let ?wk = "if tu_sigterm t then worker_on_sigterm wk else wk"
  have stop: "wk_shutdown ?wk \<longleftrightarrow> wk_shutdown wk \<or> tu_sigterm t" by (simp add: worker_on_sigterm_def)
  from Cons.prems show ?case
  proof (cases rule: life_loop_Cons)
    case 1
    then show ?thesis by simp
  next
    case 2
    with life_events_exit[OF 2(1)] stop show ?thesis by auto
  next
    case (3 wk1 p1 p2)
    have "wk_shutdown wk1 \<longleftrightarrow> wk_shutdown wk \<or> tu_sigterm t" using life_events_exit[OF 3(1)] stop by simp
    with Cons.IH[OF 3(3)] show ?thesis by (intro exit_reason_Cons) simp
  qed
qed simp

section \<open>The life seen as that of a process\<close>

text \<open>What happens to a worker between two events or turns.\<close>

inductive life_step :: "wamr \<Rightarrow> worker \<times> process \<Rightarrow> worker \<times> process \<Rightarrow> bool" for w where
  event: "life_event w E ev s = Inr (None, s') \<Longrightarrow> life_step w s s'"
| notified: "on_notification_received pq w msgs p = (Inr (), p') \<Longrightarrow> life_step w (wk, p) (wk, p')"
| sigterm: "life_step w (wk, p) (worker_on_sigterm wk, p)"

definition life_start :: "worker_plans \<Rightarrow> worker \<times> process \<Rightarrow> bool" where
  "life_start plans s \<longleftrightarrow> (\<exists>database oks n en worker_id.
     start_plans database oks \<lparr>en_next = n, en_live = {}, en_registry = []\<rparr> = (Inr plans, en) \<and>
     s = (worker_startup worker_id, process_start en))"

definition life_reachable :: "wamr \<Rightarrow> worker_plans \<Rightarrow> worker \<times> process \<Rightarrow> bool" where
  "life_reachable w plans s \<longleftrightarrow> (\<exists>s0. life_start plans s0 \<and> (life_step w)\<^sup>*\<^sup>* s0 s)"

lemma process_reachable_step:
  "process_reachable w plans p \<Longrightarrow> process_step w p p' \<or> p' = p \<Longrightarrow> process_reachable w plans p'"
  by (auto intro: process_reachable.Step)

lemma process_reachable_run:
  "(\<lambda>p p'. process_step w p p' \<or> p' = p)\<^sup>*\<^sup>* p p' \<Longrightarrow> process_reachable w plans p \<Longrightarrow> process_reachable w plans p'"
  by (induction rule: rtranclp_induct) (auto intro: process_reachable_step)

interpretation worker_life: simulation "life_step w" "\<lambda>_. True" snd "\<lambda>p p'. process_step w p p' \<or> p' = p" for w :: wamr
proof (unfold_locales, goal_cases)
  case (2 s s')
  from 2(2) show ?case
  proof (cases rule: life_step.cases)
    case (event E ev)
    then have "life_event w E ev (fst s, snd s) = Inr (None, fst s', snd s')" by simp
    then show ?thesis by (rule life_event_step)
  next
    case (notified pq msgs p p' wk)
    then show ?thesis by (simp add: process_step.Notified)
  qed simp
qed simp

lemma life_reachable_process:
  assumes "life_reachable w plans s"
  shows "process_reachable w plans (snd s)"
proof -
  obtain s0 where s0: "life_start plans s0" "(life_step w)\<^sup>*\<^sup>* s0 s" using assms by (auto simp: life_reachable_def)
  then have "process_reachable w plans (snd s0)" by (auto simp: life_start_def intro: process_reachable.Start)
  then show ?thesis using worker_life.run_simulated[OF s0(2)] process_reachable_run by blast
qed

section \<open>A small life\<close>

text \<open>A worker greets, runs a job, greets; then the module it loaded changes, and a second job comes.\<close>

definition demo_life_env :: life_env where
  "demo_life_env = \<lparr>le_worker = demo_worker_env 12, le_db = demo_db, le_spi = demo_spi\<rparr>"

definition demo_event :: "wl set \<Rightarrow> worker \<times> process \<Rightarrow> worker \<times> process" where
  "demo_event ev s = snd (projr (life_event demo_wamr demo_life_env ev s))"

definition demo_life :: "nat \<Rightarrow> worker \<times> process" where
  "demo_life n = fold demo_event (take n [{WL_SOCKET_WRITEABLE}, {WL_SOCKET_READABLE}, {WL_SOCKET_WRITEABLE}])
     (worker_startup 7, process_start no_engine)"

definition demo_change :: notification where
  "demo_change = \<lparr>nt_pid = 7, nt_channel = cache_invalidation, nt_payload = main_name\<rparr>"

definition demo_changed :: process where
  "demo_changed = snd (on_notification_received demo_reader demo_wamr (map message_of [demo_change]) (snd (demo_life 3)))"

definition demo_unix_socket :: unix_socket where
  "demo_unix_socket = \<lparr>us_socket = Some 3, us_bind = (\<lambda>_. True), us_listen = (\<lambda>_. True), us_connect = (\<lambda>_. True)\<rparr>"

definition demo_last_turn :: turn where
  "demo_last_turn = \<lparr>tu_env = demo_life_env, tu_sigterm = True, tu_events = [{WL_LATCH_SET}], tu_pending = None\<rparr>"

lemma demo_event_eq:
  assumes "\<not> isl (life_event demo_wamr demo_life_env ev s)" "fst (projr (life_event demo_wamr demo_life_env ev s)) = None"
  shows "life_event demo_wamr demo_life_env ev s = Inr (None, demo_event ev s)"
  using assms by (cases "life_event demo_wamr demo_life_env ev s") (auto simp: demo_event_def)

lemma demo_life_events:
  "life_event demo_wamr demo_life_env {WL_SOCKET_WRITEABLE} (demo_life 0) = Inr (None, demo_life 1)"
  "life_event demo_wamr demo_life_env {WL_SOCKET_READABLE} (demo_life 1) = Inr (None, demo_life 2)"
  "life_event demo_wamr demo_life_env {WL_SOCKET_WRITEABLE} (demo_life 2) = Inr (None, demo_life 3)"
  "life_event demo_wamr demo_life_env {WL_SOCKET_READABLE} (fst (demo_life 3), demo_changed) =
    Inr (None, demo_event {WL_SOCKET_READABLE} (fst (demo_life 3), demo_changed))"
proof -
  have n: "demo_life 1 = demo_event {WL_SOCKET_WRITEABLE} (demo_life 0)" "demo_life 2 = demo_event {WL_SOCKET_READABLE} (demo_life 1)"
    "demo_life 3 = demo_event {WL_SOCKET_WRITEABLE} (demo_life 2)"
    by (simp_all add: demo_life_def eval_nat_numeral)
  show "life_event demo_wamr demo_life_env {WL_SOCKET_WRITEABLE} (demo_life 0) = Inr (None, demo_life 1)"
    unfolding n(1) by (rule demo_event_eq; code_simp)
  show "life_event demo_wamr demo_life_env {WL_SOCKET_READABLE} (demo_life 1) = Inr (None, demo_life 2)"
    unfolding n(2) by (rule demo_event_eq; code_simp)
  show "life_event demo_wamr demo_life_env {WL_SOCKET_WRITEABLE} (demo_life 2) = Inr (None, demo_life 3)"
    unfolding n(3) by (rule demo_event_eq; code_simp)
qed (rule demo_event_eq; code_simp)

lemma demo_life_reachable: "life_reachable demo_wamr (None, None) (demo_life 3)"
proof -
  have "start_plans False ((True, True), (True, True)) \<lparr>en_next = 0, en_live = {}, en_registry = []\<rparr> = (Inr (None, None), no_engine)"
    by (simp add: start_plans_def act_return_def no_engine_def)
  then have "life_start (None, None) (demo_life 0)" unfolding life_start_def demo_life_def by fastforce
  moreover have "(life_step demo_wamr)\<^sup>*\<^sup>* (demo_life 0) (demo_life 3)"
    using demo_life_events(1-3) by (meson life_step.event rtranclp.rtrancl_refl rtranclp.rtrancl_into_rtrancl)
  ultimately show ?thesis unfolding life_reachable_def by blast
qed

lemma demo_change_ok:
  "\<forall>nt \<in> set [demo_change]. notification_ok nt" "main_name \<in> named [demo_change]"
  "on_notification_received demo_reader demo_wamr (map message_of [demo_change]) (snd (demo_life 3)) = (Inr (), demo_changed)"
proof -
  show "\<forall>nt \<in> set [demo_change]. notification_ok nt" by code_simp
  show "main_name \<in> named [demo_change]" by (auto simp: named_def demo_change_def)
  have "fst (on_notification_received demo_reader demo_wamr (map message_of [demo_change]) (snd (demo_life 3))) = Inr ()"
    by code_simp
  then show "on_notification_received demo_reader demo_wamr (map message_of [demo_change]) (snd (demo_life 3)) = (Inr (), demo_changed)"
    by (simp add: demo_changed_def prod_eq_iff)
qed

section \<open>Properties\<close>

text \<open>
  C11: a job runs the current module. Whatever a worker did before, a job that ran to its end was run on
  the module of the name main the process holds afterwards, live, under the address the lookup gives. If
  the process had none, the job loaded it from the database as it was then; if it had one, nothing was
  loaded and no module changed. After a notification of the change of main, it is always the former.
\<close>
lemma jobs_run_current_module:
  assumes "life_reachable w plans (wk, p0)" "find_law w" "reader_law pq" "\<forall>nt \<in> set nts. notification_ok nt"
    and "on_notification_received pq w (map message_of nts) p0 = (Inr (), p)"
    and "life_event w E ev (wk, p) = Inr (ex, wk', p')" "new_acts wk wk' = Some acts"
  shows "Instantiate \<in> set acts \<and>
    (\<exists>pm \<in> set (pr_held p'). rst_lookup_module w (pr_engine p') main_name = Some (pm_block pm) \<and>
       pm_name pm = main_name \<and> owned_module pm \<subseteq> en_live (pr_engine p') \<and>
       (if PrepareModule \<in> set acts
        then rst_prepare_module (le_db E) (le_spi E) w main_name False (pr_engine p) = (Inr pm, pr_engine p')
        else p' = p \<and> pm \<in> set (pr_held p0))) \<and>
    (main_name \<in> named nts \<longrightarrow> PrepareModule \<in> set acts)"
proof -
  have r0: "process_reachable w plans p0" using life_reachable_process[OF assms(1)] by simp
  have kept: "set (pr_held p) \<subseteq> set (pr_held p0)" "main_name \<in> named nts \<Longrightarrow> rst_lookup_module w (pr_engine p) main_name = None"
    using notified_unloads[OF r0 assms(2-4)] assms(5) by auto
  have r: "process_reachable w plans p" by (rule process_reachable.Step[OF r0 process_step.Notified[OF assms(5)]])
  let ?ok = "\<lambda>p. find_law w \<and> process_inv (owned_start plans) p"
  have ok: "?ok p" "?ok p'" using process_reachable_inv r life_event_process[OF r assms(6)] assms(2) by blast+
  have live: "owned_module pm \<subseteq> en_live (pr_engine p')" if "pm \<in> set (pr_held p')" for pm
    using ok(2) owned_allI[OF that] by (auto simp: process_inv_def held_inv_def)
  from assms(6) show ?thesis
  proof (cases rule: life_event_cases)
    case 1
    with assms(7) show ?thesis by simp
  next
    case (2 as)
    then obtain b where "rst_lookup_module w (pr_engine p') main_name = Some b" by auto
    then obtain pm where "pm \<in> set (pr_held p')" "pm_name pm = main_name" "rst_lookup_module w (pr_engine p') main_name = Some (pm_block pm)"
      using lookup_iff ok(2) by blast
    with 2 assms(7) kept live show ?thesis by auto
  next
    case (3 as pm)
    note load = 3(5)[unfolded load_main_def]
    have "pm_name pm = main_name" using load_module_inv[OF _ _ 3(4) load] ok(1) by blast
    moreover have "pm \<in> set (pr_held p')" by (rule load_module_Inr[OF load]) simp
    moreover have "rst_prepare_module (le_db E) (le_spi E) w main_name False (pr_engine p) = (Inr pm, pr_engine p')"
      by (rule load_module_Inr[OF load]) simp
    moreover have "rst_lookup_module w (pr_engine p') main_name = Some (pm_block pm)"
      using modules.load_found[OF ok(1) 3(4) load] by simp
    ultimately show ?thesis using 3 assms(7) live by auto
  qed
qed

lemma jobs_run_current_module_witness:
  "\<exists>acts pm en. new_acts (fst (demo_life 3)) (fst (demo_event {WL_SOCKET_READABLE} (fst (demo_life 3), demo_changed))) = Some acts \<and>
    PrepareModule \<in> set acts \<and> rst_prepare_module demo_db demo_spi demo_wamr main_name False (pr_engine demo_changed) = (Inr pm, en)"
proof -
  let ?s = "demo_event {WL_SOCKET_READABLE} (fst (demo_life 3), demo_changed)"
  have "new_acts (fst (demo_life 3)) (fst ?s) \<noteq> None" by code_simp
  then obtain acts where acts: "new_acts (fst (demo_life 3)) (fst ?s) = Some acts" by blast
  have "life_event demo_wamr demo_life_env {WL_SOCKET_READABLE} (fst (demo_life 3), demo_changed) = Inr (None, fst ?s, snd ?s)"
    using demo_life_events(4) by simp
  from jobs_run_current_module[OF _ demo_find_law demo_reader_law demo_change_ok(1,3) this acts, of "(None, None)"]
    demo_life_reachable demo_change_ok(2)
  have "PrepareModule \<in> set acts" "\<exists>pm. rst_prepare_module demo_db demo_spi demo_wamr main_name False (pr_engine demo_changed) = (Inr pm, pr_engine (snd ?s))"
    by (auto simp: demo_life_env_def)
  with acts show ?thesis by blast
qed

text \<open>
  C13: a worker ends for a reason and gives back what it prepared. Whatever happens in its turns, it
  leaves its loop only after SIGTERM, when the master has closed the connection, or when it waited in
  vain; its teardown then never fails, the statements of its start are freed, and what is left are the
  modules it holds, whole.
\<close>
lemma worker_ends_clean:
  assumes "find_law w" "en = \<lparr>en_next = n, en_live = {}, en_registry = []\<rparr>"
    and "worker_boot us database plans_ok backdoor accepts reg worker_id en = (Inr (wk, plans, reg'), en1)"
    and "life_loop w pq ts (wk, process_start en1) = Inr (Some ex, wk', p)"
  shows "\<exists>en'. rustica_worker us database plans_ok backdoor accepts reg w pq worker_id ts en =
      Inr (Some (ex, wk', p\<lparr>pr_engine := en'\<rparr>)) \<and> en_live en' = owned_all (pr_held p) \<and> exit_reason False ts ex"
proof -
  have boot: "start_plans database plans_ok en = (Inr plans, en1)" "wk = worker_startup worker_id"
    using worker_boot_plans[OF assms(3)] by simp_all
  have "process_reachable w plans (process_start en1)" by (rule process_reachable.Start[OF boot(1)[unfolded assms(2)]])
  then have r: "process_reachable w plans p" by (rule life_loop_process[OF _ assms(4)])
  have "owned_all (pr_lost p) = {}" using life_loop_lost[OF assms(4)] by (simp add: process_start_def)
  then obtain en' where "rst_module_worker_teardown plans (pr_engine p) = (Inr (), en')" "en_live en' = owned_all (pr_held p)"
    using teardown_ok[OF process_reachable_inv[OF r assms(1)] process_plans_distinct[OF r]] by auto
  moreover have "exit_reason False ts ex" using life_loop_exit[OF assms(4)] boot(2) by (simp add: worker_startup_def)
  ultimately show ?thesis using assms(3,4) by (intro exI[of _ en']) (simp add: rustica_worker_def)
qed

lemma worker_ends_clean_witness:
  "\<exists>wk p en'. rustica_worker demo_unix_socket True ((True, True), (True, True)) False (\<lambda>_. True) [] demo_wamr demo_reader 7
      [demo_last_turn] no_engine = Inr (Some (ShutdownRequested, wk, p\<lparr>pr_engine := en'\<rparr>)) \<and> en_live en' = owned_all (pr_held p)"
proof -
  let ?boot = "worker_boot demo_unix_socket True ((True, True), (True, True)) False (\<lambda>_. True) [] 7 no_engine"
  have "\<not> isl (fst ?boot)" by code_simp
  then obtain wk plans reg en where boot: "?boot = (Inr (wk, plans, reg), en)" by (cases ?boot; cases "fst ?boot") auto
  then have "wk = worker_startup 7" using worker_boot_plans by blast
  then have "life_loop demo_wamr demo_reader [demo_last_turn] (wk, process_start en) =
      Inr (Some ShutdownRequested, worker_on_sigterm wk, process_start en)"
    by (simp add: demo_last_turn_def life_event_def worker_event_def worker_on_sigterm_def new_acts_def worker_startup_def)
  from worker_ends_clean[OF demo_find_law no_engine_def boot this] show ?thesis by blast
qed

end
