(* ===== verification/Spec2Isabelle.thy ===== *)
theory Spec2Isabelle
  imports MasterProps WorkerProps Http CompilerProps QueryProps ModuleProps CursorProps
    BuilderProps JsonbProps JsonTreeProps AdtProps MasterLive System Process Natives HostProps WamrLog
    MoontestProps Runner Scheduler Life
begin

text \<open>
  A verification library for the Rustica engine, a Postgres extension that serves HTTP
  connections by WebAssembly programs running inside the database (the C code of
  \<open>src/rustica/\<close>; names below are functions of its files).

  The program. A \<^emph>\<open>master\<close> process (\<open>master.c\<close>) listens for HTTP connections and for the
  Unix-domain connections of \<^emph>\<open>workers\<close>. It keeps its sockets in a table indexed by the
  positions of an event set that can delete entries (\<open>event_set.c\<close>), a queue of connections that
  wait and a queue of workers that are idle; it hands a connection to a worker by passing the
  descriptor. A worker (\<open>worker.c\<close>) greets the master with twelve bytes, receives a descriptor
  and runs the application on it in one transaction: it looks up or loads the module
  (\<open>module.c\<close>), instantiates it, connects the HTTP parser's callbacks to the functions the
  application exports, and calls \<open>_start\<close>. The application sees Postgres' values as host
  objects (\<open>datatypes.c\<close>) and runs the queries it declared (\<open>query.c\<close>). What an application
  declares is checked when it is compiled (\<open>compiler.c\<close>, \<open>wamr.c\<close>), which chooses a converter for
  every argument and column and stores a row for each query; loading makes a prepared plan of
  each row.

  The theories, from the bottom.

  \<^item> \<open>Prelude\<close>: outcomes of C functions, machine types, shared lemmas. A function returns a value
    (\<open>Inr\<close>), raises with \<open>ereport\<close> (\<open>PgError\<close> with the fixed part of the message), fails an
    \<open>Assert\<close> (\<open>Trap\<close>) or does what C leaves undefined (\<open>Undefined\<close>). The build files do not
    switch assertions on, so behind a \<open>Trap\<close> a release build goes on with what the assertion
    excludes.
  \<^item> \<open>Ring\<close>: the circular arrays with \<open>qhead\<close>, \<open>qtail\<close>, \<open>qsize\<close> of \<open>master.c\<close> and the free
    positions of \<open>event_set.c\<close>, with the contract \<open>fifo\<close> they keep.
  \<^item> \<open>EventSet\<close>: \<open>event_set.c\<close>, with the contract \<open>slot_pool\<close>: positions are handed out and
    taken back, never two at once.
  \<^item> \<open>Master\<close>: \<open>master.c\<close>, one definition for each handler and each of its loops, over a record of
    the file's static variables and a log of the calls that leave the process.
    \<open>MasterInv\<close> states the invariant, \<open>MasterStep\<close> and \<open>MasterLoop\<close> prove that every handler
    keeps it, \<open>MasterLoop\<close> has the step relation \<open>master_step\<close> and its reachable states,
    \<open>MasterProps\<close> the properties: order of service, back-pressure, greeting, start. \<open>MasterLive\<close>:
    along any run, a connection that waits is served after a bounded number of greetings.
  \<^item> \<open>Worker\<close>: the life of a worker and of one job in \<open>worker.c\<close>; \<open>WorkerProps\<close>: greetings
    and jobs alternate, a job releases what it acquired and commits only on success, and the
    handshake with the master, any greeting in any pieces. What a job acquired it releases if it got as far
    as the snapshot; before that it leaves the transaction to the end of the process.
  \<^item> \<open>Talk\<close>: what the master has read on a worker's connection against what it has sent there and
    how often the worker is among the idle ones. \<open>System\<close>: the master and any number of workers,
    interleaved step by step over channels that lose, repeat and invent nothing: no connection is
    served twice, and both sides agree on who is idle, unless a worker goes away idle.
    \<open>Scheduler\<close>: what the master does, without sockets, positions and rings, as a step relation over two
    queues, and that the dispatcher refines it.
  \<^item> \<open>Http\<close>: the callbacks of the HTTP parser, \<open>env_recv\<close> and \<open>env_send\<close>. \<open>Host\<close>: the parser's own
    functions, messages to the log, the backdoor for SQL (\<open>worker.c\<close>, \<open>wamr.c\<close>), the compilation of
    binary code (\<open>compiler.c\<close>), the settings (\<open>gucs.c\<close>); \<open>HostProps\<close>: the application is given
    exactly the bytes it asked to be parsed, what the backdoor answers, with and without assertions. \<open>WamrLog\<close>: the messages of WAMR in the
    server's log (\<open>bh_log_to_pg.c\<close>).
  \<^item> \<open>ObjSys\<close>: host objects, their finalizer and the list of local references
    (\<open>datatypes.h\<close>, \<open>datatypes.c\<close>).
  \<^item> \<open>WasmTypes\<close>: inspection of a module's types (\<open>wamr.c\<close>). \<open>Convert\<close>: the converters and their
    two tables (\<open>query.c\<close>). \<open>Compiler\<close>: \<open>compiler.c\<close>; \<open>CompilerProps\<close>: the chosen converters
    fit, the rows are consistent, values survive the way to Postgres and back.
  \<^item> \<open>Act\<close>: state with errors, \<open>PG_CATCH\<close> and \<open>PG_FINALLY\<close>, weakest preconditions, and the
    resources a process holds. \<open>Contracts\<close>: systems that keep an invariant, simulation, and a cache whose
    entries are loaded when missed, as locales; the dispatcher, the life of a worker and its modules are
    instances. \<open>Query\<close>: plans and their execution (\<open>query.c\<close>); \<open>QueryProps\<close>: a
    compiled query is executed with, and yields, values of the declared types, or NULLs; a NULL that
    is read as an array is undefined.
  \<^item> \<open>Module\<close>: \<open>module.c\<close>; \<open>ModuleProps\<close>: loading and freeing are balanced in every failure,
    registered names lead to live modules, compiled queries load.
  \<^item> \<open>Process\<close>: the modules of one worker: its prepared statements, the notifications that make it
    unload a module, and the callbacks through which WAMR loads the modules a module imports
    (\<open>worker.c\<close>, \<open>module.c\<close>); lookups give live modules, a notification unloads what it names;
    what was made for an import that WAMR then refuses is lost.
  \<^item> \<open>Natives\<close>: the tables of host functions and the three ways they are registered: what links when
    a module is compiled links in a worker, and which signatures differ from the C functions.
  \<^item> \<open>Cursor\<close>: cursors, tuple tables and rows as objects the application holds; \<open>CursorProps\<close>:
    portals are closed exactly once, rows are the ones fetched and are lowered by their own plan.
  \<^item> \<open>TextOps\<close>: the texts of the application (\<open>adt/text.c\<close>); \<open>TextProps\<close>: what a UTF-8 server
    promises, and the code units of UTF-16 computed from it. \<open>Builder\<close>: string builders and
    readers (\<open>adt/stringbuilder.c\<close>); \<open>BuilderProps\<close>: a builder refines a sequence of bytes, what
    is written is read back, reading ends.
  \<^item> \<open>Json\<close>: JSON values and the callbacks of Postgres' parser. \<open>Moontest\<close>: the test driver
    (\<open>moontest.c\<close>), a state machine over these callbacks; \<open>MoontestProps\<close>: it runs the tests of a
    specification, up to a test that raises an error, and no text crashes it. \<open>Jsonb\<close>: JSON for the application (\<open>adt/jsonb.c\<close>);
    \<open>JsonbProps\<close>: parsing a text and iterating over the stored value are the same.
  \<^item> \<open>JsonTree\<close>: JSON values built of host objects that share memory (\<open>adt/jsonb.c\<close>), their
    finalizers, and what \<open>JsonbValueToJsonb\<close> reads of them; \<open>JsonTreeProps\<close>: no value is read after
    it was freed, whenever the collector runs, and a value built member by member is that value.
  \<^item> \<open>Adt\<close>: texts, bytes, numbers, dates, intervals, UUIDs and clocks (\<open>adt/\<close>); \<open>AdtProps\<close>:
    encoding and decoding against a specification; which calls are undefined.
  \<^item> \<open>Runner\<close>: the command-line program (\<open>main.c\<close>): arguments, exit status, and running a file
    with everything given back.
  \<^item> \<open>Boot\<close>: how the extension, the master, a worker and the command-line program come up
    (\<open>extension.c\<close>, \<open>utils.c\<close> and the start functions); the master's start ends with the invariant
    of its loop or in one of six named errors.
  \<^item> \<open>Life\<close>: a worker as a whole (\<open>rustica_worker\<close>): its loop, the jobs on the modules of the process, the
    notifications between the turns, the teardown. A job runs the module the process holds under the name
    main, which is loaded again after every change that was announced.
\<close>

text \<open>
  Outside code. Postgres, WAMR, llhttp and the kernel are parameters: a function of the log
  of earlier calls (\<open>os\<close>, \<open>worker_env\<close>, \<open>job_env\<close>), a record of answers (\<open>parser\<close>, \<open>spi\<close>,
  \<open>module_db\<close>, \<open>wamr\<close>, \<open>msg_reader\<close>, \<open>pg_wchar_lib\<close>, \<open>moon_env\<close>, \<open>json_env\<close>, \<open>run_env\<close>,
  \<open>llhttp_lib\<close>, \<open>backdoor_env\<close>, \<open>aot_wamr\<close>, \<open>log_lib\<close>, \<open>unix_socket\<close>) or an argument of the
  one definition that uses it. What the proofs need of them is stated in \<open>add_event_law\<close>,
  \<open>modify_event_law\<close>, \<open>os_law\<close>, \<open>we_law\<close>, \<open>recv_law\<close>, \<open>find_law\<close>, \<open>utf8_law\<close>, \<open>clip_law\<close>,
  \<open>wchar_law\<close>, \<open>builder_law\<close>, \<open>reader_law\<close>, \<open>log_law\<close> and \<open>conversions_defined\<close>, each with
  a concrete instance in a witness; for UTF-8 the instance is an encoder and a decoder. What WAMR does
  between the callbacks of a load is \<open>wamr_registers\<close>.

  Bounds and loops. All functions terminate; the endless loops of the two processes are
  functions of the sequence of event batches they are given, of any length, and of step
  relations. The walk over local references may not end on a cyclic list: it is a partial
  function, and the property says that it ends; so is the loop that formats a message. Integers are kept at their width where the code
  depends on it (\<open>read_offset\<close> is 8 bits, lengths and indexes of the application are 32 bits).

  Not modelled: the headers that only declare. The modules a module imports are loaded as steps of
  their own before it, not nested in its load. The garbage collector of WAMR appears only as finalizers
  that run at some time; memory Postgres frees with its contexts is not tracked, nor is the current
  context, but for the answer of the backdoor. A job of \<open>Worker\<close> records that it instantiates, not which
  module; \<open>Life\<close> composes it with the modules of the process. Adding an entry to the event set and
  changing one are taken not to raise (\<open>epoll_ctl\<close> fails there for want of memory only). Local variables changed inside \<open>PG_TRY\<close> and read by its handler are taken to keep
  their values, which C promises only for \<open>volatile\<close> ones.
\<close>

end
